(* ===== verification/Prelude.thy ===== *)
theory Prelude
  imports Main
begin

text \<open>
  The shared layer of the development: names for the scalar types of the server, the lemma
  collections the component theories feed, JavaScript truthiness of optional strings, the
  relational-table operations every database statement is written with, and the model of an
  awaited statement (\<open>db_call\<close>).

  A table is the list of its rows.  \<open>update_rows P f\<close> is \<^verbatim>\<open>UPDATE .. SET f WHERE P\<close>,
  \<open>count_rows P\<close> the number of rows that statement reports, \<open>delete_rows P\<close> is
  \<^verbatim>\<open>DELETE .. WHERE P\<close> and \<open>find_row P\<close> is \<^verbatim>\<open>findFirst\<close>/\<^verbatim>\<open>findUnique\<close>.

  A handler of the server runs several database statements with an \<^verbatim>\<open>await\<close> between them.
  At each of them every other request may run first and the statement itself may be
  rejected.  Both are the choice of a \<open>sched\<close>: \<open>interfere w k\<close> is what the others did to
  the database before the \<open>k\<close>-th statement (any function), \<open>rejects w k\<close> says that the
  statement was rejected.  The theorems hold for every \<open>sched\<close> unless they say otherwise; a
  statement that committed although its promise was rejected is covered, since the
  interference before the next statement is arbitrary.
\<close>

section \<open>Scalar types and lemma collections\<close>

type_synonym ident = string
type_synonym ts = int

named_theorems table_simps \<open>lookups and counts after a table update\<close>
named_theorems sql_where \<open>what a WHERE clause in three-valued logic selects\<close>

section \<open>JavaScript truthiness of optional strings\<close>

text \<open>\<open>None\<close> is both \<^verbatim>\<open>undefined\<close> and \<^verbatim>\<open>null\<close>; the empty string is falsy.\<close>

definition truthy :: "string option \<Rightarrow> bool" where
  "truthy x = (case x of None \<Rightarrow> False | Some s \<Rightarrow> s \<noteq> [])"

lemma truthy_simps [simp]:
  "\<not> truthy None"
  "truthy (Some s) \<longleftrightarrow> s \<noteq> []"
  by (simp_all add: truthy_def)

section \<open>Tables as lists of rows\<close>

definition find_row :: "('r \<Rightarrow> bool) \<Rightarrow> 'r list \<Rightarrow> 'r option" where
  "find_row P rs = List.find P rs"

definition update_rows :: "('r \<Rightarrow> bool) \<Rightarrow> ('r \<Rightarrow> 'r) \<Rightarrow> 'r list \<Rightarrow> 'r list" where
  "update_rows P f rs = map (\<lambda>r. if P r then f r else r) rs"

definition count_rows :: "('r \<Rightarrow> bool) \<Rightarrow> 'r list \<Rightarrow> nat" where
  "count_rows P rs = length (filter P rs)"

definition delete_rows :: "('r \<Rightarrow> bool) \<Rightarrow> 'r list \<Rightarrow> 'r list" where
  "delete_rows P rs = filter (\<lambda>r. \<not> P r) rs"

definition unique_by :: "('r \<Rightarrow> 'k) \<Rightarrow> 'r list \<Rightarrow> bool" where
  "unique_by key rs = distinct (map key rs)"

lemma find_row_Nil [simp]: "find_row P [] = None"
  by (simp add: find_row_def)

lemma find_row_Cons [simp]: "find_row P (r # rs) = (if P r then Some r else find_row P rs)"
  by (simp add: find_row_def)

lemma find_row_append [simp]:
  "find_row P (xs @ ys) = (case find_row P xs of None \<Rightarrow> find_row P ys | Some r \<Rightarrow> Some r)"
  by (induction xs) auto

lemma find_row_SomeD: "find_row P rs = Some r \<Longrightarrow> P r \<and> r \<in> set rs"
  by (induction rs) (auto split: if_splits)

lemma find_row_None_iff: "find_row P rs = None \<longleftrightarrow> (\<forall>r \<in> set rs. \<not> P r)"
  by (induction rs) auto

lemma find_row_Some_ex: "r \<in> set rs \<Longrightarrow> P r \<Longrightarrow> \<exists>r'. find_row P rs = Some r'"
  by (induction rs) auto

lemma find_row_cong:
  "(\<And>r. r \<in> set rs \<Longrightarrow> P r = Q r) \<Longrightarrow> find_row P rs = find_row Q rs"
  by (induction rs) auto

lemma update_rows_simps [simp]:
  "update_rows P f [] = []"
  "update_rows P f (r # rs) = (if P r then f r else r) # update_rows P f rs"
  by (simp_all add: update_rows_def)

lemma set_update_rows:
  "set (update_rows P f rs) = (\<lambda>r. if P r then f r else r) ` set rs"
  by (simp add: update_rows_def)

lemma update_rows_noop: "(\<And>r. r \<in> set rs \<Longrightarrow> \<not> P r) \<Longrightarrow> update_rows P f rs = rs"
  by (induction rs) auto

lemma update_rows_cong: "(\<And>r. r \<in> set rs \<Longrightarrow> P r = Q r) \<Longrightarrow> update_rows P f rs = update_rows Q f rs"
  by (induction rs) auto

lemma update_rows_twice:
  "(\<And>r. \<not> Q (f r)) \<Longrightarrow> update_rows Q f (update_rows P f rs) = update_rows (\<lambda>r. P r \<or> Q r) f rs"
  by (induction rs) auto

lemma length_update_rows [simp]: "length (update_rows P f rs) = length rs"
  by (simp add: update_rows_def)

lemma count_rows_simps [simp]:
  "count_rows P [] = 0"
  "count_rows P (r # rs) = (if P r then Suc (count_rows P rs) else count_rows P rs)"
  by (simp_all add: count_rows_def)

lemma count_rows_pos: "0 < count_rows P rs \<longleftrightarrow> (\<exists>r \<in> set rs. P r)"
  by (induction rs) auto

lemma count_rows_zero: "count_rows P rs = 0 \<longleftrightarrow> (\<forall>r \<in> set rs. \<not> P r)"
  by (induction rs) auto

lemma delete_rows_simps [simp]:
  "delete_rows P [] = []"
  "delete_rows P (r # rs) = (if P r then delete_rows P rs else r # delete_rows P rs)"
  by (simp_all add: delete_rows_def)

lemma set_delete_rows [simp]: "set (delete_rows P rs) = {r \<in> set rs. \<not> P r}"
  by (auto simp: delete_rows_def)

subsection \<open>Lookups after an update\<close>

text \<open>
  A statement that keeps the columns a lookup compares changes the row the lookup finds, and
  nothing else: the selected row is the updated old one.
\<close>

lemma find_row_update [table_simps]:
  assumes "\<And>r. P r \<Longrightarrow> Q (f r) = Q r"
  shows "find_row Q (update_rows P f rs) = map_option (\<lambda>r. if P r then f r else r) (find_row Q rs)"
  using assms by (induction rs) auto

lemma find_row_update_disjoint:
  assumes "\<And>r. P r \<Longrightarrow> \<not> Q r \<and> \<not> Q (f r)"
  shows "find_row Q (update_rows P f rs) = find_row Q rs"
  using assms by (induction rs) auto

lemma find_row_delete_disjoint:
  assumes "\<And>r. Q r \<Longrightarrow> \<not> P r"
  shows "find_row Q (delete_rows P rs) = find_row Q rs"
  using assms by (induction rs) auto

lemma find_row_delete_all:
  assumes "\<And>r. Q r \<Longrightarrow> P r"
  shows "find_row Q (delete_rows P rs) = None"
  using assms by (auto simp: find_row_None_iff)

subsection \<open>Unique keys\<close>

lemma unique_by_Nil [simp]: "unique_by key []"
  by (simp add: unique_by_def)

lemma unique_by_Cons [simp]:
  "unique_by key (r # rs) \<longleftrightarrow> key r \<notin> key ` set rs \<and> unique_by key rs"
  by (simp add: unique_by_def)

lemma unique_by_append [simp]:
  "unique_by key (xs @ ys) \<longleftrightarrow>
     unique_by key xs \<and> unique_by key ys \<and> key ` set xs \<inter> key ` set ys = {}"
  by (simp add: unique_by_def)

lemma unique_by_update [intro]:
  assumes "unique_by key rs" and "\<And>r. P r \<Longrightarrow> key (f r) = key r"
  shows "unique_by key (update_rows P f rs)"
proof -
  have "map key (update_rows P f rs) = map key rs"
    using assms(2) by (simp add: update_rows_def)
  with assms(1) show ?thesis by (simp add: unique_by_def)
qed

lemma unique_by_delete [intro]: "unique_by key rs \<Longrightarrow> unique_by key (delete_rows P rs)"
  by (induction rs) auto

lemma unique_by_eq:
  "unique_by key rs \<Longrightarrow> r \<in> set rs \<Longrightarrow> r' \<in> set rs \<Longrightarrow> key r = key r' \<Longrightarrow> r = r'"
  by (induction rs) (auto simp: image_iff)

lemma find_row_unique:
  assumes "unique_by key rs" and "r \<in> set rs" and "P r" and "\<And>r'. P r' \<Longrightarrow> key r' = key r"
  shows "find_row P rs = Some r"
proof -
  obtain r' where r': "find_row P rs = Some r'"
    using find_row_Some_ex [of r rs P] assms(2,3) by blast
  then have "P r'" "r' \<in> set rs" using find_row_SomeD by metis+
  with assms have "r' = r" by (metis unique_by_eq)
  with r' show ?thesis by simp
qed

lemma filter_id:
  "unique_by key rs \<Longrightarrow> r \<in> set rs \<Longrightarrow> P r \<Longrightarrow> filter (\<lambda>x. key x = key r \<and> P x) rs = [r]"
  by (induction rs) (auto simp: filter_empty_conv image_iff)

lemma selected_ids:
  "unique_by key rs \<Longrightarrow> r \<in> set rs \<Longrightarrow> key r \<in> key ` set (filter P rs) \<longleftrightarrow> P r"
  using unique_by_eq by fastforce

text \<open>
  For a statement whose WHERE clause compares the key with a constant, the reported row
  count is decided by the one row with that key.
\<close>

lemma count_rows_key:
  assumes "unique_by key rs" and "\<And>r. P r \<Longrightarrow> key r = k"
  shows "0 < count_rows P rs \<longleftrightarrow> (\<exists>r. find_row (\<lambda>r. key r = k) rs = Some r \<and> P r)"
proof
  assume "0 < count_rows P rs"
  then obtain r where r: "r \<in> set rs" "P r" by (auto simp: count_rows_pos)
  have "find_row (\<lambda>r. key r = k) rs = Some r"
    using assms r by (intro find_row_unique [of key]) auto
  with r show "\<exists>r. find_row (\<lambda>r. key r = k) rs = Some r \<and> P r" by blast
next
  assume "\<exists>r. find_row (\<lambda>r. key r = k) rs = Some r \<and> P r"
  then show "0 < count_rows P rs" using find_row_SomeD by (fastforce simp: count_rows_pos)
qed

lemma count_rows_key_le:
  assumes "unique_by key rs" and "\<And>r. P r \<Longrightarrow> key r = k"
  shows "count_rows P rs \<le> 1"
  using assms
proof (induction rs)
  case (Cons r rs)
  then show ?case
    by (auto simp: count_rows_zero image_iff)
qed simp

section \<open>Awaited statements\<close>

record 'd sched =
  interfere :: "nat \<Rightarrow> 'd \<Rightarrow> 'd"
  rejects :: "nat \<Rightarrow> bool"

definition db_call :: "'d sched \<Rightarrow> nat \<Rightarrow> ('d \<Rightarrow> 'd \<times> 'a) \<Rightarrow> 'd \<Rightarrow> 'd \<times> 'a option" where
  "db_call w k stmt d =
     (let d1 = interfere w k d
      in if rejects w k then (d1, None) else (case stmt d1 of (d2, x) \<Rightarrow> (d2, Some x)))"

definition quiet :: "'d sched" where
  "quiet = \<lparr>interfere = (\<lambda>_ d. d), rejects = (\<lambda>_. False)\<rparr>"

lemma quiet_simps [simp]: "interfere quiet k d = d" "\<not> rejects quiet k"
  by (simp_all add: quiet_def)

lemma db_call_quiet [simp]: "db_call quiet k stmt d = (case stmt d of (d2, x) \<Rightarrow> (d2, Some x))"
  by (simp add: db_call_def)

lemma db_call_SomeD: "db_call w k stmt d = (d', Some x) \<Longrightarrow> stmt (interfere w k d) = (d', x)"
  by (auto simp: db_call_def Let_def split: if_splits prod.splits)

lemma db_call_cases:
  obtains (Rejected) "db_call w k stmt d = (interfere w k d, None)"
  | (Done) d' x where "stmt (interfere w k d) = (d', x)" "db_call w k stmt d = (d', Some x)"
  by (cases "rejects w k"; cases "stmt (interfere w k d)") (auto simp: db_call_def Let_def)

end
