(* ===== verification/Sql.thy ===== *)
theory Sql
  imports Prelude
begin

text \<open>
  PostgreSQL's three-valued logic, in which the raw SQL statements of the server are written.
  A condition is \<open>Some True\<close>, \<open>Some False\<close> or NULL (\<open>None\<close>); a nullable column is an
  option.  A WHERE clause selects a row only if its condition is \<open>Some True\<close> (\<open>holds\<close>).
  The lemmas in \<open>sql_where\<close> turn \<open>holds\<close> of a compound condition into ordinary logic.
\<close>

type_synonym sqlbool = "bool option"

fun sql_and :: "sqlbool \<Rightarrow> sqlbool \<Rightarrow> sqlbool" where
  "sql_and (Some False) b = Some False"
| "sql_and (Some True) b = b"
| "sql_and None (Some False) = Some False"
| "sql_and None b = None"

fun sql_or :: "sqlbool \<Rightarrow> sqlbool \<Rightarrow> sqlbool" where
  "sql_or (Some True) b = Some True"
| "sql_or (Some False) b = b"
| "sql_or None (Some True) = Some True"
| "sql_or None b = None"

definition sql_not :: "sqlbool \<Rightarrow> sqlbool" where
  "sql_not b = map_option Not b"

definition sql_eq :: "'a option \<Rightarrow> 'a option \<Rightarrow> sqlbool" where
  "sql_eq x y = (case (x, y) of (Some a, Some b) \<Rightarrow> Some (a = b) | _ \<Rightarrow> None)"

definition sql_le :: "ts option \<Rightarrow> ts option \<Rightarrow> sqlbool" where
  "sql_le x y = (case (x, y) of (Some a, Some b) \<Rightarrow> Some (a \<le> b) | _ \<Rightarrow> None)"

definition sql_gt :: "ts option \<Rightarrow> ts option \<Rightarrow> sqlbool" where
  "sql_gt x y = (case (x, y) of (Some a, Some b) \<Rightarrow> Some (a > b) | _ \<Rightarrow> None)"

definition is_null :: "'a option \<Rightarrow> sqlbool" where
  "is_null x = Some (x = None)"

definition is_not_null :: "'a option \<Rightarrow> sqlbool" where
  "is_not_null x = Some (x \<noteq> None)"

definition is_distinct_from :: "'a option \<Rightarrow> 'a option \<Rightarrow> sqlbool" where
  "is_distinct_from x y = Some (x \<noteq> y)"

definition holds :: "sqlbool \<Rightarrow> bool" where
  "holds b = (b = Some True)"

lemma holds_Some [simp, sql_where]: "holds (Some b) = b"
  by (simp add: holds_def)

lemma holds_None [simp, sql_where]: "\<not> holds None"
  by (simp add: holds_def)

lemma holds_and [sql_where]: "holds (sql_and a b) \<longleftrightarrow> holds a \<and> holds b"
  by (cases "(a, b)" rule: sql_and.cases) (auto simp: holds_def)

lemma holds_or [sql_where]: "holds (sql_or a b) \<longleftrightarrow> holds a \<or> holds b"
  by (cases "(a, b)" rule: sql_or.cases) (auto simp: holds_def)

lemma holds_not_Some [sql_where]: "holds (sql_not (Some b)) \<longleftrightarrow> \<not> b"
  by (simp add: holds_def sql_not_def)

lemma holds_eq [sql_where]: "holds (sql_eq x y) \<longleftrightarrow> (\<exists>a. x = Some a \<and> y = Some a)"
  by (auto simp: holds_def sql_eq_def split: option.splits)

lemma holds_le [sql_where]: "holds (sql_le x y) \<longleftrightarrow> (\<exists>a b. x = Some a \<and> y = Some b \<and> a \<le> b)"
  by (auto simp: holds_def sql_le_def split: option.splits)

lemma holds_gt [sql_where]: "holds (sql_gt x y) \<longleftrightarrow> (\<exists>a b. x = Some a \<and> y = Some b \<and> a > b)"
  by (auto simp: holds_def sql_gt_def split: option.splits)

lemma holds_null [sql_where]: "holds (is_null x) \<longleftrightarrow> x = None"
  by (simp add: holds_def is_null_def)

lemma holds_not_null [sql_where]: "holds (is_not_null x) \<longleftrightarrow> x \<noteq> None"
  by (simp add: holds_def is_not_null_def)

lemma holds_distinct [sql_where]: "holds (is_distinct_from x y) \<longleftrightarrow> x \<noteq> y"
  by (simp add: holds_def is_distinct_from_def)

text \<open>NULL reaches a condition only through a comparison with a NULL operand.\<close>

lemma sql_and_None: "sql_and a b = None \<longleftrightarrow>
    (a = None \<and> b \<noteq> Some False) \<or> (a = Some True \<and> b = None)"
  by (cases "(a, b)" rule: sql_and.cases) auto

end
