(* ===== verification/Json.thy ===== *)
theory Json
  imports Prelude
begin

text \<open>
  The values a client sends over the socket and the JSON documents the server stores.  A
  JavaScript value of type \<^verbatim>\<open>any\<close> or \<^verbatim>\<open>unknown\<close> is a \<open>json option\<close>, with
  \<^verbatim>\<open>undefined\<close> as \<open>None\<close>; objects are association lists in insertion order, so that two
  documents are equal exactly when \<^verbatim>\<open>JSON.stringify\<close> prints the same text.  Numbers are
  integers (every number the server computes with is a version, a sequence number or a
  millisecond timestamp); strings are lists of bytes, so \<open>length\<close> is the UTF-8 length that
  \<^verbatim>\<open>Buffer.byteLength\<close> reports.
\<close>

datatype json =
    JNull
  | JBool bool
  | JNum int
  | JStr string
  | JArr "json list"
  | JObj "(string \<times> json) list"

type_synonym jsval = "json option"

text \<open>Property access \<^verbatim>\<open>v.p\<close> on an object; anything else has no such property.\<close>

fun get_prop :: "jsval \<Rightarrow> string \<Rightarrow> jsval" where
  "get_prop (Some (JObj kvs)) p = map_of kvs p"
| "get_prop v p = None"

text \<open>Destructuring or reading a property of \<^verbatim>\<open>undefined\<close> or \<^verbatim>\<open>null\<close> throws.\<close>

definition nullish :: "jsval \<Rightarrow> bool" where
  "nullish v = (v = None \<or> v = Some JNull)"

fun js_truthy :: "jsval \<Rightarrow> bool" where
  "js_truthy None = False"
| "js_truthy (Some JNull) = False"
| "js_truthy (Some (JBool b)) = b"
| "js_truthy (Some (JNum n)) = (n \<noteq> 0)"
| "js_truthy (Some (JStr s)) = (s \<noteq> [])"
| "js_truthy (Some (JArr _)) = True"
| "js_truthy (Some (JObj _)) = True"

fun as_string :: "jsval \<Rightarrow> string option" where
  "as_string (Some (JStr s)) = Some s"
| "as_string _ = None"

fun as_number :: "jsval \<Rightarrow> int option" where
  "as_number (Some (JNum n)) = Some n"
| "as_number _ = None"

text \<open>\<^verbatim>\<open>typeof v === 'object'\<close> holds of arrays and of \<^verbatim>\<open>null\<close> too.\<close>

fun is_object :: "jsval \<Rightarrow> bool" where
  "is_object (Some JNull) = True"
| "is_object (Some (JArr _)) = True"
| "is_object (Some (JObj _)) = True"
| "is_object _ = False"

lemma as_string_Some [simp]: "as_string v = Some s \<longleftrightarrow> v = Some (JStr s)"
  by (cases v rule: as_string.cases) auto

lemma as_number_Some [simp]: "as_number v = Some n \<longleftrightarrow> v = Some (JNum n)"
  by (cases v rule: as_number.cases) auto

end
