(* ===== verification/Database.thy ===== *)
theory Database
  imports Sql Json
begin

text \<open>
  The PostgreSQL database the server runs on, as the records of \<^verbatim>\<open>prisma/schema.prisma\<close>:
  one record per model with the columns the server's code reads or writes by name, one list of rows
  per table.  Column names
  carry a prefix per model (\<open>s_\<close> Session, \<open>m_\<close> SessionMessage, \<open>o_\<close> the notification
  outbox, \<dots>), since record selectors share one name space.  Nullable columns are options,
  timestamps are milliseconds, \<open>bytes\<close> columns are byte strings.
\<close>

type_synonym bytes = string

text \<open>The image reference and the GitHub profile are JSON columns; of the latter the server reads these fields.\<close>

record image_ref =
  im_path :: string
  im_width :: int
  im_height :: int
  im_thumbhash :: string

record github_profile =
  gp_id :: int
  gp_login :: string
  gp_name :: "string option"
  gp_avatar_url :: string
  gp_bio :: "string option"

record github_user =
  g_id :: ident
  g_profile :: github_profile
  g_token :: bytes

record account =
  a_id :: ident
  a_publicKey :: string
  a_seq :: int
  a_feedSeq :: int
  a_settings :: "string option"
  a_settingsVersion :: int
  a_githubUserId :: "ident option"
  a_firstName :: "string option"
  a_lastName :: "string option"
  a_username :: "string option"
  a_avatar :: "image_ref option"
  a_updatedAt :: ts

record session =
  s_id :: ident
  s_tag :: string
  s_accountId :: ident
  s_metadata :: string
  s_metadataVersion :: int
  s_agentState :: "string option"
  s_agentStateVersion :: int
  s_dataEncryptionKey :: "bytes option"
  s_seq :: int
  s_active :: bool
  s_activeInstanceId :: "ident option"
  s_runtimeConnectionLeaseId :: "ident option"
  s_runtimeConnectionLeaseInstanceId :: "ident option"
  s_runtimeConnectionLeaseExpiresAt :: "ts option"
  s_lastActiveAt :: ts
  s_createdAt :: ts
  s_updatedAt :: ts

text \<open>The status column holds one of the three texts the server writes.\<close>

datatype retirement_status = Replaying | Superseded | Ended

record retirement =
  r_sessionId :: ident
  r_instanceId :: ident
  r_status :: retirement_status
  r_retiredAt :: ts

record message =
  m_id :: ident
  m_sessionId :: ident
  m_localId :: "string option"
  m_seq :: int
  m_content :: json
  m_createdAt :: ts
  m_updatedAt :: ts

record outbox_row =
  o_id :: ident
  o_accountId :: ident
  o_sessionId :: ident
  o_messageId :: ident
  o_updateSeq :: int
  o_originSocketId :: "ident option"
  o_targetRuntimeConnectionLeaseId :: "ident option"
  o_targetLegacyRuntimeConnection :: bool
  o_attempts :: int
  o_nextAttemptAt :: ts
  o_claimedAt :: "ts option"
  o_claimToken :: "ident option"
  o_deliveredAt :: "ts option"
  o_lastError :: "string option"
  o_createdAt :: ts

record machine =
  c_id :: ident
  c_accountId :: ident
  c_metadata :: string
  c_metadataVersion :: int
  c_daemonState :: "string option"
  c_daemonStateVersion :: int
  c_dataEncryptionKey :: "bytes option"
  c_seq :: int
  c_active :: bool
  c_lastActiveAt :: ts
  c_createdAt :: ts
  c_updatedAt :: ts

record artifact =
  f_id :: ident
  f_accountId :: ident
  f_header :: bytes
  f_headerVersion :: int
  f_body :: bytes
  f_bodyVersion :: int
  f_dataEncryptionKey :: bytes
  f_seq :: int
  f_createdAt :: ts
  f_updatedAt :: ts

record access_key =
  k_accountId :: ident
  k_machineId :: ident
  k_sessionId :: ident
  k_data :: string
  k_dataVersion :: int
  k_createdAt :: ts
  k_updatedAt :: ts

record usage_report =
  u_id :: ident
  u_key :: string
  u_accountId :: ident
  u_sessionId :: "ident option"
  u_data :: json
  u_createdAt :: ts
  u_updatedAt :: ts

datatype relationship_status = RNone | RRequested | RPending | RFriend | RRejected

record relationship =
  l_fromUserId :: ident
  l_toUserId :: ident
  l_status :: relationship_status
  l_acceptedAt :: "ts option"
  l_lastNotifiedAt :: "ts option"

datatype feed_body = FriendRequest ident | FriendAccepted ident | FeedText string

record feed_item =
  d_id :: ident
  d_userId :: ident
  d_counter :: int
  d_repeatKey :: "string option"
  d_body :: feed_body
  d_createdAt :: ts

record kv_row =
  v_accountId :: ident
  v_key :: string
  v_value :: "bytes option"
  v_version :: int

record terminal_auth_request =
  t_id :: ident
  t_publicKey :: string
  t_supportsV2 :: bool
  t_response :: "string option"
  t_responseAccountId :: "ident option"
  t_createdAt :: ts
  t_updatedAt :: ts

record account_auth_request =
  q_reqId :: ident
  q_publicKey :: string
  q_response :: "string option"
  q_responseAccountId :: "ident option"
  q_reqCreatedAt :: ts
  q_reqUpdatedAt :: ts

record push_token =
  p_id :: ident
  p_accountId :: ident
  p_token :: string
  p_createdAt :: ts
  p_updatedAt :: ts

record service_token =
  y_id :: ident
  y_accountId :: ident
  y_vendor :: string
  y_token :: bytes
  y_createdAt :: ts
  y_updatedAt :: ts

record repeat_key =
  e_key :: string
  e_value :: string
  e_createdAt :: ts
  e_expiresAt :: ts

record cache_row =
  h_key :: string
  h_value :: string
  h_createdAt :: ts
  h_updatedAt :: ts

record db =
  accounts :: "account list"
  githubUsers :: "github_user list"
  sessions :: "session list"
  retirements :: "retirement list"
  messages :: "message list"
  outbox :: "outbox_row list"
  machines :: "machine list"
  artifacts :: "artifact list"
  accessKeys :: "access_key list"
  usageReports :: "usage_report list"
  relationships :: "relationship list"
  feedItems :: "feed_item list"
  kvStore :: "kv_row list"
  terminalAuthRequests :: "terminal_auth_request list"
  accountAuthRequests :: "account_auth_request list"
  pushTokens :: "push_token list"
  serviceTokens :: "service_token list"
  repeatKeys :: "repeat_key list"
  simpleCache :: "cache_row list"

definition empty_db :: db where
  "empty_db = \<lparr>accounts = [], githubUsers = [], sessions = [], retirements = [], messages = [], outbox = [],
     machines = [], artifacts = [], accessKeys = [], usageReports = [], relationships = [],
     feedItems = [], kvStore = [], terminalAuthRequests = [], accountAuthRequests = [], pushTokens = [],
     serviceTokens = [], repeatKeys = [], simpleCache = []\<rparr>"

text \<open>A row of the account table as the defaults of the schema fill it.\<close>

definition blank_account :: "ident \<Rightarrow> string \<Rightarrow> ts \<Rightarrow> account" where
  "blank_account uid publicKey now =
     \<lparr>a_id = uid, a_publicKey = publicKey, a_seq = 0, a_feedSeq = 0, a_settings = None,
      a_settingsVersion = 0, a_githubUserId = None, a_firstName = None, a_lastName = None,
      a_username = None, a_avatar = None, a_updatedAt = now\<rparr>"

section \<open>Primary keys and lookups\<close>

definition session_row :: "ident \<Rightarrow> db \<Rightarrow> session option" where
  "session_row sid d = find_row (\<lambda>r. s_id r = sid) (sessions d)"

definition retirement_row :: "ident \<Rightarrow> ident \<Rightarrow> db \<Rightarrow> retirement option" where
  "retirement_row sid iid d =
     find_row (\<lambda>r. r_sessionId r = sid \<and> r_instanceId r = iid) (retirements d)"

definition retired_in :: "ident \<Rightarrow> ident \<Rightarrow> retirement list \<Rightarrow> bool" where
  "retired_in sid iid rts = (\<exists>t \<in> set rts. r_sessionId t = sid \<and> r_instanceId t = iid)"

definition retired :: "ident \<Rightarrow> ident \<Rightarrow> db \<Rightarrow> bool" where
  "retired sid iid d = retired_in sid iid (retirements d)"

lemma retired_in_row:
  "retired_in sid iid rts \<longleftrightarrow>
     find_row (\<lambda>t. r_sessionId t = sid \<and> r_instanceId t = iid) rts \<noteq> None"
  using find_row_None_iff [of "\<lambda>t. r_sessionId t = sid \<and> r_instanceId t = iid" rts]
  by (auto simp: retired_in_def)

lemma retired_row: "retired sid iid d \<longleftrightarrow> retirement_row sid iid d \<noteq> None"
  by (simp add: retired_def retirement_row_def retired_in_row)

lemma session_row_SomeD: "session_row sid d = Some r \<Longrightarrow> s_id r = sid \<and> r \<in> set (sessions d)"
  unfolding session_row_def by (auto dest: find_row_SomeD)

text \<open>The primary and unique keys of the schema that the statements below rely on.\<close>

definition keys_ok :: "db \<Rightarrow> bool" where
  "keys_ok d =
     (unique_by s_id (sessions d)
    \<and> unique_by (\<lambda>r. (r_sessionId r, r_instanceId r)) (retirements d))"

lemma keys_okD:
  assumes "keys_ok d"
  shows "unique_by s_id (sessions d)"
    and "unique_by (\<lambda>r. (r_sessionId r, r_instanceId r)) (retirements d)"
  using assms by (auto simp: keys_ok_def)

lemma session_row_unique:
  "keys_ok d \<Longrightarrow> r \<in> set (sessions d) \<Longrightarrow> session_row (s_id r) d = Some r"
  unfolding session_row_def by (rule find_row_unique [of s_id]) (auto dest: keys_okD)

end
