(* ===== verification/EventRouter.thy ===== *)
theory EventRouter
  imports Database
begin

text \<open>
  Realtime fan-out, \<^verbatim>\<open>sources/app/events/eventRouter.ts\<close>: client connections, the Socket.IO
  rooms they join, recipient filters, the connection registry, the two delivery paths of
  \<^verbatim>\<open>emit\<close> and \<^verbatim>\<open>emitDurableSessionMessageLocal\<close> (rooms when a Socket.IO server is attached,
  a scan of the local registry otherwise) and the payload builders.

  Socket.IO itself is a library: the model takes from its documentation that
  \<^verbatim>\<open>to(rooms).emit\<close> reaches each connected socket that joined at least one of the rooms, once
  (\<open>in_rooms\<close>).  The main result is what the two delivery paths have in common and where they
  differ.
\<close>

section \<open>Connections\<close>

record session_connection =
  sc_socketId :: ident
  sc_userId :: ident
  sc_sessionId :: ident
  sc_sessionInstanceId :: "ident option"
  sc_runtimeConnectionLeaseId :: "ident option"
  sc_runtimeConnectionLeaseRejected :: bool
  sc_replayOnly :: bool
  sc_replayRequestedSessionInstanceId :: "ident option"

datatype connection =
    SessionScoped session_connection
  | UserScoped ident ident \<comment> \<open>socket id, user id\<close>
  | MachineScoped ident ident ident \<comment> \<open>socket id, user id, machine id\<close>

fun conn_socketId :: "connection \<Rightarrow> ident" where
  "conn_socketId (SessionScoped c) = sc_socketId c"
| "conn_socketId (UserScoped sock u) = sock"
| "conn_socketId (MachineScoped sock u mid) = sock"

fun conn_userId :: "connection \<Rightarrow> ident" where
  "conn_userId (SessionScoped c) = sc_userId c"
| "conn_userId (UserScoped sock u) = u"
| "conn_userId (MachineScoped sock u mid) = u"

datatype recipient_filter =
    AllInterestedInSession ident
  | UserScopedOnly
  | MachineScopedOnly ident
  | AllUserAuthenticatedConnections

section \<open>Rooms\<close>

definition accountRoom :: "ident \<Rightarrow> string \<Rightarrow> string" where
  "accountRoom userId scope = ''account:'' @ userId @ '':'' @ scope"

definition getRuntimeConnectionLeaseRoom :: "ident \<Rightarrow> ident \<Rightarrow> ident \<Rightarrow> string" where
  "getRuntimeConnectionLeaseRoom userId sessionId leaseId =
     accountRoom userId (''session:'' @ sessionId @ '':runtime-lease:'' @ leaseId)"

fun getConnectionRooms :: "connection \<Rightarrow> string list" where
  "getConnectionRooms (SessionScoped c) =
     (if sc_replayOnly c then []
      else [accountRoom (sc_userId c) ''all''] @
           (if truthy (sc_runtimeConnectionLeaseId c)
            then [getRuntimeConnectionLeaseRoom (sc_userId c) (sc_sessionId c)
                    (the (sc_runtimeConnectionLeaseId c))]
            else [accountRoom (sc_userId c) (''session:'' @ sc_sessionId c)]))"
| "getConnectionRooms (UserScoped sock u) = [accountRoom u ''all'', accountRoom u ''user'']"
| "getConnectionRooms (MachineScoped sock u mid) =
     [accountRoom u ''all'', accountRoom u (''machine:'' @ mid)]"

fun getRecipientRooms :: "ident \<Rightarrow> recipient_filter \<Rightarrow> string list" where
  "getRecipientRooms u (AllInterestedInSession sid) =
     [accountRoom u ''user'', accountRoom u (''session:'' @ sid)]"
| "getRecipientRooms u UserScopedOnly = [accountRoom u ''user'']"
| "getRecipientRooms u (MachineScopedOnly mid) =
     [accountRoom u ''user'', accountRoom u (''machine:'' @ mid)]"
| "getRecipientRooms u AllUserAuthenticatedConnections = [accountRoom u ''all'']"

definition in_rooms :: "string list \<Rightarrow> connection \<Rightarrow> bool" where
  "in_rooms rooms c = (\<exists>rm \<in> set rooms. rm \<in> set (getConnectionRooms c))"

section \<open>The connection registry\<close>

text \<open>\<^verbatim>\<open>Map<string, Set<ClientConnection>>\<close>; a set is a list without repetitions.\<close>

type_synonym registry = "ident \<Rightarrow> connection list option"

definition addConnection :: "ident \<Rightarrow> connection \<Rightarrow> registry \<Rightarrow> registry" where
  "addConnection userId connection m =
     (let m1 = (if m userId = None then m(userId \<mapsto> []) else m)
      in m1(userId \<mapsto> (let cs = the (m1 userId) in if connection \<in> set cs then cs else cs @ [connection])))"

definition removeConnection :: "ident \<Rightarrow> connection \<Rightarrow> registry \<Rightarrow> registry" where
  "removeConnection userId connection m =
     (case m userId of
        None \<Rightarrow> m
      | Some cs \<Rightarrow>
          let cs' = filter (\<lambda>c. c \<noteq> connection) cs
          in if cs' = [] then m(userId := None) else m(userId \<mapsto> cs'))"

definition getConnections :: "ident \<Rightarrow> registry \<Rightarrow> connection list option" where
  "getConnections userId m = m userId"

section \<open>Delivery\<close>

fun shouldSendToConnection :: "connection \<Rightarrow> recipient_filter \<Rightarrow> bool" where
  "shouldSendToConnection connection (AllInterestedInSession sid) =
     (case connection of
        SessionScoped c \<Rightarrow>
          if sc_replayOnly c then False
          else if sc_sessionId c \<noteq> sid then False
          else True
      | MachineScoped _ _ _ \<Rightarrow> False
      | UserScoped _ _ \<Rightarrow> True)"
| "shouldSendToConnection connection UserScopedOnly =
     (case connection of UserScoped _ _ \<Rightarrow> True | _ \<Rightarrow> False)"
| "shouldSendToConnection connection (MachineScopedOnly mid) =
     (case connection of
        UserScoped _ _ \<Rightarrow> True
      | MachineScoped _ _ m \<Rightarrow> m = mid
      | SessionScoped _ \<Rightarrow> False)"
| "shouldSendToConnection connection AllUserAuthenticatedConnections =
     (case connection of SessionScoped c \<Rightarrow> \<not> sc_replayOnly c | _ \<Rightarrow> True)"

text \<open>
  The recipients of \<^verbatim>\<open>emit\<close>.  \<open>emit_rooms\<close> is the branch with a Socket.IO server, over all
  sockets connected to it; \<^verbatim>\<open>socket.to(rooms)\<close> leaves the sending socket out.  \<open>emit_local\<close>
  is the branch that scans the registry of the addressed user.
\<close>

definition emit_rooms ::
  "connection list \<Rightarrow> ident \<Rightarrow> recipient_filter \<Rightarrow> connection option \<Rightarrow> connection list" where
  "emit_rooms connected userId recipientFilter skipSender =
     (let rooms = getRecipientRooms userId recipientFilter
      in filter (\<lambda>c. in_rooms rooms c
                   \<and> (case skipSender of None \<Rightarrow> True | Some s \<Rightarrow> conn_socketId c \<noteq> conn_socketId s))
           connected)"

definition emit_local ::
  "registry \<Rightarrow> ident \<Rightarrow> recipient_filter \<Rightarrow> connection option \<Rightarrow> connection list" where
  "emit_local m userId recipientFilter skipSender =
     (case m userId of
        None \<Rightarrow> []
      | Some cs \<Rightarrow> filter (\<lambda>c. \<not> (skipSender = Some c) \<and> shouldSendToConnection c recipientFilter) cs)"

subsection \<open>Durable session-message notifications\<close>

record update_payload =
  up_id :: ident
  up_seq :: int
  up_body :: json
  up_createdAt :: ts

record notification =
  nt_userId :: ident
  nt_payload :: update_payload
  nt_originSocketId :: "ident option"
  nt_targetRuntimeConnectionLeaseId :: "ident option"
  nt_targetLegacyRuntimeConnection :: bool

definition payload_sid :: "update_payload \<Rightarrow> ident" where
  "payload_sid p = (case as_string (get_prop (Some (up_body p)) ''sid'') of None \<Rightarrow> [] | Some s \<Rightarrow> s)"

definition durable_rooms :: "notification \<Rightarrow> string list" where
  "durable_rooms n =
     (let sessionId = payload_sid (nt_payload n)
      in [accountRoom (nt_userId n) ''user''] @
         (if truthy (nt_targetRuntimeConnectionLeaseId n)
          then [getRuntimeConnectionLeaseRoom (nt_userId n) sessionId
                  (the (nt_targetRuntimeConnectionLeaseId n))]
          else if nt_targetLegacyRuntimeConnection n
          then [accountRoom (nt_userId n) (''session:'' @ sessionId)]
          else []))"

definition durable_via_rooms :: "connection list \<Rightarrow> notification \<Rightarrow> connection list" where
  "durable_via_rooms connected n =
     filter (\<lambda>c. in_rooms (durable_rooms n) c
               \<and> \<not> (truthy (nt_originSocketId n) \<and> Some (conn_socketId c) = nt_originSocketId n))
       connected"

fun isUserObserver :: "connection \<Rightarrow> bool" where
  "isUserObserver (UserScoped sock u) = True"
| "isUserObserver _ = False"

text \<open>\<^verbatim>\<open>undefined === null\<close> is false: a connection without a lease never matches.\<close>

fun isLeaseTarget :: "notification \<Rightarrow> connection \<Rightarrow> bool" where
  "isLeaseTarget n (SessionScoped c) =
     (\<not> sc_replayOnly c \<and> sc_sessionId c = payload_sid (nt_payload n)
    \<and> sc_runtimeConnectionLeaseId c \<noteq> None
    \<and> sc_runtimeConnectionLeaseId c = nt_targetRuntimeConnectionLeaseId n)"
| "isLeaseTarget n _ = False"

fun isLegacyTarget :: "notification \<Rightarrow> connection \<Rightarrow> bool" where
  "isLegacyTarget n (SessionScoped c) =
     (\<not> sc_replayOnly c \<and> sc_sessionId c = payload_sid (nt_payload n)
    \<and> \<not> truthy (sc_runtimeConnectionLeaseId c) \<and> nt_targetLegacyRuntimeConnection n)"
| "isLegacyTarget n _ = False"

definition durable_local :: "registry \<Rightarrow> notification \<Rightarrow> connection list" where
  "durable_local m n =
     (case m (nt_userId n) of
        None \<Rightarrow> []
      | Some cs \<Rightarrow> filter (\<lambda>c. \<not> (Some (conn_socketId c) = nt_originSocketId n)
                            \<and> (isUserObserver c \<or> isLeaseTarget n c \<or> isLegacyTarget n c)) cs)"

section \<open>Payload builders\<close>

text \<open>
  \<open>enc\<close> is base64 encoding (\<^verbatim>\<open>Buffer.toString('base64')\<close>).  A property whose value is
  \<^verbatim>\<open>undefined\<close> is absent from the serialized payload (\<open>opt_field\<close>).
\<close>

definition opt_field :: "string \<Rightarrow> json option \<Rightarrow> (string \<times> json) list" where
  "opt_field k v = (case v of None \<Rightarrow> [] | Some x \<Rightarrow> [(k, x)])"

definition nullable :: "string option \<Rightarrow> json" where
  "nullable v = (case v of None \<Rightarrow> JNull | Some s \<Rightarrow> JStr s)"

definition versioned :: "string option \<times> int \<Rightarrow> json" where
  "versioned vv = JObj [(''value'', nullable (fst vv)), (''version'', JNum (snd vv))]"

definition buildNewSessionUpdate ::
  "(bytes \<Rightarrow> string) \<Rightarrow> session \<Rightarrow> int \<Rightarrow> ident \<Rightarrow> ts \<Rightarrow> update_payload" where
  "buildNewSessionUpdate enc s updateSeq updateId now =
     \<lparr>up_id = updateId, up_seq = updateSeq,
      up_body = JObj [(''t'', JStr ''new-session''), (''id'', JStr (s_id s)), (''seq'', JNum (s_seq s)),
        (''metadata'', JStr (s_metadata s)), (''metadataVersion'', JNum (s_metadataVersion s)),
        (''agentState'', nullable (s_agentState s)),
        (''agentStateVersion'', JNum (s_agentStateVersion s)),
        (''dataEncryptionKey'', nullable (map_option enc (s_dataEncryptionKey s))),
        (''active'', JBool (s_active s)), (''activeAt'', JNum (s_lastActiveAt s)),
        (''createdAt'', JNum (s_createdAt s)), (''updatedAt'', JNum (s_updatedAt s))],
      up_createdAt = now\<rparr>"

definition buildNewMessageUpdate :: "message \<Rightarrow> ident \<Rightarrow> int \<Rightarrow> ident \<Rightarrow> ts \<Rightarrow> update_payload" where
  "buildNewMessageUpdate msg sessionId updateSeq updateId now =
     \<lparr>up_id = updateId, up_seq = updateSeq,
      up_body = JObj [(''t'', JStr ''new-message''), (''sid'', JStr sessionId),
        (''message'', JObj [(''id'', JStr (m_id msg)), (''seq'', JNum (m_seq msg)),
          (''content'', m_content msg), (''localId'', nullable (m_localId msg)),
          (''createdAt'', JNum (m_createdAt msg)), (''updatedAt'', JNum (m_updatedAt msg))])],
      up_createdAt = now\<rparr>"

definition buildUpdateSessionUpdate ::
  "ident \<Rightarrow> int \<Rightarrow> ident \<Rightarrow> (string option \<times> int) option \<Rightarrow> (string option \<times> int) option \<Rightarrow> ts \<Rightarrow> update_payload" where
  "buildUpdateSessionUpdate sessionId updateSeq updateId metadata agentState now =
     \<lparr>up_id = updateId, up_seq = updateSeq,
      up_body = JObj ([(''t'', JStr ''update-session''), (''id'', JStr sessionId)]
        @ opt_field ''metadata'' (map_option versioned metadata)
        @ opt_field ''agentState'' (map_option versioned agentState)),
      up_createdAt = now\<rparr>"

definition buildDeleteSessionUpdate :: "ident \<Rightarrow> int \<Rightarrow> ident \<Rightarrow> ts \<Rightarrow> update_payload" where
  "buildDeleteSessionUpdate sessionId updateSeq updateId now =
     \<lparr>up_id = updateId, up_seq = updateSeq,
      up_body = JObj [(''t'', JStr ''delete-session''), (''sid'', JStr sessionId)], up_createdAt = now\<rparr>"

definition buildNewMachineUpdate ::
  "(bytes \<Rightarrow> string) \<Rightarrow> machine \<Rightarrow> int \<Rightarrow> ident \<Rightarrow> ts \<Rightarrow> update_payload" where
  "buildNewMachineUpdate enc c updateSeq updateId now =
     \<lparr>up_id = updateId, up_seq = updateSeq,
      up_body = JObj [(''t'', JStr ''new-machine''), (''machineId'', JStr (c_id c)), (''seq'', JNum (c_seq c)),
        (''metadata'', JStr (c_metadata c)), (''metadataVersion'', JNum (c_metadataVersion c)),
        (''daemonState'', nullable (c_daemonState c)),
        (''daemonStateVersion'', JNum (c_daemonStateVersion c)),
        (''dataEncryptionKey'', nullable (map_option enc (c_dataEncryptionKey c))),
        (''active'', JBool (c_active c)), (''activeAt'', JNum (c_lastActiveAt c)),
        (''createdAt'', JNum (c_createdAt c)), (''updatedAt'', JNum (c_updatedAt c))],
      up_createdAt = now\<rparr>"

definition buildUpdateMachineUpdate ::
  "ident \<Rightarrow> int \<Rightarrow> ident \<Rightarrow> (string option \<times> int) option \<Rightarrow> (string option \<times> int) option \<Rightarrow> ts \<Rightarrow> update_payload" where
  "buildUpdateMachineUpdate machineId updateSeq updateId metadata daemonState now =
     \<lparr>up_id = updateId, up_seq = updateSeq,
      up_body = JObj ([(''t'', JStr ''update-machine''), (''machineId'', JStr machineId)]
        @ opt_field ''metadata'' (map_option versioned metadata)
        @ opt_field ''daemonState'' (map_option versioned daemonState)),
      up_createdAt = now\<rparr>"

definition buildSessionActivityEphemeral :: "ident \<Rightarrow> bool \<Rightarrow> ts \<Rightarrow> bool \<Rightarrow> json" where
  "buildSessionActivityEphemeral sessionId active activeAt thinking =
     JObj [(''type'', JStr ''activity''), (''id'', JStr sessionId), (''active'', JBool active),
       (''activeAt'', JNum activeAt), (''thinking'', JBool thinking)]"

definition buildMachineActivityEphemeral :: "ident \<Rightarrow> bool \<Rightarrow> ts \<Rightarrow> json" where
  "buildMachineActivityEphemeral machineId active activeAt =
     JObj [(''type'', JStr ''machine-activity''), (''id'', JStr machineId), (''active'', JBool active),
       (''activeAt'', JNum activeAt)]"

definition buildUsageEphemeral :: "ident \<Rightarrow> string \<Rightarrow> json \<Rightarrow> json \<Rightarrow> ts \<Rightarrow> json" where
  "buildUsageEphemeral sessionId key tokens cost now =
     JObj [(''type'', JStr ''usage''), (''id'', JStr sessionId), (''key'', JStr key),
       (''tokens'', tokens), (''cost'', cost), (''timestamp'', JNum now)]"

definition buildNewArtifactUpdate ::
  "(bytes \<Rightarrow> string) \<Rightarrow> artifact \<Rightarrow> int \<Rightarrow> ident \<Rightarrow> ts \<Rightarrow> update_payload" where
  "buildNewArtifactUpdate enc a updateSeq updateId now =
     \<lparr>up_id = updateId, up_seq = updateSeq,
      up_body = JObj [(''t'', JStr ''new-artifact''), (''artifactId'', JStr (f_id a)), (''seq'', JNum (f_seq a)),
        (''header'', JStr (enc (f_header a))), (''headerVersion'', JNum (f_headerVersion a)),
        (''body'', JStr (enc (f_body a))), (''bodyVersion'', JNum (f_bodyVersion a)),
        (''dataEncryptionKey'', JStr (enc (f_dataEncryptionKey a))),
        (''createdAt'', JNum (f_createdAt a)), (''updatedAt'', JNum (f_updatedAt a))],
      up_createdAt = now\<rparr>"

definition buildUpdateArtifactUpdate ::
  "ident \<Rightarrow> int \<Rightarrow> ident \<Rightarrow> (string option \<times> int) option \<Rightarrow> (string option \<times> int) option \<Rightarrow> ts \<Rightarrow> update_payload" where
  "buildUpdateArtifactUpdate artifactId updateSeq updateId header body now =
     \<lparr>up_id = updateId, up_seq = updateSeq,
      up_body = JObj ([(''t'', JStr ''update-artifact''), (''artifactId'', JStr artifactId)]
        @ opt_field ''header'' (map_option versioned header)
        @ opt_field ''body'' (map_option versioned body)),
      up_createdAt = now\<rparr>"

definition buildDeleteArtifactUpdate :: "ident \<Rightarrow> int \<Rightarrow> ident \<Rightarrow> ts \<Rightarrow> update_payload" where
  "buildDeleteArtifactUpdate artifactId updateSeq updateId now =
     \<lparr>up_id = updateId, up_seq = updateSeq,
      up_body = JObj [(''t'', JStr ''delete-artifact''), (''artifactId'', JStr artifactId)], up_createdAt = now\<rparr>"

definition feed_body_json :: "feed_body \<Rightarrow> json" where
  "feed_body_json b =
     (case b of
        FriendRequest u \<Rightarrow> JObj [(''kind'', JStr ''friend_request''), (''uid'', JStr u)]
      | FriendAccepted u \<Rightarrow> JObj [(''kind'', JStr ''friend_accepted''), (''uid'', JStr u)]
      | FeedText s \<Rightarrow> JObj [(''kind'', JStr ''text''), (''text'', JStr s)])"

definition buildNewFeedPostUpdate ::
  "ident \<Rightarrow> feed_body \<Rightarrow> string \<Rightarrow> ts \<Rightarrow> int \<Rightarrow> ident \<Rightarrow> ts \<Rightarrow> update_payload" where
  "buildNewFeedPostUpdate itemId body cursor createdAt updateSeq updateId now =
     \<lparr>up_id = updateId, up_seq = updateSeq,
      up_body = JObj [(''t'', JStr ''new-feed-post''), (''id'', JStr itemId),
        (''body'', feed_body_json body), (''cursor'', JStr cursor), (''createdAt'', JNum createdAt)],
      up_createdAt = now\<rparr>"

definition buildKVBatchUpdateUpdate ::
  "(string \<times> string option \<times> int) list \<Rightarrow> int \<Rightarrow> ident \<Rightarrow> ts \<Rightarrow> update_payload" where
  "buildKVBatchUpdateUpdate changes updateSeq updateId now =
     \<lparr>up_id = updateId, up_seq = updateSeq,
      up_body = JObj [(''t'', JStr ''kv-batch-update''),
        (''changes'', JArr (map (\<lambda>(k, v, n). JObj [(''key'', JStr k), (''value'', nullable v),
           (''version'', JNum n)]) changes))],
      up_createdAt = now\<rparr>"

section \<open>Emissions\<close>

text \<open>What a handler hands to \<^verbatim>\<open>emitUpdate\<close> or \<^verbatim>\<open>emitEphemeral\<close>.\<close>

datatype emission =
    EmitUpdate ident update_payload recipient_filter
  | EmitEphemeral ident json recipient_filter

section \<open>Room names\<close>

definition no_colon :: "string \<Rightarrow> bool" where
  "no_colon s = (CHR '':'' \<notin> set s)"

lemma append_colon_inj:
  assumes "no_colon u" and "no_colon v"
  shows "u @ CHR '':'' # x = v @ CHR '':'' # y \<longleftrightarrow> u = v \<and> x = y"
  using assms
proof (induction u arbitrary: v)
  case Nil
  then show ?case by (cases v) (auto simp: no_colon_def)
next
  case (Cons a u)
  then show ?case by (cases v) (auto simp: no_colon_def)
qed

lemma accountRoom_inj:
  assumes "no_colon u" and "no_colon v"
  shows "accountRoom u x = accountRoom v y \<longleftrightarrow> u = v \<and> x = y"
  using append_colon_inj [OF assms] by (simp add: accountRoom_def)

text \<open>The room of a session without a lease is never the room of a leased generation.\<close>

lemma session_scope_neq:
  assumes "no_colon sid"
  shows "sid \<noteq> sid' @ '':runtime-lease:'' @ l"
  using assms by (auto simp: no_colon_def)

lemma lease_scope_inj:
  assumes "no_colon sid" and "no_colon sid'"
  shows "sid @ '':runtime-lease:'' @ l = sid' @ '':runtime-lease:'' @ l' \<longleftrightarrow> sid = sid' \<and> l = l'"
  using append_colon_inj [OF assms] by simp

definition leased :: "connection \<Rightarrow> bool" where
  "leased c = (case c of SessionScoped sc \<Rightarrow> truthy (sc_runtimeConnectionLeaseId sc) | _ \<Rightarrow> False)"

fun filter_no_colon :: "recipient_filter \<Rightarrow> bool" where
  "filter_no_colon (AllInterestedInSession sid) = no_colon sid"
| "filter_no_colon _ = True"

lemma in_rooms_recipient:
  assumes "no_colon (conn_userId c)" and "no_colon u" and "filter_no_colon f"
  shows "in_rooms (getRecipientRooms u f) c \<longleftrightarrow>
     conn_userId c = u \<and> shouldSendToConnection c f
     \<and> \<not> (leased c \<and> (\<exists>sid. f = AllInterestedInSession sid))"
proof (cases c)
  case (SessionScoped sc)
  with assms show ?thesis
    by (cases f) (auto simp: in_rooms_def leased_def accountRoom_inj getRuntimeConnectionLeaseRoom_def
        no_colon_def)
next
  case (UserScoped sock v)
  with assms show ?thesis
    by (cases f) (auto simp: in_rooms_def leased_def accountRoom_inj)
next
  case (MachineScoped sock v mid)
  with assms show ?thesis
    by (cases f) (auto simp: in_rooms_def leased_def accountRoom_inj)
qed

end
