(* ===== verification/RuntimeLease.thy ===== *)
theory RuntimeLease
  imports Database
begin

text \<open>
  The runtime connection lease of a session, \<^verbatim>\<open>sources/app/presence/runtimeConnectionLease.ts\<close>:
  the readiness predicate, and one definition per SQL statement (claim of a live runtime and of
  a replay transport, expiry on disconnect, renewal, the legacy renewal, the durable end, the
  ownership predicates, the owner lock and the fenced metadata/state writes).

  Every statement is one function of the database clock \<open>now\<close> and the database; its WHERE
  clause is written in the three-valued logic of theory Sql, in the order of the source.
  Identifiers drawn by \<^verbatim>\<open>randomUUID()\<close> are arguments.  The first half of the theory holds the
  definitions, the second what each statement does to a session row and to the retirement table.
\<close>

section \<open>Constants and readiness\<close>

definition RUNTIME_CONNECTION_LEASE_DURATION_MS :: int where
  "RUNTIME_CONNECTION_LEASE_DURATION_MS = 4 * 60000"

definition LEGACY_RUNTIME_CONNECTION_GRACE_MS :: int where
  "LEGACY_RUNTIME_CONNECTION_GRACE_MS = RUNTIME_CONNECTION_LEASE_DURATION_MS"

record snapshot =
  n_active :: bool
  n_activeInstanceId :: "ident option"
  n_lastActiveAt :: ts
  n_runtimeConnectionLeaseId :: "ident option"
  n_runtimeConnectionLeaseInstanceId :: "ident option"
  n_runtimeConnectionLeaseExpiresAt :: "ts option"
  n_runtimeInstanceRetired :: "bool option"

definition isRuntimeConnected :: "snapshot \<Rightarrow> ts \<Rightarrow> bool" where
  "isRuntimeConnected s now =
     (if \<not> n_active s \<or> n_activeInstanceId s = None \<or> n_runtimeInstanceRetired s = Some True
      then False
      else
        let leaseManaged = (n_runtimeConnectionLeaseId s \<noteq> None
              \<or> n_runtimeConnectionLeaseInstanceId s \<noteq> None
              \<or> n_runtimeConnectionLeaseExpiresAt s \<noteq> None)
        in if leaseManaged
           then n_runtimeConnectionLeaseId s \<noteq> None
              \<and> n_runtimeConnectionLeaseInstanceId s = n_activeInstanceId s
              \<and> (case n_runtimeConnectionLeaseExpiresAt s of None \<Rightarrow> False | Some e \<Rightarrow> e > now)
           else n_lastActiveAt s > now - LEGACY_RUNTIME_CONNECTION_GRACE_MS)"

section \<open>Claiming a lease\<close>

record claim_input =
  ci_accountId :: ident
  ci_sessionId :: ident
  ci_sessionInstanceId :: "ident option"
  ci_replayOnly :: bool
  ci_leaseId :: ident

record claim_result =
  claimed :: bool
  ownedLeaseId :: "ident option"
  ownedSessionInstanceId :: "ident option"
  displacedLeaseId :: "ident option"

definition not_claimed :: claim_result where
  "not_claimed = \<lparr>claimed = False, ownedLeaseId = None, ownedSessionInstanceId = None,
     displacedLeaseId = None\<rparr>"

text \<open>A displaced lease is reported only when the previous lease id is truthy.\<close>

definition claim_success :: "ident \<Rightarrow> ident \<Rightarrow> ident option \<Rightarrow> claim_result" where
  "claim_success lease inst prev =
     \<lparr>claimed = True, ownedLeaseId = Some lease, ownedSessionInstanceId = Some inst,
      displacedLeaseId = (if truthy prev then prev else None)\<rparr>"

definition lease_marked :: "session \<Rightarrow> sqlbool" where
  "lease_marked r =
     sql_or (is_not_null (s_runtimeConnectionLeaseId r))
       (sql_or (is_not_null (s_runtimeConnectionLeaseInstanceId r))
               (is_not_null (s_runtimeConnectionLeaseExpiresAt r)))"

definition lease_unmarked :: "session \<Rightarrow> sqlbool" where
  "lease_unmarked r =
     sql_and (is_null (s_runtimeConnectionLeaseId r))
       (sql_and (is_null (s_runtimeConnectionLeaseInstanceId r))
                (is_null (s_runtimeConnectionLeaseExpiresAt r)))"

text \<open>The untouched-legacy grace window has passed.\<close>

definition legacy_grace_over :: "ts \<Rightarrow> session \<Rightarrow> sqlbool" where
  "legacy_grace_over now r =
     sql_and (lease_unmarked r)
       (sql_le (Some (s_lastActiveAt r)) (Some (now - LEGACY_RUNTIME_CONNECTION_GRACE_MS)))"

subsection \<open>Replay transports\<close>

definition replay_instance :: "ident option \<Rightarrow> ident \<Rightarrow> session \<Rightarrow> ident" where
  "replay_instance supplied synthetic r =
     (case supplied of
        Some i \<Rightarrow> i
      | None \<Rightarrow> (case s_activeInstanceId r of None \<Rightarrow> synthetic | Some i \<Rightarrow> i))"

definition replay_candidate ::
  "ident option \<Rightarrow> ident \<Rightarrow> ident \<Rightarrow> ident \<Rightarrow> ts \<Rightarrow> db \<Rightarrow> session \<Rightarrow> sqlbool" where
  "replay_candidate supplied synthetic acct sid now d r =
     sql_and (Some (s_id r = sid))
    (sql_and (Some (s_accountId r = acct))
    (sql_and
       (sql_or
          (sql_and (is_not_null supplied)
             (sql_or (is_null (s_activeInstanceId r))
                     (sql_eq (s_activeInstanceId r) supplied)))
          (is_null supplied))
    (sql_and
       (sql_or (is_not_null supplied)
       (sql_or (Some (\<not> s_active r))
       (sql_or
          (sql_and (lease_marked r)
             (sql_or (is_null (s_runtimeConnectionLeaseId r))
             (sql_or (is_distinct_from (s_runtimeConnectionLeaseInstanceId r) (s_activeInstanceId r))
                     (sql_le (s_runtimeConnectionLeaseExpiresAt r) (Some now)))))
          (legacy_grace_over now r))))
       (Some (\<not> (\<exists>t \<in> set (retirements d).
                   r_sessionId t = s_id r
                 \<and> r_instanceId t = replay_instance supplied synthetic r
                 \<and> r_status t \<noteq> Replaying))))))"

text \<open>
  \<^verbatim>\<open>INSERT .. 'replaying' .. ON CONFLICT DO UPDATE SET retiredAt WHERE status = 'replaying'
  RETURNING\<close>: the new table, and whether a row was returned.
\<close>

definition retire_replaying ::
  "ident \<Rightarrow> ident \<Rightarrow> ts \<Rightarrow> retirement list \<Rightarrow> retirement list \<times> bool" where
  "retire_replaying sid iid now rts =
     (case find_row (\<lambda>t. r_sessionId t = sid \<and> r_instanceId t = iid) rts of
        None \<Rightarrow> (rts @ [\<lparr>r_sessionId = sid, r_instanceId = iid, r_status = Replaying,
                          r_retiredAt = now\<rparr>], True)
      | Some t \<Rightarrow>
          if r_status t = Replaying
          then (update_rows (\<lambda>t. r_sessionId t = sid \<and> r_instanceId t = iid)
                  (\<lambda>t. t\<lparr>r_retiredAt := now\<rparr>) rts, True)
          else (rts, False))"

definition claim_replay_row :: "ident \<Rightarrow> ident \<Rightarrow> ts \<Rightarrow> session \<Rightarrow> session" where
  "claim_replay_row iid lease now r =
     r\<lparr>s_active := False,
       s_activeInstanceId := Some iid,
       s_runtimeConnectionLeaseId := Some lease,
       s_runtimeConnectionLeaseInstanceId := Some iid,
       s_runtimeConnectionLeaseExpiresAt := Some (now + RUNTIME_CONNECTION_LEASE_DURATION_MS),
       s_updatedAt := now\<rparr>"

definition claim_replay ::
  "ident \<Rightarrow> ident \<Rightarrow> ident option \<Rightarrow> ident \<Rightarrow> ident \<Rightarrow> ts \<Rightarrow> db \<Rightarrow> db \<times> claim_result" where
  "claim_replay acct sid supplied lease synthetic now d =
     (case find_row (\<lambda>r. holds (replay_candidate supplied synthetic acct sid now d r)) (sessions d) of
        None \<Rightarrow> (d, not_claimed)
      | Some c \<Rightarrow>
          let iid = replay_instance supplied synthetic c;
              (rts, returned) = retire_replaying (s_id c) iid now (retirements d)
          in if returned
             then (d\<lparr>retirements := rts,
                     sessions := update_rows (\<lambda>r. s_id r = s_id c)
                                   (claim_replay_row iid lease now) (sessions d)\<rparr>,
                   if truthy (Some iid)
                   then claim_success lease iid (s_runtimeConnectionLeaseId c)
                   else not_claimed)
             else (d\<lparr>retirements := rts\<rparr>, not_claimed))"

subsection \<open>Live runtimes\<close>

definition live_candidate :: "ident \<Rightarrow> ident \<Rightarrow> ident \<Rightarrow> ts \<Rightarrow> db \<Rightarrow> session \<Rightarrow> sqlbool" where
  "live_candidate iid acct sid now d r =
     sql_and (Some (s_id r = sid))
    (sql_and (Some (s_accountId r = acct))
    (sql_and (Some (\<not> (\<exists>t \<in> set (retirements d).
                         r_sessionId t = s_id r \<and> r_instanceId t = iid)))
       (sql_or (is_null (s_activeInstanceId r))
       (sql_or (sql_eq (s_activeInstanceId r) (Some iid))
       (sql_or (Some (\<not> s_active r))
       (sql_or (sql_le (s_runtimeConnectionLeaseExpiresAt r) (Some now))
               (legacy_grace_over now r)))))))"

text \<open>\<^verbatim>\<open>INSERT .. 'superseded' .. ON CONFLICT DO UPDATE\<close> for the displaced incarnation.\<close>

definition supersede :: "retirement_status \<Rightarrow> retirement_status" where
  "supersede st = (case st of Replaying \<Rightarrow> Superseded | _ \<Rightarrow> st)"

definition retire_superseded ::
  "ident \<Rightarrow> ident option \<Rightarrow> ident \<Rightarrow> ts \<Rightarrow> retirement list \<Rightarrow> retirement list" where
  "retire_superseded sid prev iid now rts =
     (case prev of
        None \<Rightarrow> rts
      | Some p \<Rightarrow>
          if p = iid then rts
          else case find_row (\<lambda>t. r_sessionId t = sid \<and> r_instanceId t = p) rts of
                 None \<Rightarrow> rts @ [\<lparr>r_sessionId = sid, r_instanceId = p, r_status = Superseded,
                                 r_retiredAt = now\<rparr>]
               | Some t \<Rightarrow> update_rows (\<lambda>t. r_sessionId t = sid \<and> r_instanceId t = p)
                             (\<lambda>t. t\<lparr>r_status := supersede (r_status t), r_retiredAt := now\<rparr>) rts)"

definition claim_live_row :: "ident \<Rightarrow> ident \<Rightarrow> ts \<Rightarrow> session \<Rightarrow> session" where
  "claim_live_row iid lease now r =
     r\<lparr>s_activeInstanceId := Some iid,
       s_runtimeConnectionLeaseId := Some lease,
       s_runtimeConnectionLeaseInstanceId := Some iid,
       s_runtimeConnectionLeaseExpiresAt := Some (now + RUNTIME_CONNECTION_LEASE_DURATION_MS),
       s_active := True,
       s_lastActiveAt := now,
       s_updatedAt := now\<rparr>"

definition claim_live ::
  "ident \<Rightarrow> ident \<Rightarrow> ident \<Rightarrow> ident \<Rightarrow> ts \<Rightarrow> db \<Rightarrow> db \<times> claim_result" where
  "claim_live acct sid iid lease now d =
     (case find_row (\<lambda>r. holds (live_candidate iid acct sid now d r)) (sessions d) of
        None \<Rightarrow> (d, not_claimed)
      | Some c \<Rightarrow>
          (d\<lparr>retirements := retire_superseded (s_id c) (s_activeInstanceId c) iid now (retirements d),
             sessions := update_rows (\<lambda>r. s_id r = s_id c) (claim_live_row iid lease now) (sessions d)\<rparr>,
           claim_success lease iid (s_runtimeConnectionLeaseId c)))"

definition claimRuntimeConnectionLease ::
  "claim_input \<Rightarrow> ident \<Rightarrow> ts \<Rightarrow> db \<Rightarrow> db \<times> claim_result" where
  "claimRuntimeConnectionLease inp synthetic now d =
     (if ci_replayOnly inp
      then claim_replay (ci_accountId inp) (ci_sessionId inp) (ci_sessionInstanceId inp)
             (ci_leaseId inp) synthetic now d
      else case ci_sessionInstanceId inp of
             None \<Rightarrow> (d, not_claimed)
           | Some iid \<Rightarrow>
               if \<not> truthy (Some iid) then (d, not_claimed)
               else claim_live (ci_accountId inp) (ci_sessionId inp) iid (ci_leaseId inp) now d)"

section \<open>Expiry and renewal\<close>

text \<open>The exact live process/socket generation, without the expiry comparison.\<close>

definition generation_cond :: "ident \<Rightarrow> ident \<Rightarrow> ident \<Rightarrow> ident \<Rightarrow> db \<Rightarrow> session \<Rightarrow> sqlbool" where
  "generation_cond acct sid iid lease d r =
     sql_and (Some (s_id r = sid))
    (sql_and (Some (s_accountId r = acct))
    (sql_and (Some (s_active r))
    (sql_and (sql_eq (s_activeInstanceId r) (Some iid))
    (sql_and (sql_eq (s_runtimeConnectionLeaseInstanceId r) (Some iid))
    (sql_and (sql_eq (s_runtimeConnectionLeaseId r) (Some lease))
             (Some (\<not> retired sid iid d)))))))"

definition expireRuntimeConnectionLease ::
  "ident \<Rightarrow> ident \<Rightarrow> ident \<Rightarrow> ident \<Rightarrow> ident \<Rightarrow> ts \<Rightarrow> db \<Rightarrow> db \<times> bool" where
  "expireRuntimeConnectionLease acct sid iid lease tombstone now d =
     (let P = (\<lambda>r. holds (generation_cond acct sid iid lease d r))
      in (d\<lparr>sessions := update_rows P
              (\<lambda>r. r\<lparr>s_runtimeConnectionLeaseId := Some tombstone,
                     s_runtimeConnectionLeaseInstanceId := Some iid,
                     s_runtimeConnectionLeaseExpiresAt := Some now,
                     s_updatedAt := now\<rparr>) (sessions d)\<rparr>,
          count_rows P (sessions d) > 0))"

definition renewRuntimeConnectionLease ::
  "ident \<Rightarrow> ident \<Rightarrow> ident \<Rightarrow> ident \<Rightarrow> ts \<Rightarrow> db \<Rightarrow> db \<times> bool" where
  "renewRuntimeConnectionLease acct sid iid lease now d =
     (let P = (\<lambda>r. holds (generation_cond acct sid iid lease d r))
      in (d\<lparr>sessions := update_rows P
              (\<lambda>r. r\<lparr>s_runtimeConnectionLeaseExpiresAt :=
                       Some (now + RUNTIME_CONNECTION_LEASE_DURATION_MS),
                     s_lastActiveAt := now,
                     s_updatedAt := now\<rparr>) (sessions d)\<rparr>,
          count_rows P (sessions d) > 0))"

definition legacy_cond :: "ident \<Rightarrow> ident \<Rightarrow> session \<Rightarrow> sqlbool" where
  "legacy_cond acct sid r =
     sql_and (Some (s_id r = sid))
    (sql_and (Some (s_accountId r = acct))
    (sql_and (is_null (s_activeInstanceId r)) (lease_unmarked r)))"

definition renewLegacyRuntimeConnection :: "ident \<Rightarrow> ident \<Rightarrow> ts \<Rightarrow> db \<Rightarrow> db \<times> bool" where
  "renewLegacyRuntimeConnection acct sid now d =
     (let P = (\<lambda>r. holds (legacy_cond acct sid r))
      in (d\<lparr>sessions := update_rows P
              (\<lambda>r. r\<lparr>s_active := True, s_lastActiveAt := now, s_updatedAt := now\<rparr>) (sessions d)\<rparr>,
          count_rows P (sessions d) > 0))"

section \<open>Ownership\<close>

definition runtimeConnectionOwnershipSql ::
  "ident option \<Rightarrow> ident option \<Rightarrow> ts \<Rightarrow> db \<Rightarrow> session \<Rightarrow> sqlbool" where
  "runtimeConnectionOwnershipSql sessionInstanceId leaseId now d r =
     (if (sessionInstanceId = None) \<noteq> (leaseId = None) then Some False
      else if \<not> truthy sessionInstanceId
      then sql_and (Some (s_active r))
          (sql_and (is_null (s_activeInstanceId r)) (lease_unmarked r))
      else sql_and (Some (s_active r))
          (sql_and (sql_eq (s_activeInstanceId r) sessionInstanceId)
          (sql_and (sql_eq (s_runtimeConnectionLeaseInstanceId r) sessionInstanceId)
          (sql_and (sql_eq (s_runtimeConnectionLeaseId r) leaseId)
          (sql_and (sql_gt (s_runtimeConnectionLeaseExpiresAt r) (Some now))
                   (Some (\<not> (\<exists>t \<in> set (retirements d).
                              r_sessionId t = s_id r
                            \<and> Some (r_instanceId t) = sessionInstanceId))))))))"

definition isRuntimeConnectionOwner ::
  "ident \<Rightarrow> ident \<Rightarrow> ident option \<Rightarrow> ident option \<Rightarrow> ts \<Rightarrow> db \<Rightarrow> bool" where
  "isRuntimeConnectionOwner acct sid sessionInstanceId leaseId now d =
     (if (sessionInstanceId = None) \<noteq> (leaseId = None) then False
      else if truthy sessionInstanceId
      then (\<exists>r \<in> set (sessions d). holds
             (sql_and (Some (s_id r = sid))
             (sql_and (Some (s_accountId r = acct))
             (sql_and (Some (s_active r))
             (sql_and (sql_eq (s_activeInstanceId r) sessionInstanceId)
             (sql_and (sql_eq (s_runtimeConnectionLeaseInstanceId r) sessionInstanceId)
             (sql_and (sql_eq (s_runtimeConnectionLeaseId r) leaseId)
             (sql_and (sql_gt (s_runtimeConnectionLeaseExpiresAt r) (Some now))
                      (Some (\<not> (\<exists>t \<in> set (retirements d).
                                 r_sessionId t = s_id r
                               \<and> Some (r_instanceId t) = sessionInstanceId)))))))))))
      else (\<exists>r \<in> set (sessions d). holds
             (sql_and (Some (s_id r = sid))
             (sql_and (Some (s_accountId r = acct))
             (sql_and (Some (s_active r))
             (sql_and (is_null (s_activeInstanceId r)) (lease_unmarked r)))))))"

text \<open>
  \<^verbatim>\<open>runWithRuntimeConnectionOwnerLock\<close>: \<open>lockAcquired\<close> is what
  \<^verbatim>\<open>pg_try_advisory_xact_lock\<close> answered.  The operation runs inside the transaction; when it
  throws (\<open>None\<close>) the transaction is rolled back and the exception propagates.
\<close>

datatype 'a owner_outcome = Completed 'a | Busy | NotOwner | OperationThrew

definition runWithRuntimeConnectionOwnerLock ::
  "bool \<Rightarrow> ident \<Rightarrow> ident \<Rightarrow> ident option \<Rightarrow> ident option \<Rightarrow> ts
   \<Rightarrow> (db \<Rightarrow> (db \<times> 'a) option) \<Rightarrow> db \<Rightarrow> db \<times> 'a owner_outcome" where
  "runWithRuntimeConnectionOwnerLock lockAcquired acct sid sessionInstanceId leaseId now operation d =
     (let owned = (if lockAcquired
                   then \<exists>r \<in> set (sessions d). holds
                     (sql_and (Some (s_id r = sid))
                     (sql_and (Some (s_accountId r = acct))
                              (runtimeConnectionOwnershipSql sessionInstanceId leaseId now d r)))
                   else False)
      in if \<not> lockAcquired then (d, Busy)
         else if \<not> owned then (d, NotOwner)
         else case operation d of
                None \<Rightarrow> (d, OperationThrew)
              | Some (d', x) \<Rightarrow> (d', Completed x))"

section \<open>Fenced metadata and state writes\<close>

definition updateRuntimeSessionMetadata ::
  "ident \<Rightarrow> ident \<Rightarrow> ident option \<Rightarrow> ident option \<Rightarrow> int \<Rightarrow> string \<Rightarrow> ts \<Rightarrow> db \<Rightarrow> db \<times> bool" where
  "updateRuntimeSessionMetadata acct sid inst lease expectedVersion metadata now d =
     (let P = (\<lambda>r. holds
            (sql_and (Some (s_id r = sid))
            (sql_and (Some (s_accountId r = acct))
            (sql_and (Some (s_metadataVersion r = expectedVersion))
                     (runtimeConnectionOwnershipSql inst lease now d r)))))
      in (d\<lparr>sessions := update_rows P
              (\<lambda>r. r\<lparr>s_metadata := metadata, s_metadataVersion := expectedVersion + 1,
                     s_updatedAt := now\<rparr>) (sessions d)\<rparr>,
          count_rows P (sessions d) > 0))"

definition updateRuntimeSessionState ::
  "ident \<Rightarrow> ident \<Rightarrow> ident option \<Rightarrow> ident option \<Rightarrow> int \<Rightarrow> string option \<Rightarrow> ts \<Rightarrow> db \<Rightarrow> db \<times> bool" where
  "updateRuntimeSessionState acct sid inst lease expectedVersion agentState now d =
     (let P = (\<lambda>r. holds
            (sql_and (Some (s_id r = sid))
            (sql_and (Some (s_accountId r = acct))
            (sql_and (Some (s_agentStateVersion r = expectedVersion))
                     (runtimeConnectionOwnershipSql inst lease now d r)))))
      in (d\<lparr>sessions := update_rows P
              (\<lambda>r. r\<lparr>s_agentState := agentState, s_agentStateVersion := expectedVersion + 1,
                     s_updatedAt := now\<rparr>) (sessions d)\<rparr>,
          count_rows P (sessions d) > 0))"

section \<open>The durable end of an incarnation\<close>

definition retire_ended :: "ident \<Rightarrow> ident \<Rightarrow> ts \<Rightarrow> retirement list \<Rightarrow> retirement list" where
  "retire_ended sid iid now rts =
     (case find_row (\<lambda>t. r_sessionId t = sid \<and> r_instanceId t = iid) rts of
        None \<Rightarrow> rts @ [\<lparr>r_sessionId = sid, r_instanceId = iid, r_status = Ended, r_retiredAt = now\<rparr>]
      | Some t \<Rightarrow> update_rows (\<lambda>t. r_sessionId t = sid \<and> r_instanceId t = iid)
                    (\<lambda>t. t\<lparr>r_status := Ended, r_retiredAt := now\<rparr>) rts)"

definition end_cond :: "ident \<Rightarrow> ident \<Rightarrow> ident \<Rightarrow> db \<Rightarrow> session \<Rightarrow> sqlbool" where
  "end_cond acct sid iid d r =
     sql_and (Some (s_id r = sid))
    (sql_and (Some (s_accountId r = acct))
    (sql_and (sql_eq (s_activeInstanceId r) (Some iid))
             (Some (\<not> (\<exists>t \<in> set (retirements d).
                        r_sessionId t = s_id r \<and> r_instanceId t = iid
                      \<and> r_status t \<noteq> Replaying)))))"

definition end_row :: "ident \<Rightarrow> ident \<Rightarrow> ts \<Rightarrow> session \<Rightarrow> session" where
  "end_row iid tombstone now r =
     r\<lparr>s_active := False,
       s_lastActiveAt := now,
       s_runtimeConnectionLeaseId := Some tombstone,
       s_runtimeConnectionLeaseInstanceId := Some iid,
       s_runtimeConnectionLeaseExpiresAt := Some now,
       s_updatedAt := now\<rparr>"

definition endRuntimeConnectionLease ::
  "ident \<Rightarrow> ident \<Rightarrow> ident \<Rightarrow> ident \<Rightarrow> ts \<Rightarrow> db \<Rightarrow> db \<times> ts option" where
  "endRuntimeConnectionLease acct sid iid tombstone now d =
     (case find_row (\<lambda>r. holds (end_cond acct sid iid d r)) (sessions d) of
        None \<Rightarrow> (d, None)
      | Some c \<Rightarrow>
          (d\<lparr>sessions := update_rows (\<lambda>r. holds (end_cond acct sid iid d r))
                           (end_row iid tombstone now) (sessions d),
             retirements := retire_ended (s_id c) iid now (retirements d)\<rparr>,
           Some now))"

section \<open>Reading a session with its readiness\<close>

record session_read =
  q_id :: ident
  q_agentStateVersion :: int
  q_runtimeConnected :: sqlbool
  q_runtimeInstanceId :: "ident option"
  q_runtimeLeaseInstanceId :: "ident option"
  q_runtimeLeaseExpiresAt :: "ts option"
  q_runtimeInstanceRetired :: bool
  q_runtimeConnectionCheckedAt :: ts
  q_dataEncryptionKey :: "bytes option"

text \<open>The subquery on the active incarnation: NULL never equals a retirement row.\<close>

definition active_instance_retired :: "db \<Rightarrow> session \<Rightarrow> bool" where
  "active_instance_retired d r =
     (\<exists>t \<in> set (retirements d).
        r_sessionId t = s_id r \<and> Some (r_instanceId t) = s_activeInstanceId r)"

definition runtime_connected_sql :: "ts \<Rightarrow> db \<Rightarrow> session \<Rightarrow> sqlbool" where
  "runtime_connected_sql now d r =
     (if holds (sql_or (Some (\<not> s_active r))
               (sql_or (is_null (s_activeInstanceId r)) (Some (active_instance_retired d r))))
      then Some False
      else if holds (lease_marked r)
      then sql_and (is_not_null (s_runtimeConnectionLeaseId r))
          (sql_and (sql_eq (s_runtimeConnectionLeaseInstanceId r) (s_activeInstanceId r))
                   (sql_gt (s_runtimeConnectionLeaseExpiresAt r) (Some now)))
      else sql_gt (Some (s_lastActiveAt r)) (Some (now - LEGACY_RUNTIME_CONNECTION_GRACE_MS)))"

definition findRuntimeConnectionSession :: "ident \<Rightarrow> ident \<Rightarrow> ts \<Rightarrow> db \<Rightarrow> session_read option" where
  "findRuntimeConnectionSession acct sid now d =
     map_option (\<lambda>r. \<lparr>q_id = s_id r,
                       q_agentStateVersion = s_agentStateVersion r,
                       q_runtimeConnected = runtime_connected_sql now d r,
                       q_runtimeInstanceId = s_activeInstanceId r,
                       q_runtimeLeaseInstanceId = s_runtimeConnectionLeaseInstanceId r,
                       q_runtimeLeaseExpiresAt = s_runtimeConnectionLeaseExpiresAt r,
                       q_runtimeInstanceRetired = active_instance_retired d r,
                       q_runtimeConnectionCheckedAt = now,
                       q_dataEncryptionKey = s_dataEncryptionKey r\<rparr>)
       (find_row (\<lambda>r. s_id r = sid \<and> s_accountId r = acct) (sessions d))"

text \<open>The snapshot of a row that \<^verbatim>\<open>isRuntimeConnected\<close> is called with.\<close>

definition snapshot_of :: "db \<Rightarrow> session \<Rightarrow> snapshot" where
  "snapshot_of d r =
     \<lparr>n_active = s_active r,
      n_activeInstanceId = s_activeInstanceId r,
      n_lastActiveAt = s_lastActiveAt r,
      n_runtimeConnectionLeaseId = s_runtimeConnectionLeaseId r,
      n_runtimeConnectionLeaseInstanceId = s_runtimeConnectionLeaseInstanceId r,
      n_runtimeConnectionLeaseExpiresAt = s_runtimeConnectionLeaseExpiresAt r,
      n_runtimeInstanceRetired = Some (active_instance_retired d r)\<rparr>"

section \<open>Facts about the retirement table\<close>

lemma find_row_retirement_update:
  "find_row (\<lambda>t. r_sessionId t = sid \<and> r_instanceId t = iid) rts = Some t
   \<Longrightarrow> retired_in sid iid rts"
  by (simp add: retired_in_row)

lemma retired_in_update_rows:
  assumes "\<And>t. r_sessionId (f t) = r_sessionId t \<and> r_instanceId (f t) = r_instanceId t"
  shows "retired_in sid iid (update_rows P f rts) \<longleftrightarrow> retired_in sid iid rts"
  using assms by (auto simp: retired_in_def set_update_rows)

lemma retired_in_append [simp]:
  "retired_in sid iid (xs @ ys) \<longleftrightarrow> retired_in sid iid xs \<or> retired_in sid iid ys"
  by (auto simp: retired_in_def)

lemma retired_in_single [simp]:
  "retired_in sid iid [t] \<longleftrightarrow> r_sessionId t = sid \<and> r_instanceId t = iid"
  by (simp add: retired_in_def)

lemma retired_in_replaying:
  "retired_in sid' iid' (fst (retire_replaying sid iid now rts)) \<longleftrightarrow>
     retired_in sid' iid' rts \<or> (sid' = sid \<and> iid' = iid)"
  by (auto simp: retire_replaying_def retired_in_update_rows
      dest: find_row_retirement_update split: option.splits)

lemma retired_in_superseded:
  "retired_in sid' iid' (retire_superseded sid prev iid now rts) \<longleftrightarrow>
     retired_in sid' iid' rts \<or> (sid' = sid \<and> prev = Some iid' \<and> iid' \<noteq> iid)"
  by (auto simp: retire_superseded_def retired_in_update_rows
      dest: find_row_retirement_update split: option.splits)

lemma retired_in_ended:
  "retired_in sid' iid' (retire_ended sid iid now rts) \<longleftrightarrow>
     retired_in sid' iid' rts \<or> (sid' = sid \<and> iid' = iid)"
  by (auto simp: retire_ended_def retired_in_update_rows
      dest: find_row_retirement_update split: option.splits)

lemmas retired_in_upserts [simp] = retired_in_replaying retired_in_superseded retired_in_ended

abbreviation retirement_key :: "retirement \<Rightarrow> ident \<times> ident" where
  "retirement_key t \<equiv> (r_sessionId t, r_instanceId t)"

lemma retirement_key_notin:
  "find_row (\<lambda>t. r_sessionId t = sid \<and> r_instanceId t = iid) rts = None \<Longrightarrow>
     (sid, iid) \<notin> retirement_key ` set rts"
  by (auto simp: find_row_None_iff)

lemma unique_retire_upserts:
  assumes "unique_by retirement_key rts"
  shows "unique_by retirement_key (fst (retire_replaying sid iid now rts))"
    and "unique_by retirement_key (retire_superseded sid prev iid now rts)"
    and "unique_by retirement_key (retire_ended sid iid now rts)"
  using assms
  by (auto simp: retire_replaying_def retire_superseded_def retire_ended_def
      dest: retirement_key_notin split: option.splits intro!: unique_by_update)

section \<open>Facts about candidates and conditions\<close>

lemma holds_lease_marked [sql_where]:
  "holds (lease_marked r) \<longleftrightarrow>
     s_runtimeConnectionLeaseId r \<noteq> None \<or> s_runtimeConnectionLeaseInstanceId r \<noteq> None
   \<or> s_runtimeConnectionLeaseExpiresAt r \<noteq> None"
  by (simp add: lease_marked_def sql_where)

lemma holds_lease_unmarked [sql_where]:
  "holds (lease_unmarked r) \<longleftrightarrow>
     s_runtimeConnectionLeaseId r = None \<and> s_runtimeConnectionLeaseInstanceId r = None
   \<and> s_runtimeConnectionLeaseExpiresAt r = None"
  by (simp add: lease_unmarked_def sql_where)

lemma holds_legacy_grace_over [sql_where]:
  "holds (legacy_grace_over now r) \<longleftrightarrow>
     holds (lease_unmarked r) \<and> s_lastActiveAt r \<le> now - LEGACY_RUNTIME_CONNECTION_GRACE_MS"
  by (simp add: legacy_grace_over_def sql_where)

lemma holds_generation_cond [sql_where]:
  "holds (generation_cond acct sid iid lease d r) \<longleftrightarrow>
     s_id r = sid \<and> s_accountId r = acct \<and> s_active r \<and> s_activeInstanceId r = Some iid
   \<and> s_runtimeConnectionLeaseInstanceId r = Some iid \<and> s_runtimeConnectionLeaseId r = Some lease
   \<and> \<not> retired sid iid d"
  by (auto simp: generation_cond_def sql_where)

lemma holds_legacy_cond [sql_where]:
  "holds (legacy_cond acct sid r) \<longleftrightarrow>
     s_id r = sid \<and> s_accountId r = acct \<and> s_activeInstanceId r = None \<and> holds (lease_unmarked r)"
  by (simp add: legacy_cond_def sql_where)

lemma holds_end_cond [sql_where]:
  "holds (end_cond acct sid iid d r) \<longleftrightarrow>
     s_id r = sid \<and> s_accountId r = acct \<and> s_activeInstanceId r = Some iid
   \<and> \<not> (\<exists>t \<in> set (retirements d).
          r_sessionId t = s_id r \<and> r_instanceId t = iid \<and> r_status t \<noteq> Replaying)"
  by (auto simp: end_cond_def sql_where)

lemma holds_live_candidate [sql_where]:
  "holds (live_candidate iid acct sid now d r) \<longleftrightarrow>
     s_id r = sid \<and> s_accountId r = acct \<and> \<not> retired sid iid d
   \<and> (s_activeInstanceId r = None \<or> s_activeInstanceId r = Some iid \<or> \<not> s_active r
      \<or> (\<exists>e. s_runtimeConnectionLeaseExpiresAt r = Some e \<and> e \<le> now)
      \<or> holds (legacy_grace_over now r))"
  by (auto simp: live_candidate_def retired_def retired_in_def sql_where)

lemma holds_replay_candidate_basic:
  "holds (replay_candidate supplied synthetic acct sid now d r) \<Longrightarrow>
     s_id r = sid \<and> s_accountId r = acct
   \<and> (\<forall>i. supplied = Some i \<longrightarrow> s_activeInstanceId r = None \<or> s_activeInstanceId r = Some i)"
  by (auto simp: replay_candidate_def sql_where)

lemma active_instance_retired_iff:
  "active_instance_retired d r \<longleftrightarrow>
     (\<exists>i. s_activeInstanceId r = Some i \<and> retired (s_id r) i d)"
  by (auto simp: active_instance_retired_def retired_def retired_in_def) metis

text \<open>
  A replay claim never leaves a row for an incarnation with a final status, so its upsert
  always returns the row: the claim and the retirement happen together.
\<close>

lemma replay_candidate_returned:
  assumes "holds (replay_candidate supplied synthetic acct sid now d r)"
  shows "snd (retire_replaying (s_id r) (replay_instance supplied synthetic r) now (retirements d))"
  using assms
  by (fastforce simp: replay_candidate_def retire_replaying_def sql_where
      dest: find_row_SomeD split: option.splits)

lemma claim_replay_Some:
  assumes "find_row (\<lambda>r. holds (replay_candidate supplied synthetic acct sid now d r)) (sessions d) = Some c"
  shows "fst (claim_replay acct sid supplied lease synthetic now d) =
     d\<lparr>retirements := fst (retire_replaying (s_id c) (replay_instance supplied synthetic c) now (retirements d)),
       sessions := update_rows (\<lambda>r. s_id r = s_id c)
         (claim_replay_row (replay_instance supplied synthetic c) lease now) (sessions d)\<rparr>"
proof -
  have "holds (replay_candidate supplied synthetic acct sid now d c)"
    using assms find_row_SomeD by fastforce
  then have "snd (retire_replaying (s_id c) (replay_instance supplied synthetic c) now (retirements d))"
    by (rule replay_candidate_returned)
  then obtain rts where
    "retire_replaying (s_id c) (replay_instance supplied synthetic c) now (retirements d) = (rts, True)"
    by (metis prod.collapse)
  with assms show ?thesis by (simp add: claim_replay_def Let_def)
qed

lemma claim_replay_None:
  "find_row (\<lambda>r. holds (replay_candidate supplied synthetic acct sid now d r)) (sessions d) = None
   \<Longrightarrow> claim_replay acct sid supplied lease synthetic now d = (d, not_claimed)"
  by (simp add: claim_replay_def)

section \<open>Readiness and ownership: the copies in the code agree\<close>

lemma runtime_connected_holds:
  "holds (runtime_connected_sql now d r) = isRuntimeConnected (snapshot_of d r) now"
  by (auto simp: runtime_connected_sql_def isRuntimeConnected_def snapshot_of_def Let_def sql_where
      split: option.splits)

lemma owner_via_sql:
  "isRuntimeConnectionOwner acct sid inst lease now d \<longleftrightarrow>
     (\<exists>r \<in> set (sessions d). s_id r = sid \<and> s_accountId r = acct
        \<and> holds (runtimeConnectionOwnershipSql inst lease now d r))"
  by (auto simp: isRuntimeConnectionOwner_def runtimeConnectionOwnershipSql_def sql_where)

lemma holds_ownership_live:
  assumes "i \<noteq> []"
  shows "holds (runtimeConnectionOwnershipSql (Some i) (Some l) now d r) \<longleftrightarrow>
     s_active r \<and> s_activeInstanceId r = Some i
   \<and> s_runtimeConnectionLeaseInstanceId r = Some i \<and> s_runtimeConnectionLeaseId r = Some l
   \<and> (\<exists>e. s_runtimeConnectionLeaseExpiresAt r = Some e \<and> e > now) \<and> \<not> retired (s_id r) i d"
  using assms
  by (auto simp: runtimeConnectionOwnershipSql_def retired_def retired_in_def sql_where)

lemma holds_ownership_legacy:
  "holds (runtimeConnectionOwnershipSql None None now d r) \<longleftrightarrow>
     s_active r \<and> s_activeInstanceId r = None \<and> holds (lease_unmarked r)"
  by (simp add: runtimeConnectionOwnershipSql_def sql_where)

lemma ownership_partial_tuple:
  "\<not> holds (runtimeConnectionOwnershipSql (Some i) None now d r)"
  "\<not> holds (runtimeConnectionOwnershipSql None (Some l) now d r)"
  by (simp_all add: runtimeConnectionOwnershipSql_def)

lemma owner_live_iff:
  assumes "i \<noteq> []"
  shows "isRuntimeConnectionOwner acct sid (Some i) (Some l) now d \<longleftrightarrow>
    (\<exists>r \<in> set (sessions d). s_id r = sid \<and> s_accountId r = acct
     \<and> s_active r \<and> s_activeInstanceId r = Some i
     \<and> s_runtimeConnectionLeaseInstanceId r = Some i \<and> s_runtimeConnectionLeaseId r = Some l
     \<and> (\<exists>e. s_runtimeConnectionLeaseExpiresAt r = Some e \<and> e > now) \<and> \<not> retired sid i d)"
  using assms by (auto simp: owner_via_sql holds_ownership_live)

lemma lock_owned_iff:
  "(\<exists>r \<in> set (sessions d). holds
      (sql_and (Some (s_id r = sid)) (sql_and (Some (s_accountId r = acct))
        (runtimeConnectionOwnershipSql inst lease now d r))))
   \<longleftrightarrow> isRuntimeConnectionOwner acct sid inst lease now d"
  by (simp add: owner_via_sql sql_where)

end
