(* ===== verification/Interfaces.thy ===== *)
theory Interfaces
  imports Prelude
begin

text \<open>
  The contracts several components share, as locales that are interpreted on the model's own
  operations in the theories that define them:

  \<^item> \<open>sequence_counter\<close>: a counter column that hands out the next number
    (\<^verbatim>\<open>Account.seq\<close>, \<^verbatim>\<open>Session.seq\<close>, \<^verbatim>\<open>Account.feedSeq\<close>);
  \<^item> \<open>versioned_cell\<close>: a value with a version and a compare-and-set that names the version it
    replaces (session metadata and state, machine metadata and daemon state, access keys,
    account settings, artifacts);
  \<^item> \<open>cursor_pages\<close>: an ordered result read page by page after a cursor (message replay,
    session list, feed).
\<close>

section \<open>Sequence counters\<close>

text \<open>
  Allocations interleaved with what other requests do to the state: \<open>fs\<close> gives the steps of
  the others before each allocation.
\<close>

fun allocations :: "('s \<Rightarrow> ('s \<times> int) option) \<Rightarrow> ('s \<Rightarrow> 's) list \<Rightarrow> 's \<Rightarrow> int list" where
  "allocations alloc [] s = []"
| "allocations alloc (f # fs) s =
     (case alloc (f s) of
        None \<Rightarrow> allocations alloc fs (f s)
      | Some (s', n) \<Rightarrow> n # allocations alloc fs s')"

text \<open>A step of the others may advance the counter or drop it for good.\<close>

definition counter_step :: "('s \<Rightarrow> int option) \<Rightarrow> ('s \<Rightarrow> 's) \<Rightarrow> bool" where
  "counter_step val f =
     (\<forall>s. case val (f s) of
            None \<Rightarrow> True
          | Some n' \<Rightarrow> (case val s of None \<Rightarrow> False | Some n \<Rightarrow> n \<le> n'))"

locale sequence_counter =
  fixes alloc :: "'s \<Rightarrow> ('s \<times> int) option"
    and val :: "'s \<Rightarrow> int option"
  assumes alloc_next: "alloc s = Some (s', n) \<Longrightarrow> val s = Some (n - 1) \<and> val s' = Some n"
    and alloc_total: "val s \<noteq> None \<Longrightarrow> alloc s \<noteq> None"
begin

lemma allocations_above:
  assumes "\<forall>f \<in> set fs. counter_step val f"
    and "\<And>n'. val s = Some n' \<Longrightarrow> n \<le> n'"
  shows "\<forall>m \<in> set (allocations alloc fs s). n < m"
  using assms
proof (induction fs arbitrary: s n)
  case (Cons f fs)
  have lower: "n \<le> m" if "val (f s) = Some m" for m
  proof -
    have "case val s of None \<Rightarrow> False | Some k \<Rightarrow> k \<le> m"
      using Cons.prems(1) that by (simp add: counter_step_def) (metis (no_types, lifting) option.simps(5))
    then obtain k where "val s = Some k" "k \<le> m" by (cases "val s") auto
    then show ?thesis using Cons.prems(2) by fastforce
  qed
  show ?case
  proof (cases "alloc (f s)")
    case None
    with Cons lower show ?thesis by auto
  next
    case (Some p)
    obtain s' m where p: "p = (s', m)" by (cases p)
    with Some have vals: "val (f s) = Some (m - 1)" "val s' = Some m"
      using alloc_next by blast+
    then have "n < m" using lower by fastforce
    moreover have "\<forall>k \<in> set (allocations alloc fs s'). m < k"
      using Cons vals by (intro Cons.IH) auto
    ultimately show ?thesis using Some p by force
  qed
qed simp

lemma allocations_increasing:
  assumes "\<forall>f \<in> set fs. counter_step val f"
  shows "sorted_wrt (<) (allocations alloc fs s)"
  using assms
proof (induction fs arbitrary: s)
  case (Cons f fs)
  show ?case
  proof (cases "alloc (f s)")
    case (Some p)
    obtain s' m where p: "p = (s', m)" by (cases p)
    with Some have "val s' = Some m" using alloc_next by blast
    then have "\<forall>k \<in> set (allocations alloc fs s'). m < k"
      using Cons.prems by (intro allocations_above) auto
    with Some p Cons show ?thesis by simp
  qed (use Cons in simp)
qed simp

end

section \<open>Versioned cells\<close>

text \<open>A history of a cell: writes that name the version they replace, and steps of others.\<close>

datatype ('s, 'w) cell_step = Write int 'w | Other "'s \<Rightarrow> 's"

fun cell_run ::
  "(int \<Rightarrow> 'w \<Rightarrow> 's \<Rightarrow> 's \<times> bool) \<Rightarrow> ('s, 'w) cell_step list \<Rightarrow> 's \<Rightarrow> 's \<times> (int \<times> 'w) list" where
  "cell_run cas [] s = (s, [])"
| "cell_run cas (Other f # hs) s = cell_run cas hs (f s)"
| "cell_run cas (Write e x # hs) s =
     (case cas e x s of
        (s', ok) \<Rightarrow> (case cell_run cas hs s' of
                      (s'', wins) \<Rightarrow> (s'', if ok then (e, x) # wins else wins)))"

fun other_steps_keep :: "('s \<Rightarrow> bool) \<Rightarrow> ('s \<Rightarrow> ('v \<times> int) option) \<Rightarrow> ('s, 'w) cell_step list \<Rightarrow> bool" where
  "other_steps_keep ok cell [] = True"
| "other_steps_keep ok cell (Write e x # hs) = other_steps_keep ok cell hs"
| "other_steps_keep ok cell (Other f # hs) =
     ((\<forall>s. ok s \<and> cell s \<noteq> None \<longrightarrow> ok (f s) \<and> cell (f s) = cell s) \<and> other_steps_keep ok cell hs)"

locale versioned_cell =
  fixes cas :: "int \<Rightarrow> 'w \<Rightarrow> 's \<Rightarrow> 's \<times> bool"
    and payload :: "'w \<Rightarrow> 'v"
    and cell :: "'s \<Rightarrow> ('v \<times> int) option"
    and ok :: "'s \<Rightarrow> bool"
  assumes cas_ok: "ok s \<Longrightarrow> ok (fst (cas e x s))"
    and cas_hit: "ok s \<Longrightarrow> snd (cas e x s) \<Longrightarrow>
      (\<exists>v0. cell s = Some (v0, e)) \<and> cell (fst (cas e x s)) = Some (payload x, e + 1)"
    and cas_miss: "ok s \<Longrightarrow> \<not> snd (cas e x s) \<Longrightarrow> cell (fst (cas e x s)) = cell s"
begin

text \<open>
  No update is lost: the successful writes are granted consecutive versions, each exactly
  once, and the cell ends with the value of the last of them.
\<close>

lemma no_lost_update:
  assumes "ok s" and "cell s = Some (v0, n)" and "other_steps_keep ok cell hs"
    and "cell_run cas hs s = (s', wins)"
  shows "map fst wins = map (\<lambda>i. n + int i) [0..<length wins]
       \<and> cell s' = Some (last (v0 # map (payload \<circ> snd) wins), n + int (length wins))"
  using assms
proof (induction hs arbitrary: s v0 n wins)
  case (Cons h hs)
  show ?case
  proof (cases h)
    case (Other f)
    with Cons show ?thesis by auto
  next
    case (Write e x)
    obtain s1 hit where cas: "cas e x s = (s1, hit)" by fastforce
    obtain wins1 where run: "cell_run cas hs s1 = (s', wins1)"
      and wins: "wins = (if hit then (e, x) # wins1 else wins1)"
      using Cons.prems(4) Write cas by (auto split: prod.splits)
    have ok1: "ok s1" using cas_ok [OF Cons.prems(1), of e x] cas by simp
    have keep: "other_steps_keep ok cell hs" using Cons.prems(3) Write by simp
    show ?thesis
    proof (cases hit)
      case True
      then have e: "e = n" and s1: "cell s1 = Some (payload x, n + 1)"
        using cas_hit [OF Cons.prems(1), of e x] cas Cons.prems(2) by auto
      have shift: "map (\<lambda>i. n + int i) [0..<Suc m] = n # map (\<lambda>i. n + 1 + int i) [0..<m]" for m
        by (simp add: upt_conv_Cons map_Suc_upt [symmetric] del: upt_Suc)
      from Cons.IH [OF ok1 s1 keep run] show ?thesis
        using True e wins by (simp add: shift del: upt_Suc)
    next
      case False
      then have "cell s1 = Some (v0, n)"
        using cas_miss [OF Cons.prems(1), of e x] cas Cons.prems(2) by simp
      from Cons.IH [OF ok1 this keep run] show ?thesis using False wins by simp
    qed
  qed
qed simp

end

text \<open>
  A compare-and-set written as a table statement: the WHERE clause names one key and the expected
  version, the SET clause writes the value with the next version.
\<close>

lemma rows_cas:
  fixes c :: "'r \<Rightarrow> 'v \<times> int"
  assumes uniq: "unique_by key rs" and P: "\<And>r. P r \<Longrightarrow> key r = k \<and> snd (c r) = e"
    and f: "\<And>r. key (f r) = key r \<and> c (f r) = (v, e + 1)"
  defines "rs' \<equiv> update_rows P f rs" and "row \<equiv> find_row (\<lambda>r. key r = k)"
  shows "unique_by key rs'
     \<and> (0 < count_rows P rs \<longrightarrow>
          (\<exists>v0. map_option c (row rs) = Some (v0, e)) \<and> map_option c (row rs') = Some (v, e + 1))
     \<and> (\<not> 0 < count_rows P rs \<longrightarrow> rs' = rs)"
proof (intro conjI impI)
  show "unique_by key rs'" unfolding rs'_def using uniq f by auto
next
  assume "0 < count_rows P rs"
  then obtain r where r: "row rs = Some r" "P r"
    using count_rows_key [of key rs P k] uniq P by (auto simp: row_def)
  have "row rs' = Some (f r)"
    using r f P unfolding rs'_def row_def by (simp add: find_row_update)
  with r f P show "\<exists>v0. map_option c (row rs) = Some (v0, e)" and "map_option c (row rs') = Some (v, e + 1)"
    by (simp_all, metis P prod.collapse)
next
  assume "\<not> 0 < count_rows P rs"
  then show "rs' = rs" unfolding rs'_def by (intro update_rows_noop) (auto simp: count_rows_pos)
qed

text \<open>
  What keeps a cell: an update that keeps the key of every row and the cell's columns of its own row,
  an insert that takes no key of the table, a deletion of other rows.
\<close>

definition cell_kept :: "('r \<Rightarrow> 'k) \<Rightarrow> 'k \<Rightarrow> ('r \<Rightarrow> 'v) \<Rightarrow> 'r list \<Rightarrow> 'r list \<Rightarrow> bool" where
  "cell_kept key k c rs rs' =
     (unique_by key rs'
    \<and> map_option c (find_row (\<lambda>r. key r = k) rs') = map_option c (find_row (\<lambda>r. key r = k) rs))"

lemma cell_kept_same: "unique_by key rs \<Longrightarrow> cell_kept key k c rs rs"
  by (simp add: cell_kept_def)

lemma cell_kept_update:
  assumes "unique_by key rs" and "\<And>r. P r \<Longrightarrow> key (f r) = key r \<and> (key r = k \<longrightarrow> c (f r) = c r)"
  shows "cell_kept key k c rs (update_rows P f rs)"
  unfolding cell_kept_def
proof
  show "unique_by key (update_rows P f rs)" using assms by (intro unique_by_update) auto
  show "map_option c (find_row (\<lambda>r. key r = k) (update_rows P f rs)) = map_option c (find_row (\<lambda>r. key r = k) rs)"
    using assms(2) by (induction rs) auto
qed

lemma cell_kept_insert:
  assumes "unique_by key rs" and "\<forall>r \<in> set rs. key r \<noteq> key a" and "find_row (\<lambda>r. key r = k) rs \<noteq> None"
  shows "cell_kept key k c rs (rs @ [a])"
  using assms by (auto simp: cell_kept_def image_iff)

lemma cell_kept_delete:
  assumes "unique_by key rs" and "\<And>r. key r = k \<Longrightarrow> \<not> P r"
  shows "cell_kept key k c rs (delete_rows P rs)"
  using assms by (auto simp: cell_kept_def find_row_delete_disjoint)

lemma cell_kept_columns:
  assumes "unique_by key rs" and "map (\<lambda>r. (key r, c r)) rs' = map (\<lambda>r. (key r, c r)) rs"
  shows "cell_kept key k c rs rs'"
proof -
  have find: "map_option c (find_row (\<lambda>r. key r = k) xs) =
      map_option snd (find_row (\<lambda>p. fst p = k) (map (\<lambda>r. (key r, c r)) xs))" for xs
    by (induction xs) auto
  have "map key rs' = map key rs" using arg_cong [OF assms(2), of "map fst"] by (simp add: comp_def)
  with assms show ?thesis by (simp add: cell_kept_def find unique_by_def)
qed

lemmas cell_kept_rules = cell_kept_same cell_kept_update cell_kept_insert cell_kept_delete

section \<open>Cursor pages\<close>

text \<open>
  A client that reads one page after the other: each page holds at most \<open>limit\<close> rows after
  the cursor; the next cursor is the key of the last row of the page.  The fuel bounds the
  number of requests.
\<close>

fun read_pages :: "('k option \<Rightarrow> 'r list \<times> bool) \<Rightarrow> ('r \<Rightarrow> 'k) \<Rightarrow> nat \<Rightarrow> 'k option \<Rightarrow> 'r list option" where
  "read_pages page key 0 c = None"
| "read_pages page key (Suc n) c =
     (case page c of
        (rs, hasMore) \<Rightarrow>
          if hasMore \<and> rs \<noteq> []
          then map_option (\<lambda>rest. rs @ rest) (read_pages page key n (Some (key (last rs))))
          else Some rs)"

definition after_cursor :: "('k \<Rightarrow> 'k \<Rightarrow> bool) \<Rightarrow> ('r \<Rightarrow> 'k) \<Rightarrow> 'k option \<Rightarrow> 'r \<Rightarrow> bool" where
  "after_cursor before key c r = (case c of None \<Rightarrow> True | Some k \<Rightarrow> before k (key r))"

lemma filter_implied: "(\<And>r. Q r \<Longrightarrow> P r) \<Longrightarrow> filter Q xs = filter Q (filter P xs)"
  by (induction xs) auto

text \<open>The rows of a descending page are strictly ordered by a unique key.\<close>

lemma sorted_desc:
  fixes key :: "'r \<Rightarrow> 'k :: linorder"
  assumes "unique_by key rs"
  shows "sorted_wrt (\<lambda>a b. key b < key a) (rev (sort_key key rs))"
proof -
  have d: "distinct (map key (sort_key key rs))"
    using assms by (metis distinct_map distinct_sort inj_on_subset set_sort subset_refl unique_by_def)
  have "sorted (map key (sort_key key rs))" by simp
  with d have "sorted_wrt (<) (map key (sort_key key rs))" by (simp add: strict_sorted_iff)
  then show ?thesis by (simp add: sorted_wrt_rev sorted_wrt_map)
qed

lemma unique_by_filter: "unique_by key rs \<Longrightarrow> unique_by key (filter P rs)"
  by (induction rs) auto

locale cursor_pages =
  fixes before :: "'k \<Rightarrow> 'k \<Rightarrow> bool"
    and key :: "'r \<Rightarrow> 'k"
    and cursor_ok :: "'k option \<Rightarrow> bool"
    and good :: "'s \<Rightarrow> bool"
    and rows :: "'s \<Rightarrow> 'r list"
    and page :: "'s \<Rightarrow> nat \<Rightarrow> 'k option \<Rightarrow> 'r list \<times> bool"
  assumes before_trans: "before x y \<Longrightarrow> before y z \<Longrightarrow> before x z"
    and before_irrefl: "\<not> before x x"
    and rows_ordered: "good s \<Longrightarrow> sorted_wrt (\<lambda>a b. before (key a) (key b)) (rows s)"
    and rows_cursor: "good s \<Longrightarrow> r \<in> set (rows s) \<Longrightarrow> cursor_ok (Some (key r))"
    and page_rows: "good s \<Longrightarrow> cursor_ok c \<Longrightarrow> page s limit c =
      (let rs = filter (after_cursor before key c) (rows s)
       in (take limit rs, length rs > limit))"
begin

lemma filter_after_last:
  assumes "sorted_wrt (\<lambda>a b. before (key a) (key b)) (xs @ ys)" and "xs \<noteq> []"
  shows "filter (\<lambda>r. before (key (last xs)) (key r)) (xs @ ys) = ys"
proof -
  have last: "last xs \<in> set xs" using assms(2) by simp
  have "\<not> before (key (last xs)) (key r)" if r: "r \<in> set xs" for r
  proof -
    have "r = last xs \<or> before (key r) (key (last xs))"
    proof -
      have "xs = butlast xs @ [last xs]" using assms(2) by simp
      moreover from this assms(1) have "\<forall>a \<in> set (butlast xs). before (key a) (key (last xs))"
        by (metis Un_iff last_in_set list.set_intros(1) set_append sorted_wrt_append)
      ultimately show ?thesis using r
        by (metis Un_iff empty_iff insert_iff list.set(1) list.simps(15) set_append)
    qed
    then show ?thesis using before_irrefl before_trans by blast
  qed
  moreover have "before (key (last xs)) (key r)" if "r \<in> set ys" for r
    using assms(1) last that by (simp add: sorted_wrt_append)
  ultimately show ?thesis by (simp add: filter_empty_conv)
qed

lemma filter_after_page:
  assumes "good s" and "0 < limit"
    and "length (filter (after_cursor before key c) (rows s)) > limit"
  defines "rs \<equiv> filter (after_cursor before key c) (rows s)"
  shows "filter (after_cursor before key (Some (key (last (take limit rs))))) (rows s) = drop limit rs"
proof -
  let ?k = "key (last (take limit rs))"
  have ne: "take limit rs \<noteq> []" using assms(2,3) by (auto simp: rs_def)
  then have "last (take limit rs) \<in> set (take limit rs)" by simp
  then have "last (take limit rs) \<in> set rs" by (rule in_set_takeD)
  then have aft: "after_cursor before key c (last (take limit rs))" by (simp add: rs_def)
  have imp: "after_cursor before key c r" if "after_cursor before key (Some ?k) r" for r
    using aft that before_trans by (cases c) (auto simp: after_cursor_def)
  have "filter (after_cursor before key (Some ?k)) (rows s)
      = filter (after_cursor before key (Some ?k)) rs"
    unfolding rs_def using imp [unfolded rs_def] by (rule filter_implied)
  also have "\<dots> = drop limit rs"
  proof -
    have "sorted_wrt (\<lambda>a b. before (key a) (key b)) (take limit rs @ drop limit rs)"
      using rows_ordered [OF assms(1)] by (simp add: rs_def sorted_wrt_filter)
    from filter_after_last [OF this ne] show ?thesis
      by (simp add: after_cursor_def [abs_def])
  qed
  finally show ?thesis .
qed

text \<open>Reading every page returns every row after the cursor once, in order, and ends.\<close>

lemma read_pages_complete:
  assumes "good s" and "0 < limit" and "cursor_ok c"
    and "length (filter (after_cursor before key c) (rows s)) < n"
  shows "read_pages (page s limit) key n c = Some (filter (after_cursor before key c) (rows s))"
  using assms(3,4)
proof (induction n arbitrary: c)
  case (Suc n)
  let ?rs = "filter (after_cursor before key c) (rows s)"
  show ?case
  proof (cases "length ?rs > limit")
    case True
    let ?c = "Some (key (last (take limit ?rs)))"
    have ne: "take limit ?rs \<noteq> []" using True assms(2) by auto
    then have "last (take limit ?rs) \<in> set ?rs" by (meson in_set_takeD last_in_set)
    then have "cursor_ok ?c" using rows_cursor [OF assms(1)] by simp
    moreover have "filter (after_cursor before key ?c) (rows s) = drop limit ?rs"
      using assms(1,2) True by (rule filter_after_page)
    ultimately have "read_pages (page s limit) key n ?c = Some (drop limit ?rs)"
      using Suc.prems assms(2) True by (subst Suc.IH) auto
    moreover have "page s limit c = (take limit ?rs, True)"
      using True page_rows [OF assms(1) Suc.prems(1)] by simp
    ultimately show ?thesis using ne by simp
  next
    case False
    then show ?thesis using page_rows [OF assms(1) Suc.prems(1)] by (simp add: Let_def)
  qed
qed simp

end

end
