(* ===== verification/SessionStore.thy ===== *)
theory SessionStore
  imports EventRouter RuntimeLease Interfaces "HOL-Library.Char_ord" "HOL-Library.List_Lexorder"
begin

text \<open>
  Sessions as the HTTP routes and the background sweep see them: sequence allocation
  (\<^verbatim>\<open>storage/seq.ts\<close>), the session routes (\<^verbatim>\<open>api/routes/sessionRoutes.ts\<close>: lists,
  create-or-load by tag, read one, delete), \<^verbatim>\<open>app/session/sessionDelete.ts\<close> with the cascades of
  the schema, and one round of the timeout sweep (\<^verbatim>\<open>app/presence/timeout.ts\<close>).

  Prisma writes the \<^verbatim>\<open>@updatedAt\<close> column on every update; the clock values are arguments.
  A statement that throws (missing row, violated unique or foreign key) has the result
  \<open>None\<close>.  Ids are compared as byte strings.
\<close>

section \<open>Sequence allocation\<close>

definition account_row :: "ident \<Rightarrow> db \<Rightarrow> account option" where
  "account_row uid d = find_row (\<lambda>a. a_id a = uid) (accounts d)"

definition allocateUserSeq :: "ident \<Rightarrow> ts \<Rightarrow> db \<Rightarrow> (db \<times> int) option" where
  "allocateUserSeq accountId now d =
     (case account_row accountId d of
        None \<Rightarrow> None
      | Some a \<Rightarrow> Some (d\<lparr>accounts := update_rows (\<lambda>a. a_id a = accountId)
                             (\<lambda>a. a\<lparr>a_seq := a_seq a + 1, a_updatedAt := now\<rparr>) (accounts d)\<rparr>,
                        a_seq a + 1))"

definition allocateSessionSeq :: "ident \<Rightarrow> ts \<Rightarrow> db \<Rightarrow> (db \<times> int) option" where
  "allocateSessionSeq sessionId now d =
     (case session_row sessionId d of
        None \<Rightarrow> None
      | Some s \<Rightarrow> Some (d\<lparr>sessions := update_rows (\<lambda>s. s_id s = sessionId)
                             (\<lambda>s. s\<lparr>s_seq := s_seq s + 1, s_updatedAt := now\<rparr>) (sessions d)\<rparr>,
                        s_seq s + 1))"

text \<open>A statement that throws leaves the database as it was.\<close>

definition throwing :: "(db \<Rightarrow> (db \<times> 'a) option) \<Rightarrow> db \<Rightarrow> db \<times> 'a option" where
  "throwing stmt d = (case stmt d of None \<Rightarrow> (d, None) | Some (d', x) \<Rightarrow> (d', Some x))"

section \<open>Replies\<close>

text \<open>An HTTP handler answers with a status and a body, or its promise is rejected.\<close>

datatype reply = Reply nat json | Threw

definition session_json :: "(bytes \<Rightarrow> string) \<Rightarrow> session \<Rightarrow> (string \<times> json) list" where
  "session_json enc v =
     [(''id'', JStr (s_id v)), (''seq'', JNum (s_seq v)),
      (''createdAt'', JNum (s_createdAt v)), (''updatedAt'', JNum (s_updatedAt v)),
      (''active'', JBool (s_active v)), (''activeAt'', JNum (s_lastActiveAt v)),
      (''metadata'', JStr (s_metadata v)), (''metadataVersion'', JNum (s_metadataVersion v)),
      (''agentState'', nullable (s_agentState v)),
      (''agentStateVersion'', JNum (s_agentStateVersion v)),
      (''dataEncryptionKey'', nullable (map_option enc (s_dataEncryptionKey v)))]"

section \<open>Session lists\<close>

definition list_sessions_v1 :: "(bytes \<Rightarrow> string) \<Rightarrow> ident \<Rightarrow> db \<Rightarrow> reply" where
  "list_sessions_v1 enc userId d =
     (let rows = take 150 (sort_key (\<lambda>r. - s_updatedAt r)
                   (filter (\<lambda>r. s_accountId r = userId) (sessions d)))
      in Reply 200 (JObj [(''sessions'',
           JArr (map (\<lambda>v. JObj (session_json enc v @ [(''lastMessage'', JNull)])) rows))]))"

definition active_rows :: "ident \<Rightarrow> nat \<Rightarrow> ts \<Rightarrow> db \<Rightarrow> session list" where
  "active_rows userId limit now d =
     take limit (sort_key (\<lambda>r. - s_lastActiveAt r)
       (filter (\<lambda>r. s_accountId r = userId \<and> s_active r
                  \<and> s_lastActiveAt r > now - 1000 * 60 * 15) (sessions d)))"

definition list_sessions_active ::
  "(bytes \<Rightarrow> string) \<Rightarrow> ident \<Rightarrow> nat option \<Rightarrow> ts \<Rightarrow> db \<Rightarrow> reply" where
  "list_sessions_active enc userId queryLimit now d =
     (let limit = (case queryLimit of None \<Rightarrow> 150 | Some n \<Rightarrow> if n = 0 then 150 else n)
      in Reply 200 (JObj [(''sessions'',
           JArr (map (\<lambda>v. JObj (session_json enc v)) (active_rows userId limit now d)))]))"

subsection \<open>Cursor pagination\<close>

definition cursor_prefix :: string where
  "cursor_prefix = ''cursor_v1_''"

datatype cursor_query = NoCursor | AtCursor ident | BadCursor

text \<open>An empty cursor is falsy, and so is the empty id after the prefix.\<close>

definition decode_cursor :: "string option \<Rightarrow> cursor_query" where
  "decode_cursor cursor =
     (case cursor of
        None \<Rightarrow> NoCursor
      | Some c \<Rightarrow>
          if c = [] then NoCursor
          else if take 10 c = cursor_prefix
          then (if drop 10 c = [] then NoCursor else AtCursor (drop 10 c))
          else BadCursor)"

definition encode_cursor :: "ident \<Rightarrow> string" where
  "encode_cursor sid = cursor_prefix @ sid"

definition changed_after :: "int option \<Rightarrow> session \<Rightarrow> bool" where
  "changed_after changedSince r =
     (case changedSince of None \<Rightarrow> True | Some t \<Rightarrow> t = 0 \<or> s_updatedAt r > t)"

text \<open>All sessions of the account in the order of the pages: id descending.\<close>

definition sessions_desc :: "ident \<Rightarrow> int option \<Rightarrow> db \<Rightarrow> session list" where
  "sessions_desc userId changedSince d =
     rev (sort_key s_id (filter (\<lambda>r. s_accountId r = userId \<and> changed_after changedSince r)
       (sessions d)))"

definition fetch_sessions_page ::
  "ident \<Rightarrow> int option \<Rightarrow> db \<Rightarrow> ident option \<Rightarrow> nat \<Rightarrow> session list" where
  "fetch_sessions_page userId changedSince d cursorId n =
     take n (rev (sort_key s_id (filter (\<lambda>r. s_accountId r = userId \<and> changed_after changedSince r
        \<and> (case cursorId of None \<Rightarrow> True | Some c \<Rightarrow> s_id r < c)) (sessions d))))"

record session_page =
  pg_sessions :: "session list"
  pg_nextCursor :: "string option"
  pg_hasNext :: bool

definition list_sessions_v2_page ::
  "ident \<Rightarrow> string option \<Rightarrow> nat \<Rightarrow> int option \<Rightarrow> db \<Rightarrow> session_page option" where
  "list_sessions_v2_page userId cursor limit changedSince d =
     (case decode_cursor cursor of
        BadCursor \<Rightarrow> None
      | q \<Rightarrow>
          let cursorId = (case q of AtCursor c \<Rightarrow> Some c | _ \<Rightarrow> None);
              rows = fetch_sessions_page userId changedSince d cursorId (limit + 1);
              hasNext = length rows > limit;
              resultSessions = (if hasNext then take limit rows else rows)
          in Some \<lparr>pg_sessions = resultSessions,
                   pg_nextCursor = (if hasNext \<and> resultSessions \<noteq> []
                                    then Some (encode_cursor (s_id (last resultSessions))) else None),
                   pg_hasNext = hasNext\<rparr>)"

definition list_sessions_v2 ::
  "(bytes \<Rightarrow> string) \<Rightarrow> ident \<Rightarrow> string option \<Rightarrow> nat \<Rightarrow> int option \<Rightarrow> db \<Rightarrow> reply" where
  "list_sessions_v2 enc userId cursor limit changedSince d =
     (case list_sessions_v2_page userId cursor limit changedSince d of
        None \<Rightarrow> Reply 400 (JObj [(''error'', JStr ''Invalid cursor format'')])
      | Some p \<Rightarrow> Reply 200 (JObj [
          (''sessions'', JArr (map (\<lambda>v. JObj (session_json enc v)) (pg_sessions p))),
          (''nextCursor'', nullable (pg_nextCursor p)),
          (''hasNext'', JBool (pg_hasNext p))]))"

section \<open>Create or load a session by tag\<close>

record session_body =
  sb_tag :: string
  sb_metadata :: string
  sb_agentState :: "string option"
  sb_dataEncryptionKey :: "string option"

definition new_session ::
  "(string \<Rightarrow> bytes) \<Rightarrow> ident \<Rightarrow> session_body \<Rightarrow> ident \<Rightarrow> ts \<Rightarrow> session" where
  "new_session dec userId body newId now =
     \<lparr>s_id = newId, s_tag = sb_tag body, s_accountId = userId,
      s_metadata = sb_metadata body, s_metadataVersion = 0,
      s_agentState = sb_agentState body,
      s_agentStateVersion = (if sb_agentState body = None then 0 else 1),
      s_dataEncryptionKey = (if truthy (sb_dataEncryptionKey body)
                             then map_option dec (sb_dataEncryptionKey body) else None),
      s_seq = 0, s_active = True, s_activeInstanceId = None,
      s_runtimeConnectionLeaseId = None, s_runtimeConnectionLeaseInstanceId = None,
      s_runtimeConnectionLeaseExpiresAt = None,
      s_lastActiveAt = now, s_createdAt = now, s_updatedAt = now\<rparr>"

text \<open>
  \<^verbatim>\<open>db.session.create\<close> throws on an existing id, on an existing \<^verbatim>\<open>(accountId, tag)\<close> pair and
  when the account is gone.
\<close>

definition create_session :: "session \<Rightarrow> db \<Rightarrow> (db \<times> session) option" where
  "create_session s d =
     (if (\<exists>r \<in> set (sessions d). s_id r = s_id s)
       \<or> (\<exists>r \<in> set (sessions d). s_accountId r = s_accountId s \<and> s_tag r = s_tag s)
       \<or> account_row (s_accountId s) d = None
      then None
      else Some (d\<lparr>sessions := sessions d @ [s]\<rparr>, s))"

definition find_session_by_tag :: "ident \<Rightarrow> string \<Rightarrow> db \<Rightarrow> session option" where
  "find_session_by_tag userId tag d =
     find_row (\<lambda>r. s_accountId r = userId \<and> s_tag r = tag) (sessions d)"

definition session_reply :: "(bytes \<Rightarrow> string) \<Rightarrow> session \<Rightarrow> reply" where
  "session_reply enc s =
     Reply 200 (JObj [(''session'', JObj
       [(''id'', JStr (s_id s)), (''seq'', JNum (s_seq s)),
        (''metadata'', JStr (s_metadata s)), (''metadataVersion'', JNum (s_metadataVersion s)),
        (''agentState'', nullable (s_agentState s)),
        (''agentStateVersion'', JNum (s_agentStateVersion s)),
        (''dataEncryptionKey'', nullable (map_option enc (s_dataEncryptionKey s))),
        (''active'', JBool (s_active s)), (''activeAt'', JNum (s_lastActiveAt s)),
        (''createdAt'', JNum (s_createdAt s)), (''updatedAt'', JNum (s_updatedAt s)),
        (''lastMessage'', JNull)])])"

definition create_or_load_session ::
  "(bytes \<Rightarrow> string) \<Rightarrow> (string \<Rightarrow> bytes) \<Rightarrow> db sched \<Rightarrow> ident \<Rightarrow> session_body \<Rightarrow> ident \<Rightarrow> ident
   \<Rightarrow> ts \<Rightarrow> db \<Rightarrow> db \<times> reply \<times> emission list" where
  "create_or_load_session enc dec w userId body newId updId now d =
     (case db_call w 0 (\<lambda>d. (d, find_session_by_tag userId (sb_tag body) d)) d of
        (d1, None) \<Rightarrow> (d1, Threw, [])
      | (d1, Some (Some s)) \<Rightarrow> (d1, session_reply enc s, [])
      | (d1, Some None) \<Rightarrow>
         (case db_call w 1 (throwing (allocateUserSeq userId now)) d1 of
            (d2, Some (Some updSeq)) \<Rightarrow>
             (case db_call w 2 (throwing (create_session (new_session dec userId body newId now))) d2 of
                (d3, Some (Some s)) \<Rightarrow>
                  (d3, session_reply enc s,
                   [EmitUpdate userId (buildNewSessionUpdate enc s updSeq updId now) UserScopedOnly])
              | (d3, _) \<Rightarrow> (d3, Threw, []))
          | (d2, _) \<Rightarrow> (d2, Threw, [])))"

section \<open>Read one session\<close>

definition get_session :: "(bytes \<Rightarrow> string) \<Rightarrow> ident \<Rightarrow> ident \<Rightarrow> ts \<Rightarrow> db \<Rightarrow> reply" where
  "get_session enc userId sessionId now d =
     (case findRuntimeConnectionSession userId sessionId now d of
        None \<Rightarrow> Reply 404 (JObj [(''error'', JStr ''Session not found''),
                                 (''code'', JStr ''SESSION_NOT_FOUND'')])
      | Some s \<Rightarrow>
          (case q_runtimeConnected s of
             None \<Rightarrow> Threw
           | Some connected \<Rightarrow> Reply 200 (JObj [(''session'', JObj
              [(''id'', JStr (q_id s)), (''agentStateVersion'', JNum (q_agentStateVersion s)),
               (''runtimeConnectionProtocolVersion'', JNum 1),
               (''runtimeConnected'', JBool connected),
               (''runtimeInstanceId'', nullable (q_runtimeInstanceId s)),
               (''runtimeLeaseInstanceId'', nullable (q_runtimeLeaseInstanceId s)),
               (''runtimeLeaseExpiresAt'',
                 (case q_runtimeLeaseExpiresAt s of None \<Rightarrow> JNull | Some e \<Rightarrow> JNum e)),
               (''runtimeInstanceRetired'', JBool (q_runtimeInstanceRetired s)),
               (''runtimeConnectionCheckedAt'', JNum (q_runtimeConnectionCheckedAt s)),
               (''dataEncryptionKey'', nullable (map_option enc (q_dataEncryptionKey s)))])])))"

section \<open>Delete a session\<close>

text \<open>
  Deleting messages cascades to their outbox rows, deleting the session to its retirements
  (\<^verbatim>\<open>onDelete: Cascade\<close>).
\<close>

definition delete_messages :: "ident \<Rightarrow> db \<Rightarrow> db" where
  "delete_messages sid d =
     d\<lparr>messages := delete_rows (\<lambda>m. m_sessionId m = sid) (messages d),
       outbox := delete_rows (\<lambda>x. \<exists>m \<in> set (messages d). m_sessionId m = sid \<and> m_id m = o_messageId x)
                   (outbox d)\<rparr>"

definition delete_session_row :: "ident \<Rightarrow> db \<Rightarrow> db" where
  "delete_session_row sid d =
     d\<lparr>sessions := delete_rows (\<lambda>r. s_id r = sid) (sessions d),
       retirements := delete_rows (\<lambda>t. r_sessionId t = sid) (retirements d)\<rparr>"

definition sessionDelete :: "ident \<Rightarrow> ident \<Rightarrow> db \<Rightarrow> db \<times> bool" where
  "sessionDelete uid sid d =
     (case find_row (\<lambda>r. s_id r = sid \<and> s_accountId r = uid) (sessions d) of
        None \<Rightarrow> (d, False)
      | Some _ \<Rightarrow>
          let d1 = delete_messages sid d;
              d2 = d1\<lparr>usageReports := delete_rows (\<lambda>u. u_sessionId u = Some sid) (usageReports d1)\<rparr>;
              d3 = d2\<lparr>accessKeys := delete_rows (\<lambda>k. k_sessionId k = sid) (accessKeys d2)\<rparr>
          in (delete_session_row sid d3, True))"

text \<open>The callback that runs once the transaction is committed.\<close>

definition sessionDelete_afterTx ::
  "ident \<Rightarrow> ident \<Rightarrow> ident \<Rightarrow> ts \<Rightarrow> db \<Rightarrow> db \<times> emission list" where
  "sessionDelete_afterTx uid sid updId now d =
     (case allocateUserSeq uid now d of
        None \<Rightarrow> (d, [])
      | Some (d', updSeq) \<Rightarrow>
          (d', [EmitUpdate uid (buildDeleteSessionUpdate sid updSeq updId now) UserScopedOnly]))"

definition delete_session_route :: "ident \<Rightarrow> ident \<Rightarrow> db \<Rightarrow> db \<times> reply" where
  "delete_session_route userId sid d =
     (case sessionDelete userId sid d of
        (d', False) \<Rightarrow> (d', Reply 404 (JObj [(''error'', JStr ''Session not found or not owned by user'')]))
      | (d', True) \<Rightarrow> (d', Reply 200 (JObj [(''success'', JBool True)])))"

section \<open>The timeout sweep\<close>

record activity =
  ac_userId :: ident
  ac_sessionId :: ident
  ac_active :: bool
  ac_activeAt :: ts
  ac_thinking :: bool

definition TIMEOUT_MS :: int where
  "TIMEOUT_MS = 1000 * 60 * 10"

text \<open>\<^verbatim>\<open>updateManyAndReturn\<close>: the updated rows.\<close>

definition timeout_session_cas :: "ident \<Rightarrow> ts \<Rightarrow> ts \<Rightarrow> db \<Rightarrow> db \<times> session list" where
  "timeout_session_cas sid cutoff now d =
     (let P = (\<lambda>r. s_id r = sid \<and> s_active r \<and> s_lastActiveAt r \<le> cutoff);
          f = (\<lambda>r. r\<lparr>s_active := False, s_updatedAt := now\<rparr>)
      in (d\<lparr>sessions := update_rows P f (sessions d)\<rparr>, map f (filter P (sessions d))))"

definition timeout_machine_cas :: "ident \<Rightarrow> ts \<Rightarrow> db \<Rightarrow> db \<times> machine list" where
  "timeout_machine_cas mid now d =
     (let P = (\<lambda>r. c_id r = mid \<and> c_active r);
          f = (\<lambda>r. r\<lparr>c_active := False, c_updatedAt := now\<rparr>)
      in (d\<lparr>machines := update_rows P f (machines d)\<rparr>, map f (filter P (machines d))))"

fun timeout_sessions ::
  "db sched \<Rightarrow> nat \<Rightarrow> ts \<Rightarrow> (nat \<Rightarrow> ts) \<Rightarrow> session list \<Rightarrow> db \<Rightarrow> db \<times> activity list \<times> bool" where
  "timeout_sessions w k cutoff clk [] d = (d, [], True)"
| "timeout_sessions w k cutoff clk (s # ss) d =
     (case db_call w k (timeout_session_cas (s_id s) cutoff (clk k)) d of
        (d1, None) \<Rightarrow> (d1, [], False)
      | (d1, Some []) \<Rightarrow> timeout_sessions w (k + 1) cutoff clk ss d1
      | (d1, Some (u # us)) \<Rightarrow>
          (case timeout_sessions w (k + 1) cutoff clk ss d1 of
             (d2, acts, ok) \<Rightarrow>
               (d2, \<lparr>ac_userId = s_accountId s, ac_sessionId = s_id s, ac_active = False,
                     ac_activeAt = s_lastActiveAt u, ac_thinking = False\<rparr> # acts, ok)))"

fun timeout_machines ::
  "db sched \<Rightarrow> nat \<Rightarrow> (nat \<Rightarrow> ts) \<Rightarrow> machine list \<Rightarrow> db \<Rightarrow> db \<times> emission list \<times> bool" where
  "timeout_machines w k clk [] d = (d, [], True)"
| "timeout_machines w k clk (c # cs) d =
     (case db_call w k (timeout_machine_cas (c_id c) (clk k)) d of
        (d1, None) \<Rightarrow> (d1, [], False)
      | (d1, Some []) \<Rightarrow> timeout_machines w (k + 1) clk cs d1
      | (d1, Some (u # us)) \<Rightarrow>
          (case timeout_machines w (k + 1) clk cs d1 of
             (d2, ems, ok) \<Rightarrow>
               (d2, EmitEphemeral (c_accountId c)
                      (buildMachineActivityEphemeral (c_id c) False (c_lastActiveAt u)) UserScopedOnly
                    # ems, ok)))"

text \<open>
  One round of the endless loop; \<open>False\<close> when an awaited statement was rejected, which ends
  the round (\<^verbatim>\<open>forever\<close> starts the loop again).
\<close>

definition timeout_round ::
  "db sched \<Rightarrow> (nat \<Rightarrow> ts) \<Rightarrow> db \<Rightarrow> db \<times> activity list \<times> emission list \<times> bool" where
  "timeout_round w clk d =
     (let cutoff = clk 0 - TIMEOUT_MS
      in case db_call w 0 (\<lambda>d. (d, filter (\<lambda>r. s_active r \<and> s_lastActiveAt r \<le> cutoff) (sessions d))) d of
        (d1, None) \<Rightarrow> (d1, [], [], False)
      | (d1, Some ss) \<Rightarrow>
         (case timeout_sessions w 1 cutoff clk ss d1 of
            (d2, acts, False) \<Rightarrow> (d2, acts, [], False)
          | (d2, acts, True) \<Rightarrow>
             (let k = 1 + length ss
              in case db_call w k (\<lambda>d. (d, filter (\<lambda>c. c_active c \<and> c_lastActiveAt c \<le> clk k - TIMEOUT_MS)
                                             (machines d))) d2 of
                (d3, None) \<Rightarrow> (d3, acts, [], False)
              | (d3, Some cs) \<Rightarrow>
                 (case timeout_machines w (k + 1) clk cs d3 of
                    (d4, ems, ok) \<Rightarrow> (d4, acts, ems, ok)))))"

section \<open>Sequence numbers\<close>

definition user_seq :: "ident \<Rightarrow> db \<Rightarrow> int option" where
  "user_seq uid d = map_option a_seq (account_row uid d)"

definition session_seq :: "ident \<Rightarrow> db \<Rightarrow> int option" where
  "session_seq sid d = map_option s_seq (session_row sid d)"

interpretation user_counter: sequence_counter "allocateUserSeq uid now" "user_seq uid" for uid now
proof
  fix d d' n
  assume "allocateUserSeq uid now d = Some (d', n)"
  then show "user_seq uid d = Some (n - 1) \<and> user_seq uid d' = Some n"
    by (auto simp: allocateUserSeq_def user_seq_def account_row_def table_simps dest: find_row_SomeD
        split: option.splits)
qed (auto simp: allocateUserSeq_def user_seq_def split: option.splits)

interpretation session_counter: sequence_counter "allocateSessionSeq sid now" "session_seq sid" for sid now
proof
  fix d d' n
  assume "allocateSessionSeq sid now d = Some (d', n)"
  then show "session_seq sid d = Some (n - 1) \<and> session_seq sid d' = Some n"
    by (auto simp: allocateSessionSeq_def session_seq_def session_row_def table_simps
        dest: find_row_SomeD split: option.splits)
qed (auto simp: allocateSessionSeq_def session_seq_def split: option.splits)

section \<open>Pages of the session list\<close>

text \<open>One request for a page, as the client sees it: cursors are ids.\<close>

definition session_list_page ::
  "ident \<times> int option \<times> db \<Rightarrow> nat \<Rightarrow> ident option \<Rightarrow> session list \<times> bool" where
  "session_list_page q limit c =
     (case q of (userId, changedSince, d) \<Rightarrow>
        (case list_sessions_v2_page userId (map_option encode_cursor c) limit changedSince d of
           None \<Rightarrow> ([], False)
         | Some p \<Rightarrow> (pg_sessions p, pg_hasNext p)))"

lemma decode_encode_cursor:
  "sid \<noteq> [] \<Longrightarrow> decode_cursor (Some (encode_cursor sid)) = AtCursor sid"
  "decode_cursor None = NoCursor"
  by (simp_all add: decode_cursor_def encode_cursor_def cursor_prefix_def)

lemma fetch_sessions_page_alt:
  "fetch_sessions_page userId changedSince d c n =
     take n (filter (after_cursor (\<lambda>a b. b < a) s_id c) (sessions_desc userId changedSince d))"
proof -
  have "filter (\<lambda>r. s_accountId r = userId \<and> changed_after changedSince r
          \<and> (case c of None \<Rightarrow> True | Some c \<Rightarrow> s_id r < c)) (sessions d)
      = filter (after_cursor (\<lambda>a b. b < a) s_id c)
          (filter (\<lambda>r. s_accountId r = userId \<and> changed_after changedSince r) (sessions d))"
    by (auto simp: after_cursor_def intro!: filter_cong split: option.splits)
  then show ?thesis
    by (simp add: fetch_sessions_page_def sessions_desc_def filter_sort rev_filter [symmetric]
        del: filter_filter)
qed

interpretation session_pages: cursor_pages "\<lambda>a b. b < a" s_id "\<lambda>c. c \<noteq> Some []"
  "\<lambda>(userId, changedSince, d). keys_ok d \<and> (\<forall>r \<in> set (sessions d). s_id r \<noteq> [])"
  "\<lambda>(userId, changedSince, d). sessions_desc userId changedSince d" session_list_page
proof (unfold_locales, goal_cases)
  case (3 q)
  then show ?case
    by (auto simp: sessions_desc_def dest!: keys_okD(1) intro!: sorted_desc [where key = s_id] unique_by_filter)
next
  case (4 q r)
  then show ?case by (auto simp: sessions_desc_def)
next
  case (5 q c limit)
  then show ?case
    by (cases q; cases c)
      (auto simp: session_list_page_def list_sessions_v2_page_def decode_encode_cursor
        fetch_sessions_page_alt Let_def)
qed auto

end
