(* ===== verification/SessionMessage.thy ===== *)
theory SessionMessage
  imports SessionStore
begin

text \<open>
  Durable session messages: \<^verbatim>\<open>app/session/sessionMessageCreate.ts\<close> (the transaction that
  persists one encrypted message, its authorization and idempotency, its outbox row),
  \<^verbatim>\<open>app/session/sessionMessageList.ts\<close> (cursor replay), the local-id validation of
  \<^verbatim>\<open>api/socket/sessionMessageValidation.ts\<close> and the two message routes of \<^verbatim>\<open>sessionRoutes.ts\<close>.

  The transaction is serializable and holds the session row, so it is one function of the
  database; a statement that throws inside it rolls everything back (\<open>None\<close>).  The ids of the
  new message and outbox row are arguments, and so is \<open>uuid_valid\<close>, the validator of the
  package \<^verbatim>\<open>uuid\<close>.
\<close>

section \<open>Local ids\<close>

text \<open>\<open>None\<close> is an invalid value; \<open>Some None\<close> a legacy producer without a local id.\<close>

definition parseSessionMessageLocalId :: "(string \<Rightarrow> bool) \<Rightarrow> jsval \<Rightarrow> string option option" where
  "parseSessionMessageLocalId uuid_valid value =
     (if nullish value then Some None
      else case as_string value of
             None \<Rightarrow> None
           | Some s \<Rightarrow> if length s \<noteq> 36 \<or> \<not> uuid_valid s then None else Some (Some s))"

section \<open>Persisting a message\<close>

datatype message_authorization =
    AuthLease ident ident \<comment> \<open>session instance id, lease id\<close>
  | AuthLegacy
  | AuthReplay "ident option" "ident option"

record persist_input =
  pi_userId :: ident
  pi_sessionId :: ident
  pi_ciphertext :: string
  pi_localId :: "string option"
  pi_originSocketId :: "ident option"
  pi_runtimeAuthorization :: "message_authorization option"

datatype persist_error = SessionNotFound | IdempotencyConflict | RuntimeConnectionStale

datatype persist_result =
    PersistSuccess bool message "int option" \<comment> \<open>duplicate, message, update sequence number\<close>
  | PersistError persist_error bool \<comment> \<open>code, retryable\<close>

definition hasCiphertext :: "json \<Rightarrow> string \<Rightarrow> bool" where
  "hasCiphertext content ciphertext =
     (case content of
        JObj kvs \<Rightarrow> map_of kvs ''t'' = Some (JStr ''encrypted'') \<and> map_of kvs ''c'' = Some (JStr ciphertext)
      | _ \<Rightarrow> False)"

definition encrypted_content :: "string \<Rightarrow> json" where
  "encrypted_content c = JObj [(''t'', JStr ''encrypted''), (''c'', JStr c)]"

text \<open>The columns the locking SELECT computes.\<close>

definition runtimeLeaseCurrent :: "ts \<Rightarrow> db \<Rightarrow> session \<Rightarrow> sqlbool" where
  "runtimeLeaseCurrent now d r =
     sql_and (Some (s_active r))
    (sql_and (is_not_null (s_activeInstanceId r))
    (sql_and (is_not_null (s_runtimeConnectionLeaseId r))
    (sql_and (sql_eq (s_runtimeConnectionLeaseInstanceId r) (s_activeInstanceId r))
    (sql_and (sql_gt (s_runtimeConnectionLeaseExpiresAt r) (Some now))
             (Some (\<not> (\<exists>t \<in> set (retirements d).
                r_sessionId t = s_id r \<and> Some (r_instanceId t) = s_activeInstanceId r)))))))"

definition runtimeReplayLeaseCurrent :: "ts \<Rightarrow> db \<Rightarrow> session \<Rightarrow> sqlbool" where
  "runtimeReplayLeaseCurrent now d r =
     sql_and (is_not_null (s_activeInstanceId r))
    (sql_and (is_not_null (s_runtimeConnectionLeaseId r))
    (sql_and (sql_eq (s_runtimeConnectionLeaseInstanceId r) (s_activeInstanceId r))
    (sql_and (sql_gt (s_runtimeConnectionLeaseExpiresAt r) (Some now))
             (Some (\<exists>t \<in> set (retirements d).
                r_sessionId t = s_id r \<and> Some (r_instanceId t) = s_activeInstanceId r
              \<and> r_status t = Replaying)))))"

definition runtimeInstanceRetirementStatus :: "db \<Rightarrow> session \<Rightarrow> retirement_status option" where
  "runtimeInstanceRetirementStatus d r =
     map_option r_status (find_row (\<lambda>t. r_sessionId t = s_id r
        \<and> Some (r_instanceId t) = s_activeInstanceId r) (retirements d))"

definition targetLegacyRuntimeConnection :: "ts \<Rightarrow> session \<Rightarrow> sqlbool" where
  "targetLegacyRuntimeConnection now r =
     sql_and (Some (s_active r))
    (sql_and (is_null (s_runtimeConnectionLeaseId r))
    (sql_and (is_null (s_runtimeConnectionLeaseInstanceId r))
    (sql_and (is_null (s_runtimeConnectionLeaseExpiresAt r))
             (sql_gt (Some (s_lastActiveAt r)) (Some (now - LEGACY_RUNTIME_CONNECTION_GRACE_MS))))))"

fun message_authorized :: "ts \<Rightarrow> db \<Rightarrow> session \<Rightarrow> message_authorization \<Rightarrow> bool" where
  "message_authorized now d r (AuthLease inst lease) =
     (holds (runtimeLeaseCurrent now d r)
    \<and> s_activeInstanceId r = Some inst
    \<and> s_runtimeConnectionLeaseInstanceId r = Some inst
    \<and> s_runtimeConnectionLeaseId r = Some lease)"
| "message_authorized now d r AuthLegacy =
     (s_activeInstanceId r = None \<and> holds (targetLegacyRuntimeConnection now r))"
| "message_authorized now d r (AuthReplay inst lease) =
     (inst \<noteq> None \<and> lease \<noteq> None
    \<and> holds (runtimeReplayLeaseCurrent now d r)
    \<and> s_activeInstanceId r = inst
    \<and> s_runtimeConnectionLeaseInstanceId r = inst
    \<and> s_runtimeConnectionLeaseId r = lease)"

fun stale_retryable :: "db \<Rightarrow> session \<Rightarrow> message_authorization \<Rightarrow> bool" where
  "stale_retryable d r (AuthLease inst lease) =
     (s_activeInstanceId r = Some inst \<and> runtimeInstanceRetirementStatus d r = None)"
| "stale_retryable d r (AuthReplay inst lease) =
     (inst \<noteq> None \<and> s_activeInstanceId r = inst
    \<and> runtimeInstanceRetirementStatus d r = Some Replaying)"
| "stale_retryable d r AuthLegacy = False"

fun is_replay_auth :: "message_authorization \<Rightarrow> bool" where
  "is_replay_auth (AuthReplay _ _) = True"
| "is_replay_auth _ = False"

definition message_by_localId :: "ident \<Rightarrow> string option \<Rightarrow> db \<Rightarrow> message option" where
  "message_by_localId sid localId d =
     (if truthy localId
      then find_row (\<lambda>m. m_sessionId m = sid \<and> m_localId m = localId) (messages d)
      else None)"

text \<open>
  \<^verbatim>\<open>tx.sessionMessage.create\<close> throws on an existing id and on an existing
  \<^verbatim>\<open>(sessionId, localId)\<close> pair (NULL is never equal); the outbox insert throws on an existing
  id and on an existing \<^verbatim>\<open>messageId\<close>.
\<close>

definition create_message :: "message \<Rightarrow> db \<Rightarrow> db option" where
  "create_message m d =
     (if (\<exists>x \<in> set (messages d). m_id x = m_id m)
       \<or> (m_localId m \<noteq> None
          \<and> (\<exists>x \<in> set (messages d). m_sessionId x = m_sessionId m \<and> m_localId x = m_localId m))
      then None else Some (d\<lparr>messages := messages d @ [m]\<rparr>))"

definition create_outbox_row :: "outbox_row \<Rightarrow> db \<Rightarrow> db option" where
  "create_outbox_row x d =
     (if \<exists>y \<in> set (outbox d). o_id y = o_id x \<or> o_messageId y = o_messageId x
      then None else Some (d\<lparr>outbox := outbox d @ [x]\<rparr>))"

definition new_message :: "persist_input \<Rightarrow> ident \<Rightarrow> int \<Rightarrow> ts \<Rightarrow> message" where
  "new_message inp msgId seq now =
     \<lparr>m_id = msgId, m_sessionId = pi_sessionId inp, m_localId = pi_localId inp, m_seq = seq,
      m_content = encrypted_content (pi_ciphertext inp), m_createdAt = now, m_updatedAt = now\<rparr>"

definition new_outbox_row ::
  "persist_input \<Rightarrow> session \<Rightarrow> db \<Rightarrow> ident \<Rightarrow> ident \<Rightarrow> int \<Rightarrow> ts \<Rightarrow> outbox_row" where
  "new_outbox_row inp r d outboxId msgId updateSeq now =
     \<lparr>o_id = outboxId, o_accountId = pi_userId inp, o_sessionId = pi_sessionId inp,
      o_messageId = msgId, o_updateSeq = updateSeq, o_originSocketId = pi_originSocketId inp,
      o_targetRuntimeConnectionLeaseId =
        (if holds (runtimeLeaseCurrent now d r) then s_runtimeConnectionLeaseId r else None),
      o_targetLegacyRuntimeConnection = holds (targetLegacyRuntimeConnection now r),
      o_attempts = 0, o_nextAttemptAt = now, o_claimedAt = None, o_claimToken = None,
      o_deliveredAt = None, o_lastError = None, o_createdAt = now\<rparr>"

definition insert_message ::
  "persist_input \<Rightarrow> session \<Rightarrow> ident \<Rightarrow> ident \<Rightarrow> ts \<Rightarrow> db \<Rightarrow> (db \<times> persist_result) option" where
  "insert_message inp r msgId outboxId now d =
     (case allocateSessionSeq (pi_sessionId inp) now d of
        None \<Rightarrow> None
      | Some (d1, seq) \<Rightarrow>
          (let msg = new_message inp msgId seq now
           in case create_message msg d1 of
                None \<Rightarrow> None
              | Some d2 \<Rightarrow>
                  (case allocateUserSeq (pi_userId inp) now d2 of
                     None \<Rightarrow> None
                   | Some (d3, updateSeq) \<Rightarrow>
                       (case create_outbox_row (new_outbox_row inp r d outboxId msgId updateSeq now) d3 of
                          None \<Rightarrow> None
                        | Some d4 \<Rightarrow> Some (d4, PersistSuccess False msg (Some updateSeq))))))"

definition locked_session :: "persist_input \<Rightarrow> db \<Rightarrow> session option" where
  "locked_session inp d =
     find_row (\<lambda>r. s_id r = pi_sessionId inp \<and> s_accountId r = pi_userId inp) (sessions d)"

definition persist_accepted ::
  "persist_input \<Rightarrow> session \<Rightarrow> message option \<Rightarrow> ident \<Rightarrow> ident \<Rightarrow> ts \<Rightarrow> db
   \<Rightarrow> (db \<times> persist_result) option" where
  "persist_accepted inp r existing msgId outboxId now d =
     (case existing of
        Some m \<Rightarrow>
          if \<not> hasCiphertext (m_content m) (pi_ciphertext inp)
          then Some (d, PersistError IdempotencyConflict False)
          else Some (d, PersistSuccess True m None)
      | None \<Rightarrow> insert_message inp r msgId outboxId now d)"

definition persistSessionMessageInTx ::
  "persist_input \<Rightarrow> ident \<Rightarrow> ident \<Rightarrow> ts \<Rightarrow> db \<Rightarrow> (db \<times> persist_result) option" where
  "persistSessionMessageInTx inp msgId outboxId now d =
     (case locked_session inp d of
        None \<Rightarrow> Some (d, PersistError SessionNotFound False)
      | Some r \<Rightarrow>
          (let existing = message_by_localId (pi_sessionId inp) (pi_localId inp) d
           in case pi_runtimeAuthorization inp of
                None \<Rightarrow> persist_accepted inp r existing msgId outboxId now d
              | Some authorization \<Rightarrow>
                  if \<not> message_authorized now d r authorization
                  then
                    (case existing of
                       Some m \<Rightarrow>
                         if is_replay_auth authorization \<and> hasCiphertext (m_content m) (pi_ciphertext inp)
                         then Some (d, PersistSuccess True m None)
                         else Some (d, PersistError RuntimeConnectionStale (stale_retryable d r authorization))
                     | None \<Rightarrow>
                         Some (d, PersistError RuntimeConnectionStale (stale_retryable d r authorization)))
                  else persist_accepted inp r existing msgId outboxId now d))"

definition persistSessionMessage ::
  "persist_input \<Rightarrow> ident \<Rightarrow> ident \<Rightarrow> ts \<Rightarrow> db \<Rightarrow> db \<times> persist_result option" where
  "persistSessionMessage inp msgId outboxId now d =
     throwing (persistSessionMessageInTx inp msgId outboxId now) d"

section \<open>Acknowledgements\<close>

definition persist_error_code :: "persist_error \<Rightarrow> string" where
  "persist_error_code e =
     (case e of SessionNotFound \<Rightarrow> ''session_not_found''
      | IdempotencyConflict \<Rightarrow> ''idempotency_conflict''
      | RuntimeConnectionStale \<Rightarrow> ''runtime_connection_stale'')"

definition error_ack :: "string \<Rightarrow> bool \<Rightarrow> json" where
  "error_ack code retryable =
     JObj [(''result'', JStr ''error''), (''code'', JStr code), (''retryable'', JBool retryable)]"

definition toSessionMessageAck :: "persist_result \<Rightarrow> json" where
  "toSessionMessageAck res =
     (case res of
        PersistError code retryable \<Rightarrow> error_ack (persist_error_code code) retryable
      | PersistSuccess dup m _ \<Rightarrow>
          JObj [(''result'', JStr ''success''), (''duplicate'', JBool dup),
            (''message'', JObj [(''id'', JStr (m_id m)), (''seq'', JNum (m_seq m)),
               (''localId'', nullable (m_localId m)), (''createdAt'', JNum (m_createdAt m)),
               (''updatedAt'', JNum (m_updatedAt m))])])"

section \<open>Cursor replay\<close>

record replay_page =
  rp_messages :: "message list"
  rp_hasMore :: bool
  rp_nextAfterSeq :: int

definition listSessionMessagesAfterSeq :: "ident \<Rightarrow> int \<Rightarrow> nat \<Rightarrow> db \<Rightarrow> replay_page" where
  "listSessionMessagesAfterSeq sid afterSeq limit d =
     (let rows = take (limit + 1) (sort_key m_seq
                   (filter (\<lambda>m. m_sessionId m = sid \<and> m_seq m > afterSeq) (messages d)));
          hasMore = length rows > limit;
          pageRows = (if hasMore then take limit rows else rows)
      in \<lparr>rp_messages = pageRows, rp_hasMore = hasMore,
          rp_nextAfterSeq = (if pageRows \<noteq> [] then m_seq (last pageRows) else afterSeq)\<rparr>)"

definition message_json :: "message \<Rightarrow> json" where
  "message_json m =
     JObj [(''id'', JStr (m_id m)), (''seq'', JNum (m_seq m)), (''content'', m_content m),
       (''localId'', nullable (m_localId m)), (''createdAt'', JNum (m_createdAt m)),
       (''updatedAt'', JNum (m_updatedAt m))]"

definition replay_message_json :: "message \<Rightarrow> json" where
  "replay_message_json m =
     JObj [(''id'', JStr (m_id m)), (''seq'', JNum (m_seq m)), (''localId'', nullable (m_localId m)),
       (''content'', m_content m), (''createdAt'', JNum (m_createdAt m)),
       (''updatedAt'', JNum (m_updatedAt m))]"

definition list_messages_route ::
  "db sched \<Rightarrow> ident \<Rightarrow> ident \<Rightarrow> int option \<Rightarrow> nat \<Rightarrow> db \<Rightarrow> db \<times> reply" where
  "list_messages_route w userId sid afterSeq limit d =
     (case db_call w 0 (\<lambda>d. (d, find_row (\<lambda>r. s_id r = sid \<and> s_accountId r = userId) (sessions d))) d of
        (d1, None) \<Rightarrow> (d1, Threw)
      | (d1, Some None) \<Rightarrow> (d1, Reply 404 (JObj [(''error'', JStr ''Session not found'')]))
      | (d1, Some (Some _)) \<Rightarrow>
         (case afterSeq of
            Some a \<Rightarrow>
             (case db_call w 1 (\<lambda>d. (d, listSessionMessagesAfterSeq sid a limit d)) d1 of
                (d2, None) \<Rightarrow> (d2, Threw)
              | (d2, Some p) \<Rightarrow>
                  (d2, Reply 200 (JObj [(''messages'', JArr (map replay_message_json (rp_messages p))),
                     (''hasMore'', JBool (rp_hasMore p)), (''nextAfterSeq'', JNum (rp_nextAfterSeq p))])))
          | None \<Rightarrow>
             (case db_call w 1 (\<lambda>d. (d, take 150 (sort_key (\<lambda>m. - m_createdAt m)
                          (filter (\<lambda>m. m_sessionId m = sid) (messages d))))) d1 of
                (d2, None) \<Rightarrow> (d2, Threw)
              | (d2, Some ms) \<Rightarrow>
                  (d2, Reply 200 (JObj [(''messages'', JArr (map message_json ms))])))))"

end
