(* ===== verification/ConnectionGuard.thy ===== *)
theory ConnectionGuard
  imports EventRouter RuntimeLease
begin

text \<open>
  The packet fence of session-scoped sockets, \<^verbatim>\<open>api/socket/runtimeConnectionGuard.ts\<close>: which
  packets of a socket reach their handler, and when the socket is rejected and disconnected.
\<close>

definition REPLAY_ONLY_EVENTS :: "string list" where
  "REPLAY_ONLY_EVENTS = [''message'', ''session-end'', ''ping'']"

definition LIVE_SESSION_EVENTS :: "string list" where
  "LIVE_SESSION_EVENTS =
     [''message'', ''session-end'', ''session-alive'', ''update-metadata'', ''update-state'',
      ''usage-report'', ''ping'', ''rpc-register'', ''rpc-unregister'']"

definition SELF_FENCED_EVENTS :: "string list" where
  "SELF_FENCED_EVENTS = [''session-alive'', ''session-end'']"

text \<open>Marks the connection; \<open>True\<close> when the socket is disconnected by this call.\<close>

definition rejectRuntimeConnection :: "session_connection \<Rightarrow> session_connection \<times> bool" where
  "rejectRuntimeConnection c =
     (if sc_runtimeConnectionLeaseRejected c then (c, False)
      else (c\<lparr>sc_runtimeConnectionLeaseRejected := True\<rparr>, True))"

datatype packet_verdict = Pass | Refused string

definition stale_error :: string where "stale_error = ''Runtime connection is stale''"

text \<open>
  The middleware for one packet: the connection afterwards, and whether \<^verbatim>\<open>next()\<close> was called
  without an error.  \<open>eventName\<close> is the first packet element; a packet whose first element is no
  string has the name \<^verbatim>\<open>""\<close>.  \<open>lookup\<close> is the ownership query, \<open>None\<close> when it throws.
\<close>

definition packet_fence ::
  "(unit \<Rightarrow> bool option) \<Rightarrow> session_connection \<Rightarrow> jsval \<Rightarrow> session_connection \<times> packet_verdict" where
  "packet_fence lookup c packet0 =
     (let eventName = (case as_string packet0 of None \<Rightarrow> [] | Some s \<Rightarrow> s)
      in if sc_runtimeConnectionLeaseRejected c then (c, Refused stale_error)
         else if sc_replayOnly c then
           (if eventName \<in> set REPLAY_ONLY_EVENTS then (c, Pass)
            else (fst (rejectRuntimeConnection c),
                  Refused ''Replay transport cannot perform live runtime operations''))
         else if eventName \<notin> set LIVE_SESSION_EVENTS then
           (fst (rejectRuntimeConnection c), Refused ''Session runtime cannot perform this operation'')
         else if eventName \<in> set SELF_FENCED_EVENTS \<or> eventName = ''ping'' then (c, Pass)
         else (case lookup () of
                 None \<Rightarrow> (c, Refused ''Runtime authorization unavailable'')
               | Some owned \<Rightarrow>
                   if \<not> owned then (fst (rejectRuntimeConnection c), Refused stale_error)
                   else (c, Pass)))"

text \<open>\<^verbatim>\<open>installRuntimeConnectionPacketFence\<close>: other connection kinds have no fence.\<close>

fun connection_fence ::
  "bool \<Rightarrow> ts \<Rightarrow> db \<Rightarrow> connection \<Rightarrow> jsval \<Rightarrow> connection \<times> packet_verdict" where
  "connection_fence db_fails now d (SessionScoped c) packet0 =
     (case packet_fence
        (\<lambda>_. if db_fails then None
              else Some (isRuntimeConnectionOwner (sc_userId c) (sc_sessionId c)
                     (sc_sessionInstanceId c) (sc_runtimeConnectionLeaseId c) now d)) c packet0 of
        (c', v) \<Rightarrow> (SessionScoped c', v))"
| "connection_fence db_fails now d c packet0 = (c, Pass)"

section \<open>What passes\<close>

lemma fence_live_pass:
  assumes "connection_fence db_fails now d (SessionScoped c) p = (c', Pass)"
    and "\<not> sc_replayOnly c"
  shows "\<exists>e. p = Some (JStr e) \<and> e \<in> set LIVE_SESSION_EVENTS
     \<and> (e \<notin> {''session-alive'', ''session-end'', ''ping''} \<longrightarrow>
          isRuntimeConnectionOwner (sc_userId c) (sc_sessionId c) (sc_sessionInstanceId c)
            (sc_runtimeConnectionLeaseId c) now d)"
  using assms
  by (auto simp: packet_fence_def Let_def LIVE_SESSION_EVENTS_def SELF_FENCED_EVENTS_def
      split: if_splits option.splits prod.splits)

lemma fence_replay_pass:
  assumes "connection_fence db_fails now d (SessionScoped c) p = (c', Pass)" and "sc_replayOnly c"
  shows "\<exists>e. p = Some (JStr e) \<and> e \<in> {''message'', ''session-end'', ''ping''}"
  using assms
  by (auto simp: packet_fence_def Let_def REPLAY_ONLY_EVENTS_def
      split: if_splits option.splits prod.splits)

lemma fence_rejected:
  "sc_runtimeConnectionLeaseRejected c \<Longrightarrow>
     connection_fence db_fails now d (SessionScoped c) p = (SessionScoped c, Refused stale_error)"
  by (simp add: packet_fence_def)

end
