(* ===== verification/SessionUpdate.thy ===== *)
theory SessionUpdate
  imports SessionMessage ConnectionGuard
begin

text \<open>
  The socket handlers of \<^verbatim>\<open>api/socket/sessionUpdateHandler.ts\<close>: metadata and state updates with
  their version and lease fences, heartbeats, messages and session ends.

  A handler runs under a \<open>sched\<close> that numbers its awaited database statements in program
  order; \<open>clk k\<close> is the database clock at statement \<open>k\<close>, \<open>jsnow\<close> the clock of the process.
  Its result is the database and the effects in order: acknowledgements, emissions,
  activity publications, rejections of the connection and wake-ups of the dispatcher.  A
  client without an acknowledgement callback receives no \<open>Ack\<close>; every call of the callback
  is the last step of its path, so nothing else changes.
\<close>

datatype effect =
    Ack json
  | Emit emission
  | Publish activity
  | RejectConnection
  | WakeDispatcher

section \<open>Write authorization\<close>

text \<open>\<open>None\<close> is \<^verbatim>\<open>null\<close>; the pair is the spread tuple of instance and lease id.\<close>

fun runtimeWriteAuthorization ::
  "connection \<Rightarrow> jsval \<Rightarrow> (ident option \<times> ident option) option" where
  "runtimeWriteAuthorization (SessionScoped c) sid =
     (if sc_replayOnly c \<or> Some (JStr (sc_sessionId c)) \<noteq> sid then None
      else if truthy (sc_sessionInstanceId c) \<and> truthy (sc_runtimeConnectionLeaseId c)
      then Some (sc_sessionInstanceId c, sc_runtimeConnectionLeaseId c)
      else if \<not> truthy (sc_sessionInstanceId c) \<and> \<not> truthy (sc_runtimeConnectionLeaseId c)
      then Some (None, None)
      else None)"
| "runtimeWriteAuthorization _ sid = Some (None, None)"

fun is_session_scoped :: "connection \<Rightarrow> bool" where
  "is_session_scoped (SessionScoped c) = True"
| "is_session_scoped _ = False"

fun stillOwnsRuntimeConnection :: "ident \<Rightarrow> connection \<Rightarrow> ident \<Rightarrow> ts \<Rightarrow> db \<Rightarrow> bool" where
  "stillOwnsRuntimeConnection userId (SessionScoped c) sid now d =
     isRuntimeConnectionOwner userId sid (sc_sessionInstanceId c) (sc_runtimeConnectionLeaseId c) now d"
| "stillOwnsRuntimeConnection userId _ sid now d = True"

section \<open>The statements of the handlers\<close>

definition find_session :: "ident \<Rightarrow> ident \<Rightarrow> db \<Rightarrow> session option" where
  "find_session sid userId d =
     find_row (\<lambda>r. s_id r = sid \<and> s_accountId r = userId) (sessions d)"

definition user_update_metadata ::
  "ident \<Rightarrow> ident \<Rightarrow> int \<Rightarrow> string \<Rightarrow> ts \<Rightarrow> db \<Rightarrow> db \<times> bool" where
  "user_update_metadata userId sid expectedVersion metadata now d =
     (let P = (\<lambda>r. s_id r = sid \<and> s_accountId r = userId \<and> s_metadataVersion r = expectedVersion)
      in (d\<lparr>sessions := update_rows P
              (\<lambda>r. r\<lparr>s_metadata := metadata, s_metadataVersion := expectedVersion + 1,
                     s_updatedAt := now\<rparr>) (sessions d)\<rparr>,
          count_rows P (sessions d) > 0))"

definition user_update_state ::
  "ident \<Rightarrow> ident \<Rightarrow> int \<Rightarrow> string option \<Rightarrow> ts \<Rightarrow> db \<Rightarrow> db \<times> bool" where
  "user_update_state userId sid expectedVersion agentState now d =
     (let P = (\<lambda>r. s_id r = sid \<and> s_accountId r = userId \<and> s_agentStateVersion r = expectedVersion)
      in (d\<lparr>sessions := update_rows P
              (\<lambda>r. r\<lparr>s_agentState := agentState, s_agentStateVersion := expectedVersion + 1,
                     s_updatedAt := now\<rparr>) (sessions d)\<rparr>,
          count_rows P (sessions d) > 0))"

definition legacy_session_end ::
  "ident \<Rightarrow> ident \<Rightarrow> ts \<Rightarrow> ident \<Rightarrow> ts \<Rightarrow> db \<Rightarrow> db \<times> nat" where
  "legacy_session_end userId sid t tombstone now d =
     (let P = (\<lambda>r. s_id r = sid \<and> s_accountId r = userId \<and> s_lastActiveAt r \<le> t
                 \<and> s_activeInstanceId r = None
                 \<and> s_runtimeConnectionLeaseId r = None
                 \<and> s_runtimeConnectionLeaseInstanceId r = None
                 \<and> s_runtimeConnectionLeaseExpiresAt r = None)
      in (d\<lparr>sessions := update_rows P
              (\<lambda>r. r\<lparr>s_lastActiveAt := t, s_active := False,
                     s_runtimeConnectionLeaseId := Some tombstone,
                     s_runtimeConnectionLeaseInstanceId := None,
                     s_runtimeConnectionLeaseExpiresAt := Some t,
                     s_updatedAt := now\<rparr>) (sessions d)\<rparr>,
          count_rows P (sessions d)))"

section \<open>update-metadata and update-state\<close>

definition error_result :: json where
  "error_result = JObj [(''result'', JStr ''error'')]"

definition result_json :: "string \<Rightarrow> int \<Rightarrow> string \<Rightarrow> json \<Rightarrow> json" where
  "result_json res version field value =
     JObj [(''result'', JStr res), (''version'', JNum version), (field, value)]"

definition write_metadata ::
  "connection \<Rightarrow> ident \<Rightarrow> ident \<Rightarrow> ident option \<times> ident option \<Rightarrow> int \<Rightarrow> string \<Rightarrow> ts \<Rightarrow> db \<Rightarrow> db \<times> bool" where
  "write_metadata conn userId sid auth expectedVersion metadata now d =
     (if is_session_scoped conn
      then updateRuntimeSessionMetadata userId sid (fst auth) (snd auth) expectedVersion metadata now d
      else user_update_metadata userId sid expectedVersion metadata now d)"

definition write_state ::
  "connection \<Rightarrow> ident \<Rightarrow> ident \<Rightarrow> ident option \<times> ident option \<Rightarrow> int \<Rightarrow> string option \<Rightarrow> ts \<Rightarrow> db \<Rightarrow> db \<times> bool" where
  "write_state conn userId sid auth expectedVersion agentState now d =
     (if is_session_scoped conn
      then updateRuntimeSessionState userId sid (fst auth) (snd auth) expectedVersion agentState now d
      else user_update_state userId sid expectedVersion agentState now d)"

text \<open>The branch after a lost compare-and-set (\<^verbatim>\<open>count === 0\<close>).\<close>

definition lost_write ::
  "db sched \<Rightarrow> (nat \<Rightarrow> ts) \<Rightarrow> ident \<Rightarrow> connection \<Rightarrow> ident \<Rightarrow> session
   \<Rightarrow> (session \<Rightarrow> json) \<Rightarrow> (session \<Rightarrow> session \<Rightarrow> json) \<Rightarrow> db \<Rightarrow> db \<times> effect list" where
  "lost_write w clk userId conn sid seen mismatch merged d =
     (if is_session_scoped conn
      then (case db_call w 2 (\<lambda>d. (d, stillOwnsRuntimeConnection userId conn sid (clk 2) d)) d of
              (d1, None) \<Rightarrow> (d1, [Ack error_result])
            | (d1, Some False) \<Rightarrow> (d1, [RejectConnection, Ack error_result])
            | (d1, Some True) \<Rightarrow>
               (case db_call w 3 (\<lambda>d. (d, find_session sid userId d)) d1 of
                  (d2, None) \<Rightarrow> (d2, [Ack error_result])
                | (d2, Some None) \<Rightarrow> (d2, [Ack (mismatch seen)])
                | (d2, Some (Some cur)) \<Rightarrow> (d2, [Ack (merged cur seen)])))
      else (d, [Ack (mismatch seen)]))"

definition metadata_mismatch :: "session \<Rightarrow> json" where
  "metadata_mismatch r =
     result_json ''version-mismatch'' (s_metadataVersion r) ''metadata'' (JStr (s_metadata r))"

definition state_mismatch :: "session \<Rightarrow> json" where
  "state_mismatch r =
     result_json ''version-mismatch'' (s_agentStateVersion r) ''agentState'' (nullable (s_agentState r))"

text \<open>\<^verbatim>\<open>current?.agentState ?? session.agentState\<close>: a NULL state falls back to the one seen before.\<close>

definition state_mismatch_merged :: "session \<Rightarrow> session \<Rightarrow> json" where
  "state_mismatch_merged cur seen =
     result_json ''version-mismatch'' (s_agentStateVersion cur) ''agentState''
       (nullable (case s_agentState cur of None \<Rightarrow> s_agentState seen | Some s \<Rightarrow> Some s))"

definition emit_session_update ::
  "db sched \<Rightarrow> nat \<Rightarrow> ts \<Rightarrow> ident \<Rightarrow> ident \<Rightarrow> (int \<Rightarrow> update_payload) \<Rightarrow> json \<Rightarrow> db \<Rightarrow> db \<times> effect list" where
  "emit_session_update w k now userId sid payload success d =
     (case db_call w k (throwing (allocateUserSeq userId now)) d of
        (d1, Some (Some updSeq)) \<Rightarrow>
          (d1, [Emit (EmitUpdate userId (payload updSeq) (AllInterestedInSession sid)), Ack success])
      | (d1, _) \<Rightarrow> (d1, [Ack error_result]))"

definition handle_update_metadata ::
  "db sched \<Rightarrow> (nat \<Rightarrow> ts) \<Rightarrow> ident \<Rightarrow> ident \<Rightarrow> connection \<Rightarrow> jsval \<Rightarrow> db \<Rightarrow> db \<times> effect list" where
  "handle_update_metadata w clk updId userId conn data d =
     (if nullish data then (d, [Ack error_result])
      else let sidv = get_prop data ''sid'' in
      case (as_string (get_prop data ''metadata''), as_number (get_prop data ''expectedVersion'')) of
        (Some metadata, Some expectedVersion) \<Rightarrow>
          if \<not> js_truthy sidv then (d, [Ack error_result])
          else (case runtimeWriteAuthorization conn sidv of
             None \<Rightarrow> (d, [Ack error_result] @ (if is_session_scoped conn then [RejectConnection] else []))
           | Some auth \<Rightarrow>
              (case as_string sidv of
                 None \<Rightarrow> (d, [Ack error_result])
               | Some sid \<Rightarrow>
                  (case db_call w 0 (\<lambda>d. (d, find_session sid userId d)) d of
                     (d1, None) \<Rightarrow> (d1, [Ack error_result])
                   | (d1, Some None) \<Rightarrow> (d1, [])
                   | (d1, Some (Some seen)) \<Rightarrow>
                      if s_metadataVersion seen \<noteq> expectedVersion
                      then (d1, [Ack (metadata_mismatch seen)])
                      else (case db_call w 1 (write_metadata conn userId sid auth expectedVersion
                                                metadata (clk 1)) d1 of
                         (d2, None) \<Rightarrow> (d2, [Ack error_result])
                       | (d2, Some False) \<Rightarrow>
                           lost_write w clk userId conn sid seen metadata_mismatch
                             (\<lambda>cur _. metadata_mismatch cur) d2
                       | (d2, Some True) \<Rightarrow>
                           emit_session_update w 2 (clk 2) userId sid
                             (\<lambda>updSeq. buildUpdateSessionUpdate sid updSeq updId
                                (Some (Some metadata, expectedVersion + 1)) None (clk 2))
                             (result_json ''success'' (expectedVersion + 1) ''metadata'' (JStr metadata))
                             d2))))
      | _ \<Rightarrow> (d, [Ack error_result]))"

definition parse_agentState :: "jsval \<Rightarrow> string option option" where
  "parse_agentState v =
     (case v of Some (JStr s) \<Rightarrow> Some (Some s) | Some JNull \<Rightarrow> Some None | _ \<Rightarrow> None)"

definition handle_update_state ::
  "db sched \<Rightarrow> (nat \<Rightarrow> ts) \<Rightarrow> ident \<Rightarrow> ident \<Rightarrow> connection \<Rightarrow> jsval \<Rightarrow> db \<Rightarrow> db \<times> effect list" where
  "handle_update_state w clk updId userId conn data d =
     (if nullish data then (d, [Ack error_result])
      else let sidv = get_prop data ''sid'' in
      case (parse_agentState (get_prop data ''agentState''),
            as_number (get_prop data ''expectedVersion'')) of
        (Some agentState, Some expectedVersion) \<Rightarrow>
          if \<not> js_truthy sidv then (d, [Ack error_result])
          else (case runtimeWriteAuthorization conn sidv of
             None \<Rightarrow> (d, [Ack error_result] @ (if is_session_scoped conn then [RejectConnection] else []))
           | Some auth \<Rightarrow>
              (case as_string sidv of
                 None \<Rightarrow> (d, [Ack error_result])
               | Some sid \<Rightarrow>
                  (case db_call w 0 (\<lambda>d. (d, find_session sid userId d)) d of
                     (d1, None) \<Rightarrow> (d1, [Ack error_result])
                   | (d1, Some None) \<Rightarrow> (d1, [Ack error_result])
                   | (d1, Some (Some seen)) \<Rightarrow>
                      if s_agentStateVersion seen \<noteq> expectedVersion
                      then (d1, [Ack (state_mismatch seen)])
                      else (case db_call w 1 (write_state conn userId sid auth expectedVersion
                                                agentState (clk 1)) d1 of
                         (d2, None) \<Rightarrow> (d2, [Ack error_result])
                       | (d2, Some False) \<Rightarrow>
                           lost_write w clk userId conn sid seen state_mismatch state_mismatch_merged d2
                       | (d2, Some True) \<Rightarrow>
                           emit_session_update w 2 (clk 2) userId sid
                             (\<lambda>updSeq. buildUpdateSessionUpdate sid updSeq updId
                                None (Some (agentState, expectedVersion + 1)) (clk 2))
                             (result_json ''success'' (expectedVersion + 1) ''agentState''
                                (nullable agentState))
                             d2))))
      | _ \<Rightarrow> (d, [Ack error_result]))"

section \<open>session-alive\<close>

definition handle_session_alive ::
  "db sched \<Rightarrow> (nat \<Rightarrow> ts) \<Rightarrow> ts \<Rightarrow> ident \<Rightarrow> connection \<Rightarrow> jsval \<Rightarrow> db \<Rightarrow> db \<times> effect list" where
  "handle_session_alive w clk receivedAt userId conn data d =
     (if \<not> js_truthy data \<or> as_number (get_prop data ''time'') = None
         \<or> \<not> js_truthy (get_prop data ''sid'')
      then (d, [])
      else (case conn of
        SessionScoped c \<Rightarrow>
          if sc_replayOnly c \<or> get_prop data ''sid'' \<noteq> Some (JStr (sc_sessionId c)) then (d, [])
          else
            let sid = sc_sessionId c;
                modernConnection = (truthy (sc_sessionInstanceId c)
                                    \<and> truthy (sc_runtimeConnectionLeaseId c));
                legacyConnection = (\<not> truthy (sc_sessionInstanceId c)
                                    \<and> \<not> truthy (sc_runtimeConnectionLeaseId c))
            in if \<not> modernConnection \<and> \<not> legacyConnection then (d, [])
               else if sc_runtimeConnectionLeaseRejected c then (d, [])
               else (case db_call w 0
                       (if modernConnection
                        then renewRuntimeConnectionLease userId sid (the (sc_sessionInstanceId c))
                               (the (sc_runtimeConnectionLeaseId c)) (clk 0)
                        else renewLegacyRuntimeConnection userId sid (clk 0)) d of
                  (d1, None) \<Rightarrow> (d1, [])
                | (d1, Some False) \<Rightarrow> (d1, [RejectConnection])
                | (d1, Some True) \<Rightarrow>
                    (d1, [Publish \<lparr>ac_userId = userId, ac_sessionId = sid, ac_active = True,
                            ac_activeAt = receivedAt,
                            ac_thinking = js_truthy (get_prop data ''thinking'')\<rparr>]))
      | _ \<Rightarrow> (d, [])))"

section \<open>message\<close>

definition MAX_SESSION_MESSAGE_CIPHERTEXT_BYTES :: nat where
  "MAX_SESSION_MESSAGE_CIPHERTEXT_BYTES = 7 * 1024 * 1024"

fun connection_authorization :: "connection \<Rightarrow> message_authorization option" where
  "connection_authorization (SessionScoped c) =
     Some (if sc_replayOnly c
           then AuthReplay
                  (if truthy (sc_sessionInstanceId c) then sc_sessionInstanceId c else None)
                  (if truthy (sc_runtimeConnectionLeaseId c) then sc_runtimeConnectionLeaseId c else None)
           else if truthy (sc_sessionInstanceId c) \<and> truthy (sc_runtimeConnectionLeaseId c)
           then AuthLease (the (sc_sessionInstanceId c)) (the (sc_runtimeConnectionLeaseId c))
           else AuthLegacy)"
| "connection_authorization _ = None"

fun wrong_session :: "connection \<Rightarrow> ident \<Rightarrow> bool" where
  "wrong_session (SessionScoped c) sid = (sid \<noteq> sc_sessionId c)"
| "wrong_session _ sid = False"

definition invalid_request :: json where
  "invalid_request = error_ack ''invalid_request'' False"

definition internal_error :: json where
  "internal_error = error_ack ''internal_error'' True"

fun is_stale_error :: "persist_result \<Rightarrow> bool" where
  "is_stale_error (PersistError RuntimeConnectionStale _) = True"
| "is_stale_error _ = False"

fun is_success :: "persist_result \<Rightarrow> bool" where
  "is_success (PersistSuccess _ _ _) = True"
| "is_success _ = False"

definition handle_message ::
  "(string \<Rightarrow> bool) \<Rightarrow> db sched \<Rightarrow> (nat \<Rightarrow> ts) \<Rightarrow> ident \<Rightarrow> ident \<Rightarrow> ident \<Rightarrow> connection \<Rightarrow> jsval
   \<Rightarrow> db \<Rightarrow> db \<times> effect list" where
  "handle_message uuid_valid w clk msgId outboxId userId conn data d =
     (if \<not> js_truthy data then (d, [Ack invalid_request])
      else (case (as_string (get_prop data ''sid''), as_string (get_prop data ''message'')) of
        (Some sid, Some msg) \<Rightarrow>
          if sid = [] then (d, [Ack invalid_request])
          else if length msg > MAX_SESSION_MESSAGE_CIPHERTEXT_BYTES then (d, [Ack invalid_request])
          else (case parseSessionMessageLocalId uuid_valid (get_prop data ''localId'') of
             None \<Rightarrow> (d, [Ack invalid_request])
           | Some localId \<Rightarrow>
               if wrong_session conn sid then (d, [Ack invalid_request, RejectConnection])
               else (case db_call w 0 (persistSessionMessage
                        \<lparr>pi_userId = userId, pi_sessionId = sid, pi_ciphertext = msg,
                         pi_localId = localId, pi_originSocketId = Some (conn_socketId conn),
                         pi_runtimeAuthorization = connection_authorization conn\<rparr>
                        msgId outboxId (clk 0)) d of
                  (d1, Some (Some res)) \<Rightarrow>
                    (d1, (if is_success res then [WakeDispatcher] else [])
                       @ [Ack (toSessionMessageAck res)]
                       @ (if is_stale_error res \<and> is_session_scoped conn then [RejectConnection] else []))
                | (d1, _) \<Rightarrow> (d1, [Ack internal_error])))
      | _ \<Rightarrow> (d, [Ack invalid_request])))"

section \<open>session-end\<close>

definition end_success :: "string option \<Rightarrow> json" where
  "end_success localId = JObj [(''result'', JStr ''success''), (''localId'', nullable localId)]"

definition end_activity :: "ident \<Rightarrow> ident \<Rightarrow> ts \<Rightarrow> activity" where
  "end_activity userId sid endedAt =
     \<lparr>ac_userId = userId, ac_sessionId = sid, ac_active = False, ac_activeAt = endedAt,
      ac_thinking = False\<rparr>"

text \<open>The end of a known session; \<open>tomb\<close> is the tombstone id drawn by either statement.\<close>

definition perform_session_end ::
  "db sched \<Rightarrow> (nat \<Rightarrow> ts) \<Rightarrow> ident \<Rightarrow> ident \<Rightarrow> ident \<Rightarrow> ident option \<Rightarrow> ts \<Rightarrow> string option
   \<Rightarrow> db \<Rightarrow> db \<times> effect list" where
  "perform_session_end w clk tomb userId sid inst t localId d =
     (if truthy inst
      then (case db_call w 1 (endRuntimeConnectionLease userId sid (the inst) tomb (clk 1)) d of
              (d1, None) \<Rightarrow> (d1, [Ack internal_error])
            | (d1, Some (Some endedAt)) \<Rightarrow>
                (d1, [Publish (end_activity userId sid endedAt), Ack (end_success localId)])
            | (d1, Some None) \<Rightarrow> (d1, [Ack (end_success localId)]))
      else (case db_call w 1 (legacy_session_end userId sid t tomb (clk 1)) d of
              (d1, None) \<Rightarrow> (d1, [Ack internal_error])
            | (d1, Some n) \<Rightarrow>
                (d1, (if n > 0 then [Publish (end_activity userId sid t)] else [])
                   @ [Ack (end_success localId)])))"

definition handle_session_end ::
  "(string \<Rightarrow> bool) \<Rightarrow> db sched \<Rightarrow> (nat \<Rightarrow> ts) \<Rightarrow> ts \<Rightarrow> ident \<Rightarrow> ident \<Rightarrow> connection \<Rightarrow> jsval
   \<Rightarrow> db \<Rightarrow> db \<times> effect list" where
  "handle_session_end uuid_valid w clk jsnow tomb userId conn data d =
     (if \<not> js_truthy data then (d, [Ack invalid_request])
      else (case (as_string (get_prop data ''sid''), as_number (get_prop data ''time''), conn) of
        (Some sid, Some time, SessionScoped c) \<Rightarrow>
          if sid = [] \<or> sid \<noteq> sc_sessionId c then (d, [Ack invalid_request])
          else (case (parseSessionMessageLocalId uuid_valid (get_prop data ''localId''),
                      parseSessionMessageLocalId uuid_valid (get_prop data ''sessionInstanceId'')) of
             (Some localId, Some requested) \<Rightarrow>
               if (localId = None) \<noteq> (requested = None) then (d, [Ack invalid_request])
               else if requested \<noteq> (if sc_replayOnly c then sc_replayRequestedSessionInstanceId c
                                   else sc_sessionInstanceId c)
               then (d, [Ack invalid_request])
               else
                 let inst = (if sc_replayOnly c
                             then (case requested of None \<Rightarrow> sc_sessionInstanceId c | Some i \<Rightarrow> Some i)
                             else requested)
                 in if sc_replayOnly c \<and> inst = None then (d, [Ack (end_success localId)])
                    else (case db_call w 0 (\<lambda>d. (d, find_session sid userId d)) d of
                       (d1, None) \<Rightarrow> (d1, [Ack internal_error])
                     | (d1, Some None) \<Rightarrow> (d1, [Ack (error_ack ''session_not_found'' False)])
                     | (d1, Some (Some _)) \<Rightarrow>
                         perform_session_end w clk tomb userId sid inst (min time jsnow) localId d1)
           | _ \<Rightarrow> (d, [Ack invalid_request]))
      | _ \<Rightarrow> (d, [Ack invalid_request])))"

lemma result_json_inj [simp]:
  "result_json r v f x = result_json r' v' f' x' \<longleftrightarrow> r = r' \<and> v = v' \<and> f = f' \<and> x = x'"
  by (auto simp: result_json_def)

end
