(* ===== verification/LeaseProtocol.thy ===== *)
theory LeaseProtocol
  imports SessionUpdate
begin

text \<open>
  The lease invariant of the session table and the contract every statement that touches
  session rows or retirements keeps.  The contract is the locale \<open>lease_statement\<close>; it is
  interpreted on each statement of the server, and \<open>lease_neutral\<close> (statements that keep the
  lease columns and never activate a row) gives it for the plain updates.

  The database clock is taken to be non-decreasing from one statement to the next: all
  statements read \<^verbatim>\<open>CURRENT_TIMESTAMP\<close> of one PostgreSQL server.
\<close>

section \<open>The invariant\<close>

text \<open>
  The lease columns have three shapes: never leased, the tombstone of a legacy end (no
  incarnation), and a lease of the incarnation the row names, which expires at most one lease
  duration from now.  An active row names no retired incarnation.
\<close>

definition lease_shape ::
  "ts \<Rightarrow> ident option \<Rightarrow> ident option \<Rightarrow> ident option \<Rightarrow> ts option \<Rightarrow> bool" where
  "lease_shape now act lid linst expires =
    (case (lid, linst, expires) of
       (None, None, None) \<Rightarrow> True
     | (Some _, None, Some _) \<Rightarrow> act = None
     | (Some _, Some i, Some e) \<Rightarrow> act = Some i \<and> e \<le> now + RUNTIME_CONNECTION_LEASE_DURATION_MS
     | _ \<Rightarrow> False)"

lemma lease_shape_simps [simp]:
  "lease_shape now act None None None"
  "lease_shape now act (Some l) None (Some e) \<longleftrightarrow> act = None"
  "lease_shape now act (Some l) (Some i) (Some e) \<longleftrightarrow>
     act = Some i \<and> e \<le> now + RUNTIME_CONNECTION_LEASE_DURATION_MS"
  "\<not> lease_shape now act None (Some i) x"
  "\<not> lease_shape now act None y (Some e)"
  "\<not> lease_shape now act (Some l) y None"
  by (auto simp: lease_shape_def split: option.splits)

definition not_retired :: "retirement list \<Rightarrow> ident \<Rightarrow> ident option \<Rightarrow> bool" where
  "not_retired rts sid act = (case act of None \<Rightarrow> True | Some i \<Rightarrow> \<not> retired_in sid i rts)"

lemma not_retired_simps [simp]:
  "not_retired rts sid None"
  "not_retired rts sid (Some i) \<longleftrightarrow> \<not> retired_in sid i rts"
  by (simp_all add: not_retired_def)

definition row_wf :: "ts \<Rightarrow> retirement list \<Rightarrow> session \<Rightarrow> bool" where
  "row_wf now rts r =
    (lease_shape now (s_activeInstanceId r) (s_runtimeConnectionLeaseId r)
       (s_runtimeConnectionLeaseInstanceId r) (s_runtimeConnectionLeaseExpiresAt r)
   \<and> (s_active r \<longrightarrow> not_retired rts (s_id r) (s_activeInstanceId r)))"

definition lease_wf :: "ts \<Rightarrow> db \<Rightarrow> bool" where
  "lease_wf now d =
    (keys_ok d
   \<and> (\<forall>t \<in> set (retirements d). \<exists>r \<in> set (sessions d). s_id r = r_sessionId t)
   \<and> (\<forall>r \<in> set (sessions d). row_wf now (retirements d) r))"

lemma lease_wfD:
  assumes "lease_wf now d"
  shows "keys_ok d"
    and "t \<in> set (retirements d) \<Longrightarrow> \<exists>r \<in> set (sessions d). s_id r = r_sessionId t"
    and "r \<in> set (sessions d) \<Longrightarrow> row_wf now (retirements d) r"
  using assms by (auto simp: lease_wf_def)

lemma row_wf_later:
  assumes "row_wf now0 rts r" and "now0 \<le> now"
  shows "row_wf now rts r"
proof -
  have "lease_shape now act lid linst ex" if "lease_shape now0 act lid linst ex" for act lid linst ex
    using that assms(2) by (cases lid; cases linst; cases ex) auto
  with assms(1) show ?thesis by (simp add: row_wf_def)
qed

section \<open>The contract of a statement\<close>

definition row_origin :: "ident set \<Rightarrow> db \<Rightarrow> session \<Rightarrow> bool" where
  "row_origin drawn d r' =
    ((\<exists>r \<in> set (sessions d). s_id r = s_id r'
        \<and> (s_runtimeConnectionLeaseId r' = s_runtimeConnectionLeaseId r
           \<or> (\<exists>l \<in> drawn. s_runtimeConnectionLeaseId r' = Some l)))
   \<or> (s_id r' \<in> drawn \<and> s_runtimeConnectionLeaseId r' = None))"

locale lease_statement =
  fixes stmt :: "ts \<Rightarrow> db \<Rightarrow> db"
    and drawn :: "ident set"
  assumes wf_kept: "lease_wf now0 d \<Longrightarrow> now0 \<le> now \<Longrightarrow> lease_wf now (stmt now d)"
    and rows_from: "r' \<in> set (sessions (stmt now d)) \<Longrightarrow> row_origin drawn d r'"
    and retired_kept: "retired sid i d \<Longrightarrow> r' \<in> set (sessions (stmt now d)) \<Longrightarrow> s_id r' = sid
      \<Longrightarrow> retired sid i (stmt now d)"
begin

text \<open>A lease id that is on no row of the session stays off it, unless it is drawn anew.\<close>

lemma lease_stays_lost:
  assumes "\<forall>r \<in> set (sessions d). s_id r = sid \<longrightarrow> s_runtimeConnectionLeaseId r \<noteq> Some l"
    and "l \<notin> drawn"
  shows "\<forall>r \<in> set (sessions (stmt now d)). s_id r = sid \<longrightarrow> s_runtimeConnectionLeaseId r \<noteq> Some l"
  using assms rows_from by (fastforce simp: row_origin_def)

text \<open>The retirement of an incarnation lasts as long as its session.\<close>

lemma retired_or_gone:
  assumes "retired sid i d \<or> (\<forall>r \<in> set (sessions d). s_id r \<noteq> sid)" and "sid \<notin> drawn"
  shows "retired sid i (stmt now d) \<or> (\<forall>r \<in> set (sessions (stmt now d)). s_id r \<noteq> sid)"
  using assms rows_from retired_kept by (fastforce simp: row_origin_def)

end

subsection \<open>Statements that leave the lease columns alone\<close>

definition neutral_row :: "session \<Rightarrow> session \<Rightarrow> bool" where
  "neutral_row r r' =
    (s_id r' = s_id r \<and> s_accountId r' = s_accountId r
   \<and> s_activeInstanceId r' = s_activeInstanceId r
   \<and> s_runtimeConnectionLeaseId r' = s_runtimeConnectionLeaseId r
   \<and> s_runtimeConnectionLeaseInstanceId r' = s_runtimeConnectionLeaseInstanceId r
   \<and> s_runtimeConnectionLeaseExpiresAt r' = s_runtimeConnectionLeaseExpiresAt r
   \<and> (s_active r' \<longrightarrow> s_active r))"

lemma neutral_row_refl [simp]: "neutral_row r r"
  by (simp add: neutral_row_def)

lemma neutral_rows_keys:
  "list_all2 neutral_row rs rs' \<Longrightarrow> map s_id rs' = map s_id rs"
  by (induction rs rs' rule: list_all2_induct) (auto simp: neutral_row_def)

lemma neutral_rows_origin:
  "list_all2 neutral_row rs rs' \<Longrightarrow> r' \<in> set rs' \<Longrightarrow> \<exists>r \<in> set rs. neutral_row r r'"
  by (induction rs rs' rule: list_all2_induct) auto

lemma neutral_rows_update [intro]:
  "(\<And>r. P r \<Longrightarrow> neutral_row r (f r)) \<Longrightarrow> list_all2 neutral_row rs (update_rows P f rs)"
  by (induction rs) auto

lemma neutral_rows_refl [simp]: "list_all2 neutral_row rs rs"
  by (simp add: list_all2_refl)

lemma neutral_row_wf: "neutral_row r r' \<Longrightarrow> row_wf now rts r \<Longrightarrow> row_wf now rts r'"
  unfolding neutral_row_def row_wf_def by (elim conjE) simp

locale lease_neutral =
  fixes stmt :: "ts \<Rightarrow> db \<Rightarrow> db"
  assumes neutral: "list_all2 neutral_row (sessions d) (sessions (stmt now d))"
    and same_retirements: "retirements (stmt now d) = retirements d"
begin

lemma neutral_wf:
  assumes "lease_wf now0 d" and "now0 \<le> now"
  shows "lease_wf now (stmt now d)"
proof -
  note keys = neutral_rows_keys [OF neutral [of d now]]
  have "s_id ` set (sessions (stmt now d)) = s_id ` set (sessions d)"
    by (metis keys list.set_map)
  then have "\<forall>t \<in> set (retirements d). \<exists>r \<in> set (sessions (stmt now d)). s_id r = r_sessionId t"
    using lease_wfD(2) [OF assms(1)] by (metis imageE imageI)
  moreover have "keys_ok (stmt now d)"
    using lease_wfD(1) [OF assms(1)] keys by (simp add: keys_ok_def unique_by_def same_retirements)
  moreover have "row_wf now (retirements d) r'" if "r' \<in> set (sessions (stmt now d))" for r'
    using neutral_rows_origin [OF neutral that] lease_wfD(3) [OF assms(1)]
    by (metis assms(2) neutral_row_wf row_wf_later)
  ultimately show ?thesis by (simp add: lease_wf_def same_retirements)
qed

end

sublocale lease_neutral \<subseteq> lease_statement stmt "{}"
proof
  fix r' now d
  assume "r' \<in> set (sessions (stmt now d))"
  then show "row_origin {} d r'"
    using neutral_rows_origin [OF neutral] by (fastforce simp: row_origin_def neutral_row_def)
qed (auto simp: neutral_wf retired_def same_retirements)

context lease_neutral
begin

lemma neutral_statement: "lease_statement stmt {}"
  by unfold_locales

end

subsection \<open>Statements that rewrite session rows and add retirements\<close>

text \<open>What a rewrite of the rows selected by \<open>P\<close> owes for the invariant.\<close>

lemma lease_wf_rewrite:
  assumes "lease_wf now0 d" and "now0 \<le> now"
    and "\<And>r. P r \<Longrightarrow> s_id (f r) = s_id r"
    and "unique_by (\<lambda>t. (r_sessionId t, r_instanceId t)) rts"
    and "\<And>t. t \<in> set rts \<Longrightarrow> \<exists>r \<in> set (sessions d). s_id r = r_sessionId t"
    and "\<And>r. r \<in> set (sessions d) \<Longrightarrow> P r \<Longrightarrow> row_wf now (retirements d) r \<Longrightarrow> row_wf now rts (f r)"
    and "\<And>r. r \<in> set (sessions d) \<Longrightarrow> \<not> P r \<Longrightarrow> row_wf now (retirements d) r \<Longrightarrow> row_wf now rts r"
  shows "lease_wf now (d\<lparr>sessions := update_rows P f (sessions d), retirements := rts\<rparr>)"
proof -
  have "unique_by s_id (update_rows P f (sessions d))"
    using lease_wfD(1) [OF assms(1)] assms(3) by (auto dest: keys_okD)
  moreover have "\<exists>r \<in> set (update_rows P f (sessions d)). s_id r = r_sessionId t" if t: "t \<in> set rts" for t
  proof -
    obtain r where r: "r \<in> set (sessions d)" "s_id r = r_sessionId t" using assms(5) t by blast
    then have "s_id (if P r then f r else r) = r_sessionId t" using assms(3) by simp
    with r(1) show ?thesis unfolding set_update_rows by blast
  qed
  moreover have "row_wf now rts r" if "r \<in> set (update_rows P f (sessions d))" for r
    using that assms(6,7) row_wf_later [OF lease_wfD(3) [OF assms(1)] assms(2)]
    by (auto simp: set_update_rows split: if_splits)
  ultimately show ?thesis using assms(4) by (simp add: lease_wf_def keys_ok_def)
qed

lemma lease_wf_update:
  assumes "lease_wf now0 d" and "now0 \<le> now"
    and "\<And>r. P r \<Longrightarrow> s_id (f r) = s_id r"
    and "\<And>r. r \<in> set (sessions d) \<Longrightarrow> P r \<Longrightarrow> row_wf now (retirements d) r \<Longrightarrow>
           row_wf now (retirements d) (f r)"
  shows "lease_wf now (d\<lparr>sessions := update_rows P f (sessions d)\<rparr>)"
  using lease_wf_rewrite [of now0 d now P f "retirements d"] assms lease_wfD [OF assms(1)]
  by (auto dest: keys_okD)

lemma row_origin_update:
  assumes "r' \<in> set (update_rows P f (sessions d))"
    and "\<And>r. P r \<Longrightarrow> s_id (f r) = s_id r"
    and "\<And>r. P r \<Longrightarrow> s_runtimeConnectionLeaseId (f r) = s_runtimeConnectionLeaseId r
           \<or> (\<exists>l \<in> drawn. s_runtimeConnectionLeaseId (f r) = Some l)"
  shows "row_origin drawn d r'"
  using assms by (fastforce simp: row_origin_def set_update_rows split: if_splits)

section \<open>Every statement keeps the contract\<close>

lemmas lease_cols = claim_replay_row_def claim_live_row_def end_row_def

lemma retired_in_FK:
  assumes "lease_wf now d" and "retired_in sid i (retirements d)"
  shows "\<exists>r \<in> set (sessions d). s_id r = sid"
  using assms by (auto simp: lease_wf_def retired_in_def)

text \<open>The new retirement concerns the session being rewritten.\<close>

lemma upsert_FK:
  assumes "lease_wf now d" and "c \<in> set (sessions d)"
    and "\<And>sid i. retired_in sid i rts \<Longrightarrow> retired_in sid i (retirements d) \<or> sid = s_id c"
    and "t \<in> set rts"
  shows "\<exists>r \<in> set (sessions d). s_id r = r_sessionId t"
proof -
  have "retired_in (r_sessionId t) (r_instanceId t) rts" using assms(4) by (auto simp: retired_in_def)
  then show ?thesis using assms(2,3) retired_in_FK [OF assms(1)] by metis
qed

lemma row_wf_other_session:
  assumes "row_wf now rts r" and "\<And>i. retired_in (s_id r) i rts' \<Longrightarrow> retired_in (s_id r) i rts"
  shows "row_wf now rts' r"
  using assms by (auto simp: row_wf_def not_retired_def split: option.splits)

lemma claim_replay_wf:
  assumes "lease_wf now0 d" and "now0 \<le> now"
  shows "lease_wf now (fst (claim_replay acct sid supplied lease synthetic now d))"
proof (cases "find_row (\<lambda>r. holds (replay_candidate supplied synthetic acct sid now d r)) (sessions d)")
  case None
  then show ?thesis
    using assms row_wf_later by (fastforce simp: claim_replay_None lease_wf_def)
next
  case (Some c)
  then have c: "c \<in> set (sessions d)" using find_row_SomeD by fast
  let ?rts = "fst (retire_replaying (s_id c) (replay_instance supplied synthetic c) now (retirements d))"
  have "lease_wf now (d\<lparr>sessions := update_rows (\<lambda>r. s_id r = s_id c)
      (claim_replay_row (replay_instance supplied synthetic c) lease now) (sessions d),
      retirements := ?rts\<rparr>)"
  proof (rule lease_wf_rewrite [OF assms])
    show "unique_by retirement_key ?rts"
      using lease_wfD(1) [OF assms(1)] by (intro unique_retire_upserts) (auto dest: keys_okD)
    show "\<exists>r \<in> set (sessions d). s_id r = r_sessionId t" if "t \<in> set ?rts" for t
      using assms(1) c _ that by (rule upsert_FK) auto
  qed (auto simp: lease_cols row_wf_def not_retired_def split: option.splits)
  then show ?thesis using claim_replay_Some [OF Some] by (simp add: lease_wf_def keys_ok_def)
qed

lemma claim_live_wf:
  assumes "lease_wf now0 d" and "now0 \<le> now"
  shows "lease_wf now (fst (claim_live acct sid iid lease now d))"
proof (cases "find_row (\<lambda>r. holds (live_candidate iid acct sid now d r)) (sessions d)")
  case None
  then show ?thesis
    using assms row_wf_later by (fastforce simp: claim_live_def lease_wf_def)
next
  case (Some c)
  then have c: "c \<in> set (sessions d)" and cand: "holds (live_candidate iid acct sid now d c)"
    using find_row_SomeD by fast+
  let ?rts = "retire_superseded (s_id c) (s_activeInstanceId c) iid now (retirements d)"
  have "lease_wf now (d\<lparr>sessions := update_rows (\<lambda>r. s_id r = s_id c)
      (claim_live_row iid lease now) (sessions d), retirements := ?rts\<rparr>)"
  proof (rule lease_wf_rewrite [OF assms])
    show "unique_by retirement_key ?rts"
      using lease_wfD(1) [OF assms(1)] by (intro unique_retire_upserts) (auto dest: keys_okD)
    show "\<exists>r \<in> set (sessions d). s_id r = r_sessionId t" if "t \<in> set ?rts" for t
      using assms(1) c _ that by (rule upsert_FK) auto
  qed (use cand in \<open>auto simp: lease_cols row_wf_def not_retired_def sql_where retired_def
        split: option.splits\<close>)
  then show ?thesis using Some by (simp add: claim_live_def lease_wf_def keys_ok_def)
qed

subsection \<open>Claims\<close>

lemma lease_wf_same: "lease_wf now0 d \<Longrightarrow> now0 \<le> now \<Longrightarrow> lease_wf now d"
  using row_wf_later by (fastforce simp: lease_wf_def)

lemma row_origin_same: "r \<in> set (sessions d) \<Longrightarrow> row_origin drawn d r"
  by (auto simp: row_origin_def)

lemma claim_replay_rows:
  assumes "r' \<in> set (sessions (fst (claim_replay acct sid supplied lease synthetic now d)))"
  shows "row_origin {lease} d r'"
proof (cases "find_row (\<lambda>r. holds (replay_candidate supplied synthetic acct sid now d r)) (sessions d)")
  case None
  with assms show ?thesis by (simp add: claim_replay_None row_origin_same)
next
  case (Some c)
  with assms show ?thesis
    by (intro row_origin_update [of r' "\<lambda>r. s_id r = s_id c"
          "claim_replay_row (replay_instance supplied synthetic c) lease now"])
      (auto simp: claim_replay_Some lease_cols)
qed

lemma claim_replay_retired:
  assumes "retired sid' i d"
  shows "retired sid' i (fst (claim_replay acct sid supplied lease synthetic now d))"
  using assms
  by (cases "find_row (\<lambda>r. holds (replay_candidate supplied synthetic acct sid now d r)) (sessions d)")
    (auto simp: claim_replay_None claim_replay_Some retired_def)

lemma claim_live_rows:
  assumes "r' \<in> set (sessions (fst (claim_live acct sid iid lease now d)))"
  shows "row_origin {lease} d r'"
proof (cases "find_row (\<lambda>r. holds (live_candidate iid acct sid now d r)) (sessions d)")
  case None
  with assms show ?thesis by (simp add: claim_live_def row_origin_same)
next
  case (Some c)
  with assms show ?thesis
    by (intro row_origin_update [of r' "\<lambda>r. s_id r = s_id c" "claim_live_row iid lease now"])
      (auto simp: claim_live_def lease_cols)
qed

lemma claim_live_retired:
  "retired sid' i d \<Longrightarrow> retired sid' i (fst (claim_live acct sid iid lease now d))"
  by (auto simp: claim_live_def retired_def split: option.splits)

lemma claim_dispatch:
  obtains (Unclaimed) "fst (claimRuntimeConnectionLease inp synthetic now d) = d"
  | (Replay) "claimRuntimeConnectionLease inp synthetic now d =
      claim_replay (ci_accountId inp) (ci_sessionId inp) (ci_sessionInstanceId inp)
        (ci_leaseId inp) synthetic now d"
  | (Live) iid where "claimRuntimeConnectionLease inp synthetic now d =
      claim_live (ci_accountId inp) (ci_sessionId inp) iid (ci_leaseId inp) now d"
proof (cases "ci_replayOnly inp")
  case True
  then show ?thesis using Replay by (simp add: claimRuntimeConnectionLease_def)
next
  case live: False
  show ?thesis
  proof (cases "truthy (ci_sessionInstanceId inp)")
    case True
    with live show ?thesis
      using Live [of "the (ci_sessionInstanceId inp)"]
      by (cases "ci_sessionInstanceId inp") (simp_all add: claimRuntimeConnectionLease_def)
  next
    case False
    with live show ?thesis
      using Unclaimed
      by (cases "ci_sessionInstanceId inp") (simp_all add: claimRuntimeConnectionLease_def)
  qed
qed

interpretation claim: lease_statement
  "\<lambda>now d. fst (claimRuntimeConnectionLease inp synthetic now d)" "{ci_leaseId inp}"
  for inp synthetic
proof (unfold_locales, goal_cases)
  case (1 now0 d now)
  then show ?case
    by (cases rule: claim_dispatch [of inp synthetic now d])
      (simp_all add: claim_replay_wf claim_live_wf lease_wf_same)
next
  case (2 r' now d)
  then show ?case
    by (cases rule: claim_dispatch [of inp synthetic now d])
      (simp_all add: row_origin_same claim_replay_rows claim_live_rows)
next
  case (3 sid i d r' now)
  then show ?case
    by (cases rule: claim_dispatch [of inp synthetic now d])
      (simp_all add: claim_replay_retired claim_live_retired)
qed

subsection \<open>Expiry, renewal and ends\<close>

interpretation expire: lease_statement
  "\<lambda>now d. fst (expireRuntimeConnectionLease acct sid iid lease tombstone now d)" "{tombstone}"
  for acct sid iid lease tombstone
proof (unfold_locales, goal_cases)
  case (1 now0 d now)
  then show ?case unfolding expireRuntimeConnectionLease_def Let_def fst_conv
    by (rule lease_wf_update)
      (auto simp: row_wf_def sql_where RUNTIME_CONNECTION_LEASE_DURATION_MS_def)
next
  case (2 r' now d)
  then show ?case unfolding expireRuntimeConnectionLease_def Let_def fst_conv
    by (auto intro: row_origin_update)
qed (auto simp: expireRuntimeConnectionLease_def Let_def retired_def)

interpretation renew: lease_statement
  "\<lambda>now d. fst (renewRuntimeConnectionLease acct sid iid lease now d)" "{}"
  for acct sid iid lease
proof (unfold_locales, goal_cases)
  case (1 now0 d now)
  then show ?case unfolding renewRuntimeConnectionLease_def Let_def fst_conv
    by (rule lease_wf_update) (auto simp: row_wf_def sql_where)
next
  case (2 r' now d)
  then show ?case unfolding renewRuntimeConnectionLease_def Let_def fst_conv
    by (auto intro: row_origin_update)
qed (auto simp: renewRuntimeConnectionLease_def Let_def retired_def)

interpretation renew_legacy: lease_statement
  "\<lambda>now d. fst (renewLegacyRuntimeConnection acct sid now d)" "{}"
  for acct sid
proof (unfold_locales, goal_cases)
  case (1 now0 d now)
  then show ?case unfolding renewLegacyRuntimeConnection_def Let_def fst_conv
    by (rule lease_wf_update) (auto simp: row_wf_def sql_where)
next
  case (2 r' now d)
  then show ?case unfolding renewLegacyRuntimeConnection_def Let_def fst_conv
    by (auto intro: row_origin_update)
qed (auto simp: renewLegacyRuntimeConnection_def Let_def retired_def)

lemma end_cases:
  obtains (Miss) "endRuntimeConnectionLease acct sid iid tombstone now d = (d, None)"
  | (Hit) c where "c \<in> set (sessions d)" and "s_id c = sid"
      and "endRuntimeConnectionLease acct sid iid tombstone now d =
        (d\<lparr>sessions := update_rows (\<lambda>r. holds (end_cond acct sid iid d r))
             (end_row iid tombstone now) (sessions d),
           retirements := retire_ended sid iid now (retirements d)\<rparr>, Some now)"
proof (cases "find_row (\<lambda>r. holds (end_cond acct sid iid d r)) (sessions d)")
  case None
  then show ?thesis using Miss by (simp add: endRuntimeConnectionLease_def)
next
  case (Some c)
  then have "c \<in> set (sessions d)" "s_id c = sid"
    using find_row_SomeD [OF Some] by (auto simp: sql_where)
  with Some show ?thesis using Hit by (simp add: endRuntimeConnectionLease_def)
qed

lemma end_wf:
  assumes "lease_wf now0 d" and "now0 \<le> now"
  shows "lease_wf now (fst (endRuntimeConnectionLease acct sid iid tombstone now d))"
proof (cases rule: end_cases [of acct sid iid tombstone now d])
  case Miss
  with assms show ?thesis by (simp add: lease_wf_same)
next
  case (Hit c)
  have same: "holds (end_cond acct sid iid d r)"
    if r: "r \<in> set (sessions d)" "s_id r = sid" and "s_activeInstanceId r = Some iid" for r
  proof -
    have "find_row (\<lambda>r. holds (end_cond acct sid iid d r)) (sessions d) \<noteq> None"
      using Hit(3) by (auto simp: endRuntimeConnectionLease_def split: option.splits)
    then obtain x where "x \<in> set (sessions d)" "holds (end_cond acct sid iid d x)"
      by (auto dest: find_row_SomeD)
    moreover have "x = r"
      using calculation r keys_okD(1) [OF lease_wfD(1) [OF assms(1)]]
      by (auto simp: sql_where dest: unique_by_eq)
    ultimately show ?thesis by simp
  qed
  have "lease_wf now (d\<lparr>sessions := update_rows (\<lambda>r. holds (end_cond acct sid iid d r))
      (end_row iid tombstone now) (sessions d), retirements := retire_ended sid iid now (retirements d)\<rparr>)"
  proof (rule lease_wf_rewrite [OF assms])
    show "unique_by retirement_key (retire_ended sid iid now (retirements d))"
      using lease_wfD(1) [OF assms(1)] by (intro unique_retire_upserts) (auto dest: keys_okD)
    show "\<exists>r \<in> set (sessions d). s_id r = r_sessionId t"
      if "t \<in> set (retire_ended sid iid now (retirements d))" for t
      using assms(1) Hit(1) _ that by (rule upsert_FK) (auto simp: Hit(2))
    show "row_wf now (retire_ended sid iid now (retirements d)) r"
      if "r \<in> set (sessions d)" "\<not> holds (end_cond acct sid iid d r)" "row_wf now (retirements d) r" for r
      using that same by (auto simp: row_wf_def not_retired_def split: option.splits)
  qed (auto simp: end_row_def row_wf_def sql_where RUNTIME_CONNECTION_LEASE_DURATION_MS_def)
  then show ?thesis using Hit(3) by simp
qed

interpretation session_end: lease_statement
  "\<lambda>now d. fst (endRuntimeConnectionLease acct sid iid tombstone now d)" "{tombstone}"
  for acct sid iid tombstone
proof (unfold_locales, goal_cases)
  case (1 now0 d now)
  then show ?case by (rule end_wf)
next
  case (2 r' now d)
  then show ?case
    by (cases rule: end_cases [of acct sid iid tombstone now d])
      (auto intro: row_origin_same row_origin_update simp: end_row_def)
next
  case (3 sid' i d r' now)
  then show ?case
    by (cases rule: end_cases [of acct sid iid tombstone now d]) (auto simp: retired_def)
qed

interpretation legacy_end: lease_statement
  "\<lambda>now d. fst (legacy_session_end acct sid t tombstone now d)" "{tombstone}"
  for acct sid t tombstone
proof (unfold_locales, goal_cases)
  case (1 now0 d now)
  then show ?case unfolding legacy_session_end_def Let_def fst_conv
    by (rule lease_wf_update) (auto simp: row_wf_def)
next
  case (2 r' now d)
  then show ?case unfolding legacy_session_end_def Let_def fst_conv
    by (auto intro: row_origin_update)
qed (auto simp: legacy_session_end_def Let_def retired_def)

subsection \<open>Creation and deletion\<close>

lemma create_session_wf:
  assumes "lease_wf now0 d" and "now0 \<le> now"
    and "s_activeInstanceId s = None" and "s_runtimeConnectionLeaseId s = None"
    and "s_runtimeConnectionLeaseInstanceId s = None" and "s_runtimeConnectionLeaseExpiresAt s = None"
  shows "lease_wf now (fst (throwing (create_session s) d))"
proof (cases "create_session s d")
  case None
  with assms show ?thesis by (simp add: throwing_def lease_wf_same)
next
  case (Some p)
  then have "fst p = d\<lparr>sessions := sessions d @ [s]\<rparr>" "s_id s \<notin> s_id ` set (sessions d)"
    by (auto simp: create_session_def split: if_splits)
  moreover have "row_wf now (retirements d) s" using assms(3-6) by (simp add: row_wf_def)
  ultimately show ?thesis
    using Some lease_wf_same [OF assms(1,2)]
    by (auto simp: throwing_def lease_wf_def keys_ok_def split: prod.splits)
qed

interpretation create: lease_statement
  "\<lambda>now d. fst (throwing (create_session (new_session dec userId body newId now)) d)" "{newId}"
  for dec userId body newId
proof (unfold_locales, goal_cases)
  case (1 now0 d now)
  then show ?case by (rule create_session_wf) (simp_all add: new_session_def)
next
  case (2 r' now d)
  then show ?case
    by (auto simp: throwing_def create_session_def row_origin_def new_session_def
        split: option.splits if_splits)
next
  case (3 sid i d r' now)
  then show ?case
    by (auto simp: throwing_def create_session_def retired_def split: option.splits if_splits)
qed

lemma sessionDelete_tables:
  assumes "find_row (\<lambda>r. s_id r = sid \<and> s_accountId r = uid) (sessions d) \<noteq> None"
  shows "sessions (fst (sessionDelete uid sid d)) = delete_rows (\<lambda>r. s_id r = sid) (sessions d)"
    and "retirements (fst (sessionDelete uid sid d)) = delete_rows (\<lambda>t. r_sessionId t = sid) (retirements d)"
  using assms by (auto simp: sessionDelete_def Let_def delete_session_row_def delete_messages_def)

lemma sessionDelete_miss:
  "find_row (\<lambda>r. s_id r = sid \<and> s_accountId r = uid) (sessions d) = None \<Longrightarrow>
     sessionDelete uid sid d = (d, False)"
  by (simp add: sessionDelete_def)

lemma sessionDelete_wf:
  assumes "lease_wf now0 d" and "now0 \<le> now"
  shows "lease_wf now (fst (sessionDelete uid sid d))"
proof (cases "find_row (\<lambda>r. s_id r = sid \<and> s_accountId r = uid) (sessions d)")
  case None
  then show ?thesis using assms by (simp add: sessionDelete_miss lease_wf_same)
next
  case (Some c)
  note tables = sessionDelete_tables [of sid uid d, simplified Some, simplified]
  have wf: "lease_wf now d" using assms by (rule lease_wf_same)
  have "row_wf now (delete_rows (\<lambda>t. r_sessionId t = sid) (retirements d)) r"
    if "r \<in> set (sessions d)" for r
    using lease_wfD(3) [OF wf that] by (rule row_wf_other_session) (auto simp: retired_in_def)
  then show ?thesis
    using wf by (auto simp: lease_wf_def keys_ok_def tables Bex_def) metis
qed

interpretation delete_session: lease_statement
  "\<lambda>now d. fst (sessionDelete uid sid d)" "{}" for uid sid
proof (unfold_locales, goal_cases)
  case (1 now0 d now)
  then show ?case by (rule sessionDelete_wf)
next
  case (2 r' now d)
  then show ?case
    by (cases "find_row (\<lambda>r. s_id r = sid \<and> s_accountId r = uid) (sessions d)")
      (auto simp: sessionDelete_miss sessionDelete_tables row_origin_same)
next
  case (3 sid' i d r' now)
  then show ?case
    by (cases "find_row (\<lambda>r. s_id r = sid \<and> s_accountId r = uid) (sessions d)")
      (auto simp: sessionDelete_miss sessionDelete_tables retired_def retired_in_def)
qed

subsection \<open>Neutral statements\<close>

interpretation runtime_metadata: lease_neutral
  "\<lambda>now d. fst (updateRuntimeSessionMetadata acct sid inst lease v m now d)" for acct sid inst lease v m
  by unfold_locales (auto simp: updateRuntimeSessionMetadata_def Let_def neutral_row_def)

interpretation runtime_state: lease_neutral
  "\<lambda>now d. fst (updateRuntimeSessionState acct sid inst lease v m now d)" for acct sid inst lease v m
  by unfold_locales (auto simp: updateRuntimeSessionState_def Let_def neutral_row_def)

interpretation user_metadata: lease_neutral
  "\<lambda>now d. fst (user_update_metadata acct sid v m now d)" for acct sid v m
  by unfold_locales (auto simp: user_update_metadata_def Let_def neutral_row_def)

interpretation user_state: lease_neutral
  "\<lambda>now d. fst (user_update_state acct sid v m now d)" for acct sid v m
  by unfold_locales (auto simp: user_update_state_def Let_def neutral_row_def)

interpretation timeout_sweep: lease_neutral
  "\<lambda>now d. fst (timeout_session_cas sid cutoff now d)" for sid cutoff
  by unfold_locales (auto simp: timeout_session_cas_def Let_def neutral_row_def)

interpretation user_sequence: lease_neutral
  "\<lambda>now d. fst (throwing (allocateUserSeq uid now) d)" for uid
  by unfold_locales
    (auto simp: throwing_def allocateUserSeq_def neutral_row_def split: option.splits)

lemma insert_message_tables:
  assumes "insert_message inp r msgId outboxId now d = Some (d', res)"
  shows "sessions d' = update_rows (\<lambda>s. s_id s = pi_sessionId inp)
           (\<lambda>s. s\<lparr>s_seq := s_seq s + 1, s_updatedAt := now\<rparr>) (sessions d)"
    and "retirements d' = retirements d"
  using assms
  by (auto simp: insert_message_def allocateSessionSeq_def create_message_def allocateUserSeq_def
      create_outbox_row_def Let_def split: option.splits if_splits)

text \<open>A persisted message changes the database through \<open>insert_message\<close> only.\<close>

lemma persist_cases:
  assumes "persistSessionMessageInTx inp msgId outboxId now d = Some (d', res)"
  obtains (Unchanged) "d' = d" "\<And>m u. res \<noteq> PersistSuccess False m u"
  | (Inserted) r where "locked_session inp d = Some r"
      and "message_by_localId (pi_sessionId inp) (pi_localId inp) d = None"
      and "\<forall>a. pi_runtimeAuthorization inp = Some a \<longrightarrow> message_authorized now d r a"
      and "insert_message inp r msgId outboxId now d = Some (d', res)"
proof -
  note defs = persistSessionMessageInTx_def persist_accepted_def Let_def
  show thesis
  proof (cases "locked_session inp d")
    case None
    with assms show ?thesis by (intro Unchanged) (auto simp: defs)
  next
    case (Some r)
    show ?thesis
    proof (cases "\<exists>a. pi_runtimeAuthorization inp = Some a \<and> \<not> message_authorized now d r a")
      case True
      with assms Some show ?thesis
        by (intro Unchanged) (auto simp: defs split: option.splits if_splits)
    next
      case authorized: False
      show ?thesis
      proof (cases "message_by_localId (pi_sessionId inp) (pi_localId inp) d")
        case None
        with assms Some authorized show ?thesis
          by (intro Inserted [of r]) (auto simp: defs split: option.splits)
      next
        case (Some m)
        with assms \<open>locked_session inp d = Some r\<close> authorized show ?thesis
          by (intro Unchanged) (auto simp: defs split: option.splits if_splits)
      qed
    qed
  qed
qed

lemma persist_tables:
  "list_all2 neutral_row (sessions d) (sessions (fst (persistSessionMessage inp msgId outboxId now d)))
   \<and> retirements (fst (persistSessionMessage inp msgId outboxId now d)) = retirements d"
proof (cases "persistSessionMessageInTx inp msgId outboxId now d")
  case None
  then show ?thesis by (simp add: persistSessionMessage_def throwing_def)
next
  case (Some p)
  obtain d' res where p: "p = (d', res)" by (cases p)
  have "list_all2 neutral_row (sessions d) (sessions d') \<and> retirements d' = retirements d"
    using Some [unfolded p]
  proof (cases rule: persist_cases)
    case (Inserted r)
    then show ?thesis by (auto simp: insert_message_tables neutral_row_def)
  qed simp
  with Some p show ?thesis by (simp add: persistSessionMessage_def throwing_def)
qed

interpretation persist: lease_neutral
  "\<lambda>now d. fst (persistSessionMessage inp msgId outboxId now d)" for inp msgId outboxId
  by unfold_locales (simp_all add: persist_tables)

end
