(* ===== verification/MessageOutbox.thy ===== *)
theory MessageOutbox
  imports Complex_Main SessionMessage "HOL-Library.Product_Lexorder"
begin

text \<open>
  The notification outbox and its dispatcher,
  \<^verbatim>\<open>app/session/sessionMessageNotificationOutbox.ts\<close>: claiming the head of each session with a
  lease, marking delivered or failed, cleanup, the retry delay and one pass of the drain loop,
  and the wake/stop state machine around it.

  \<open>claimBatch\<close> and the pass run under a \<open>sched\<close>; \<open>tokens i\<close> is the UUID drawn for the \<open>i\<close>-th
  candidate, \<open>publish\<close> is the bus (\<open>None\<close>: delivered, \<open>Some e\<close>: it threw \<open>e\<close>), \<open>random\<close> the
  pseudo-random number in \<open>[0, 1)\<close>.
\<close>

section \<open>The repository\<close>

definition outbox_message :: "db \<Rightarrow> outbox_row \<Rightarrow> message option" where
  "outbox_message d x = find_row (\<lambda>m. m_id m = o_messageId x) (messages d)"

definition pendingClaimWhere :: "ts \<Rightarrow> ts \<Rightarrow> outbox_row \<Rightarrow> bool" where
  "pendingClaimWhere now leaseCutoff x =
     (o_deliveredAt x = None \<and> o_nextAttemptAt x \<le> now
    \<and> (o_claimedAt x = None \<or> (case o_claimedAt x of None \<Rightarrow> False | Some c \<Rightarrow> c < leaseCutoff)))"

text \<open>The order of the notifications of one session: message sequence number, then row id.\<close>

definition earlier_in :: "db \<Rightarrow> outbox_row \<Rightarrow> outbox_row \<Rightarrow> bool" where
  "earlier_in d e x =
     (o_sessionId e = o_sessionId x
    \<and> (case (outbox_message d e, outbox_message d x) of
         (Some em, Some xm) \<Rightarrow> m_seq em < m_seq xm \<or> (m_seq em = m_seq xm \<and> o_id e < o_id x)
       | _ \<Rightarrow> False))"

definition undelivered_earlier :: "db \<Rightarrow> outbox_row \<Rightarrow> bool" where
  "undelivered_earlier d x =
     (\<exists>e \<in> set (outbox d). o_deliveredAt e = None \<and> earlier_in d e x)"

definition claim_candidates :: "ts \<Rightarrow> ts \<Rightarrow> nat \<Rightarrow> db \<Rightarrow> outbox_row list" where
  "claim_candidates now leaseCutoff limit d =
     take limit (sort_key (\<lambda>x. (o_nextAttemptAt x, o_createdAt x, o_id x))
       (filter (\<lambda>x. outbox_message d x \<noteq> None \<and> pendingClaimWhere now leaseCutoff x
                  \<and> \<not> undelivered_earlier d x) (outbox d)))"

definition claim_row :: "ident \<Rightarrow> ident \<Rightarrow> ts \<Rightarrow> ts \<Rightarrow> db \<Rightarrow> db \<times> nat" where
  "claim_row oid token now leaseCutoff d =
     (let P = (\<lambda>x. o_id x = oid \<and> pendingClaimWhere now leaseCutoff x)
      in (d\<lparr>outbox := update_rows P
              (\<lambda>x. x\<lparr>o_claimedAt := Some now, o_claimToken := Some token,
                     o_attempts := o_attempts x + 1\<rparr>) (outbox d)\<rparr>,
          count_rows P (outbox d)))"

definition read_claimed :: "ident \<Rightarrow> db \<Rightarrow> (outbox_row \<times> message) option" where
  "read_claimed oid d =
     (case find_row (\<lambda>x. o_id x = oid) (outbox d) of
        None \<Rightarrow> None
      | Some x \<Rightarrow> map_option (\<lambda>m. (x, m)) (outbox_message d x))"

fun claim_loop ::
  "db sched \<Rightarrow> nat \<Rightarrow> (nat \<Rightarrow> ident) \<Rightarrow> ts \<Rightarrow> ts \<Rightarrow> outbox_row list \<Rightarrow> db
   \<Rightarrow> db \<times> (outbox_row \<times> message) list option" where
  "claim_loop w k tokens now cutoff [] d = (d, Some [])"
| "claim_loop w k tokens now cutoff (x # xs) d =
     (case db_call w k (claim_row (o_id x) (tokens k) now cutoff) d of
        (d1, None) \<Rightarrow> (d1, None)
      | (d1, Some n) \<Rightarrow>
          if n \<noteq> 1 then claim_loop w (k + 2) tokens now cutoff xs d1
          else (case db_call w (k + 1) (\<lambda>d. (d, read_claimed (o_id x) d)) d1 of
             (d2, None) \<Rightarrow> (d2, None)
           | (d2, Some None) \<Rightarrow> claim_loop w (k + 2) tokens now cutoff xs d2
           | (d2, Some (Some (y, m))) \<Rightarrow>
               if o_claimToken y \<noteq> Some (tokens k) then claim_loop w (k + 2) tokens now cutoff xs d2
               else (case claim_loop w (k + 2) tokens now cutoff xs d2 of
                  (d3, None) \<Rightarrow> (d3, None)
                | (d3, Some ys) \<Rightarrow> (d3, Some ((y, m) # ys)))))"

definition claimBatch ::
  "db sched \<Rightarrow> (nat \<Rightarrow> ident) \<Rightarrow> ts \<Rightarrow> int \<Rightarrow> nat \<Rightarrow> db \<Rightarrow> db \<times> (outbox_row \<times> message) list option" where
  "claimBatch w tokens now leaseMs limit d =
     (let leaseCutoff = now - leaseMs
      in case db_call w 0 (\<lambda>d. (d, claim_candidates now leaseCutoff limit d)) d of
           (d1, None) \<Rightarrow> (d1, None)
         | (d1, Some cs) \<Rightarrow> claim_loop w 1 tokens now leaseCutoff cs d1)"

definition held_by :: "outbox_row \<Rightarrow> outbox_row \<Rightarrow> bool" where
  "held_by n x = (o_id x = o_id n \<and> o_claimToken n \<noteq> None \<and> o_claimToken x = o_claimToken n
                \<and> o_deliveredAt x = None)"

definition markDelivered :: "outbox_row \<Rightarrow> ts \<Rightarrow> db \<Rightarrow> db" where
  "markDelivered n now d =
     d\<lparr>outbox := update_rows (held_by n)
        (\<lambda>x. x\<lparr>o_deliveredAt := Some now, o_claimedAt := None, o_claimToken := None,
               o_lastError := None\<rparr>) (outbox d)\<rparr>"

definition markFailed :: "outbox_row \<Rightarrow> string \<Rightarrow> ts \<Rightarrow> db \<Rightarrow> db" where
  "markFailed n error nextAttemptAt d =
     d\<lparr>outbox := update_rows (held_by n)
        (\<lambda>x. x\<lparr>o_nextAttemptAt := nextAttemptAt, o_claimedAt := None, o_claimToken := None,
               o_lastError := Some (take 1000 error)\<rparr>) (outbox d)\<rparr>"

definition cleanupDelivered :: "ts \<Rightarrow> db \<Rightarrow> db \<times> nat" where
  "cleanupDelivered before d =
     (let P = (\<lambda>x. case o_deliveredAt x of None \<Rightarrow> False | Some t \<Rightarrow> t < before)
      in (d\<lparr>outbox := delete_rows P (outbox d)\<rparr>, count_rows P (outbox d)))"

section \<open>The dispatcher\<close>

record dispatcher_options =
  op_batchSize :: nat
  op_leaseMs :: int
  op_retryBaseMs :: int
  op_retryMaxMs :: int
  op_deliveredRetentionMs :: int
  op_cleanupIntervalMs :: int

definition default_options :: dispatcher_options where
  "default_options =
     \<lparr>op_batchSize = 25, op_leaseMs = 30000, op_retryBaseMs = 500, op_retryMaxMs = 60000,
      op_deliveredRetentionMs = 24 * 60 * 60 * 1000, op_cleanupIntervalMs = 60 * 60 * 1000\<rparr>"

definition retry_ceiling :: "dispatcher_options \<Rightarrow> int \<Rightarrow> int" where
  "retry_ceiling opts attempts =
     min (op_retryMaxMs opts) (op_retryBaseMs opts * 2 ^ nat (min (max (attempts - 1) 0) 16))"

definition retry_delay :: "dispatcher_options \<Rightarrow> real \<Rightarrow> int \<Rightarrow> int" where
  "retry_delay opts random attempts =
     max 1 \<lfloor>random * real_of_int (retry_ceiling opts attempts + 1)\<rfloor>"

definition outbox_notification :: "outbox_row \<times> message \<Rightarrow> ts \<Rightarrow> notification" where
  "outbox_notification xm now =
     (case xm of (x, m) \<Rightarrow>
        \<lparr>nt_userId = o_accountId x,
         nt_payload = buildNewMessageUpdate m (o_sessionId x) (o_updateSeq x) (o_id x) now,
         nt_originSocketId = o_originSocketId x,
         nt_targetRuntimeConnectionLeaseId = o_targetRuntimeConnectionLeaseId x,
         nt_targetLegacyRuntimeConnection = o_targetLegacyRuntimeConnection x\<rparr>)"

text \<open>
  The \<^verbatim>\<open>for\<close> loop of one pass: each claimed notification is published and then marked.  A
  rejected \<^verbatim>\<open>markDelivered\<close> is handled like a failed publication; a rejected
  \<^verbatim>\<open>markFailed\<close> ends the pass (\<open>False\<close>).  The result lists what was handed to the bus.
\<close>

fun deliver_loop ::
  "db sched \<Rightarrow> nat \<Rightarrow> (nat \<Rightarrow> ts) \<Rightarrow> (nat \<Rightarrow> real) \<Rightarrow> (nat \<Rightarrow> notification \<Rightarrow> string option)
   \<Rightarrow> string \<Rightarrow> dispatcher_options \<Rightarrow> (outbox_row \<times> message) list \<Rightarrow> db
   \<Rightarrow> db \<times> notification list \<times> bool" where
  "deliver_loop w k clk rnd publish dberr opts [] d = (d, [], True)"
| "deliver_loop w k clk rnd publish dberr opts (xm # xms) d =
     (let n = outbox_notification xm (clk k);
          failed = (\<lambda>err d. case db_call w (k + 1) (\<lambda>d. (markFailed (fst xm) err
                (clk (k + 1) + retry_delay opts (rnd k) (o_attempts (fst xm))) d, ())) d of
              (d1, None) \<Rightarrow> (d1, [n], False)
            | (d1, Some _) \<Rightarrow>
                (case deliver_loop w (k + 2) clk rnd publish dberr opts xms d1 of
                   (d2, ns, ok) \<Rightarrow> (d2, n # ns, ok)))
      in case publish k n of
           Some err \<Rightarrow> failed err d
         | None \<Rightarrow>
            (case db_call w k (\<lambda>d. (markDelivered (fst xm) (clk k) d, ())) d of
               (d1, None) \<Rightarrow> failed dberr d1
             | (d1, Some _) \<Rightarrow>
                (case deliver_loop w (k + 2) clk rnd publish dberr opts xms d1 of
                   (d2, ns, ok) \<Rightarrow> (d2, n # ns, ok))))"

subsection \<open>Wake-ups\<close>

record dispatcher =
  dp_stopped :: bool
  dp_running :: bool
  dp_wakeAgain :: bool
  dp_lastCleanupAt :: ts

definition initial_dispatcher :: dispatcher where
  "initial_dispatcher =
     \<lparr>dp_stopped = True, dp_running = False, dp_wakeAgain = False, dp_lastCleanupAt = 0\<rparr>"

text \<open>\<open>wake\<close> and \<open>drain_finished\<close> (the \<^verbatim>\<open>finally\<close> block) answer whether a drain is started.\<close>

definition wake :: "dispatcher \<Rightarrow> dispatcher \<times> bool" where
  "wake p =
     (if dp_stopped p then (p, False)
      else if dp_running p then (p\<lparr>dp_wakeAgain := True\<rparr>, False)
      else (p\<lparr>dp_running := True\<rparr>, True))"

definition start_dispatcher :: "dispatcher \<Rightarrow> dispatcher \<times> bool" where
  "start_dispatcher p = (if \<not> dp_stopped p then (p, False) else wake (p\<lparr>dp_stopped := False\<rparr>))"

definition stop_dispatcher :: "dispatcher \<Rightarrow> dispatcher" where
  "stop_dispatcher p = p\<lparr>dp_stopped := True\<rparr>"

definition drain_begin_pass :: "dispatcher_options \<Rightarrow> ts \<Rightarrow> dispatcher \<Rightarrow> dispatcher \<times> ts option" where
  "drain_begin_pass opts now p =
     (let p1 = p\<lparr>dp_wakeAgain := False\<rparr>
      in if now - dp_lastCleanupAt p1 \<ge> op_cleanupIntervalMs opts
         then (p1\<lparr>dp_lastCleanupAt := now\<rparr>, Some (now - op_deliveredRetentionMs opts))
         else (p1, None))"

definition drain_end_pass :: "nat \<Rightarrow> dispatcher \<Rightarrow> dispatcher \<times> bool" where
  "drain_end_pass claimedCount p =
     (let p1 = (if claimedCount > 0 then p\<lparr>dp_wakeAgain := True\<rparr> else p)
      in (p1, dp_wakeAgain p1 \<and> \<not> dp_stopped p1))"

definition drain_finished :: "dispatcher \<Rightarrow> dispatcher \<times> bool" where
  "drain_finished p =
     (let p1 = p\<lparr>dp_running := False\<rparr>
      in if dp_wakeAgain p1 \<and> \<not> dp_stopped p1 then wake (p1\<lparr>dp_wakeAgain := False\<rparr>) else (p1, False))"

section \<open>Properties of single statements\<close>

lemma retry_ceiling_bounds:
  assumes "1 \<le> op_retryBaseMs opts" and "1 \<le> op_retryMaxMs opts"
  shows "1 \<le> retry_ceiling opts n \<and> retry_ceiling opts n \<le> op_retryMaxMs opts"
proof -
  have "1 \<le> op_retryBaseMs opts * 2 ^ k" for k :: nat
    using assms(1) by (simp add: int_one_le_iff_zero_less)
  with assms(2) show ?thesis by (simp add: retry_ceiling_def)
qed

lemma floor_scaled:
  assumes "r < 1" and "0 \<le> c"
  shows "\<lfloor>r * real_of_int (c + 1)\<rfloor> \<le> c"
proof -
  have "r * real_of_int (c + 1) < 1 * real_of_int (c + 1)"
    using assms by (intro mult_strict_right_mono) auto
  then show ?thesis by (simp add: floor_le_iff)
qed

lemma retry_delay_bounds:
  assumes "1 \<le> op_retryBaseMs opts" and "1 \<le> op_retryMaxMs opts" and "0 \<le> r" and "r < 1"
  shows "1 \<le> retry_delay opts r n \<and> retry_delay opts r n \<le> op_retryMaxMs opts"
proof -
  let ?c = "retry_ceiling opts n"
  have c: "1 \<le> ?c" "?c \<le> op_retryMaxMs opts" using retry_ceiling_bounds [OF assms(1,2)] by auto
  have "\<lfloor>r * real_of_int (?c + 1)\<rfloor> \<le> ?c" using floor_scaled [OF assms(4)] c by simp
  with c show ?thesis by (simp add: retry_delay_def)
qed

lemma claimed_row_not_pending:
  "o_claimedAt x = Some c \<Longrightarrow> now - leaseMs \<le> c \<Longrightarrow> \<not> pendingClaimWhere now (now - leaseMs) x"
  by (simp add: pendingClaimWhere_def)

lemma claim_candidates_heads:
  assumes "x \<in> set (claim_candidates now cutoff limit d)"
  shows "x \<in> set (outbox d)" and "pendingClaimWhere now cutoff x"
    and "\<not> undelivered_earlier d x" and "outbox_message d x \<noteq> None"
  using assms by (auto simp: claim_candidates_def dest: in_set_takeD)

lemma one_head_per_session:
  assumes "x \<in> set (claim_candidates now cutoff limit d)"
    and "y \<in> set (claim_candidates now cutoff limit d)"
    and "o_sessionId x = o_sessionId y"
  shows "o_id x = o_id y"
proof -
  note x = claim_candidates_heads [OF assms(1)] and y = claim_candidates_heads [OF assms(2)]
  obtain mx my where m: "outbox_message d x = Some mx" "outbox_message d y = Some my"
    using x(4) y(4) by auto
  have "\<not> earlier_in d x y" "\<not> earlier_in d y x"
    using x y by (auto simp: undelivered_earlier_def pendingClaimWhere_def)
  then show ?thesis using m assms(3) by (auto simp: earlier_in_def not_less_iff_gr_or_eq)
qed

end
