(* ===== verification/MessageProtocol.thy ===== *)
theory MessageProtocol
  imports LeaseProtocol MessageOutbox
begin

text \<open>
  The invariants of the message log and of its notification queue, and what every statement
  of the server owes them.  \<open>messages_ok\<close>: message ids, sequence numbers and local ids are
  unique, no sequence number is ahead of its session's counter, and every outbox row belongs to
  one stored message of its session.  \<open>fifo\<close>: a notification that was selected, claimed or
  delivered has no undelivered predecessor in its session.

  The locale \<open>message_neutral\<close> is the contract of the statements that leave messages and outbox
  alone.
\<close>

section \<open>The invariants\<close>

definition local_ids_unique :: "message list \<Rightarrow> bool" where
  "local_ids_unique ms =
    (\<forall>m \<in> set ms. \<forall>m' \<in> set ms. m_sessionId m = m_sessionId m' \<and> m_localId m = m_localId m'
       \<and> m_localId m \<noteq> None \<longrightarrow> m = m')"

definition seqs_within :: "db \<Rightarrow> bool" where
  "seqs_within d =
    (\<forall>m \<in> set (messages d). \<exists>s \<in> set (sessions d). s_id s = m_sessionId m \<and> m_seq m \<le> s_seq s)"

definition outbox_backed :: "db \<Rightarrow> bool" where
  "outbox_backed d =
    (\<forall>x \<in> set (outbox d). \<exists>m \<in> set (messages d). m_id m = o_messageId x \<and> m_sessionId m = o_sessionId x)"

abbreviation message_key :: "message \<Rightarrow> ident \<times> int" where
  "message_key m \<equiv> (m_sessionId m, m_seq m)"

definition messages_ok :: "db \<Rightarrow> bool" where
  "messages_ok d =
    (unique_by m_id (messages d) \<and> unique_by message_key (messages d)
   \<and> local_ids_unique (messages d) \<and> seqs_within d
   \<and> unique_by o_id (outbox d) \<and> unique_by o_messageId (outbox d) \<and> outbox_backed d)"

text \<open>The messages of a session are numbered from 1 to its counter, without a gap.\<close>

definition gap_free :: "db \<Rightarrow> bool" where
  "gap_free d =
    (\<forall>s \<in> set (sessions d). 0 \<le> s_seq s \<and>
       m_seq ` {m \<in> set (messages d). m_sessionId m = s_id s} = {1..s_seq s})"

definition fifo :: "ident set \<Rightarrow> db \<Rightarrow> bool" where
  "fifo sel d =
    (\<forall>x \<in> set (outbox d). o_claimToken x \<noteq> None \<or> o_deliveredAt x \<noteq> None \<or> o_id x \<in> sel
       \<longrightarrow> \<not> undelivered_earlier d x)"

section \<open>Statements that leave messages and outbox alone\<close>

locale message_neutral =
  fixes stmt :: "ts \<Rightarrow> db \<Rightarrow> db"
  assumes same_messages: "messages (stmt now d) = messages d"
    and same_outbox: "outbox (stmt now d) = outbox d"
    and seq_kept: "s \<in> set (sessions d) \<Longrightarrow>
      \<exists>s' \<in> set (sessions (stmt now d)). s_id s' = s_id s \<and> s_seq s' = s_seq s"
    and seq_from: "s' \<in> set (sessions (stmt now d)) \<Longrightarrow>
      (\<exists>s \<in> set (sessions d). s_id s = s_id s' \<and> s_seq s = s_seq s')
      \<or> (s_seq s' = 0 \<and> s_id s' \<notin> s_id ` set (sessions d))"
begin

lemma neutral_messages_ok: "messages_ok d \<Longrightarrow> messages_ok (stmt now d)"
  using seq_kept [of _ d now]
  by (auto simp: messages_ok_def seqs_within_def outbox_backed_def same_messages same_outbox) metis

lemma neutral_gap_free:
  assumes "seqs_within d" and "gap_free d"
  shows "gap_free (stmt now d)"
  unfolding gap_free_def same_messages
proof
  fix s'
  assume "s' \<in> set (sessions (stmt now d))"
  then consider s where "s \<in> set (sessions d)" "s_id s = s_id s'" "s_seq s = s_seq s'"
    | "s_seq s' = 0" "s_id s' \<notin> s_id ` set (sessions d)"
    using seq_from by blast
  then show "0 \<le> s_seq s' \<and> m_seq ` {m \<in> set (messages d). m_sessionId m = s_id s'} = {1..s_seq s'}"
  proof cases
    case 1
    then show ?thesis using assms(2) by (force simp: gap_free_def)
  next
    case 2
    then have "{m \<in> set (messages d). m_sessionId m = s_id s'} = {}"
      using assms(1) by (auto simp: seqs_within_def) (metis image_eqI)
    with 2 show ?thesis by simp
  qed
qed

lemma neutral_fifo: "fifo sel d \<Longrightarrow> fifo sel (stmt now d)"
  by (simp add: fifo_def undelivered_earlier_def earlier_in_def outbox_message_def same_messages
      same_outbox)

end

lemma update_rows_seq_kept:
  assumes "s \<in> set rs" and "\<And>r. P r \<Longrightarrow> s_id (f r) = s_id r \<and> s_seq (f r) = s_seq r"
  shows "\<exists>s' \<in> set (update_rows P f rs). s_id s' = s_id s \<and> s_seq s' = s_seq s"
proof -
  have "s_id (if P s then f s else s) = s_id s \<and> s_seq (if P s then f s else s) = s_seq s"
    using assms(2) by simp
  with assms(1) show ?thesis unfolding set_update_rows by blast
qed

lemma update_rows_seq_from:
  assumes "s' \<in> set (update_rows P f rs)" and "\<And>r. P r \<Longrightarrow> s_id (f r) = s_id r \<and> s_seq (f r) = s_seq r"
  shows "\<exists>s \<in> set rs. s_id s = s_id s' \<and> s_seq s = s_seq s'"
  using assms by (fastforce simp: set_update_rows split: if_splits)

lemma claim_sessions:
  "\<exists>P f. sessions (fst (claimRuntimeConnectionLease inp synthetic now d)) = update_rows P f (sessions d)
     \<and> (\<forall>r. P r \<longrightarrow> s_id (f r) = s_id r \<and> s_seq (f r) = s_seq r)"
proof -
  have same: "\<exists>P f. rs = update_rows P f rs \<and> (\<forall>r. P r \<longrightarrow> s_id (f r) = s_id r \<and> s_seq (f r) = s_seq r)"
    for rs :: "session list"
    by (rule exI [of _ "\<lambda>_. False"]) (auto simp: update_rows_noop)
  have row: "\<exists>P f. update_rows (\<lambda>r. s_id r = sid) g rs = update_rows P f rs
      \<and> (\<forall>r. P r \<longrightarrow> s_id (f r) = s_id r \<and> s_seq (f r) = s_seq r)"
    if "\<And>r. s_id (g r) = s_id r \<and> s_seq (g r) = s_seq r" for sid g and rs :: "session list"
    using that by blast
  show ?thesis
    by (cases rule: claim_dispatch [of inp synthetic now d])
      (auto simp: claim_replay_def claim_live_def Let_def lease_cols same
        split: option.splits prod.splits intro!: row)
qed

interpretation claim_m: message_neutral
  "\<lambda>now d. fst (claimRuntimeConnectionLease inp synthetic now d)" for inp synthetic
proof (unfold_locales, goal_cases)
  case (1 now d)
  then show ?case
    by (cases rule: claim_dispatch [of inp synthetic now d])
      (auto simp: claim_replay_def claim_live_def Let_def split: option.splits prod.splits)
next
  case (2 now d)
  then show ?case
    by (cases rule: claim_dispatch [of inp synthetic now d])
      (auto simp: claim_replay_def claim_live_def Let_def split: option.splits prod.splits)
next
  case (3 s d now)
  then show ?case using claim_sessions [of inp synthetic now d] update_rows_seq_kept by metis
next
  case (4 s' now d)
  then show ?case using claim_sessions [of inp synthetic now d] update_rows_seq_from by metis
qed

interpretation expire_m: message_neutral
  "\<lambda>now d. fst (expireRuntimeConnectionLease acct sid iid lease tombstone now d)"
  for acct sid iid lease tombstone
  by unfold_locales (auto simp: expireRuntimeConnectionLease_def Let_def intro!: update_rows_seq_kept dest!: update_rows_seq_from)

interpretation renew_m: message_neutral
  "\<lambda>now d. fst (renewRuntimeConnectionLease acct sid iid lease now d)" for acct sid iid lease
  by unfold_locales (auto simp: renewRuntimeConnectionLease_def Let_def intro!: update_rows_seq_kept dest!: update_rows_seq_from)

interpretation renew_legacy_m: message_neutral
  "\<lambda>now d. fst (renewLegacyRuntimeConnection acct sid now d)" for acct sid
  by unfold_locales (auto simp: renewLegacyRuntimeConnection_def Let_def intro!: update_rows_seq_kept dest!: update_rows_seq_from)

interpretation session_end_m: message_neutral
  "\<lambda>now d. fst (endRuntimeConnectionLease acct sid iid tombstone now d)" for acct sid iid tombstone
  by unfold_locales
    (auto simp: endRuntimeConnectionLease_def end_row_def split: option.splits
      intro!: update_rows_seq_kept dest!: update_rows_seq_from)

interpretation legacy_end_m: message_neutral
  "\<lambda>now d. fst (legacy_session_end acct sid t tombstone now d)" for acct sid t tombstone
  by unfold_locales (auto simp: legacy_session_end_def Let_def intro!: update_rows_seq_kept dest!: update_rows_seq_from)

interpretation create_m: message_neutral
  "\<lambda>now d. fst (throwing (create_session (new_session dec userId body newId now)) d)"
  for dec userId body newId
proof (unfold_locales, goal_cases)
  case (4 s' now d)
  have "fst (throwing (create_session (new_session dec userId body newId now)) d) = d
    \<or> (sessions (fst (throwing (create_session (new_session dec userId body newId now)) d)) =
         sessions d @ [new_session dec userId body newId now] \<and> newId \<notin> s_id ` set (sessions d))"
    by (auto simp: throwing_def create_session_def new_session_def)
  moreover have "s_seq (new_session dec userId body newId now) = 0"
    "s_id (new_session dec userId body newId now) = newId"
    by (simp_all add: new_session_def)
  ultimately show ?case
    using 4 by (metis Un_iff empty_iff list.set(1) set_ConsD set_append)
qed (auto simp: throwing_def create_session_def split: option.splits if_splits)

interpretation runtime_metadata_m: message_neutral
  "\<lambda>now d. fst (updateRuntimeSessionMetadata acct sid inst lease v m now d)" for acct sid inst lease v m
  by unfold_locales (auto simp: updateRuntimeSessionMetadata_def Let_def intro!: update_rows_seq_kept dest!: update_rows_seq_from)

interpretation runtime_state_m: message_neutral
  "\<lambda>now d. fst (updateRuntimeSessionState acct sid inst lease v m now d)" for acct sid inst lease v m
  by unfold_locales (auto simp: updateRuntimeSessionState_def Let_def intro!: update_rows_seq_kept dest!: update_rows_seq_from)

interpretation user_metadata_m: message_neutral
  "\<lambda>now d. fst (user_update_metadata acct sid v m now d)" for acct sid v m
  by unfold_locales (auto simp: user_update_metadata_def Let_def intro!: update_rows_seq_kept dest!: update_rows_seq_from)

interpretation user_state_m: message_neutral
  "\<lambda>now d. fst (user_update_state acct sid v m now d)" for acct sid v m
  by unfold_locales (auto simp: user_update_state_def Let_def intro!: update_rows_seq_kept dest!: update_rows_seq_from)

interpretation timeout_m: message_neutral
  "\<lambda>now d. fst (timeout_session_cas sid cutoff now d)" for sid cutoff
  by unfold_locales (auto simp: timeout_session_cas_def Let_def intro!: update_rows_seq_kept dest!: update_rows_seq_from)

interpretation user_sequence_m: message_neutral
  "\<lambda>now d. fst (throwing (allocateUserSeq uid now) d)" for uid
  by unfold_locales (auto simp: throwing_def allocateUserSeq_def split: option.splits)

section \<open>A new message\<close>

lemma insert_message_effect:
  assumes "insert_message inp r msgId outboxId now d = Some (d', res)"
  obtains s u where "session_row (pi_sessionId inp) d = Some s"
    and "res = PersistSuccess False (new_message inp msgId (s_seq s + 1) now) (Some u)"
    and "user_seq (pi_userId inp) d = Some (u - 1)"
    and "messages d' = messages d @ [new_message inp msgId (s_seq s + 1) now]"
    and "outbox d' = outbox d @ [new_outbox_row inp r d outboxId msgId u now]"
    and "sessions d' = update_rows (\<lambda>s. s_id s = pi_sessionId inp)
           (\<lambda>s. s\<lparr>s_seq := s_seq s + 1, s_updatedAt := now\<rparr>) (sessions d)"
    and "\<forall>m \<in> set (messages d). m_id m \<noteq> msgId"
    and "\<forall>m \<in> set (messages d). m_sessionId m = pi_sessionId inp \<and> m_localId m = pi_localId inp
           \<longrightarrow> pi_localId inp = None"
    and "\<forall>x \<in> set (outbox d). o_id x \<noteq> outboxId \<and> o_messageId x \<noteq> msgId"
proof -
  obtain s where s: "session_row (pi_sessionId inp) d = Some s"
    using assms by (auto simp: insert_message_def allocateSessionSeq_def split: option.splits)
  let ?d1 = "d\<lparr>sessions := update_rows (\<lambda>s. s_id s = pi_sessionId inp)
      (\<lambda>s. s\<lparr>s_seq := s_seq s + 1, s_updatedAt := now\<rparr>) (sessions d)\<rparr>"
  let ?m = "new_message inp msgId (s_seq s + 1) now"
  have fresh: "\<not> (\<exists>x \<in> set (messages d). m_id x = m_id ?m)"
    and local: "\<not> (m_localId ?m \<noteq> None
      \<and> (\<exists>x \<in> set (messages d). m_sessionId x = m_sessionId ?m \<and> m_localId x = m_localId ?m))"
    using assms s
    by (auto simp: insert_message_def allocateSessionSeq_def create_message_def Let_def
        split: option.splits if_splits)
  let ?d2 = "?d1\<lparr>messages := messages d @ [?m]\<rparr>"
  have d2: "create_message ?m ?d1 = Some ?d2" using fresh local by (simp add: create_message_def)
  obtain d3 u where d3: "allocateUserSeq (pi_userId inp) now ?d2 = Some (d3, u)"
    using assms s d2
    by (auto simp: insert_message_def allocateSessionSeq_def Let_def split: option.splits)
  then have u: "user_seq (pi_userId inp) d = Some (u - 1)"
    by (auto simp: allocateUserSeq_def user_seq_def account_row_def split: option.splits)
  have same: "messages d3 = messages d @ [?m]" "outbox d3 = outbox d" "sessions d3 = sessions ?d1"
    using d3 by (auto simp: allocateUserSeq_def split: option.splits)
  let ?y = "new_outbox_row inp r d outboxId msgId u now"
  have "create_outbox_row ?y d3 = Some d'" "res = PersistSuccess False ?m (Some u)"
    using assms s d2 d3
    by (auto simp: insert_message_def allocateSessionSeq_def Let_def split: option.splits)
  moreover from this have "d' = d3\<lparr>outbox := outbox d @ [?y]\<rparr>"
    and "\<forall>x \<in> set (outbox d). o_id x \<noteq> outboxId \<and> o_messageId x \<noteq> msgId"
    by (auto simp: create_outbox_row_def same new_outbox_row_def split: if_splits)
  ultimately show thesis
    using that [of s u] s u same fresh local by (auto simp: new_message_def)
qed

text \<open>The sequence number of the new message is above every one its session has.\<close>

lemma new_seq_above:
  assumes "keys_ok d" and "seqs_within d" and "session_row sid d = Some s"
    and "m \<in> set (messages d)" and "m_sessionId m = sid"
  shows "m_seq m < s_seq s + 1"
proof -
  obtain s' where "s' \<in> set (sessions d)" "s_id s' = sid" "m_seq m \<le> s_seq s'"
    using assms(2,4,5) by (auto simp: seqs_within_def)
  moreover from this have "session_row sid d = Some s'" using session_row_unique [OF assms(1)] by blast
  ultimately show ?thesis using assms(3) by simp
qed

lemma seqs_within_bump:
  assumes "seqs_within d" and "session_row sid d = Some s"
    and "messages d' = messages d @ [m]" and "m_sessionId m = sid" and "m_seq m = s_seq s + 1"
    and "sessions d' = update_rows (\<lambda>s. s_id s = sid)
           (\<lambda>s. s\<lparr>s_seq := s_seq s + 1, s_updatedAt := now\<rparr>) (sessions d)"
  shows "seqs_within d'"
proof -
  let ?g = "\<lambda>x. if s_id x = sid then x\<lparr>s_seq := s_seq x + 1, s_updatedAt := now\<rparr> else x"
  have g: "s_id (?g x) = s_id x" "s_seq x \<le> s_seq (?g x)" for x by simp_all
  have s: "s \<in> set (sessions d)" "s_id s = sid" using session_row_SomeD [OF assms(2)] by auto
  have "\<exists>x \<in> set (sessions d'). s_id x = m_sessionId m' \<and> m_seq m' \<le> s_seq x"
    if m': "m' \<in> set (messages d')" for m'
  proof (cases "m' = m")
    case True
    have "s_id (?g s) = m_sessionId m \<and> m_seq m \<le> s_seq (?g s)" using s assms(4,5) by simp
    with s(1) True show ?thesis unfolding assms(6) set_update_rows by blast
  next
    case False
    then obtain x where x: "x \<in> set (sessions d)" "s_id x = m_sessionId m'" "m_seq m' \<le> s_seq x"
      using m' assms(1,3) by (auto simp: seqs_within_def)
    then have "s_id (?g x) = m_sessionId m' \<and> m_seq m' \<le> s_seq (?g x)" using g [of x] by simp
    with x(1) show ?thesis unfolding assms(6) set_update_rows by blast
  qed
  then show ?thesis by (auto simp: seqs_within_def)
qed

lemma local_ids_unique_snoc:
  assumes "local_ids_unique ms"
    and "\<forall>m' \<in> set ms. m_sessionId m' = m_sessionId m \<and> m_localId m' = m_localId m \<longrightarrow> m_localId m = None"
  shows "local_ids_unique (ms @ [m])"
  unfolding local_ids_unique_def
proof (intro ballI impI)
  fix a b
  assume "a \<in> set (ms @ [m])" "b \<in> set (ms @ [m])"
    and same: "m_sessionId a = m_sessionId b \<and> m_localId a = m_localId b \<and> m_localId a \<noteq> None"
  then consider "a \<in> set ms" "b \<in> set ms" | "a = m" "b = m" | "a \<in> set ms" "b = m" | "a = m" "b \<in> set ms"
    by auto
  then show "a = b"
  proof cases
    case 1
    then show ?thesis using assms(1) same unfolding local_ids_unique_def by blast
  qed (use assms(2) same in metis)+
qed

lemma insert_message_ok:
  assumes "keys_ok d" and "messages_ok d"
    and "insert_message inp r msgId outboxId now d = Some (d', res)"
  shows "messages_ok d'"
  using assms(3)
proof (cases rule: insert_message_effect)
  case (1 s u)
  let ?m = "new_message inp msgId (s_seq s + 1) now"
  have m: "m_id ?m = msgId" "m_sessionId ?m = pi_sessionId inp" "m_seq ?m = s_seq s + 1"
    "m_localId ?m = pi_localId inp" by (simp_all add: new_message_def)
  have above: "(pi_sessionId inp, s_seq s + 1) \<notin> message_key ` set (messages d)"
  proof
    assume "(pi_sessionId inp, s_seq s + 1) \<in> message_key ` set (messages d)"
    then obtain m where "m \<in> set (messages d)" "m_sessionId m = pi_sessionId inp" "m_seq m = s_seq s + 1"
      by force
    moreover have "seqs_within d" using assms(2) by (simp add: messages_ok_def)
    ultimately show False using new_seq_above [OF assms(1) _ 1(1)] by force
  qed
  have "seqs_within d'"
    using seqs_within_bump [OF _ 1(1,4) m(2,3) 1(6)] assms(2) by (simp add: messages_ok_def)
  moreover have "local_ids_unique (messages d')"
    unfolding 1(4) using assms(2) 1(8) m(2,4)
    by (intro local_ids_unique_snoc) (simp_all add: messages_ok_def)
  moreover have "outbox_backed d'"
    using assms(2) 1(4,5) m by (auto simp: messages_ok_def outbox_backed_def new_outbox_row_def)
  moreover have "unique_by m_id (messages d')" "unique_by message_key (messages d')"
    using assms(2) 1(4,7) m above by (auto simp: messages_ok_def)
  moreover have "unique_by o_id (outbox d')" "unique_by o_messageId (outbox d')"
    using assms(2) 1(5,9) by (auto simp: messages_ok_def new_outbox_row_def)
  ultimately show ?thesis by (simp add: messages_ok_def)
qed

text \<open>A stored notification keeps its message when a message is appended.\<close>

lemma outbox_message_append:
  assumes "outbox_backed d" and "x \<in> set (outbox d)" and "messages d' = messages d @ ms"
  shows "outbox_message d' x = outbox_message d x"
proof -
  obtain m where "m \<in> set (messages d)" "m_id m = o_messageId x"
    using assms(1,2) by (auto simp: outbox_backed_def)
  then obtain m' where "outbox_message d x = Some m'"
    unfolding outbox_message_def using find_row_Some_ex by fastforce
  then show ?thesis using assms(3) by (simp add: outbox_message_def)
qed

lemma outbox_message_Some:
  assumes "messages_ok d" and "x \<in> set (outbox d)"
  obtains m where "outbox_message d x = Some m" and "m \<in> set (messages d)"
    and "m_sessionId m = o_sessionId x" and "m_id m = o_messageId x"
proof -
  obtain m where m: "m \<in> set (messages d)" "m_id m = o_messageId x" "m_sessionId m = o_sessionId x"
    using assms by (auto simp: messages_ok_def outbox_backed_def)
  then have "outbox_message d x = Some m"
    unfolding outbox_message_def
    using assms(1) by (intro find_row_unique [of m_id]) (auto simp: messages_ok_def)
  with m show thesis using that by blast
qed

lemma insert_message_fifo:
  assumes "keys_ok d" and "messages_ok d" and "fifo sel d" and "outboxId \<notin> sel"
    and "insert_message inp r msgId outboxId now d = Some (d', res)"
  shows "fifo sel d'"
  using assms(5)
proof (cases rule: insert_message_effect)
  case (1 s u)
  let ?m = "new_message inp msgId (s_seq s + 1) now"
  let ?y = "new_outbox_row inp r d outboxId msgId u now"
  have msg: "outbox_message d' x = outbox_message d x" if "x \<in> set (outbox d)" for x
    using assms(2) that 1(4) by (intro outbox_message_append) (auto simp: messages_ok_def)
  have y: "outbox_message d' ?y = Some ?m"
  proof -
    have "find_row (\<lambda>m. m_id m = msgId) (messages d) = None" using 1(7) by (simp add: find_row_None_iff)
    then show ?thesis by (simp add: outbox_message_def 1(4) new_message_def new_outbox_row_def)
  qed
  have late: "\<not> earlier_in d' ?y x" if x: "x \<in> set (outbox d)" for x
  proof
    assume e: "earlier_in d' ?y x"
    obtain m where m: "outbox_message d x = Some m" "m \<in> set (messages d)" "m_sessionId m = o_sessionId x"
      using outbox_message_Some [OF assms(2) x] by blast
    have "m_sessionId m = pi_sessionId inp"
      using e m(3) by (simp add: earlier_in_def new_outbox_row_def)
    then have "m_seq m < s_seq s + 1"
      using assms(2) by (intro new_seq_above [OF assms(1) _ 1(1) m(2)]) (auto simp: messages_ok_def)
    then show False using e y msg [OF x] m(1) by (simp add: earlier_in_def new_message_def)
  qed
  have "\<not> undelivered_earlier d' x"
    if x: "x \<in> set (outbox d)" and old: "\<not> undelivered_earlier d x" for x
  proof -
    have "\<not> earlier_in d' e x" if "e \<in> set (outbox d)" "o_deliveredAt e = None" for e
      using old that msg [OF x] msg [OF that(1)] by (auto simp: undelivered_earlier_def earlier_in_def)
    with late [OF x] show ?thesis by (auto simp: undelivered_earlier_def 1(5))
  qed
  then show ?thesis
    using assms(3,4) by (auto simp: fifo_def 1(5) new_outbox_row_def)
qed

lemma insert_message_gap_free:
  assumes "keys_ok d" and "messages_ok d" and "gap_free d"
    and "insert_message inp r msgId outboxId now d = Some (d', res)"
  shows "gap_free d'"
  using assms(4)
proof (cases rule: insert_message_effect)
  case (1 s u)
  let ?sid = "pi_sessionId inp" and ?m = "new_message inp msgId (s_seq s + 1) now"
  have s: "s \<in> set (sessions d)" "s_id s = ?sid" using session_row_SomeD [OF 1(1)] by auto
  have only: "x = s" if "x \<in> set (sessions d)" "s_id x = ?sid" for x
    using that s keys_okD(1) [OF assms(1)] unique_by_eq by metis
  have here: "{m \<in> set (messages d'). m_sessionId m = ?sid} =
      insert ?m {m \<in> set (messages d). m_sessionId m = ?sid}"
    by (auto simp: 1(4) new_message_def)
  have there: "{m \<in> set (messages d'). m_sessionId m = sid} = {m \<in> set (messages d). m_sessionId m = sid}"
    if "sid \<noteq> ?sid" for sid
    using that by (auto simp: 1(4) new_message_def)
  have old: "0 \<le> s_seq s" "m_seq ` {m \<in> set (messages d). m_sessionId m = ?sid} = {1..s_seq s}"
    using assms(3) s unfolding gap_free_def by metis+
  have "insert (s_seq s + 1) {1..s_seq s} = {1..s_seq s + 1}" using old(1) by auto
  then have new: "m_seq ` {m \<in> set (messages d'). m_sessionId m = ?sid} = {1..s_seq s + 1}"
    unfolding here image_insert old(2) by (simp add: new_message_def)
  show ?thesis
    unfolding gap_free_def
  proof
    fix s'
    assume "s' \<in> set (sessions d')"
    then obtain x where x: "x \<in> set (sessions d)"
      "s' = (if s_id x = ?sid then x\<lparr>s_seq := s_seq x + 1, s_updatedAt := now\<rparr> else x)"
      by (auto simp: 1(6) set_update_rows)
    show "0 \<le> s_seq s' \<and> m_seq ` {m \<in> set (messages d'). m_sessionId m = s_id s'} = {1..s_seq s'}"
    proof (cases "s_id x = ?sid")
      case True
      with x only have "s_id s' = ?sid" "s_seq s' = s_seq s + 1" by auto
      then show ?thesis using new old(1) by simp
    next
      case False
      with x have "s' = x" by simp
      then show ?thesis using False there x(1) assms(3) by (simp add: gap_free_def)
    qed
  qed
qed

section \<open>Deletion of a session\<close>

lemma sessionDelete_messages:
  assumes "find_row (\<lambda>r. s_id r = sid \<and> s_accountId r = uid) (sessions d) \<noteq> None"
  shows "messages (fst (sessionDelete uid sid d)) = delete_rows (\<lambda>m. m_sessionId m = sid) (messages d)"
    and "outbox (fst (sessionDelete uid sid d)) =
      delete_rows (\<lambda>x. \<exists>m \<in> set (messages d). m_sessionId m = sid \<and> m_id m = o_messageId x) (outbox d)"
  using assms by (auto simp: sessionDelete_def Let_def delete_session_row_def delete_messages_def)

lemma delete_messages_ok:
  assumes "messages_ok d"
    and "messages d' = delete_rows (\<lambda>m. m_sessionId m = sid) (messages d)"
    and "outbox d' = delete_rows (\<lambda>x. \<exists>m \<in> set (messages d). m_sessionId m = sid \<and> m_id m = o_messageId x) (outbox d)"
    and "sessions d' = delete_rows (\<lambda>r. s_id r = sid) (sessions d)"
  shows "messages_ok d'"
proof -
  have "seqs_within d'" using assms(1) by (fastforce simp: messages_ok_def seqs_within_def assms(2,4))
  moreover have "outbox_backed d'"
    using assms(1) by (fastforce simp: messages_ok_def outbox_backed_def assms(2,3))
  moreover have "local_ids_unique (messages d')"
    using assms(1) by (auto simp: messages_ok_def local_ids_unique_def assms(2))
  ultimately show ?thesis using assms(1) by (auto simp: messages_ok_def assms(2,3))
qed

lemma delete_fifo:
  assumes "messages_ok d" and "fifo sel d"
    and "messages d' = delete_rows (\<lambda>m. m_sessionId m = sid) (messages d)"
    and "outbox d' = delete_rows (\<lambda>x. \<exists>m \<in> set (messages d). m_sessionId m = sid \<and> m_id m = o_messageId x) (outbox d)"
  shows "fifo sel d'"
proof -
  have msg: "outbox_message d' x = outbox_message d x" if "x \<in> set (outbox d')" for x
  proof -
    have x: "x \<in> set (outbox d)" using that by (simp add: assms(4))
    obtain m where m: "outbox_message d x = Some m" "m \<in> set (messages d)" "m_id m = o_messageId x"
      using outbox_message_Some [OF assms(1) x] by blast
    then have "m_sessionId m \<noteq> sid" using that by (auto simp: assms(4))
    then have "outbox_message d' x = Some m"
      unfolding outbox_message_def assms(3) using assms(1) m
      by (intro find_row_unique [of m_id]) (auto simp: messages_ok_def)
    with m show ?thesis by simp
  qed
  have "undelivered_earlier d x" if "x \<in> set (outbox d')" "undelivered_earlier d' x" for x
    using that msg by (auto simp: undelivered_earlier_def earlier_in_def assms(4))
  with assms(2) show ?thesis by (auto simp: fifo_def assms(4))
qed

lemma delete_gap_free:
  assumes "gap_free d"
    and "messages d' = delete_rows (\<lambda>m. m_sessionId m = sid) (messages d)"
    and "sessions d' = delete_rows (\<lambda>r. s_id r = sid) (sessions d)"
  shows "gap_free d'"
proof -
  have "{m \<in> set (messages d'). m_sessionId m = s_id s} = {m \<in> set (messages d). m_sessionId m = s_id s}"
    if "s_id s \<noteq> sid" for s :: session
    using that by (auto simp: assms(2))
  then show ?thesis using assms(1) by (simp add: gap_free_def assms(3))
qed

section \<open>Outbox statements\<close>

text \<open>Rewriting outbox rows in place: identity and message stay, delivered stays delivered.\<close>

lemma outbox_rewrite_ok:
  assumes "messages_ok d"
    and "\<And>x. P x \<Longrightarrow> o_id (f x) = o_id x \<and> o_messageId (f x) = o_messageId x \<and> o_sessionId (f x) = o_sessionId x"
  shows "messages_ok (d\<lparr>outbox := update_rows P f (outbox d)\<rparr>)"
proof -
  have "unique_by o_id (update_rows P f (outbox d))" "unique_by o_messageId (update_rows P f (outbox d))"
    using assms by (auto simp: messages_ok_def)
  moreover have "outbox_backed (d\<lparr>outbox := update_rows P f (outbox d)\<rparr>)"
    using assms by (auto simp: messages_ok_def outbox_backed_def set_update_rows)
  ultimately show ?thesis using assms(1) by (simp add: messages_ok_def seqs_within_def)
qed

lemma outbox_rewrite_fifo:
  assumes "fifo sel d"
    and "\<And>x. P x \<Longrightarrow> o_id (f x) = o_id x \<and> o_messageId (f x) = o_messageId x \<and> o_sessionId (f x) = o_sessionId x"
    and "\<And>x. P x \<Longrightarrow> o_deliveredAt x \<noteq> None \<Longrightarrow> o_deliveredAt (f x) \<noteq> None"
    and "\<And>x. x \<in> set (outbox d) \<Longrightarrow> P x \<Longrightarrow> \<not> undelivered_earlier d x"
  shows "fifo sel (d\<lparr>outbox := update_rows P f (outbox d)\<rparr>)"
proof -
  let ?d' = "d\<lparr>outbox := update_rows P f (outbox d)\<rparr>"
  let ?g = "\<lambda>x. if P x then f x else x"
  have kept_ids: "o_id (?g x) = o_id x" "o_messageId (?g x) = o_messageId x"
    "o_sessionId (?g x) = o_sessionId x" for x
    using assms(2) [of x] by simp_all
  have g: "earlier_in ?d' (?g e) (?g x) = earlier_in d e x" for e x
    unfolding earlier_in_def outbox_message_def kept_ids by simp
  have older: "undelivered_earlier d x" if later: "undelivered_earlier ?d' (?g x)" for x
  proof -
    obtain e where "e \<in> set (outbox d)" "o_deliveredAt (?g e) = None" "earlier_in ?d' (?g e) (?g x)"
      using later unfolding undelivered_earlier_def by (auto simp: set_update_rows)
    moreover from this have "o_deliveredAt e = None" using assms(3) [of e]
      by (cases "o_deliveredAt e") (auto split: if_splits)
    ultimately show ?thesis using g by (auto simp: undelivered_earlier_def)
  qed
  have "\<not> undelivered_earlier ?d' (?g x)"
    if "x \<in> set (outbox d)"
      and "o_claimToken (?g x) \<noteq> None \<or> o_deliveredAt (?g x) \<noteq> None \<or> o_id (?g x) \<in> sel" for x
    using that assms(1,4) older [of x] by (auto simp: fifo_def split: if_splits)
  then have "\<forall>y \<in> ?g ` set (outbox d). o_claimToken y \<noteq> None \<or> o_deliveredAt y \<noteq> None \<or> o_id y \<in> sel
      \<longrightarrow> \<not> undelivered_earlier ?d' y"
    by blast
  moreover have "set (outbox ?d') = ?g ` set (outbox d)" by (simp add: set_update_rows)
  ultimately show ?thesis unfolding fifo_def by metis
qed

lemma claim_row_kept:
  assumes "messages_ok d" and "fifo sel d" and "oid \<in> sel"
  shows "messages_ok (fst (claim_row oid token now cutoff d)) \<and> fifo sel (fst (claim_row oid token now cutoff d))"
  unfolding claim_row_def Let_def fst_conv
proof
  show "fifo sel (d\<lparr>outbox := update_rows (\<lambda>x. o_id x = oid \<and> pendingClaimWhere now cutoff x)
      (\<lambda>x. x\<lparr>o_claimedAt := Some now, o_claimToken := Some token, o_attempts := o_attempts x + 1\<rparr>) (outbox d)\<rparr>)"
    using assms(2) by (rule outbox_rewrite_fifo) (use assms(2,3) in \<open>auto simp: fifo_def\<close>)
qed (use assms(1) in \<open>auto intro!: outbox_rewrite_ok\<close>)

lemma held_by_head: "fifo sel d \<Longrightarrow> x \<in> set (outbox d) \<Longrightarrow> held_by n x \<Longrightarrow> \<not> undelivered_earlier d x"
  by (auto simp: fifo_def held_by_def)

lemma mark_kept:
  assumes "messages_ok d" and "fifo sel d"
  shows "messages_ok (markDelivered n now d)" and "fifo sel (markDelivered n now d)"
    and "messages_ok (markFailed n err next d)" and "fifo sel (markFailed n err next d)"
  unfolding markDelivered_def markFailed_def
  using assms held_by_head [OF assms(2)]
  by (auto intro!: outbox_rewrite_ok outbox_rewrite_fifo)

lemma cleanup_kept:
  assumes "messages_ok d" and "fifo sel d"
  shows "messages_ok (fst (cleanupDelivered before d)) \<and> fifo sel (fst (cleanupDelivered before d))"
  using assms
  by (auto simp: cleanupDelivered_def Let_def messages_ok_def seqs_within_def outbox_backed_def fifo_def
      undelivered_earlier_def earlier_in_def outbox_message_def)

text \<open>Selecting candidates keeps the queue order: they are heads of their sessions.\<close>

lemma select_kept:
  assumes "messages_ok d" and "fifo sel d"
  shows "fifo (sel \<union> o_id ` set (claim_candidates now cutoff limit d)) d"
proof -
  have "\<not> undelivered_earlier d x"
    if x: "x \<in> set (outbox d)" and sel: "o_id x \<in> o_id ` set (claim_candidates now cutoff limit d)" for x
  proof -
    obtain y where y: "y \<in> set (claim_candidates now cutoff limit d)" "o_id y = o_id x"
      using sel by force
    then have "y = x"
      using x assms(1) claim_candidates_heads(1) [OF y(1)]
      by (auto simp: messages_ok_def dest: unique_by_eq)
    with y show ?thesis using claim_candidates_heads(3) by blast
  qed
  with assms(2) show ?thesis by (auto simp: fifo_def)
qed

section \<open>Cursor replay\<close>

definition session_messages :: "ident \<times> db \<Rightarrow> message list" where
  "session_messages q = (case q of (sid, d) \<Rightarrow>
     sort_key m_seq (filter (\<lambda>m. m_sessionId m = sid) (messages d)))"

text \<open>One request of a replaying client, which always names the cursor \<^verbatim>\<open>afterSeq\<close>.\<close>

definition replay_request :: "ident \<times> db \<Rightarrow> nat \<Rightarrow> int option \<Rightarrow> message list \<times> bool" where
  "replay_request q limit c =
     (case (q, c) of
        ((sid, d), Some afterSeq) \<Rightarrow>
          (let p = listSessionMessagesAfterSeq sid afterSeq limit d in (rp_messages p, rp_hasMore p))
      | _ \<Rightarrow> ([], False))"

lemma session_messages_ordered:
  assumes "unique_by message_key (messages d)"
  shows "sorted_wrt (\<lambda>a b. m_seq a < m_seq b) (session_messages (sid, d))"
proof -
  let ?ms = "filter (\<lambda>m. m_sessionId m = sid) (messages d)"
  have "inj_on m_seq (set ?ms)"
  proof (rule inj_onI)
    fix a b assume "a \<in> set ?ms" "b \<in> set ?ms" "m_seq a = m_seq b"
    then show "a = b" using unique_by_eq [OF assms, of a b] by simp
  qed
  moreover have "distinct ?ms" using assms by (auto simp: unique_by_def distinct_map)
  ultimately have "distinct (map m_seq (sort_key m_seq ?ms))"
    by (simp add: distinct_map)
  then have "sorted_wrt (<) (map m_seq (sort_key m_seq ?ms))" by (simp add: strict_sorted_iff)
  then show ?thesis by (simp add: session_messages_def sorted_wrt_map)
qed

lemma listSessionMessages_rows:
  "rp_messages (listSessionMessagesAfterSeq sid a limit d) =
     take limit (filter (\<lambda>m. a < m_seq m) (session_messages (sid, d)))"
  "rp_hasMore (listSessionMessagesAfterSeq sid a limit d) =
     (limit < length (filter (\<lambda>m. a < m_seq m) (session_messages (sid, d))))"
proof -
  have "sort_key m_seq (filter (\<lambda>m. m_sessionId m = sid \<and> m_seq m > a) (messages d)) =
      filter (\<lambda>m. a < m_seq m) (session_messages (sid, d))"
    by (simp add: session_messages_def filter_sort conj_commute)
  then show "rp_messages (listSessionMessagesAfterSeq sid a limit d) =
       take limit (filter (\<lambda>m. a < m_seq m) (session_messages (sid, d)))"
    and "rp_hasMore (listSessionMessagesAfterSeq sid a limit d) =
       (limit < length (filter (\<lambda>m. a < m_seq m) (session_messages (sid, d))))"
    by (auto simp: listSessionMessagesAfterSeq_def Let_def)
qed

interpretation message_pages: cursor_pages "(<)" m_seq "\<lambda>c. c \<noteq> None"
  "\<lambda>(sid, d). unique_by message_key (messages d)" session_messages replay_request
proof (unfold_locales, goal_cases)
  case (3 q)
  then show ?case by (cases q) (auto intro: session_messages_ordered)
next
  case (5 q c limit)
  obtain sid d where q: "q = (sid, d)" by (cases q)
  with 5(2) show ?case
    by (auto simp: replay_request_def Let_def listSessionMessages_rows after_cursor_def [abs_def])
qed auto

end
