(* ===== verification/Server.thy ===== *)
theory Server
  imports MessageProtocol
begin

text \<open>
  The server as a transition system: any number of replicas, each running its handlers, act on
  one database through the statements of the component theories.  A step is one statement; its
  order with respect to the others is arbitrary, which covers every interleaving of the handlers
  at their \<^verbatim>\<open>await\<close> points.  \<open>OpOther\<close> is any statement that leaves sessions, retirements,
  messages and outbox alone: it may change the other tables at will.

  The state carries two ghost components: \<open>issued\<close>, the ids drawn so far by
  \<^verbatim>\<open>randomUUID\<close> and \<^verbatim>\<open>cuid\<close> (a drawn id is taken to be new), and \<open>selected\<close>, the outbox rows some
  dispatcher pass has read as candidates (\<open>claim_row\<close> runs only on those).

  \<open>server_inv\<close> holds in every reachable state; the properties of the lease protocol and of the
  message log follow from it.
\<close>

section \<open>Statements\<close>

datatype server_op =
    OpClaim claim_input ident
  | OpExpire ident ident ident ident ident
  | OpRenew ident ident ident ident
  | OpRenewLegacy ident ident
  | OpEnd ident ident ident ident
  | OpLegacyEnd ident ident ts ident
  | OpRuntimeMetadata ident ident "ident option" "ident option" int string
  | OpRuntimeState ident ident "ident option" "ident option" int "string option"
  | OpUserMetadata ident ident int string
  | OpUserState ident ident int "string option"
  | OpTimeout ident ts
  | OpCreateSession "string \<Rightarrow> bytes" ident session_body ident
  | OpDeleteSession ident ident
  | OpAllocateUserSeq ident
  | OpPersist persist_input ident ident
  | OpSelect ts ts nat
  | OpClaimRow ident ident ts ts
  | OpMarkDelivered outbox_row ts
  | OpMarkFailed outbox_row string ts
  | OpCleanup ts
  | OpOther db

text \<open>The tables of \<open>e\<close>, with the sessions, retirements, messages and outbox of \<open>d\<close>.\<close>

definition keep_log :: "db \<Rightarrow> db \<Rightarrow> db" where
  "keep_log d e =
     e\<lparr>sessions := sessions d, retirements := retirements d, messages := messages d, outbox := outbox d\<rparr>"

fun apply_op :: "server_op \<Rightarrow> ts \<Rightarrow> db \<Rightarrow> db" where
  "apply_op (OpClaim inp synthetic) = (\<lambda>now d. fst (claimRuntimeConnectionLease inp synthetic now d))"
| "apply_op (OpExpire acct sid iid lease tombstone) = (\<lambda>now d. fst (expireRuntimeConnectionLease acct sid iid lease tombstone now d))"
| "apply_op (OpRenew acct sid iid lease) = (\<lambda>now d. fst (renewRuntimeConnectionLease acct sid iid lease now d))"
| "apply_op (OpRenewLegacy acct sid) = (\<lambda>now d. fst (renewLegacyRuntimeConnection acct sid now d))"
| "apply_op (OpEnd acct sid iid tombstone) = (\<lambda>now d. fst (endRuntimeConnectionLease acct sid iid tombstone now d))"
| "apply_op (OpLegacyEnd acct sid t tombstone) = (\<lambda>now d. fst (legacy_session_end acct sid t tombstone now d))"
| "apply_op (OpRuntimeMetadata acct sid inst lease v m) = (\<lambda>now d. fst (updateRuntimeSessionMetadata acct sid inst lease v m now d))"
| "apply_op (OpRuntimeState acct sid inst lease v m) = (\<lambda>now d. fst (updateRuntimeSessionState acct sid inst lease v m now d))"
| "apply_op (OpUserMetadata acct sid v m) = (\<lambda>now d. fst (user_update_metadata acct sid v m now d))"
| "apply_op (OpUserState acct sid v m) = (\<lambda>now d. fst (user_update_state acct sid v m now d))"
| "apply_op (OpTimeout sid cutoff) = (\<lambda>now d. fst (timeout_session_cas sid cutoff now d))"
| "apply_op (OpCreateSession dec userId body newId) = (\<lambda>now d. fst (throwing (create_session (new_session dec userId body newId now)) d))"
| "apply_op (OpDeleteSession uid sid) = (\<lambda>now d. fst (sessionDelete uid sid d))"
| "apply_op (OpAllocateUserSeq uid) = (\<lambda>now d. fst (throwing (allocateUserSeq uid now) d))"
| "apply_op (OpPersist inp msgId outboxId) = (\<lambda>now d. fst (persistSessionMessage inp msgId outboxId now d))"
| "apply_op (OpSelect jsnow cutoff limit) = (\<lambda>now d. d)"
| "apply_op (OpClaimRow oid token jsnow cutoff) = (\<lambda>now d. fst (claim_row oid token jsnow cutoff d))"
| "apply_op (OpMarkDelivered n jsnow) = (\<lambda>now d. markDelivered n jsnow d)"
| "apply_op (OpMarkFailed n err nextAt) = (\<lambda>now d. markFailed n err nextAt d)"
| "apply_op (OpCleanup before) = (\<lambda>now d. fst (cleanupDelivered before d))"
| "apply_op (OpOther e) = (\<lambda>now d. keep_log d e)"

text \<open>The ids a statement brings in.\<close>

fun op_draws :: "server_op \<Rightarrow> ident list" where
  "op_draws (OpClaim inp synthetic) = [ci_leaseId inp]"
| "op_draws (OpExpire acct sid iid lease tombstone) = [tombstone]"
| "op_draws (OpEnd acct sid iid tombstone) = [tombstone]"
| "op_draws (OpLegacyEnd acct sid t tombstone) = [tombstone]"
| "op_draws (OpCreateSession dec userId body newId) = [newId]"
| "op_draws (OpPersist inp msgId outboxId) = [msgId, outboxId]"
| "op_draws (OpClaimRow oid token jsnow cutoff) = [token]"
| "op_draws _ = []"

fun op_selects :: "server_op \<Rightarrow> db \<Rightarrow> ident list" where
  "op_selects (OpSelect jsnow cutoff limit) d = map o_id (claim_candidates jsnow cutoff limit d)"
| "op_selects _ d = []"

record server =
  clock :: ts
  database :: db
  issued :: "ident list"
  selected :: "ident list"

fun op_enabled :: "server_op \<Rightarrow> server \<Rightarrow> bool" where
  "op_enabled (OpClaimRow oid token jsnow cutoff) s = (oid \<in> set (selected s))"
| "op_enabled _ s = True"

definition server_next :: "server_op \<Rightarrow> ts \<Rightarrow> server \<Rightarrow> server" where
  "server_next op now s =
     s\<lparr>clock := now, database := apply_op op now (database s),
       issued := issued s @ op_draws op,
       selected := selected s @ op_selects op (database s)\<rparr>"

inductive server_step :: "server \<Rightarrow> server \<Rightarrow> bool" where
  step: "clock s \<le> now \<Longrightarrow> set (op_draws op) \<inter> set (issued s) = {} \<Longrightarrow> op_enabled op s \<Longrightarrow>
    server_step s (server_next op now s)"

inductive_cases server_stepE: "server_step s s'"

definition initial :: "server \<Rightarrow> bool" where
  "initial s =
     (sessions (database s) = [] \<and> retirements (database s) = [] \<and> messages (database s) = []
    \<and> outbox (database s) = [] \<and> selected s = [])"

inductive reachable :: "server \<Rightarrow> bool" where
  start: "initial s \<Longrightarrow> reachable s"
| run: "reachable s \<Longrightarrow> server_step s s' \<Longrightarrow> reachable s'"

inductive later :: "server \<Rightarrow> server \<Rightarrow> bool" where
  here: "later s s"
| onward: "later s s' \<Longrightarrow> server_step s' s'' \<Longrightarrow> later s s''"

section \<open>The invariant\<close>

definition ids_issued :: "server \<Rightarrow> bool" where
  "ids_issued s =
     ((\<forall>r \<in> set (sessions (database s)).
         s_id r \<in> set (issued s)
       \<and> (\<forall>l. s_runtimeConnectionLeaseId r = Some l \<longrightarrow> l \<in> set (issued s)))
    \<and> (\<forall>x \<in> set (outbox (database s)). o_id x \<in> set (issued s))
    \<and> set (selected s) \<subseteq> set (issued s))"

definition server_inv :: "server \<Rightarrow> bool" where
  "server_inv s =
     (lease_wf (clock s) (database s) \<and> messages_ok (database s) \<and> gap_free (database s)
    \<and> fifo (set (selected s)) (database s) \<and> ids_issued s)"

lemma keep_log_contract:
  "lease_neutral (\<lambda>now d. keep_log d e)" "message_neutral (\<lambda>now d. keep_log d e)"
  by (unfold_locales; auto simp: keep_log_def)+

text \<open>Every statement keeps the lease contract, with the ids it draws.\<close>

lemma lease_statement_mono:
  assumes "lease_statement stmt A" and "A \<subseteq> B"
  shows "lease_statement stmt B"
proof -
  have "row_origin B d r" if "row_origin A d r" for d r
    using that assms(2) by (auto simp: row_origin_def)
  then show ?thesis using assms(1) unfolding lease_statement_def by blast
qed

lemma outbox_statements_neutral:
  "lease_neutral (\<lambda>now d. fst (claim_row oid token jsnow cutoff d))"
  "lease_neutral (\<lambda>now d. markDelivered n jsnow d)"
  "lease_neutral (\<lambda>now d. markFailed n err nextAt d)"
  "lease_neutral (\<lambda>now d. fst (cleanupDelivered before d))"
  "lease_neutral (\<lambda>now d. d)"
  by (unfold_locales; simp add: claim_row_def markDelivered_def markFailed_def cleanupDelivered_def Let_def)+

lemma neutral_is_statement: "lease_neutral stmt \<Longrightarrow> lease_statement stmt A"
  by (rule lease_statement_mono [where A = "{}"]) (auto intro: lease_neutral.neutral_statement)

lemma op_lease_statement:
  assumes "op_enabled op s"
  shows "lease_statement (apply_op op) (set (op_draws op))"
proof -
  show ?thesis
    using assms
    by (cases op)
      (simp_all add: neutral_is_statement outbox_statements_neutral keep_log_contract
        claim.lease_statement_axioms expire.lease_statement_axioms renew.lease_statement_axioms
        renew_legacy.lease_statement_axioms session_end.lease_statement_axioms
        legacy_end.lease_statement_axioms create.lease_statement_axioms
        delete_session.lease_statement_axioms runtime_metadata.lease_neutral_axioms
        runtime_state.lease_neutral_axioms user_metadata.lease_neutral_axioms
        user_state.lease_neutral_axioms timeout_sweep.lease_neutral_axioms
        user_sequence.lease_neutral_axioms persist.lease_neutral_axioms)
qed

text \<open>Every statement keeps the message log and the order of the queue.\<close>

lemma persist_kept:
  assumes "keys_ok d" and "messages_ok d" and "fifo sel d" and "outboxId \<notin> sel"
  shows "messages_ok (fst (persistSessionMessage inp msgId outboxId now d))
    \<and> fifo sel (fst (persistSessionMessage inp msgId outboxId now d))"
proof (cases "persistSessionMessageInTx inp msgId outboxId now d")
  case None
  with assms show ?thesis by (simp add: persistSessionMessage_def throwing_def)
next
  case (Some p)
  obtain d' res where p: "p = (d', res)" by (cases p)
  have "messages_ok d' \<and> fifo sel d'"
    using Some [unfolded p]
  proof (cases rule: persist_cases)
    case (Inserted r)
    then show ?thesis
      using assms by (auto intro: insert_message_ok insert_message_fifo)
  qed (use assms in simp)
  with Some p show ?thesis by (simp add: persistSessionMessage_def throwing_def)
qed

lemma delete_kept:
  assumes "messages_ok d" and "fifo sel d"
  shows "messages_ok (fst (sessionDelete uid sid d)) \<and> fifo sel (fst (sessionDelete uid sid d))"
proof (cases "find_row (\<lambda>r. s_id r = sid \<and> s_accountId r = uid) (sessions d) = None")
  case True
  with assms show ?thesis by (simp add: sessionDelete_miss)
next
  case False
  then show ?thesis
    using delete_messages_ok [OF assms(1) sessionDelete_messages sessionDelete_tables(1)]
      delete_fifo [OF assms sessionDelete_messages]
    by blast
qed

lemma neutral_kept:
  "message_neutral stmt \<Longrightarrow> messages_ok d \<Longrightarrow> fifo sel d \<Longrightarrow>
     messages_ok (stmt now d) \<and> fifo sel (stmt now d)"
  by (simp add: message_neutral.neutral_messages_ok message_neutral.neutral_fifo)

lemmas message_neutral_ops =
  claim_m.message_neutral_axioms expire_m.message_neutral_axioms renew_m.message_neutral_axioms
  renew_legacy_m.message_neutral_axioms session_end_m.message_neutral_axioms
  legacy_end_m.message_neutral_axioms create_m.message_neutral_axioms
  runtime_metadata_m.message_neutral_axioms runtime_state_m.message_neutral_axioms
  user_metadata_m.message_neutral_axioms user_state_m.message_neutral_axioms
  timeout_m.message_neutral_axioms user_sequence_m.message_neutral_axioms

fun op_writes_log :: "server_op \<Rightarrow> bool" where
  "op_writes_log (OpPersist _ _ _) = True"
| "op_writes_log (OpDeleteSession _ _) = True"
| "op_writes_log (OpClaimRow _ _ _ _) = True"
| "op_writes_log (OpMarkDelivered _ _) = True"
| "op_writes_log (OpMarkFailed _ _ _) = True"
| "op_writes_log (OpCleanup _) = True"
| "op_writes_log _ = False"

lemma op_message_neutral:
  assumes "\<not> op_writes_log op" and "op_enabled op s"
  shows "message_neutral (apply_op op)"
proof -
  have "message_neutral (\<lambda>now d. d)" by unfold_locales auto
  then show ?thesis
    using assms by (cases op) (simp_all add: message_neutral_ops keep_log_contract)
qed

lemma op_messages_kept:
  assumes "keys_ok d" and "messages_ok d" and "fifo sel d" and "op_enabled op s"
    and "set (selected s) \<subseteq> sel" and "set (op_draws op) \<inter> sel = {}"
  shows "messages_ok (apply_op op now d) \<and> fifo sel (apply_op op now d)"
proof (cases "op_writes_log op")
  case True
  show ?thesis
  proof (cases op)
    case (OpClaimRow oid token jsnow cutoff)
    then show ?thesis using assms claim_row_kept [of d sel oid] by auto
  qed (use assms True in \<open>auto simp: persist_kept delete_kept mark_kept cleanup_kept\<close>)
next
  case False
  then show ?thesis using op_message_neutral assms(2-4) neutral_kept by blast
qed

lemma persist_outbox_ids:
  assumes "x \<in> set (outbox (fst (persistSessionMessage inp msgId outboxId now d)))"
  shows "o_id x = outboxId \<or> x \<in> set (outbox d)"
proof (cases "persistSessionMessageInTx inp msgId outboxId now d")
  case None
  then show ?thesis using assms by (auto simp: persistSessionMessage_def throwing_def)
next
  case (Some p)
  obtain d' res where p: "p = (d', res)" by (cases p)
  then have x: "x \<in> set (outbox d')"
    using assms Some by (simp add: persistSessionMessage_def throwing_def)
  show ?thesis
    using Some [unfolded p]
  proof (cases rule: persist_cases)
    case (Inserted r)
    from Inserted(4) show ?thesis
    proof (cases rule: insert_message_effect)
      case (1 s u)
      then show ?thesis using x by (auto simp: new_outbox_row_def)
    qed
  qed (use x in auto)
qed

lemma update_rows_ids:
  "x \<in> set (update_rows P f xs) \<Longrightarrow> (\<And>y. P y \<Longrightarrow> o_id (f y) = o_id y) \<Longrightarrow> \<exists>y \<in> set xs. o_id y = o_id x"
  by (induction xs) (auto split: if_splits)

lemma persist_gap_free:
  assumes "keys_ok d" and "messages_ok d" and "gap_free d"
  shows "gap_free (fst (persistSessionMessage inp msgId outboxId now d))"
proof (cases "persistSessionMessageInTx inp msgId outboxId now d")
  case (Some p)
  obtain d' res where p: "p = (d', res)" by (cases p)
  have "gap_free d'"
    using Some [unfolded p]
  proof (cases rule: persist_cases)
    case (Inserted r)
    then show ?thesis using assms by (auto intro: insert_message_gap_free)
  qed (use assms in simp)
  with Some p show ?thesis by (simp add: persistSessionMessage_def throwing_def)
qed (use assms in \<open>simp add: persistSessionMessage_def throwing_def\<close>)

lemma op_gap_free:
  assumes "keys_ok d" and "messages_ok d" and "gap_free d" and "op_enabled op s"
  shows "gap_free (apply_op op now d)"
proof (cases "op_writes_log op")
  case True
  show ?thesis
  proof (cases op)
    case (OpPersist inp msgId outboxId)
    with assms show ?thesis by (simp add: persist_gap_free)
  next
    case (OpDeleteSession uid sid)
    then show ?thesis
      using assms(3) delete_gap_free [OF assms(3) sessionDelete_messages(1) sessionDelete_tables(1)]
      by (cases "find_row (\<lambda>r. s_id r = sid \<and> s_accountId r = uid) (sessions d) = None")
        (auto simp: sessionDelete_miss)
  qed (use True assms(3) in \<open>simp_all add: gap_free_def claim_row_def markDelivered_def markFailed_def
        cleanupDelivered_def Let_def\<close>)
next
  case False
  moreover have "seqs_within d" using assms(2) by (simp add: messages_ok_def)
  ultimately show ?thesis
    using message_neutral.neutral_gap_free [OF op_message_neutral] assms(3,4) by blast
qed

lemma outbox_ids_kept:
  assumes "op_enabled op s" and "x \<in> set (outbox (apply_op op now d))"
  shows "o_id x \<in> set (op_draws op) \<or> (\<exists>y \<in> set (outbox d). o_id y = o_id x)"
proof (cases "op_writes_log op")
  case True
  show ?thesis
  proof (cases op)
    case (OpPersist inp msgId outboxId)
    then show ?thesis using assms persist_outbox_ids by fastforce
  next
    case (OpDeleteSession uid sid)
    then show ?thesis
      using assms by (cases "find_row (\<lambda>r. s_id r = sid \<and> s_accountId r = uid) (sessions d)")
        (auto simp: sessionDelete_miss sessionDelete_messages)
  next
    case (OpClaimRow oid token jsnow cutoff)
    then show ?thesis using assms by (auto simp: claim_row_def Let_def dest!: update_rows_ids)
  next
    case (OpMarkDelivered n jsnow)
    then show ?thesis using assms by (auto simp: markDelivered_def dest!: update_rows_ids)
  next
    case (OpMarkFailed n err nextAt)
    then show ?thesis using assms by (auto simp: markFailed_def dest!: update_rows_ids)
  qed (use assms True in \<open>auto simp: cleanupDelivered_def Let_def\<close>)
next
  case False
  then show ?thesis
    using assms message_neutral.same_outbox [OF op_message_neutral] by metis
qed

section \<open>Reachable states\<close>

lemma step_ids_issued:
  assumes "ids_issued s" and "op_enabled op s"
  shows "ids_issued (server_next op now s)"
proof -
  let ?d = "database s" and ?d' = "apply_op op now (database s)"
  let ?I = "set (issued s) \<union> set (op_draws op)"
  note old = assms(1) [unfolded ids_issued_def]
  have "s_id r \<in> ?I \<and> (\<forall>l. s_runtimeConnectionLeaseId r = Some l \<longrightarrow> l \<in> ?I)"
    if "r \<in> set (sessions ?d')" for r
    using lease_statement.rows_from [OF op_lease_statement [OF assms(2)] that] old
    unfolding row_origin_def by (elim disjE bexE) force+
  moreover have "o_id x \<in> ?I" if "x \<in> set (outbox ?d')" for x
    using outbox_ids_kept [OF assms(2) that] old by force
  moreover have "set (op_selects op ?d) \<subseteq> set (issued s)"
  proof (cases op)
    case (OpSelect jsnow cutoff limit)
    then show ?thesis using claim_candidates_heads(1) old by force
  qed auto
  ultimately show ?thesis
    using old unfolding ids_issued_def server_next_def by (simp add: Un_commute subset_iff)
qed

lemma step_inv:
  assumes "server_inv s" and "clock s \<le> now" and "set (op_draws op) \<inter> set (issued s) = {}"
    and "op_enabled op s"
  shows "server_inv (server_next op now s)"
proof -
  let ?d = "database s"
  have inv: "lease_wf (clock s) ?d" "messages_ok ?d" "fifo (set (selected s)) ?d" "ids_issued s"
    using assms(1) by (auto simp: server_inv_def)
  have wf: "lease_wf now (apply_op op now ?d)"
    using lease_statement.wf_kept [OF op_lease_statement [OF assms(4)] inv(1) assms(2)] .
  have "fifo (set (selected s) \<union> set (op_selects op ?d)) ?d"
    using inv(2,3) select_kept by (cases op) auto
  moreover have "set (op_draws op) \<inter> (set (selected s) \<union> set (op_selects op ?d)) = {}"
  proof -
    have "set (selected s) \<subseteq> set (issued s)" using inv(4) by (simp add: ids_issued_def)
    moreover have "set (op_draws op) = {} \<or> set (op_selects op ?d) = {}" by (cases op) auto
    ultimately show ?thesis using assms(3) by auto
  qed
  ultimately have "messages_ok (apply_op op now ?d)
      \<and> fifo (set (selected s) \<union> set (op_selects op ?d)) (apply_op op now ?d)"
    using inv(1,2) assms(4) by (intro op_messages_kept) (auto dest: lease_wfD)
  moreover have "gap_free (apply_op op now ?d)"
    using assms(1,4) inv(1,2) by (intro op_gap_free) (auto simp: server_inv_def dest: lease_wfD)
  ultimately show ?thesis
    using wf step_ids_issued [OF inv(4) assms(4), of now] by (simp add: server_inv_def server_next_def)
qed

lemma initial_inv: "initial s \<Longrightarrow> server_inv s"
  by (simp add: initial_def server_inv_def lease_wf_def keys_ok_def messages_ok_def gap_free_def fifo_def
      ids_issued_def local_ids_unique_def seqs_within_def outbox_backed_def)

lemma reachable_inv: "reachable s \<Longrightarrow> server_inv s"
proof (induction rule: reachable.induct)
  case (start s)
  then show ?case by (rule initial_inv)
next
  case (run s s')
  then show ?case by (auto elim!: server_stepE intro: step_inv)
qed

lemma later_inv: "later s s' \<Longrightarrow> server_inv s \<Longrightarrow> server_inv s'"
  by (induction rule: later.induct) (auto elim!: server_stepE intro: step_inv)

lemma later_issued: "later s s' \<Longrightarrow> set (issued s) \<subseteq> set (issued s')"
  by (induction rule: later.induct) (auto elim!: server_stepE simp: server_next_def)

section \<open>Runs\<close>

fun run_ops :: "(server_op \<times> ts) list \<Rightarrow> server \<Rightarrow> server" where
  "run_ops [] s = s"
| "run_ops ((op, now) # ops) s = run_ops ops (server_next op now s)"

fun run_ok :: "(server_op \<times> ts) list \<Rightarrow> server \<Rightarrow> bool" where
  "run_ok [] s = True"
| "run_ok ((op, now) # ops) s =
     (clock s \<le> now \<and> set (op_draws op) \<inter> set (issued s) = {} \<and> op_enabled op s
    \<and> run_ok ops (server_next op now s))"

lemma run_reachable: "run_ok ops s \<Longrightarrow> reachable s \<Longrightarrow> reachable (run_ops ops s)"
  by (induction ops s rule: run_ops.induct) (auto intro: reachable.run server_step.step)

lemma later_step: "server_step s s' \<Longrightarrow> later s' s'' \<Longrightarrow> later s s''"
  by (rotate_tac, induction rule: later.induct) (auto intro: later.intros)

lemma run_later: "run_ok ops s \<Longrightarrow> later s (run_ops ops s)"
  by (induction ops s rule: run_ops.induct) (auto intro: later.here later_step server_step.step)

text \<open>
  A short run: an account creates a session, a runtime connects twice (the second socket
  displaces the first), a user sends a message, the dispatcher selects and claims its
  notification.
\<close>

definition demo_start :: server where
  "demo_start =
     \<lparr>clock = 1000000,
      database = empty_db\<lparr>accounts := [blank_account ''u1'' ''pk'' 0]\<rparr>,
      issued = [], selected = []\<rparr>"

definition demo_body :: session_body where
  "demo_body = \<lparr>sb_tag = ''t'', sb_metadata = ''m'', sb_agentState = None, sb_dataEncryptionKey = None\<rparr>"

definition demo_claim :: "ident \<Rightarrow> ident \<Rightarrow> claim_input" where
  "demo_claim iid lease =
     \<lparr>ci_accountId = ''u1'', ci_sessionId = ''s1'', ci_sessionInstanceId = Some iid, ci_replayOnly = False,
      ci_leaseId = lease\<rparr>"

definition demo_message :: persist_input where
  "demo_message =
     \<lparr>pi_userId = ''u1'', pi_sessionId = ''s1'', pi_ciphertext = ''c'', pi_localId = Some ''k1'',
      pi_originSocketId = None, pi_runtimeAuthorization = None\<rparr>"

definition demo_ops :: "(server_op \<times> ts) list" where
  "demo_ops =
     [(OpCreateSession id ''u1'' demo_body ''s1'', 1000001),
      (OpClaim (demo_claim ''i1'' ''L1'') ''x'', 1000002),
      (OpClaim (demo_claim ''i1'' ''L2'') ''x'', 1000003),
      (OpPersist demo_message ''m1'' ''o1'', 1000004),
      (OpSelect 1000004 970004 25, 1000004),
      (OpClaimRow ''o1'' ''tok'' 1000004 970004, 1000005)]"

definition demo :: server where
  "demo = run_ops demo_ops demo_start"

lemma demo_start_reachable: "reachable demo_start"
  by (rule reachable.start) (simp add: demo_start_def initial_def empty_db_def)

lemma demo_run: "run_ok demo_ops demo_start"
  by code_simp

lemma demo_reachable: "reachable demo"
  unfolding demo_def using demo_run demo_start_reachable by (rule run_reachable)

end
