(* ===== verification/LeaseSafety.thy ===== *)
theory LeaseSafety
  imports Server
begin

text \<open>
  The safety of the runtime connection lease over whole runs of the server: a displaced or
  expired socket generation never regains authority, a retired incarnation never returns, at
  most one generation owns a session, the readiness shown to clients is defined and agrees
  with the JavaScript predicate, and no lease outlives its duration.
\<close>

section \<open>Generations that lost their lease\<close>

definition off_session :: "ident \<Rightarrow> ident \<Rightarrow> db \<Rightarrow> bool" where
  "off_session sid l d =
     (\<forall>r \<in> set (sessions d). s_id r = sid \<longrightarrow> s_runtimeConnectionLeaseId r \<noteq> Some l)"

lemma off_session_later:
  assumes "later s s'" and "l \<in> set (issued s)" and "off_session sid l (database s)"
  shows "off_session sid l (database s')"
  using assms
proof (induction rule: later.induct)
  case (onward s s' s'')
  then have "l \<in> set (issued s')" using later_issued by blast
  with onward show ?case
    using lease_statement.lease_stays_lost [OF op_lease_statement]
    by (auto simp: off_session_def server_next_def elim!: server_stepE) blast
qed

lemma no_rows_hit:
  "(\<And>r. r \<in> set (sessions d) \<Longrightarrow> \<not> P r) \<Longrightarrow>
     (d\<lparr>sessions := update_rows P f (sessions d)\<rparr>, count_rows P (sessions d) > 0) = (d, False)"
  by (simp add: update_rows_noop count_rows_zero)

lemma off_session_not_owner:
  assumes "off_session sid l d" and "i \<noteq> []"
  shows "\<not> isRuntimeConnectionOwner acct sid (Some i) (Some l) now d"
  using assms by (auto simp: owner_live_iff off_session_def)

lemma off_session_no_renewal:
  assumes "off_session sid l d"
  shows "renewRuntimeConnectionLease acct sid i l now d = (d, False)"
  unfolding renewRuntimeConnectionLease_def Let_def
  using assms by (intro no_rows_hit) (auto simp: off_session_def sql_where)

lemma not_owner_no_write:
  assumes "\<not> isRuntimeConnectionOwner acct sid inst lease now d"
  shows "updateRuntimeSessionMetadata acct sid inst lease v m now d = (d, False)"
    and "updateRuntimeSessionState acct sid inst lease v a now d = (d, False)"
proof -
  show "updateRuntimeSessionMetadata acct sid inst lease v m now d = (d, False)"
    unfolding updateRuntimeSessionMetadata_def Let_def
    using assms by (intro no_rows_hit) (auto simp: owner_via_sql sql_where)
  show "updateRuntimeSessionState acct sid inst lease v a now d = (d, False)"
    unfolding updateRuntimeSessionState_def Let_def
    using assms by (intro no_rows_hit) (auto simp: owner_via_sql sql_where)
qed

text \<open>A message under a lease authorization needs the ownership of exactly that generation.\<close>

lemma authorized_lease_owner:
  assumes "message_authorized now d r (AuthLease i l)" and "locked_session inp d = Some r" and "i \<noteq> []"
  shows "isRuntimeConnectionOwner (pi_userId inp) (pi_sessionId inp) (Some i) (Some l) now d"
proof -
  have r: "r \<in> set (sessions d)" "s_id r = pi_sessionId inp" "s_accountId r = pi_userId inp"
    using find_row_SomeD [OF assms(2) [unfolded locked_session_def]] by auto
  moreover have "s_active r" "s_activeInstanceId r = Some i" "s_runtimeConnectionLeaseInstanceId r = Some i"
    "s_runtimeConnectionLeaseId r = Some l"
    "\<exists>e. s_runtimeConnectionLeaseExpiresAt r = Some e \<and> now < e" "\<not> retired (s_id r) i d"
    using assms(1) by (auto simp: runtimeLeaseCurrent_def sql_where retired_def retired_in_def)
  ultimately show ?thesis unfolding owner_live_iff [OF assms(3)] by metis
qed

lemma not_owner_no_message:
  assumes "\<not> isRuntimeConnectionOwner (pi_userId inp) (pi_sessionId inp) (Some i) (Some l) now d"
    and "i \<noteq> []" and "pi_runtimeAuthorization inp = Some (AuthLease i l)"
  shows "fst (persistSessionMessage inp msgId outboxId now d) = d
    \<and> (\<forall>dup m u. snd (persistSessionMessage inp msgId outboxId now d) \<noteq> Some (PersistSuccess dup m u))"
proof -
  have "persistSessionMessageInTx inp msgId outboxId now d =
    Some (d, case locked_session inp d of
               None \<Rightarrow> PersistError SessionNotFound False
             | Some r \<Rightarrow> PersistError RuntimeConnectionStale (stale_retryable d r (AuthLease i l)))"
    using assms authorized_lease_owner [OF _ _ assms(2)]
    by (auto simp: persistSessionMessageInTx_def Let_def simp del: message_authorized.simps
        split: option.splits)
  then show ?thesis by (auto simp: persistSessionMessage_def throwing_def split: option.splits)
qed

text \<open>
  C1.  Fencing.  Once the row of a session no longer carries a lease id that was issued before,
  the generation with that id is powerless in every later state, whatever any replica does in
  between: it is not the owner, its heartbeat and its metadata and state writes leave the
  database unchanged and report failure, and a message under its authorization is never
  accepted.
\<close>

theorem displaced_generation_powerless:
  assumes "later s s'" and "l \<in> set (issued s)" and "off_session sid l (database s)" and "i \<noteq> []"
    and "pi_userId inp = acct" and "pi_sessionId inp = sid"
    and "pi_runtimeAuthorization inp = Some (AuthLease i l)"
  defines "d \<equiv> database s'"
  shows "\<not> isRuntimeConnectionOwner acct sid (Some i) (Some l) now d
    \<and> renewRuntimeConnectionLease acct sid i l now d = (d, False)
    \<and> updateRuntimeSessionMetadata acct sid (Some i) (Some l) v m now d = (d, False)
    \<and> updateRuntimeSessionState acct sid (Some i) (Some l) v a now d = (d, False)
    \<and> fst (persistSessionMessage inp msgId outboxId now d) = d
    \<and> (\<forall>dup msg u. snd (persistSessionMessage inp msgId outboxId now d) \<noteq> Some (PersistSuccess dup msg u))"
proof -
  have off: "off_session sid l d"
    using off_session_later [OF assms(1-3)] by (simp add: d_def)
  note no_owner = off_session_not_owner [OF off assms(4)]
  show ?thesis
    using no_owner off_session_no_renewal [OF off] not_owner_no_write [OF no_owner]
      not_owner_no_message [of inp i l now d msgId outboxId] assms(4-7)
    by auto
qed

text \<open>The first socket of the demo run, after the second one connected.\<close>

definition demo_displaced :: server where
  "demo_displaced = run_ops (take 3 demo_ops) demo_start"

theorem displaced_generation_powerless_witness:
  "off_session ''s1'' ''L1'' (database demo_displaced)
   \<and> \<not> isRuntimeConnectionOwner ''u1'' ''s1'' (Some ''i1'') (Some ''L1'') 1000006 (database demo)
   \<and> isRuntimeConnectionOwner ''u1'' ''s1'' (Some ''i1'') (Some ''L2'') 1000006 (database demo)"
proof -
  have "later demo_displaced (run_ops (drop 3 demo_ops) demo_displaced)"
    by (rule run_later) code_simp
  moreover have "run_ops (drop 3 demo_ops) demo_displaced = demo"
    by (simp add: demo_displaced_def demo_def demo_ops_def)
  ultimately have l: "later demo_displaced demo" by simp
  have iss: "''L1'' \<in> set (issued demo_displaced)" by code_simp
  have off: "off_session ''s1'' ''L1'' (database demo_displaced)" by code_simp
  have "\<not> isRuntimeConnectionOwner ''u1'' ''s1'' (Some ''i1'') (Some ''L1'') 1000006 (database demo)"
    using displaced_generation_powerless [OF l iss off, where i = "''i1''" and acct = "''u1''"
        and inp = "demo_message\<lparr>pi_runtimeAuthorization := Some (AuthLease ''i1'' ''L1'')\<rparr>"]
    by (simp add: demo_message_def)
  moreover have "isRuntimeConnectionOwner ''u1'' ''s1'' (Some ''i1'') (Some ''L2'') 1000006 (database demo)"
    by code_simp
  ultimately show ?thesis using off by blast
qed

section \<open>Retired incarnations\<close>

definition retired_or_gone :: "ident \<Rightarrow> ident \<Rightarrow> db \<Rightarrow> bool" where
  "retired_or_gone sid i d = (retired sid i d \<or> (\<forall>r \<in> set (sessions d). s_id r \<noteq> sid))"

lemma retired_later:
  assumes "later s s'" and "sid \<in> set (issued s)" and "retired_or_gone sid i (database s)"
  shows "retired_or_gone sid i (database s')"
  using assms
proof (induction rule: later.induct)
  case (onward s s' s'')
  then have "sid \<in> set (issued s')" using later_issued by blast
  with onward show ?case
    using lease_statement.retired_or_gone [OF op_lease_statement]
    by (auto simp: retired_or_gone_def server_next_def elim!: server_stepE) blast+
qed

lemma retired_or_gone_not_owner:
  "retired_or_gone sid i d \<Longrightarrow> i \<noteq> [] \<Longrightarrow> \<not> isRuntimeConnectionOwner acct sid (Some i) (Some l) now d"
  by (auto simp: owner_live_iff retired_or_gone_def)

lemma retired_or_gone_no_claim:
  assumes "retired_or_gone sid i d"
  shows "claim_live acct sid i lease now d = (d, not_claimed)"
proof -
  have "find_row (\<lambda>r. holds (live_candidate i acct sid now d r)) (sessions d) = None"
    using assms by (auto simp: find_row_None_iff retired_or_gone_def sql_where)
  then show ?thesis by (simp add: claim_live_def)
qed

text \<open>
  C2.  Retirement is final.  When an incarnation of a session is retired (superseded, ended or
  replaying) in a reachable state, then in every later state no lease makes it the owner of the
  session, and a live claim for it is refused without touching the database.
\<close>

theorem retired_incarnation_never_returns:
  assumes "reachable s" and "later s s'" and "retired sid i (database s)" and "i \<noteq> []"
    and "ci_sessionId inp = sid" and "ci_sessionInstanceId inp = Some i" and "\<not> ci_replayOnly inp"
  shows "\<not> isRuntimeConnectionOwner acct sid (Some i) (Some l) now (database s')
    \<and> claimRuntimeConnectionLease inp synthetic now (database s') = (database s', not_claimed)"
proof -
  have inv: "server_inv s" using assms(1) by (rule reachable_inv)
  obtain r where "r \<in> set (sessions (database s))" "s_id r = sid"
    using retired_in_FK [of "clock s" "database s"] inv assms(3)
    by (auto simp: server_inv_def retired_def)
  then have "sid \<in> set (issued s)" using inv by (auto simp: server_inv_def ids_issued_def)
  then have gone: "retired_or_gone sid i (database s')"
    using retired_later [OF assms(2)] assms(3) by (simp add: retired_or_gone_def)
  show ?thesis
    using retired_or_gone_not_owner [OF gone assms(4)] retired_or_gone_no_claim [OF gone] assms(4-7)
    by (auto simp: claimRuntimeConnectionLease_def)
qed

text \<open>A second incarnation takes the session over after the first one ended.\<close>

definition demo_ended :: server where
  "demo_ended = run_ops [(OpEnd ''u1'' ''s1'' ''i1'' ''T1'', 1000006)] demo"

definition demo_takeover :: server where
  "demo_takeover = run_ops [(OpClaim (demo_claim ''i2'' ''L3'') ''x'', 1000007)] demo_ended"

theorem retired_incarnation_never_returns_witness:
  "retired ''s1'' ''i1'' (database demo_ended)
   \<and> \<not> isRuntimeConnectionOwner ''u1'' ''s1'' (Some ''i1'') (Some ''L2'') 1000008 (database demo_takeover)
   \<and> isRuntimeConnectionOwner ''u1'' ''s1'' (Some ''i2'') (Some ''L3'') 1000008 (database demo_takeover)"
proof -
  have ret: "retired ''s1'' ''i1'' (database demo_ended)" by code_simp
  have reach: "reachable demo_ended"
    unfolding demo_ended_def by (rule run_reachable) (code_simp, rule demo_reachable)
  have l: "later demo_ended demo_takeover" unfolding demo_takeover_def by (rule run_later) code_simp
  have "\<not> isRuntimeConnectionOwner ''u1'' ''s1'' (Some ''i1'') (Some ''L2'') 1000008 (database demo_takeover)"
    using retired_incarnation_never_returns [OF reach l ret, of "demo_claim ''i1'' ''L9''"]
    by (simp add: demo_claim_def)
  moreover have
    "isRuntimeConnectionOwner ''u1'' ''s1'' (Some ''i2'') (Some ''L3'') 1000008 (database demo_takeover)"
    by code_simp
  ultimately show ?thesis using ret by blast
qed

section \<open>At most one owner, for a bounded time\<close>

text \<open>
  C3.  Mutual exclusion and bounded authority.  In a reachable state at most one (incarnation,
  lease) pair owns a session, and ownership ends at most one lease duration (four minutes)
  after the last statement the database executed.
\<close>

theorem single_owner_bounded:
  assumes "reachable s" and "i \<noteq> []" and "i' \<noteq> []"
    and "isRuntimeConnectionOwner acct sid (Some i) (Some l) now (database s)"
    and "isRuntimeConnectionOwner acct' sid (Some i') (Some l') now' (database s)"
  shows "i = i' \<and> l = l' \<and> acct = acct' \<and> now < clock s + RUNTIME_CONNECTION_LEASE_DURATION_MS"
proof -
  have wf: "lease_wf (clock s) (database s)" using reachable_inv [OF assms(1)] by (simp add: server_inv_def)
  obtain r where r: "r \<in> set (sessions (database s))" "s_id r = sid" "s_accountId r = acct"
    "s_activeInstanceId r = Some i" "s_runtimeConnectionLeaseInstanceId r = Some i"
    "s_runtimeConnectionLeaseId r = Some l"
    "\<exists>e. s_runtimeConnectionLeaseExpiresAt r = Some e \<and> now < e"
    using assms(4) unfolding owner_live_iff [OF assms(2)] by blast
  obtain r' where r': "r' \<in> set (sessions (database s))" "s_id r' = sid" "s_accountId r' = acct'"
    "s_activeInstanceId r' = Some i'" "s_runtimeConnectionLeaseId r' = Some l'"
    using assms(5) unfolding owner_live_iff [OF assms(3)] by blast
  have "r = r'" using r(1,2) r'(1,2) keys_okD(1) [OF lease_wfD(1) [OF wf]] unique_by_eq by metis
  moreover have "row_wf (clock s) (retirements (database s)) r" using lease_wfD(3) [OF wf r(1)] .
  ultimately show ?thesis using r r' by (auto simp: row_wf_def)
qed

theorem single_owner_bounded_witness:
  "isRuntimeConnectionOwner ''u1'' ''s1'' (Some ''i1'') (Some ''L2'') 1000006 (database demo)
   \<and> 1000006 < clock demo + RUNTIME_CONNECTION_LEASE_DURATION_MS"
proof -
  have o: "isRuntimeConnectionOwner ''u1'' ''s1'' (Some ''i1'') (Some ''L2'') 1000006 (database demo)"
    by code_simp
  show ?thesis using single_owner_bounded [OF demo_reachable _ _ o o] o by simp
qed

section \<open>Readiness\<close>

lemma row_wf_connected_defined:
  assumes "row_wf now0 rts r"
  shows "runtime_connected_sql now d r \<noteq> None"
  using assms
  by (cases "s_runtimeConnectionLeaseId r"; cases "s_runtimeConnectionLeaseInstanceId r";
      cases "s_runtimeConnectionLeaseExpiresAt r"; cases "s_activeInstanceId r")
    (auto simp: row_wf_def runtime_connected_sql_def lease_marked_def sql_eq_def sql_gt_def
      is_not_null_def is_null_def holds_or)

text \<open>
  C20.  The readiness answer is always defined.  For every session of a reachable state the SQL
  expression of \<^verbatim>\<open>findRuntimeConnectionSession\<close> is never NULL and equals the JavaScript
  predicate \<^verbatim>\<open>isRuntimeConnected\<close> on the same row; so the route that reads one session answers
  200 or 404 and never fails on its response schema.
\<close>

theorem readiness_defined_and_agrees:
  assumes "reachable s" and "r \<in> set (sessions (database s))"
  shows "runtime_connected_sql now (database s) r =
      Some (isRuntimeConnected (snapshot_of (database s) r) now)
    \<and> get_session enc (s_accountId r) (s_id r) now (database s) \<noteq> Threw"
proof -
  have wf: "lease_wf (clock s) (database s)"
    using reachable_inv [OF assms(1)] by (simp add: server_inv_def)
  have defined: "runtime_connected_sql now (database s) x \<noteq> None" if "x \<in> set (sessions (database s))" for x
    using row_wf_connected_defined [OF lease_wfD(3) [OF wf that]] .
  have "runtime_connected_sql now (database s) r = Some (isRuntimeConnected (snapshot_of (database s) r) now)"
    using defined [OF assms(2)] runtime_connected_holds [of now "database s" r]
    by (auto simp: holds_def)
  moreover have "get_session enc (s_accountId r) (s_id r) now (database s) \<noteq> Threw"
  proof (cases "find_row (\<lambda>x. s_id x = s_id r \<and> s_accountId x = s_accountId r) (sessions (database s))")
    case (Some x)
    then have "runtime_connected_sql now (database s) x \<noteq> None"
      using defined find_row_SomeD by fast
    with Some show ?thesis
      by (auto simp: get_session_def findRuntimeConnectionSession_def split: option.splits)
  qed (simp add: get_session_def findRuntimeConnectionSession_def)
  ultimately show ?thesis ..
qed

theorem readiness_defined_and_agrees_witness:
  "\<exists>r \<in> set (sessions (database demo)).
     runtime_connected_sql 1000006 (database demo) r =
       Some (isRuntimeConnected (snapshot_of (database demo) r) 1000006)"
proof -
  have "sessions (database demo) \<noteq> []" by code_simp
  then have "hd (sessions (database demo)) \<in> set (sessions (database demo))" by simp
  with readiness_defined_and_agrees [OF demo_reachable this] show ?thesis by blast
qed

text \<open>
  Authority implies presence.  A socket generation that owns its session in the eyes of the
  ownership query is shown as connected by the readiness query at the same instant.
\<close>

theorem owner_is_connected:
  assumes "i \<noteq> []" and "keys_ok d" and "isRuntimeConnectionOwner acct sid (Some i) (Some l) now d"
  shows "map_option q_runtimeConnected (findRuntimeConnectionSession acct sid now d) = Some (Some True)"
proof -
  obtain r where r: "r \<in> set (sessions d)" "s_id r = sid" "s_accountId r = acct" "s_active r"
    "s_activeInstanceId r = Some i" "s_runtimeConnectionLeaseInstanceId r = Some i"
    "s_runtimeConnectionLeaseId r = Some l"
    "\<exists>e. s_runtimeConnectionLeaseExpiresAt r = Some e \<and> now < e" "\<not> retired sid i d"
    using assms(3) unfolding owner_live_iff [OF assms(1)] by blast
  have "find_row (\<lambda>r. s_id r = sid \<and> s_accountId r = acct) (sessions d) = Some r"
    using r keys_okD(1) [OF assms(2)] by (intro find_row_unique [of s_id]) auto
  moreover have "holds (runtime_connected_sql now d r)"
    using r by (auto simp: runtime_connected_sql_def active_instance_retired_iff sql_where)
  ultimately show ?thesis by (simp add: findRuntimeConnectionSession_def holds_def)
qed

theorem owner_is_connected_witness:
  "map_option q_runtimeConnected (findRuntimeConnectionSession ''u1'' ''s1'' 1000006 (database demo))
     = Some (Some True)"
  by (rule owner_is_connected [of "''i1''" _ _ _ "''L2''"]) code_simp+

end
