(* ===== verification/MessageSafety.thy ===== *)
theory MessageSafety
  imports LeaseSafety
begin

text \<open>
  What the server promises about session messages: numbering without gaps, idempotent retries,
  the fence and the delivery target of a new message, lossless cursor replay, and notification
  in order.
\<close>

section \<open>The log\<close>

text \<open>
  C5.  The message log of every session is complete and consistent.  In every reachable state
  the messages of a session carry exactly the sequence numbers 1 to the session's counter, each
  once; message ids and the local ids of a session are unique; and every outbox row belongs to
  exactly one stored message.
\<close>

theorem message_log_complete:
  assumes "reachable s" and "r \<in> set (sessions (database s))"
  shows "m_seq ` {m \<in> set (messages (database s)). m_sessionId m = s_id r} = {1..s_seq r}
    \<and> length (filter (\<lambda>m. m_sessionId m = s_id r) (messages (database s))) = nat (s_seq r)
    \<and> messages_ok (database s)"
proof -
  let ?d = "database s" and ?ms = "filter (\<lambda>m. m_sessionId m = s_id r) (messages (database s))"
  have inv: "messages_ok ?d" "gap_free ?d" using reachable_inv [OF assms(1)] by (simp_all add: server_inv_def)
  have seqs: "m_seq ` {m \<in> set (messages ?d). m_sessionId m = s_id r} = {1..s_seq r}"
    using inv(2) assms(2) unfolding gap_free_def by blast
  have "sorted_wrt (\<lambda>a b. m_seq a < m_seq b) (session_messages (s_id r, ?d))"
    using inv(1) by (intro session_messages_ordered) (simp add: messages_ok_def)
  then have "sorted_wrt (<) (map m_seq (sort_key m_seq ?ms))"
    by (simp add: session_messages_def sorted_wrt_map)
  then have "distinct (map m_seq (sort_key m_seq ?ms))" using strict_sorted_iff by blast
  from distinct_card [OF this] have "length ?ms = card (m_seq ` set ?ms)" by simp
  also have "\<dots> = nat (s_seq r)" using seqs by simp
  finally show ?thesis using seqs inv(1) by simp
qed

theorem message_log_complete_witness:
  "\<exists>r \<in> set (sessions (database demo)). s_seq r = 1
     \<and> m_seq ` {m \<in> set (messages (database demo)). m_sessionId m = s_id r} = {1..s_seq r}"
proof -
  have "sessions (database demo) \<noteq> []" "s_seq (hd (sessions (database demo))) = 1" by code_simp+
  then have "hd (sessions (database demo)) \<in> set (sessions (database demo))" by simp
  with message_log_complete [OF demo_reachable this] \<open>s_seq (hd (sessions (database demo))) = 1\<close>
  show ?thesis by blast
qed

section \<open>Idempotent retries\<close>

definition same_request :: "persist_input \<Rightarrow> persist_input \<Rightarrow> bool" where
  "same_request a b =
     (pi_userId a = pi_userId b \<and> pi_sessionId a = pi_sessionId b
    \<and> pi_ciphertext a = pi_ciphertext b \<and> pi_localId a = pi_localId b)"

lemma hasCiphertext_encrypted: "hasCiphertext (encrypted_content c) c' \<longleftrightarrow> c = c'"
  by (auto simp: hasCiphertext_def encrypted_content_def)

lemma local_id_lookup:
  assumes "messages_ok d" and "m \<in> set (messages d)" and "truthy (m_localId m)"
  shows "message_by_localId (m_sessionId m) (m_localId m) d = Some m"
proof -
  let ?P = "\<lambda>x. m_sessionId x = m_sessionId m \<and> m_localId x = m_localId m"
  obtain x where x: "find_row ?P (messages d) = Some x"
    using find_row_Some_ex [of m "messages d" ?P] assms(2) by auto
  then have "?P x" "x \<in> set (messages d)" using find_row_SomeD by fast+
  moreover have "m_localId x \<noteq> None" using calculation assms(3) by (cases "m_localId m") auto
  ultimately have "x = m" using assms(1,2) unfolding messages_ok_def local_ids_unique_def by blast
  with x show ?thesis using assms(3) by (simp add: message_by_localId_def)
qed

text \<open>
  C6.  A retry is harmless.  When a message with a local id has been stored, a retry of the same
  request by an authorized sender, or by a replay transport whose lease is gone, answers
  success with that very message, marked duplicate, and changes nothing; a different
  ciphertext under the same local id is refused as a conflict.
\<close>

theorem retry_returns_stored_message:
  assumes "reachable s" and "m \<in> set (messages (database s))"
    and "m_sessionId m = pi_sessionId inp" and "m_localId m = pi_localId inp" and "truthy (pi_localId inp)"
    and "m_content m = encrypted_content c" and "locked_session inp (database s) = Some r"
    and "case pi_runtimeAuthorization inp of
           None \<Rightarrow> True
         | Some a \<Rightarrow> message_authorized now (database s) r a \<or> (is_replay_auth a \<and> pi_ciphertext inp = c)"
  shows "persistSessionMessage inp msgId outboxId now (database s) =
     (database s, Some (if pi_ciphertext inp = c then PersistSuccess True m None
                        else PersistError IdempotencyConflict False))"
proof -
  have ok: "messages_ok (database s)" using reachable_inv [OF assms(1)] by (simp add: server_inv_def)
  have "message_by_localId (pi_sessionId inp) (pi_localId inp) (database s) = Some m"
    using local_id_lookup [OF ok assms(2)] assms(3-5) by simp
  then show ?thesis
    using assms(6-8)
    by (auto simp: persistSessionMessage_def throwing_def persistSessionMessageInTx_def Let_def
        persist_accepted_def hasCiphertext_encrypted split: option.splits if_splits)
qed

theorem retry_returns_stored_message_witness:
  "persistSessionMessage demo_message ''m9'' ''o9'' 1000006 (database demo)
     = (database demo, Some (PersistSuccess True (hd (messages (database demo))) None))"
proof -
  let ?m = "hd (messages (database demo))"
  have ne: "messages (database demo) \<noteq> []" by code_simp
  have "m_sessionId ?m = pi_sessionId demo_message" "m_localId ?m = pi_localId demo_message"
    "truthy (pi_localId demo_message)" "m_content ?m = encrypted_content ''c''" by code_simp+
  moreover obtain r where "locked_session demo_message (database demo) = Some r"
  proof -
    have "locked_session demo_message (database demo) \<noteq> None" by code_simp
    then show thesis using that by blast
  qed
  ultimately show ?thesis
    using retry_returns_stored_message [OF demo_reachable, of ?m demo_message "''c''" r] ne
    by (simp add: demo_message_def)
qed

section \<open>The fence and the target of a new message\<close>

lemma persist_inserted:
  assumes "snd (persistSessionMessage inp msgId outboxId now d) = Some (PersistSuccess False m u)"
  obtains r where "locked_session inp d = Some r"
    and "\<forall>a. pi_runtimeAuthorization inp = Some a \<longrightarrow> message_authorized now d r a"
    and "insert_message inp r msgId outboxId now d =
      Some (fst (persistSessionMessage inp msgId outboxId now d), PersistSuccess False m u)"
proof -
  obtain d' where tx: "persistSessionMessageInTx inp msgId outboxId now d = Some (d', PersistSuccess False m u)"
    and d': "fst (persistSessionMessage inp msgId outboxId now d) = d'"
    using assms by (auto simp: persistSessionMessage_def throwing_def split: option.splits)
  from tx show thesis
    by (cases rule: persist_cases) (use that d' in auto)
qed

text \<open>
  What each kind of authorization amounts to.  A live lease authorization holds exactly for the
  owner of the session, a legacy one for the legacy owner within the grace period, a replay
  authorization for the lease of an incarnation that is retired but still replaying.
\<close>

lemma authorized_lease_iff:
  assumes "keys_ok d" and "locked_session inp d = Some r" and "i \<noteq> []"
  shows "message_authorized now d r (AuthLease i l) \<longleftrightarrow>
     isRuntimeConnectionOwner (pi_userId inp) (pi_sessionId inp) (Some i) (Some l) now d"
proof
  assume "isRuntimeConnectionOwner (pi_userId inp) (pi_sessionId inp) (Some i) (Some l) now d"
  then obtain q e where q: "q \<in> set (sessions d)" "s_id q = pi_sessionId inp"
    and row: "s_active q" "s_activeInstanceId q = Some i" "s_runtimeConnectionLeaseInstanceId q = Some i"
      "s_runtimeConnectionLeaseId q = Some l" "s_runtimeConnectionLeaseExpiresAt q = Some e" "now < e"
      "\<not> retired (pi_sessionId inp) i d"
    unfolding owner_live_iff [OF assms(3)] by blast
  have "r \<in> set (sessions d)" "s_id r = pi_sessionId inp"
    using find_row_SomeD [OF assms(2) [unfolded locked_session_def]] by auto
  then have "q = r" using q session_row_unique [OF assms(1)] by (metis option.inject)
  with row q(2) show "message_authorized now d r (AuthLease i l)"
    by (auto simp: runtimeLeaseCurrent_def sql_where retired_def retired_in_def)
qed (rule authorized_lease_owner [OF _ assms(2,3)])

lemma authorized_legacy_owner:
  assumes "message_authorized now d r AuthLegacy" and "locked_session inp d = Some r"
  shows "isRuntimeConnectionOwner (pi_userId inp) (pi_sessionId inp) None None now d"
proof -
  have "r \<in> set (sessions d)" "s_id r = pi_sessionId inp" "s_accountId r = pi_userId inp"
    using find_row_SomeD [OF assms(2) [unfolded locked_session_def]] by auto
  moreover have "holds (runtimeConnectionOwnershipSql None None now d r)"
    using assms(1) by (simp add: targetLegacyRuntimeConnection_def holds_ownership_legacy lease_unmarked_def sql_where)
  ultimately show ?thesis unfolding owner_via_sql by blast
qed

lemma authorized_replaying:
  assumes "message_authorized now d r (AuthReplay inst lease)"
  shows "\<exists>i l e. inst = Some i \<and> lease = Some l \<and> s_activeInstanceId r = Some i
    \<and> s_runtimeConnectionLeaseInstanceId r = Some i \<and> s_runtimeConnectionLeaseId r = Some l
    \<and> s_runtimeConnectionLeaseExpiresAt r = Some e \<and> now < e
    \<and> (\<exists>t \<in> set (retirements d). r_sessionId t = s_id r \<and> r_instanceId t = i \<and> r_status t = Replaying)"
  using assms by (auto simp: runtimeReplayLeaseCurrent_def sql_where)

lemma current_lease_authorized:
  assumes "holds (runtimeLeaseCurrent now d r)"
  obtains i l where "s_activeInstanceId r = Some i" and "s_runtimeConnectionLeaseId r = Some l"
    and "message_authorized now d r (AuthLease i l)"
  using assms by (auto simp: runtimeLeaseCurrent_def sql_where intro: that)

lemma outbox_row_target:
  "o_targetRuntimeConnectionLeaseId (new_outbox_row inp r d outboxId msgId u now) = Some l \<longleftrightarrow>
     (\<exists>i. message_authorized now d r (AuthLease i l))"
proof
  assume "o_targetRuntimeConnectionLeaseId (new_outbox_row inp r d outboxId msgId u now) = Some l"
  then have "holds (runtimeLeaseCurrent now d r)" "s_runtimeConnectionLeaseId r = Some l"
    by (simp_all add: new_outbox_row_def split: if_splits)
  then show "\<exists>i. message_authorized now d r (AuthLease i l)"
    by (elim current_lease_authorized) auto
qed (auto simp: new_outbox_row_def)

lemma outbox_row_legacy:
  "o_targetLegacyRuntimeConnection (new_outbox_row inp r d outboxId msgId u now) \<longleftrightarrow>
     s_active r \<and> holds (lease_unmarked r) \<and> now - LEGACY_RUNTIME_CONNECTION_GRACE_MS < s_lastActiveAt r"
  by (auto simp: new_outbox_row_def targetLegacyRuntimeConnection_def lease_unmarked_def sql_where)

text \<open>
  Who may send: the authorization a message was stored under, spelled out over the row of its
  session.
\<close>

definition sender_entitled :: "persist_input \<Rightarrow> session \<Rightarrow> ts \<Rightarrow> db \<Rightarrow> bool" where
  "sender_entitled inp r now d =
     (case pi_runtimeAuthorization inp of
        None \<Rightarrow> True
      | Some (AuthLease i l) \<Rightarrow>
          i \<noteq> [] \<longrightarrow> isRuntimeConnectionOwner (pi_userId inp) (pi_sessionId inp) (Some i) (Some l) now d
      | Some AuthLegacy \<Rightarrow>
          isRuntimeConnectionOwner (pi_userId inp) (pi_sessionId inp) None None now d
        \<and> now - LEGACY_RUNTIME_CONNECTION_GRACE_MS < s_lastActiveAt r
      | Some (AuthReplay inst lease) \<Rightarrow>
          (\<exists>i l e. inst = Some i \<and> lease = Some l \<and> s_activeInstanceId r = Some i
             \<and> s_runtimeConnectionLeaseInstanceId r = Some i \<and> s_runtimeConnectionLeaseId r = Some l
             \<and> s_runtimeConnectionLeaseExpiresAt r = Some e \<and> now < e
             \<and> (\<exists>t \<in> set (retirements d).
                  r_sessionId t = s_id r \<and> r_instanceId t = i \<and> r_status t = Replaying)))"

lemma authorized_entitled:
  assumes "locked_session inp d = Some r"
    and "\<forall>a. pi_runtimeAuthorization inp = Some a \<longrightarrow> message_authorized now d r a"
  shows "sender_entitled inp r now d"
proof (cases "pi_runtimeAuthorization inp")
  case (Some a)
  with assms(2) have auth: "message_authorized now d r a" by blast
  show ?thesis
  proof (cases a)
    case (AuthLease i l)
    then show ?thesis using Some auth authorized_lease_owner [OF _ assms(1)]
      by (simp add: sender_entitled_def)
  next
    case AuthLegacy
    with auth have "now - LEGACY_RUNTIME_CONNECTION_GRACE_MS < s_lastActiveAt r"
      by (simp add: targetLegacyRuntimeConnection_def sql_where)
    then show ?thesis using Some AuthLegacy auth authorized_legacy_owner [OF _ assms(1)]
      by (simp add: sender_entitled_def)
  next
    case (AuthReplay inst lease)
    then show ?thesis using Some authorized_replaying [OF auth [unfolded AuthReplay]]
      by (simp add: sender_entitled_def)
  qed
qed (simp add: sender_entitled_def)

text \<open>
  C7.  New output is fenced and addressed.  Whoever stored a new message under a runtime
  authorization was entitled to it at that instant (under a lease: it owned the session; legacy:
  it was the legacy owner within the grace period; replay: its incarnation is retired, still
  replaying and holds the lease).  The message gets the next sequence number of the session and
  of the account and exactly one outbox row, due at once and unclaimed, that names the message,
  the account, the session and the origin socket.  That row is addressed to a lease exactly when
  the lease is the one of the generation that owns the session: to the owner's lease whenever
  there is an owner, to no lease otherwise.  It is addressed to a legacy runtime exactly when
  the session is active, carries no lease and was touched within the grace period; never to both.
\<close>

theorem new_message_fenced_and_addressed:
  assumes "keys_ok d"
    and "snd (persistSessionMessage inp msgId outboxId now d) = Some (PersistSuccess False m (Some u))"
  defines "d' \<equiv> fst (persistSessionMessage inp msgId outboxId now d)"
  shows "\<exists>r x. session_row (pi_sessionId inp) d = Some r \<and> s_accountId r = pi_userId inp
    \<and> sender_entitled inp r now d
    \<and> messages d' = messages d @ [m] \<and> m_id m = msgId \<and> m_sessionId m = pi_sessionId inp
    \<and> m_localId m = pi_localId inp \<and> m_content m = encrypted_content (pi_ciphertext inp)
    \<and> session_seq (pi_sessionId inp) d = Some (m_seq m - 1)
    \<and> session_seq (pi_sessionId inp) d' = Some (m_seq m)
    \<and> user_seq (pi_userId inp) d = Some (u - 1)
    \<and> outbox d' = outbox d @ [x] \<and> o_id x = outboxId \<and> o_messageId x = m_id m \<and> o_updateSeq x = u
    \<and> o_accountId x = pi_userId inp \<and> o_sessionId x = pi_sessionId inp
    \<and> o_originSocketId x = pi_originSocketId inp
    \<and> o_nextAttemptAt x = now \<and> o_claimedAt x = None \<and> o_claimToken x = None \<and> o_deliveredAt x = None
    \<and> (\<forall>i l. i \<noteq> [] \<and> isRuntimeConnectionOwner (pi_userId inp) (pi_sessionId inp) (Some i) (Some l) now d
         \<longrightarrow> o_targetRuntimeConnectionLeaseId x = Some l)
    \<and> (\<forall>l. o_targetRuntimeConnectionLeaseId x = Some l \<longrightarrow>
         (\<exists>i. s_activeInstanceId r = Some i
            \<and> (i \<noteq> [] \<longrightarrow> isRuntimeConnectionOwner (pi_userId inp) (pi_sessionId inp) (Some i) (Some l) now d)))
    \<and> (o_targetLegacyRuntimeConnection x \<longleftrightarrow>
         s_active r \<and> holds (lease_unmarked r) \<and> now - LEGACY_RUNTIME_CONNECTION_GRACE_MS < s_lastActiveAt r)
    \<and> (o_targetLegacyRuntimeConnection x \<longrightarrow> o_targetRuntimeConnectionLeaseId x = None)"
proof -
  obtain r where r: "locked_session inp d = Some r"
    and auth: "\<forall>a. pi_runtimeAuthorization inp = Some a \<longrightarrow> message_authorized now d r a"
    and ins: "insert_message inp r msgId outboxId now d = Some (d', PersistSuccess False m (Some u))"
    using persist_inserted [OF assms(2)] unfolding d'_def by blast
  have rr: "r \<in> set (sessions d)" "s_id r = pi_sessionId inp" "s_accountId r = pi_userId inp"
    using find_row_SomeD [OF r [unfolded locked_session_def]] by auto
  then have row: "session_row (pi_sessionId inp) d = Some r" using session_row_unique [OF assms(1)] by metis
  let ?x = "new_outbox_row inp r d outboxId msgId u now"
  have to_owner: "\<forall>i l. i \<noteq> [] \<and> isRuntimeConnectionOwner (pi_userId inp) (pi_sessionId inp) (Some i) (Some l) now d
      \<longrightarrow> o_targetRuntimeConnectionLeaseId ?x = Some l"
    using authorized_lease_iff [OF assms(1) r] unfolding outbox_row_target by blast
  have only_owner: "\<forall>l. o_targetRuntimeConnectionLeaseId ?x = Some l \<longrightarrow> (\<exists>i. s_activeInstanceId r = Some i
      \<and> (i \<noteq> [] \<longrightarrow> isRuntimeConnectionOwner (pi_userId inp) (pi_sessionId inp) (Some i) (Some l) now d))"
    unfolding outbox_row_target using authorized_lease_owner [OF _ r] by fastforce
  have one_target: "o_targetLegacyRuntimeConnection ?x \<longrightarrow> o_targetRuntimeConnectionLeaseId ?x = None"
    unfolding outbox_row_legacy by (auto simp: new_outbox_row_def lease_unmarked_def sql_where)
  from ins show ?thesis
  proof (cases rule: insert_message_effect)
    case (1 s u')
    have s: "s = r" using 1(1) row by simp
    have m: "m = new_message inp msgId (s_seq r + 1) now" "u' = u" using 1(2) s by auto
    have seq': "session_seq (pi_sessionId inp) d' = Some (s_seq r + 1)"
      unfolding session_seq_def session_row_def 1(6)
      by (subst find_row_update) (use row [unfolded session_row_def] rr(2) in simp_all)
    have x: "outbox d' = outbox d @ [?x]" using 1(5) m by simp
    have msg: "messages d' = messages d @ [m]" "m_content m = encrypted_content (pi_ciphertext inp)"
      "m_id m = msgId" "m_sessionId m = pi_sessionId inp" "m_localId m = pi_localId inp"
      "session_seq (pi_sessionId inp) d = Some (m_seq m - 1)"
      "session_seq (pi_sessionId inp) d' = Some (m_seq m)" "user_seq (pi_userId inp) d = Some (u - 1)"
      using 1(3,4) m s seq' row by (simp_all add: new_message_def session_seq_def)
    have cols: "o_id ?x = outboxId" "o_messageId ?x = m_id m" "o_updateSeq ?x = u"
      "o_accountId ?x = pi_userId inp" "o_sessionId ?x = pi_sessionId inp"
      "o_originSocketId ?x = pi_originSocketId inp" "o_nextAttemptAt ?x = now"
      "o_claimedAt ?x = None" "o_claimToken ?x = None" "o_deliveredAt ?x = None"
      using m by (simp_all add: new_outbox_row_def new_message_def)
    show ?thesis
      by (intro exI [of _ r] exI [of _ ?x] conjI)
        (use row rr(3) authorized_entitled [OF r auth] msg x cols to_owner only_owner one_target
          outbox_row_legacy in blast)+
  qed
qed

text \<open>
  In the demonstration the generation \<open>(i1, L2)\<close> owns the session; the row of its next message
  is addressed to \<open>L2\<close>.
\<close>

theorem new_message_fenced_and_addressed_witness:
  "\<exists>m x. snd (persistSessionMessage (demo_message\<lparr>pi_localId := None,
              pi_runtimeAuthorization := Some (AuthLease ''i1'' ''L2'')\<rparr>) ''m2'' ''o2'' 1000006 (database demo))
         = Some (PersistSuccess False m (Some 2))
     \<and> session_seq ''s1'' (database demo) = Some (m_seq m - 1)
     \<and> outbox (fst (persistSessionMessage (demo_message\<lparr>pi_localId := None,
              pi_runtimeAuthorization := Some (AuthLease ''i1'' ''L2'')\<rparr>) ''m2'' ''o2'' 1000006 (database demo)))
         = outbox (database demo) @ [x]
     \<and> o_targetRuntimeConnectionLeaseId x = Some ''L2''"
proof -
  let ?inp = "demo_message\<lparr>pi_localId := None, pi_runtimeAuthorization := Some (AuthLease ''i1'' ''L2'')\<rparr>"
  let ?m = "new_message ?inp ''m2'' 2 1000006"
  have res: "snd (persistSessionMessage ?inp ''m2'' ''o2'' 1000006 (database demo))
      = Some (PersistSuccess False ?m (Some 2))" by code_simp
  have keys: "keys_ok (database demo)"
    using reachable_inv [OF demo_reachable] by (simp add: server_inv_def lease_wf_def)
  have owner: "isRuntimeConnectionOwner (pi_userId ?inp) (pi_sessionId ?inp) (Some ''i1'') (Some ''L2'')
      1000006 (database demo)"
    by code_simp
  have ids: "pi_sessionId ?inp = ''s1''" "''i1'' \<noteq> []" by (simp_all add: demo_message_def)
  let ?after = "fst (persistSessionMessage ?inp ''m2'' ''o2'' 1000006 (database demo))"
  obtain x where x: "outbox ?after = outbox (database demo) @ [x]"
    "session_seq (pi_sessionId ?inp) (database demo) = Some (m_seq ?m - 1)"
    and to_owner: "\<forall>i l. i \<noteq> [] \<and> isRuntimeConnectionOwner (pi_userId ?inp) (pi_sessionId ?inp) (Some i) (Some l)
         1000006 (database demo) \<longrightarrow> o_targetRuntimeConnectionLeaseId x = Some l"
    using new_message_fenced_and_addressed [OF keys res] by (elim exE conjE) (rule that)
  have "o_targetRuntimeConnectionLeaseId x = Some ''L2''" using to_owner owner ids(2) by blast
  with x res ids(1) show ?thesis by auto
qed

section \<open>Cursor replay\<close>

text \<open>
  A replaying client, as the server's answers drive it: it asks \<^verbatim>\<open>GET /v1/sessions/:id/messages\<close>
  with \<^verbatim>\<open>afterSeq\<close>, reads \<^verbatim>\<open>messages\<close>, \<^verbatim>\<open>hasMore\<close> and \<^verbatim>\<open>nextAfterSeq\<close> from the body, and asks again
  with \<^verbatim>\<open>nextAfterSeq\<close> while \<^verbatim>\<open>hasMore\<close> holds.  It ends with what it received and the cursor of
  its last answer; any other answer, or more than \<open>n\<close> requests, is \<open>None\<close>.
\<close>

fun replay_answer :: "reply \<Rightarrow> (json list \<times> bool \<times> int) option" where
  "replay_answer (Reply st (JObj kvs)) =
     (case (map_of kvs ''messages'', map_of kvs ''hasMore'', map_of kvs ''nextAfterSeq'') of
        (Some (JArr ms), Some (JBool hasMore), Some (JNum next)) \<Rightarrow>
          if st = 200 then Some (ms, hasMore, next) else None
      | _ \<Rightarrow> None)"
| "replay_answer _ = None"

fun follow_replay :: "ident \<Rightarrow> ident \<Rightarrow> nat \<Rightarrow> db \<Rightarrow> nat \<Rightarrow> int \<Rightarrow> (json list \<times> int) option" where
  "follow_replay uid sid limit d 0 afterSeq = None"
| "follow_replay uid sid limit d (Suc n) afterSeq =
     (case replay_answer (snd (list_messages_route quiet uid sid (Some afterSeq) limit d)) of
        None \<Rightarrow> None
      | Some (ms, hasMore, next) \<Rightarrow>
          if hasMore
          then map_option (\<lambda>(rest, last). (ms @ rest, last)) (follow_replay uid sid limit d n next)
          else Some (ms, next))"

lemma replay_answer_page:
  assumes "find_row (\<lambda>r. s_id r = sid \<and> s_accountId r = uid) (sessions d) \<noteq> None"
  shows "replay_answer (snd (list_messages_route quiet uid sid (Some a) limit d)) =
     (let p = listSessionMessagesAfterSeq sid a limit d
      in Some (map replay_message_json (rp_messages p), rp_hasMore p, rp_nextAfterSeq p))"
  using assms by (auto simp: list_messages_route_def Let_def)

lemma next_cursor:
  "rp_nextAfterSeq (listSessionMessagesAfterSeq sid a limit d) =
     last (a # map m_seq (rp_messages (listSessionMessagesAfterSeq sid a limit d)))"
  by (simp add: listSessionMessagesAfterSeq_def Let_def last_map)

lemma follow_reads_pages:
  assumes "find_row (\<lambda>r. s_id r = sid \<and> s_accountId r = uid) (sessions d) \<noteq> None" and "0 < limit"
  shows "follow_replay uid sid limit d n a =
     map_option (\<lambda>ms. (map replay_message_json ms, last (a # map m_seq ms)))
       (read_pages (replay_request (sid, d) limit) m_seq n (Some a))"
proof (induction n arbitrary: a)
  case (Suc n)
  let ?p = "listSessionMessagesAfterSeq sid a limit d"
  have page: "replay_request (sid, d) limit (Some a) = (rp_messages ?p, rp_hasMore ?p)"
    by (simp add: replay_request_def Let_def)
  show ?case
  proof (cases "rp_hasMore ?p")
    case True
    then have ne: "rp_messages ?p \<noteq> []" using assms(2) by (auto simp: listSessionMessages_rows)
    have join: "last (a # map m_seq (rp_messages ?p) @ map m_seq rest) = last (m_seq (last (rp_messages ?p)) # map m_seq rest)"
      for rest using ne by (cases rest) (auto simp: last_map)
    have next_a: "rp_nextAfterSeq ?p = m_seq (last (rp_messages ?p))"
      using ne by (simp add: next_cursor last_map)
    show ?thesis
      using True ne by (simp add: replay_answer_page [OF assms(1)] Let_def page next_a Suc.IH option.map_comp comp_def
          join del: last.simps split: option.splits)
  next
    case False
    then show ?thesis by (simp add: replay_answer_page [OF assms(1)] Let_def page next_cursor)
  qed
qed simp

text \<open>
  C8.  Replay is lossless.  A client that starts at any cursor and follows the \<^verbatim>\<open>nextAfterSeq\<close> of
  the answers while \<^verbatim>\<open>hasMore\<close> holds receives every message of the session after its cursor
  exactly once, in sequence order, in finitely many requests, for every page size; the cursor it
  is left with is the sequence number of the last message it received (or the one it started
  with), so it resumes without a gap.
\<close>

theorem replay_lossless:
  fixes afterSeq :: int
  assumes "reachable s" and "0 < limit"
    and "find_row (\<lambda>r. s_id r = sid \<and> s_accountId r = uid) (sessions (database s)) \<noteq> None"
    and "length (messages (database s)) < n"
  defines "ms \<equiv> filter (\<lambda>m. afterSeq < m_seq m) (session_messages (sid, database s))"
  shows "follow_replay uid sid limit (database s) n afterSeq
      = Some (map replay_message_json ms, last (afterSeq # map m_seq ms))
    \<and> sorted_wrt (\<lambda>a b. m_seq a < m_seq b) ms
    \<and> set ms = {m \<in> set (messages (database s)). m_sessionId m = sid \<and> afterSeq < m_seq m}"
proof -
  have keys: "unique_by message_key (messages (database s))"
    using reachable_inv [OF assms(1)] by (simp add: server_inv_def messages_ok_def)
  have "length ms \<le> length (session_messages (sid, database s))"
    unfolding ms_def by (rule length_filter_le)
  also have "\<dots> \<le> length (messages (database s))" by (simp add: session_messages_def)
  finally have "length ms < n" using assms(4) by simp
  then have "read_pages (replay_request (sid, database s) limit) m_seq n (Some afterSeq) = Some ms"
    using message_pages.read_pages_complete [of "(sid, database s)" limit "Some afterSeq" n] assms(2) keys
    by (simp add: after_cursor_def [abs_def] ms_def)
  moreover have "sorted_wrt (\<lambda>a b. m_seq a < m_seq b) ms"
    unfolding ms_def by (intro sorted_wrt_filter session_messages_ordered keys)
  moreover have "set ms = {m \<in> set (messages (database s)). m_sessionId m = sid \<and> afterSeq < m_seq m}"
    by (auto simp: ms_def session_messages_def)
  ultimately show ?thesis by (simp add: follow_reads_pages [OF assms(3,2)] del: last.simps)
qed

text \<open>Two messages read one at a time.\<close>

definition demo_log :: server where
  "demo_log = run_ops [(OpPersist (demo_message\<lparr>pi_localId := None\<rparr>) ''m2'' ''o2'', 1000006)] demo"

theorem replay_lossless_witness:
  "map_option (\<lambda>(ms, c). (length ms, c)) (follow_replay ''u1'' ''s1'' 1 (database demo_log) 5 0) = Some (2, 2)"
proof -
  have reach: "reachable demo_log"
    unfolding demo_log_def by (rule run_reachable) (code_simp, rule demo_reachable)
  have hyp: "find_row (\<lambda>r. s_id r = ''s1'' \<and> s_accountId r = ''u1'') (sessions (database demo_log)) \<noteq> None"
    "length (messages (database demo_log)) < 5" by code_simp+
  let ?ms = "filter (\<lambda>m. 0 < m_seq m) (session_messages (''s1'', database demo_log))"
  have ms: "length ?ms = 2" "last (0 # map m_seq ?ms) = 2" by code_simp+
  from replay_lossless [OF reach _ hyp, of 1 0] ms show ?thesis by (simp del: last.simps)
qed

section \<open>Notification in order\<close>

text \<open>
  C9.  Notifications leave each session in order.  In every reachable state, whatever
  dispatchers of however many replicas do, a notification that some dispatcher holds (it may
  be publishing it) or has delivered has no undelivered predecessor: every stored notification
  of the same session with a smaller message sequence number is delivered.
\<close>

theorem notifications_in_order:
  assumes "reachable s" and "x \<in> set (outbox (database s))" and "e \<in> set (outbox (database s))"
    and "o_claimToken x \<noteq> None \<or> o_deliveredAt x \<noteq> None"
    and "o_sessionId e = o_sessionId x"
    and "outbox_message (database s) e = Some me" and "outbox_message (database s) x = Some mx"
    and "m_seq me < m_seq mx"
  shows "o_deliveredAt e \<noteq> None"
proof
  assume undelivered: "o_deliveredAt e = None"
  have "fifo (set (selected s)) (database s)" using reachable_inv [OF assms(1)] by (simp add: server_inv_def)
  then have "\<not> undelivered_earlier (database s) x" using assms(2,4) by (auto simp: fifo_def)
  moreover have "earlier_in (database s) e x" using assms(5-8) by (simp add: earlier_in_def)
  ultimately show False using assms(3) undelivered by (auto simp: undelivered_earlier_def)
qed

text \<open>Two messages: the first one is delivered, then the second one is claimed.\<close>

definition demo_second :: server where
  "demo_second = run_ops
     [(OpPersist (demo_message\<lparr>pi_localId := None\<rparr>) ''m2'' ''o2'', 1000006),
      (OpMarkDelivered ((hd (outbox (database demo)))) 1000006, 1000006),
      (OpSelect 1000007 970007 25, 1000007),
      (OpClaimRow ''o2'' ''tok2'' 1000007 970007, 1000007)] demo"

theorem notifications_in_order_witness:
  "o_claimToken (outbox (database demo_second) ! 1) = Some ''tok2''
   \<and> o_deliveredAt (outbox (database demo_second) ! 0) \<noteq> None"
proof -
  have reach: "reachable demo_second"
    unfolding demo_second_def by (rule run_reachable) (code_simp, rule demo_reachable)
  let ?x = "outbox (database demo_second) ! 1" and ?e = "outbox (database demo_second) ! 0"
  have l: "length (outbox (database demo_second)) = 2" by code_simp
  have tok: "o_claimToken ?x = Some ''tok2''" "o_sessionId ?e = o_sessionId ?x" by code_simp+
  have "map_option m_seq (outbox_message (database demo_second) ?e) = Some 1"
    "map_option m_seq (outbox_message (database demo_second) ?x) = Some 2" by code_simp+
  then obtain me mx where
    "outbox_message (database demo_second) ?e = Some me" "m_seq me = 1"
    "outbox_message (database demo_second) ?x = Some mx" "m_seq mx = 2" by blast
  then have "o_deliveredAt ?e \<noteq> None"
    using l tok by (intro notifications_in_order [OF reach, of ?x ?e me mx]) auto
  with tok show ?thesis by simp
qed

end
