(* ===== verification/KeyValue.thy ===== *)
theory KeyValue
  imports SessionStore
begin

text \<open>
  The per-user key-value store, \<^verbatim>\<open>app/kv/*.ts\<close>: an atomic batch of versioned mutations, and the
  three reads.  \<open>enc\<close> is \<^verbatim>\<open>privacyKit.encodeBase64\<close>; a new entry is decoded by \<^verbatim>\<open>Buffer.from\<close>
  (\<open>dec_new\<close>), an update by \<^verbatim>\<open>privacyKit.decodeBase64\<close> (\<open>dec_upd\<close>).  The batch is one
  serializable transaction; when a statement throws (a taken key, a missing row or account) it is
  rolled back (\<open>None\<close>).
\<close>

record kv_mutation =
  mu_key :: string
  mu_value :: "string option"
  mu_version :: int

record kv_error =
  ke_key :: string
  ke_version :: int
  ke_value :: "string option"

datatype kv_result =
    KvSuccess "(string \<times> int) list"
  | KvFailure "kv_error list"

type_synonym kv_changes = "(string \<times> string option \<times> int) list"

definition kv_lookup :: "ident \<Rightarrow> string \<Rightarrow> db \<Rightarrow> kv_row option" where
  "kv_lookup uid key d = find_row (\<lambda>r. v_accountId r = uid \<and> v_key r = key) (kvStore d)"

definition current_version :: "ident \<Rightarrow> string \<Rightarrow> db \<Rightarrow> int" where
  "current_version uid key d = (case kv_lookup uid key d of None \<Rightarrow> - 1 | Some r \<Rightarrow> v_version r)"

definition kv_errors :: "(bytes \<Rightarrow> string) \<Rightarrow> ident \<Rightarrow> kv_mutation list \<Rightarrow> db \<Rightarrow> kv_error list" where
  "kv_errors enc uid ms d =
     map (\<lambda>m. \<lparr>ke_key = mu_key m, ke_version = current_version uid (mu_key m) d,
                ke_value = map_option enc (Option.bind (kv_lookup uid (mu_key m) d) v_value)\<rparr>)
       (filter (\<lambda>m. current_version uid (mu_key m) d \<noteq> mu_version m) ms)"

text \<open>An empty string is falsy and is stored as NULL, like a deletion.\<close>

definition kv_bytes :: "(string \<Rightarrow> bytes) \<Rightarrow> string option \<Rightarrow> bytes option" where
  "kv_bytes dec v = (if truthy v then map_option dec v else None)"

definition kv_apply_one ::
  "(string \<Rightarrow> bytes) \<Rightarrow> (string \<Rightarrow> bytes) \<Rightarrow> ident \<Rightarrow> kv_mutation \<Rightarrow> db \<Rightarrow> db option" where
  "kv_apply_one dec_new dec_upd uid m d =
     (if mu_version m = - 1
      then (if kv_lookup uid (mu_key m) d \<noteq> None \<or> account_row uid d = None then None
            else Some (d\<lparr>kvStore := kvStore d @ [\<lparr>v_accountId = uid, v_key = mu_key m,
                     v_value = kv_bytes dec_new (mu_value m), v_version = 0\<rparr>]\<rparr>))
      else (case kv_lookup uid (mu_key m) d of
              None \<Rightarrow> None
            | Some _ \<Rightarrow> Some (d\<lparr>kvStore := update_rows (\<lambda>r. v_accountId r = uid \<and> v_key r = mu_key m)
                     (\<lambda>r. r\<lparr>v_value := kv_bytes dec_upd (mu_value m), v_version := mu_version m + 1\<rparr>)
                     (kvStore d)\<rparr>)))"

fun kv_apply ::
  "(string \<Rightarrow> bytes) \<Rightarrow> (string \<Rightarrow> bytes) \<Rightarrow> ident \<Rightarrow> kv_mutation list \<Rightarrow> db \<Rightarrow> db option" where
  "kv_apply dec_new dec_upd uid [] d = Some d"
| "kv_apply dec_new dec_upd uid (m # ms) d =
     (case kv_apply_one dec_new dec_upd uid m d of
        None \<Rightarrow> None
      | Some d1 \<Rightarrow> kv_apply dec_new dec_upd uid ms d1)"

definition new_version :: "kv_mutation \<Rightarrow> int" where
  "new_version m = (if mu_version m = - 1 then 0 else mu_version m + 1)"

definition kvMutate ::
  "(bytes \<Rightarrow> string) \<Rightarrow> (string \<Rightarrow> bytes) \<Rightarrow> (string \<Rightarrow> bytes) \<Rightarrow> ident \<Rightarrow> kv_mutation list \<Rightarrow> db
   \<Rightarrow> (db \<times> kv_result \<times> kv_changes) option" where
  "kvMutate enc dec_new dec_upd uid ms d =
     (let errors = kv_errors enc uid ms d
      in if errors \<noteq> [] then Some (d, KvFailure errors, [])
         else map_option (\<lambda>d'. (d', KvSuccess (map (\<lambda>m. (mu_key m, new_version m)) ms),
                                map (\<lambda>m. (mu_key m, mu_value m, new_version m)) ms))
                (kv_apply dec_new dec_upd uid ms d))"

section \<open>Reads\<close>

record kv_item =
  ki_key :: string
  ki_value :: string
  ki_version :: int

definition kv_item_of :: "(bytes \<Rightarrow> string) \<Rightarrow> kv_row \<Rightarrow> kv_item option" where
  "kv_item_of enc r =
     map_option (\<lambda>v. \<lparr>ki_key = v_key r, ki_value = enc v, ki_version = v_version r\<rparr>) (v_value r)"

definition kvGet :: "(bytes \<Rightarrow> string) \<Rightarrow> ident \<Rightarrow> string \<Rightarrow> db \<Rightarrow> kv_item option" where
  "kvGet enc uid key d = Option.bind (kv_lookup uid key d) (kv_item_of enc)"

definition kvList ::
  "(bytes \<Rightarrow> string) \<Rightarrow> ident \<Rightarrow> string option \<Rightarrow> nat option \<Rightarrow> db \<Rightarrow> kv_item list" where
  "kvList enc uid prefix limit d =
     (let rows = sort_key v_key (filter (\<lambda>r. v_accountId r = uid \<and> v_value r \<noteq> None
                   \<and> (truthy prefix \<longrightarrow> take (length (the prefix)) (v_key r) = the prefix)) (kvStore d))
      in List.map_filter (kv_item_of enc) (case limit of None \<Rightarrow> rows | Some n \<Rightarrow> take n rows))"

definition kvBulkGet :: "(bytes \<Rightarrow> string) \<Rightarrow> ident \<Rightarrow> string list \<Rightarrow> db \<Rightarrow> kv_item list" where
  "kvBulkGet enc uid keys d =
     List.map_filter (kv_item_of enc)
       (filter (\<lambda>r. v_accountId r = uid \<and> v_key r \<in> set keys \<and> v_value r \<noteq> None) (kvStore d))"

section \<open>The batch is atomic and isolated\<close>

lemma kv_apply_one_lookup:
  assumes "kv_apply_one dec_new dec_upd uid m d = Some d'"
  shows "kv_lookup u k d' =
     (if u = uid \<and> k = mu_key m
      then Some \<lparr>v_accountId = uid, v_key = mu_key m,
                 v_value = kv_bytes (if mu_version m = - 1 then dec_new else dec_upd) (mu_value m),
                 v_version = new_version m\<rparr>
      else kv_lookup u k d)"
proof (cases "mu_version m = - 1")
  case True
  then show ?thesis
    using assms by (auto simp: kv_apply_one_def kv_lookup_def new_version_def split: if_splits option.splits)
next
  case False
  then obtain r where r: "find_row (\<lambda>r. v_accountId r = uid \<and> v_key r = mu_key m) (kvStore d) = Some r"
    and d': "d' = d\<lparr>kvStore := update_rows (\<lambda>r. v_accountId r = uid \<and> v_key r = mu_key m)
       (\<lambda>r. r\<lparr>v_value := kv_bytes dec_upd (mu_value m), v_version := mu_version m + 1\<rparr>) (kvStore d)\<rparr>"
    using assms by (auto simp: kv_apply_one_def kv_lookup_def split: option.splits)
  have row: "v_accountId r = uid" "v_key r = mu_key m" using find_row_SomeD [OF r] by auto
  show ?thesis
  proof (cases "u = uid \<and> k = mu_key m")
    case True
    then have "kv_lookup u k d' =
        Some (r\<lparr>v_value := kv_bytes dec_upd (mu_value m), v_version := mu_version m + 1\<rparr>)"
      unfolding d' kv_lookup_def using r row by (simp add: find_row_update)
    with True row False show ?thesis by (cases r) (simp add: new_version_def)
  next
    case other: False
    then have "kv_lookup u k d' = kv_lookup u k d"
      unfolding d' kv_lookup_def by (simp, intro find_row_update_disjoint) auto
    with other show ?thesis by auto
  qed
qed

lemma kv_apply_lookup:
  assumes "kv_apply dec_new dec_upd uid ms d = Some d'" and "distinct (map mu_key ms)"
  shows "(\<forall>m \<in> set ms. kv_lookup uid (mu_key m) d' =
            Some \<lparr>v_accountId = uid, v_key = mu_key m,
                  v_value = kv_bytes (if mu_version m = - 1 then dec_new else dec_upd) (mu_value m),
                  v_version = new_version m\<rparr>)
       \<and> (\<forall>u k. u \<noteq> uid \<or> k \<notin> set (map mu_key ms) \<longrightarrow> kv_lookup u k d' = kv_lookup u k d)"
  using assms
proof (induction ms arbitrary: d)
  case (Cons m ms)
  obtain d1 where d1: "kv_apply_one dec_new dec_upd uid m d = Some d1"
    and rest: "kv_apply dec_new dec_upd uid ms d1 = Some d'"
    using Cons.prems(1) by (auto split: option.splits)
  note IH = Cons.IH [OF rest] and one = kv_apply_one_lookup [OF d1]
  have "mu_key m \<notin> set (map mu_key ms)" "distinct (map mu_key ms)" using Cons.prems(2) by auto
  then show ?case using IH one by simp
qed simp

lemma kv_apply_one_accounts: "kv_apply_one dec_new dec_upd uid m d = Some d' \<Longrightarrow> accounts d' = accounts d"
  by (auto simp: kv_apply_one_def split: if_splits option.splits)

lemma kv_apply_total:
  assumes "\<forall>m \<in> set ms. current_version uid (mu_key m) d = mu_version m" and "distinct (map mu_key ms)"
    and "\<forall>r \<in> set (kvStore d). 0 \<le> v_version r" and "account_row uid d \<noteq> None"
  shows "\<exists>d'. kv_apply dec_new dec_upd uid ms d = Some d'"
  using assms
proof (induction ms arbitrary: d)
  case (Cons m ms)
  have ver: "current_version uid (mu_key m) d = mu_version m" using Cons.prems(1) by simp
  have nonneg: "0 \<le> v_version r" if "kv_lookup uid k d = Some r" for k r
    using that Cons.prems(3) find_row_SomeD unfolding kv_lookup_def by fast
  obtain d1 where d1: "kv_apply_one dec_new dec_upd uid m d = Some d1"
  proof (cases "kv_lookup uid (mu_key m) d")
    case None
    with ver Cons.prems(4) show ?thesis by (intro that) (simp add: kv_apply_one_def current_version_def)
  next
    case (Some r)
    with ver nonneg have "mu_version m \<noteq> - 1" by (fastforce simp: current_version_def)
    with Some show ?thesis by (intro that) (simp add: kv_apply_one_def)
  qed
  have "current_version uid (mu_key m') d1 = mu_version m'" if m': "m' \<in> set ms" for m'
  proof -
    have "mu_key m' \<noteq> mu_key m" using Cons.prems(2) image_eqI [OF refl m', of mu_key] by auto
    then show ?thesis using Cons.prems(1) m' kv_apply_one_lookup [OF d1] by (simp add: current_version_def)
  qed
  then have "\<forall>m' \<in> set ms. current_version uid (mu_key m') d1 = mu_version m'" by blast
  moreover have "\<forall>r \<in> set (kvStore d1). 0 \<le> v_version r"
    using d1 Cons.prems(3) ver nonneg [of "mu_key m"]
    by (auto simp: kv_apply_one_def current_version_def set_update_rows split: if_splits option.splits)
  moreover have "account_row uid d1 \<noteq> None"
    using Cons.prems(4) kv_apply_one_accounts [OF d1] by (simp add: account_row_def)
  ultimately show ?case using Cons.IH [of d1] Cons.prems(2) d1 by auto
qed simp

text \<open>
  C14.  Batches of the key-value store are atomic and isolated.  A batch with distinct keys of an
  existing account is accepted exactly when every mutation names the current version of its key (-1 for a key that
  does not exist).  If it is accepted, every key has its new value and the next version and no
  other key and no other account changes; if not, nothing changes and the errors are exactly the
  mutations with a stale version, with the current version of each.
\<close>

theorem kv_batch_atomic:
  assumes "distinct (map mu_key ms)" and "\<forall>r \<in> set (kvStore d). 0 \<le> v_version r"
    and "account_row uid d \<noteq> None"
  shows "case kvMutate enc dec_new dec_upd uid ms d of
      None \<Rightarrow> False
    | Some (d', KvSuccess results, changes) \<Rightarrow>
        (\<forall>m \<in> set ms. current_version uid (mu_key m) d = mu_version m
           \<and> current_version uid (mu_key m) d' = mu_version m + 1
           \<and> map_option v_value (kv_lookup uid (mu_key m) d') =
               Some (kv_bytes (if mu_version m = - 1 then dec_new else dec_upd) (mu_value m)))
        \<and> (\<forall>u k. u \<noteq> uid \<or> k \<notin> set (map mu_key ms) \<longrightarrow> kv_lookup u k d' = kv_lookup u k d)
    | Some (d', KvFailure errors, changes) \<Rightarrow>
        d' = d \<and> errors \<noteq> []
        \<and> map ke_key errors = map mu_key (filter (\<lambda>m. current_version uid (mu_key m) d \<noteq> mu_version m) ms)
        \<and> (\<forall>e \<in> set errors. ke_version e = current_version uid (ke_key e) d)"
proof (cases "kv_errors enc uid ms d = []")
  case True
  then have cur: "\<forall>m \<in> set ms. current_version uid (mu_key m) d = mu_version m"
    by (simp add: kv_errors_def filter_empty_conv)
  obtain d' where d': "kv_apply dec_new dec_upd uid ms d = Some d'"
    using kv_apply_total [OF cur assms] by blast
  have next_version: "new_version m = mu_version m + 1" for m by (simp add: new_version_def)
  show ?thesis
    using True cur d' kv_apply_lookup [OF d' assms(1)]
    by (simp add: kvMutate_def current_version_def next_version)
next
  case False
  then show ?thesis by (auto simp: kvMutate_def Let_def kv_errors_def)
qed

definition demo_kv :: db where
  "demo_kv = empty_db\<lparr>accounts := [blank_account ''u1'' ''pk'' 0],
     kvStore := [\<lparr>v_accountId = ''u1'', v_key = ''a'', v_value = Some ''x'', v_version = 4\<rparr>]\<rparr>"

definition demo_batch :: "kv_mutation list" where
  "demo_batch = [\<lparr>mu_key = ''a'', mu_value = Some ''y'', mu_version = 4\<rparr>,
                 \<lparr>mu_key = ''b'', mu_value = None, mu_version = - 1\<rparr>]"

theorem kv_batch_atomic_witness:
  "\<exists>d'. kvMutate id id id ''u1'' demo_batch demo_kv =
          Some (d', KvSuccess [(''a'', 5), (''b'', 0)], [(''a'', Some ''y'', 5), (''b'', None, 0)])
      \<and> current_version ''u1'' ''a'' d' = 5"
proof -
  let ?r = "kvMutate id id id ''u1'' demo_batch demo_kv"
  have hyp: "distinct (map mu_key demo_batch)" "\<forall>r \<in> set (kvStore demo_kv). 0 \<le> v_version r"
    "account_row ''u1'' demo_kv \<noteq> None"
    by code_simp+
  have "map_option snd ?r = Some (KvSuccess [(''a'', 5), (''b'', 0)], [(''a'', Some ''y'', 5), (''b'', None, 0)])"
    by code_simp
  then obtain d' where d': "?r = Some (d', KvSuccess [(''a'', 5), (''b'', 0)],
      [(''a'', Some ''y'', 5), (''b'', None, 0)])" by auto
  have "hd demo_batch \<in> set demo_batch" "mu_key (hd demo_batch) = ''a''" "mu_version (hd demo_batch) = 4"
    by code_simp+
  with kv_batch_atomic [OF hyp, where enc = id and dec_new = id and dec_upd = id] d' show ?thesis by auto
qed

end
