(* ===== verification/Feed.thy ===== *)
theory Feed
  imports SessionStore Text
begin

text \<open>
  The activity feed, \<^verbatim>\<open>app/feed/*.ts\<close>: posting an item inside a transaction (with its
  notification after the commit) and reading pages of it in descending order.  A cursor is the
  text \<^verbatim>\<open>0-<counter>\<close>.  An exception is \<open>None\<close>; a counter text that is not a number becomes
  \<^verbatim>\<open>NaN\<close>, which Prisma refuses.  Counters stay below \<open>2 ^ 53\<close>, where numbers and BigInts agree.
\<close>

record feed_view =
  fv_item :: feed_item
  fv_cursor :: string

definition feed_cursor :: "int \<Rightarrow> string" where
  "feed_cursor n = ''0-'' @ show_int n"

definition feed_view_of :: "feed_item \<Rightarrow> feed_view" where
  "feed_view_of r = \<lparr>fv_item = r, fv_cursor = feed_cursor (d_counter r)\<rparr>"

section \<open>Posting\<close>

definition allocateFeedSeq :: "ident \<Rightarrow> ts \<Rightarrow> db \<Rightarrow> (db \<times> int) option" where
  "allocateFeedSeq uid now d =
     (case account_row uid d of
        None \<Rightarrow> None
      | Some a \<Rightarrow> Some (d\<lparr>accounts := update_rows (\<lambda>a. a_id a = uid)
                             (\<lambda>a. a\<lparr>a_feedSeq := a_feedSeq a + 1, a_updatedAt := now\<rparr>) (accounts d)\<rparr>,
                        a_feedSeq a + 1))"

text \<open>The two unique keys of the table: (userId, counter) and (userId, repeatKey).\<close>

definition feed_clash :: "feed_item \<Rightarrow> feed_item \<Rightarrow> bool" where
  "feed_clash x y =
     (d_userId x = d_userId y
      \<and> (d_counter x = d_counter y \<or> d_repeatKey x \<noteq> None \<and> d_repeatKey x = d_repeatKey y))"

definition feedPost ::
  "ident \<Rightarrow> feed_body \<Rightarrow> string option \<Rightarrow> ident \<Rightarrow> ts \<Rightarrow> db \<Rightarrow> (db \<times> feed_view) option" where
  "feedPost uid body repeatKey itemId now d =
     (let d1 = (if truthy repeatKey
                then d\<lparr>feedItems := delete_rows (\<lambda>r. d_userId r = uid \<and> d_repeatKey r = repeatKey)
                                      (feedItems d)\<rparr>
                else d)
      in case allocateFeedSeq uid now d1 of
           None \<Rightarrow> None
         | Some (d2, feedSeq) \<Rightarrow>
             let item = \<lparr>d_id = itemId, d_userId = uid, d_counter = feedSeq, d_repeatKey = repeatKey,
                         d_body = body, d_createdAt = now\<rparr>
             in if \<exists>r \<in> set (feedItems d2). d_id r = itemId \<or> feed_clash item r then None
                else Some (d2\<lparr>feedItems := feedItems d2 @ [item]\<rparr>, feed_view_of item))"

text \<open>The callback that runs after the commit.\<close>

definition feedPost_afterTx :: "ident \<Rightarrow> feed_view \<Rightarrow> ident \<Rightarrow> ts \<Rightarrow> db \<Rightarrow> db \<times> emission list" where
  "feedPost_afterTx uid v updId now d =
     (case allocateUserSeq uid now d of
        None \<Rightarrow> (d, [])
      | Some (d', updateSeq) \<Rightarrow>
          (d', [EmitUpdate uid (buildNewFeedPostUpdate (d_id (fv_item v)) (d_body (fv_item v))
                  (fv_cursor v) (d_createdAt (fv_item v)) updateSeq updId now) UserScopedOnly]))"

section \<open>Reading\<close>

record feed_options =
  fo_before :: "string option"
  fo_after :: "string option"
  fo_limit :: "nat option"

record feed_result =
  fr_items :: "feed_view list"
  fr_hasMore :: bool

text \<open>The condition on the counter, or \<open>None\<close> when the cursor is not accepted.\<close>

definition parse_feed_cursor :: "string \<Rightarrow> int option" where
  "parse_feed_cursor c = (if take 2 c = ''0-'' then parseInt (drop 2 c) else None)"

definition feed_where :: "feed_options \<Rightarrow> (int \<Rightarrow> bool) option" where
  "feed_where opt =
     (case fo_before opt of
        Some c \<Rightarrow> map_option (\<lambda>n k. k < n) (parse_feed_cursor c)
      | None \<Rightarrow>
          (case fo_after opt of
             Some c \<Rightarrow> map_option (\<lambda>n k. n < k) (parse_feed_cursor c)
           | None \<Rightarrow> Some (\<lambda>_. True)))"

definition feedGet :: "ident \<Rightarrow> feed_options \<Rightarrow> db \<Rightarrow> feed_result option" where
  "feedGet uid opt d =
     (let limit = (case fo_limit opt of None \<Rightarrow> 100 | Some n \<Rightarrow> n)
      in map_option
           (\<lambda>P. let items = take (limit + 1) (rev (sort_key d_counter
                              (filter (\<lambda>r. d_userId r = uid \<and> P (d_counter r)) (feedItems d))))
                in \<lparr>fr_items = map feed_view_of (take limit items), fr_hasMore = length items > limit\<rparr>)
           (feed_where opt))"

text \<open>
  \<^verbatim>\<open>GET /v1/feed\<close>; the handler runs with a query that the schema of the route accepted (a limit from
  1 to 200, 50 when absent).
\<close>

definition feed_item_json :: "feed_view \<Rightarrow> json" where
  "feed_item_json v =
     JObj [(''id'', JStr (d_id (fv_item v))), (''body'', feed_body_json (d_body (fv_item v))),
           (''repeatKey'', nullable (d_repeatKey (fv_item v))), (''cursor'', JStr (fv_cursor v)),
           (''createdAt'', JNum (d_createdAt (fv_item v)))]"

definition get_feed :: "ident \<Rightarrow> string option \<Rightarrow> string option \<Rightarrow> nat option \<Rightarrow> db \<Rightarrow> reply" where
  "get_feed uid bef aft queryLimit d =
     (let limit = (case queryLimit of None \<Rightarrow> 50 | Some n \<Rightarrow> n)
      in case feedGet uid \<lparr>fo_before = bef, fo_after = aft, fo_limit = Some limit\<rparr> d of
           None \<Rightarrow> Threw
         | Some res \<Rightarrow> Reply 200 (JObj [(''items'', JArr (map feed_item_json (fr_items res))),
                                        (''hasMore'', JBool (fr_hasMore res))]))"

section \<open>The feed counter\<close>

definition feed_seq :: "ident \<Rightarrow> db \<Rightarrow> int option" where
  "feed_seq uid d = map_option a_feedSeq (account_row uid d)"

interpretation feed_counter: sequence_counter "allocateFeedSeq uid now" "feed_seq uid" for uid now
proof
  fix d d' n
  assume "allocateFeedSeq uid now d = Some (d', n)"
  then show "feed_seq uid d = Some (n - 1) \<and> feed_seq uid d' = Some n"
    by (auto simp: allocateFeedSeq_def feed_seq_def account_row_def table_simps dest: find_row_SomeD
        split: option.splits)
qed (auto simp: allocateFeedSeq_def feed_seq_def split: option.splits)

lemma feed_seq_items [simp]: "feed_seq uid (d\<lparr>feedItems := x\<rparr>) = feed_seq uid d"
  by (simp add: feed_seq_def account_row_def)

text \<open>Counters of a user's items are distinct and at most the user's counter.\<close>

definition feed_ok :: "ident \<Rightarrow> db \<Rightarrow> bool" where
  "feed_ok uid d =
     (unique_by d_counter (filter (\<lambda>r. d_userId r = uid) (feedItems d))
      \<and> (\<forall>r \<in> set (feedItems d). d_userId r = uid \<longrightarrow>
           (case feed_seq uid d of None \<Rightarrow> False | Some n \<Rightarrow> d_counter r \<le> n)))"

definition feed_desc :: "ident \<Rightarrow> db \<Rightarrow> feed_item list" where
  "feed_desc uid d = rev (sort_key d_counter (filter (\<lambda>r. d_userId r = uid) (feedItems d)))"

definition feed_page :: "ident \<times> db \<Rightarrow> nat \<Rightarrow> int option \<Rightarrow> feed_item list \<times> bool" where
  "feed_page q limit c =
     (case feedGet (fst q) \<lparr>fo_before = map_option feed_cursor c, fo_after = None, fo_limit = Some limit\<rparr> (snd q) of
        None \<Rightarrow> ([], False)
      | Some res \<Rightarrow> (map fv_item (fr_items res), fr_hasMore res))"

lemma parse_feed_cursor_of [simp]: "parse_feed_cursor (feed_cursor n) = Some n"
  by (simp add: parse_feed_cursor_def feed_cursor_def)

lemma fv_item_view [simp]: "fv_item (feed_view_of r) = r"
  by (simp add: feed_view_of_def)

lemma feed_page_alt:
  "feed_page (uid, d) limit c =
     (let rs = filter (after_cursor (\<lambda>a b. b < a) d_counter c) (feed_desc uid d)
      in (take limit rs, length rs > limit))"
proof -
  have rows: "rev (sort_key d_counter (filter (\<lambda>r. d_userId r = uid \<and> P (d_counter r)) (feedItems d)))
      = filter (\<lambda>r. P (d_counter r)) (feed_desc uid d)" for P
    by (simp add: feed_desc_def filter_sort rev_filter [symmetric] conj_commute)
  have comp: "fv_item \<circ> feed_view_of = id" by (auto simp: fun_eq_iff)
  show ?thesis
    by (cases c)
      (auto simp: feed_page_def feedGet_def feed_where_def Let_def rows after_cursor_def [abs_def] comp)
qed

interpretation feed_pages: cursor_pages "\<lambda>a b. b < a" d_counter "\<lambda>_. True"
  "\<lambda>(uid, d). feed_ok uid d" "\<lambda>(uid, d). feed_desc uid d" feed_page
proof (unfold_locales, goal_cases)
  case (3 q)
  then show ?case
    by (auto simp: feed_ok_def feed_desc_def intro!: sorted_desc [where key = d_counter])
next
  case (5 q c limit)
  then show ?case by (cases q) (simp add: feed_page_alt)
qed auto

section \<open>Posting keeps the order of the feed\<close>

definition replaced_by :: "ident \<Rightarrow> string option \<Rightarrow> feed_item \<Rightarrow> bool" where
  "replaced_by uid repeatKey r = (truthy repeatKey \<and> d_userId r = uid \<and> d_repeatKey r = repeatKey)"

text \<open>A descending list is the descending list of its filtered rows.\<close>

lemma feed_desc_filter:
  "feed_desc uid (d\<lparr>feedItems := filter P (feedItems d)\<rparr>) = filter P (feed_desc uid d)"
  by (simp add: feed_desc_def filter_sort rev_filter [symmetric] conj_commute)

lemma insort_key_snoc: "(key :: 'r \<Rightarrow> 'k :: linorder) r \<le> key x \<Longrightarrow> insort_key key r (ys @ [x]) = insort_key key r ys @ [x]"
  by (induction ys) auto

lemma sort_key_snoc_max:
  fixes key :: "'r \<Rightarrow> 'k :: linorder"
  assumes "\<forall>r \<in> set rs. key r < key x"
  shows "sort_key key (rs @ [x]) = sort_key key rs @ [x]"
  using assms by (induction rs) (simp_all add: insort_key_snoc less_imp_le)

lemma feedPost_cases:
  assumes "feedPost uid body repeatKey itemId now d = Some (d', v)"
  obtains n where "feed_seq uid d = Some n" and "feed_seq uid d' = Some (n + 1)"
    and "fv_item v = \<lparr>d_id = itemId, d_userId = uid, d_counter = n + 1, d_repeatKey = repeatKey,
                       d_body = body, d_createdAt = now\<rparr>"
    and "feedItems d' = filter (\<lambda>r. \<not> replaced_by uid repeatKey r) (feedItems d) @ [fv_item v]"
    and "\<And>u. u \<noteq> uid \<Longrightarrow> feed_seq u d' = feed_seq u d"
proof -
  let ?d1 = "if truthy repeatKey
             then d\<lparr>feedItems := delete_rows (\<lambda>r. d_userId r = uid \<and> d_repeatKey r = repeatKey) (feedItems d)\<rparr>
             else d"
  obtain d2 n where alloc: "allocateFeedSeq uid now ?d1 = Some (d2, n)"
    and d': "d' = d2\<lparr>feedItems := feedItems d2 @ [fv_item v]\<rparr>"
    and v: "fv_item v = \<lparr>d_id = itemId, d_userId = uid, d_counter = n, d_repeatKey = repeatKey,
                       d_body = body, d_createdAt = now\<rparr>"
    using assms by (fastforce simp: feedPost_def Let_def split: option.splits if_splits prod.splits)
  have seq1: "feed_seq u ?d1 = feed_seq u d" for u by simp
  have items: "feedItems d2 = filter (\<lambda>r. \<not> replaced_by uid repeatKey r) (feedItems d)"
    using alloc by (auto simp: allocateFeedSeq_def replaced_by_def delete_rows_def split: option.splits)
  have other: "feed_seq u d2 = feed_seq u ?d1" if u: "u \<noteq> uid" for u
  proof -
    have "find_row (\<lambda>a. a_id a = u) (update_rows (\<lambda>a. a_id a = uid)
            (\<lambda>a. a\<lparr>a_feedSeq := a_feedSeq a + 1, a_updatedAt := now\<rparr>) as)
        = find_row (\<lambda>a. a_id a = u) as" for as :: "account list"
      using u by (intro find_row_update_disjoint) auto
    then show ?thesis
      using alloc by (auto simp: allocateFeedSeq_def feed_seq_def account_row_def split: option.splits if_splits)
  qed
  show ?thesis
    using feed_counter.alloc_next [OF alloc] v items other
    by (intro that [of "n - 1"]) (simp_all add: seq1 d')
qed

lemma feedPost_desc:
  assumes post: "feedPost uid body repeatKey itemId now d = Some (d', v)" and ok: "feed_ok uid d"
  shows "feed_desc uid d' = fv_item v # filter (\<lambda>r. \<not> replaced_by uid repeatKey r) (feed_desc uid d)"
proof (rule feedPost_cases [OF post])
  fix n
  assume seq: "feed_seq uid d = Some n"
    and v: "fv_item v = \<lparr>d_id = itemId, d_userId = uid, d_counter = n + 1, d_repeatKey = repeatKey,
                       d_body = body, d_createdAt = now\<rparr>"
    and items: "feedItems d' = filter (\<lambda>r. \<not> replaced_by uid repeatKey r) (feedItems d) @ [fv_item v]"
  let ?rs = "filter (\<lambda>r. d_userId r = uid) (filter (\<lambda>r. \<not> replaced_by uid repeatKey r) (feedItems d))"
  have "\<forall>r \<in> set ?rs. d_counter r < d_counter (fv_item v)"
    using ok seq v by (fastforce simp: feed_ok_def)
  then have "sort_key d_counter (?rs @ [fv_item v]) = sort_key d_counter ?rs @ [fv_item v]"
    by (rule sort_key_snoc_max)
  then have "feed_desc uid d' = fv_item v # rev (sort_key d_counter ?rs)"
    using v by (simp add: feed_desc_def items)
  also have "rev (sort_key d_counter ?rs) = filter (\<lambda>r. \<not> replaced_by uid repeatKey r) (feed_desc uid d)"
    using feed_desc_filter [where uid = uid and d = d and P = "\<lambda>r. \<not> replaced_by uid repeatKey r"] by (simp add: feed_desc_def)
  finally show ?thesis .
qed

lemma feedPost_ok:
  assumes post: "feedPost uid body repeatKey itemId now d = Some (d', v)" and ok: "feed_ok u d"
  shows "feed_ok u d'"
proof (rule feedPost_cases [OF post])
  fix n
  assume seq: "feed_seq uid d = Some n" "feed_seq uid d' = Some (n + 1)"
    and v: "fv_item v = \<lparr>d_id = itemId, d_userId = uid, d_counter = n + 1, d_repeatKey = repeatKey,
                       d_body = body, d_createdAt = now\<rparr>"
    and items: "feedItems d' = filter (\<lambda>r. \<not> replaced_by uid repeatKey r) (feedItems d) @ [fv_item v]"
    and other: "\<And>u. u \<noteq> uid \<Longrightarrow> feed_seq u d' = feed_seq u d"
  have uniq: "unique_by d_counter
      (filter (\<lambda>r. d_userId r = u) (filter (\<lambda>r. \<not> replaced_by uid repeatKey r) (feedItems d)))"
    using ok unique_by_filter [of d_counter "filter (\<lambda>r. d_userId r = u) (feedItems d)"
        "\<lambda>r. \<not> replaced_by uid repeatKey r"]
    by (simp add: feed_ok_def conj_commute)
  show ?thesis
  proof (cases "u = uid")
    case True
    then have below: "\<forall>r \<in> set (feedItems d). d_userId r = uid \<longrightarrow> d_counter r \<le> n"
      using ok seq by (simp add: feed_ok_def)
    then have "\<forall>r \<in> set (feedItems d). d_userId r = uid \<longrightarrow> d_counter r \<noteq> n + 1" by fastforce
    then show ?thesis
      using True uniq below seq v by (auto simp: feed_ok_def items)
  next
    case False
    then show ?thesis using ok uniq v other by (auto simp: feed_ok_def items)
  qed
qed

lemma feedPost_total:
  assumes "feed_ok uid d" and "feed_seq uid d = Some n" and "repeatKey \<noteq> Some []"
    and "\<forall>r \<in> set (feedItems d). d_id r \<noteq> itemId"
  shows "\<exists>p. feedPost uid body repeatKey itemId now d = Some p"
  using assms unfolding feedPost_def Let_def
  by (fastforce simp: allocateFeedSeq_def feed_seq_def account_row_def feed_clash_def feed_ok_def
      split: option.splits)

text \<open>
  C23.  Posting keeps every feed in order.  A post of an existing account with a fresh item id
  succeeds; the new item is on top of the user's feed with the next counter, an item with the
  same repeat key is gone, the rest of the feed keeps its order, the feed of every other user
  is the same, and the counters stay distinct and bounded by the account's counter.
\<close>

theorem feed_post_on_top:
  assumes "feed_ok uid d" and "feed_seq uid d = Some n" and "repeatKey \<noteq> Some []"
    and "\<forall>r \<in> set (feedItems d). d_id r \<noteq> itemId"
  shows "\<exists>d' v. feedPost uid body repeatKey itemId now d = Some (d', v)
     \<and> d_counter (fv_item v) = n + 1 \<and> d_body (fv_item v) = body
     \<and> feed_desc uid d' = fv_item v # filter (\<lambda>r. \<not> replaced_by uid repeatKey r) (feed_desc uid d)
     \<and> (\<forall>u. u \<noteq> uid \<longrightarrow> feed_desc u d' = feed_desc u d)
     \<and> (\<forall>u. feed_ok u d \<longrightarrow> feed_ok u d')"
proof -
  obtain d' v where post: "feedPost uid body repeatKey itemId now d = Some (d', v)"
    using feedPost_total [OF assms, of body now] by auto
  have other: "feed_desc u d' = feed_desc u d" if "u \<noteq> uid" for u
    using that by (rule_tac feedPost_cases [OF post])
      (auto simp: feed_desc_def replaced_by_def intro!: arg_cong [where f = "sort_key d_counter"] filter_cong)
  have "d_counter (fv_item v) = n + 1 \<and> d_body (fv_item v) = body"
    using assms(2) by (rule_tac feedPost_cases [OF post]) simp
  then show ?thesis
    using post feedPost_desc [OF post assms(1)] feedPost_ok [OF post] other by blast
qed

text \<open>
  C24.  Reading the feed page by page (cursor \<^verbatim>\<open>before\<close>) returns every item exactly once, newest
  first, and ends; a post made between two of the page requests does not disturb the rest of the
  reading: from any cursor handed out before it, the remaining pages return the older items that
  the post did not replace.
\<close>

theorem feed_pages_complete:
  assumes "feed_ok uid d" and "0 < limit" and "length (feed_desc uid d) < n"
  shows "read_pages (feed_page (uid, d) limit) d_counter n None = Some (feed_desc uid d)
     \<and> (\<forall>d' v body repeatKey itemId now k.
          feedPost uid body repeatKey itemId now d = Some (d', v) \<and> k \<in> d_counter ` set (feed_desc uid d)
          \<longrightarrow> read_pages (feed_page (uid, d') limit) d_counter n (Some k) =
                Some (filter (\<lambda>r. d_counter r < k \<and> \<not> replaced_by uid repeatKey r) (feed_desc uid d)))"
proof (intro conjI allI impI)
  show "read_pages (feed_page (uid, d) limit) d_counter n None = Some (feed_desc uid d)"
    using feed_pages.read_pages_complete [of "(uid, d)" limit None n] assms
    by (simp add: after_cursor_def [abs_def])
next
  fix d' v body repeatKey itemId now k
  assume *: "feedPost uid body repeatKey itemId now d = Some (d', v) \<and> k \<in> d_counter ` set (feed_desc uid d)"
  then have post: "feedPost uid body repeatKey itemId now d = Some (d', v)" ..
  have "\<not> d_counter (fv_item v) < k"
  proof (rule feedPost_cases [OF post])
    fix m
    assume "feed_seq uid d = Some m"
      "fv_item v = \<lparr>d_id = itemId, d_userId = uid, d_counter = m + 1, d_repeatKey = repeatKey,
                    d_body = body, d_createdAt = now\<rparr>"
    moreover from this have "k \<le> m" using * assms(1) by (auto simp: feed_desc_def feed_ok_def)
    ultimately show ?thesis by simp
  qed
  then have rest: "filter (\<lambda>r. d_counter r < k) (feed_desc uid d') =
      filter (\<lambda>r. d_counter r < k \<and> \<not> replaced_by uid repeatKey r) (feed_desc uid d)"
    by (simp add: feedPost_desc [OF post assms(1)] conj_commute)
  moreover have "length (filter (\<lambda>r. d_counter r < k \<and> \<not> replaced_by uid repeatKey r) (feed_desc uid d)) < n"
    using assms(3) length_filter_le le_less_trans by blast
  ultimately show "read_pages (feed_page (uid, d') limit) d_counter n (Some k) =
      Some (filter (\<lambda>r. d_counter r < k \<and> \<not> replaced_by uid repeatKey r) (feed_desc uid d))"
    using feed_pages.read_pages_complete [of "(uid, d')" limit "Some k" n] assms(2)
      feedPost_ok [OF post assms(1)]
    by (simp add: after_cursor_def [abs_def])
qed

definition demo_feed :: db where
  "demo_feed = empty_db\<lparr>accounts := [(blank_account ''u1'' ''pk'' 0)\<lparr>a_feedSeq := 12\<rparr>],
     feedItems := map (\<lambda>(i, n, k). \<lparr>d_id = i, d_userId = ''u1'', d_counter = n, d_repeatKey = k,
                                     d_body = FeedText i, d_createdAt = n\<rparr>)
       [(''i9'', 9, None), (''i10'', 10, Some ''r''), (''i12'', 12, None)]\<rparr>"

lemma demo_feed_ok: "feed_ok ''u1'' demo_feed" "feed_seq ''u1'' demo_feed = Some 12"
  "\<forall>r \<in> set (feedItems demo_feed). d_id r \<noteq> ''i13''" "length (feed_desc ''u1'' demo_feed) < 4"
  by code_simp+

theorem feed_post_on_top_witness:
  "\<exists>d' v. feedPost ''u1'' (FeedText ''x'') (Some ''r'') ''i13'' 20 demo_feed = Some (d', v)
     \<and> map d_id (feed_desc ''u1'' d') = [''i13'', ''i12'', ''i9''] \<and> fv_cursor v = ''0-13''"
proof -
  have rk: "Some ''r'' \<noteq> Some []" by simp
  have "map_option (\<lambda>(d', v). (map d_id (feed_desc ''u1'' d'), fv_cursor v))
      (feedPost ''u1'' (FeedText ''x'') (Some ''r'') ''i13'' 20 demo_feed) = Some ([''i13'', ''i12'', ''i9''], ''0-13'')"
    by code_simp
  with feed_post_on_top [OF demo_feed_ok(1,2) rk demo_feed_ok(3), of "FeedText ''x''" 20] show ?thesis
    by auto
qed

theorem feed_pages_complete_witness:
  "map_option (map d_id) (read_pages (feed_page (''u1'', demo_feed) 1) d_counter 4 None)
     = Some [''i12'', ''i10'', ''i9'']"
proof -
  have "map d_id (feed_desc ''u1'' demo_feed) = [''i12'', ''i10'', ''i9'']" by code_simp
  with feed_pages_complete [OF demo_feed_ok(1) _ demo_feed_ok(4), of 1] show ?thesis by simp
qed

end
