(* ===== verification/Social.thy ===== *)
theory Social
  imports Feed
begin

text \<open>
  Friendships, \<^verbatim>\<open>app/social/*.ts\<close>: the directed relationship rows of two users, adding and
  removing a friend as one serializable transaction each, the friend list, and the feed
  notifications with their cooldown.  \<open>None\<close> is a transaction that throws and is rolled back.
  The clock of a transaction is one value \<open>now\<close>; \<open>public_url\<close> is \<^verbatim>\<open>getPublicUrl\<close>.
\<close>

section \<open>User profiles\<close>

record profile_avatar =
  pa_ref :: image_ref
  pa_url :: string

record user_profile =
  up_uid :: ident
  up_firstName :: string
  up_lastName :: "string option"
  up_avatar :: "profile_avatar option"
  up_username :: string
  up_bio :: "string option"
  up_status :: relationship_status

definition github_of :: "account \<Rightarrow> db \<Rightarrow> github_profile option" where
  "github_of a d =
     Option.bind (a_githubUserId a)
       (\<lambda>gid. map_option g_profile (find_row (\<lambda>g. g_id g = gid) (githubUsers d)))"

text \<open>\<^verbatim>\<open>x || y\<close> on optional strings.\<close>

definition or_else :: "string option \<Rightarrow> 'a \<Rightarrow> (string \<Rightarrow> 'a) \<Rightarrow> 'a" where
  "or_else x y f = (case x of None \<Rightarrow> y | Some s \<Rightarrow> if s = [] then y else f s)"

definition buildUserProfile ::
  "(string \<Rightarrow> string) \<Rightarrow> account \<Rightarrow> github_profile option \<Rightarrow> relationship_status \<Rightarrow> user_profile" where
  "buildUserProfile public_url a github status =
     \<lparr>up_uid = a_id a,
      up_firstName = or_else (a_firstName a) [] id,
      up_lastName = a_lastName a,
      up_avatar = map_option (\<lambda>im. \<lparr>pa_ref = im, pa_url = public_url (im_path im)\<rparr>) (a_avatar a),
      up_username = or_else (a_username a) (or_else (map_option gp_login github) [] id) id,
      up_bio = or_else (Option.bind github gp_bio) None Some,
      up_status = status\<rparr>"

section \<open>Relationship rows\<close>

definition relationship_row :: "ident \<Rightarrow> ident \<Rightarrow> db \<Rightarrow> relationship option" where
  "relationship_row from to d =
     find_row (\<lambda>r. l_fromUserId r = from \<and> l_toUserId r = to) (relationships d)"

definition relationshipGet :: "ident \<Rightarrow> ident \<Rightarrow> db \<Rightarrow> relationship_status" where
  "relationshipGet from to d =
     (case relationship_row from to d of None \<Rightarrow> RNone | Some r \<Rightarrow> l_status r)"

definition relationshipSet ::
  "ident \<Rightarrow> ident \<Rightarrow> relationship_status \<Rightarrow> ts option \<Rightarrow> ts \<Rightarrow> db \<Rightarrow> db" where
  "relationshipSet from to status lastNotifiedAt now d =
     (let acceptedAt = (if status = RFriend then Some now else None)
      in case relationship_row from to d of
           None \<Rightarrow> d\<lparr>relationships := relationships d @
                      [\<lparr>l_fromUserId = from, l_toUserId = to, l_status = status,
                        l_acceptedAt = acceptedAt, l_lastNotifiedAt = lastNotifiedAt\<rparr>]\<rparr>
         | Some existing \<Rightarrow>
             d\<lparr>relationships := update_rows (\<lambda>r. l_fromUserId r = from \<and> l_toUserId r = to)
                 (\<lambda>r. r\<lparr>l_status := status, l_acceptedAt := acceptedAt,
                        l_lastNotifiedAt := (case lastNotifiedAt of
                            Some t \<Rightarrow> Some t
                          | None \<Rightarrow> (case l_lastNotifiedAt existing of
                              Some t \<Rightarrow> Some t
                            | None \<Rightarrow> l_lastNotifiedAt r))\<rparr>)
                 (relationships d)\<rparr>)"

section \<open>Notifications\<close>

definition shouldSendNotification :: "ts option \<Rightarrow> relationship_status \<Rightarrow> ts \<Rightarrow> bool" where
  "shouldSendNotification lastNotifiedAt status now =
     (if status = RRejected then False
      else case lastNotifiedAt of
             None \<Rightarrow> True
           | Some t \<Rightarrow> t < now - 24 * 60 * 60 * 1000)"

definition mark_notified :: "ident \<Rightarrow> ident \<Rightarrow> ts \<Rightarrow> db \<Rightarrow> db" where
  "mark_notified from to now d =
     d\<lparr>relationships := update_rows (\<lambda>r. l_fromUserId r = from \<and> l_toUserId r = to)
         (\<lambda>r. r\<lparr>l_lastNotifiedAt := Some now\<rparr>) (relationships d)\<rparr>"

text \<open>
  The posts a transaction makes, by user, whose notifications are sent after the commit.
\<close>

type_synonym posts = "(ident \<times> feed_view) list"

definition sendFriendRequestNotification ::
  "ident \<Rightarrow> ident \<Rightarrow> ident \<Rightarrow> ts \<Rightarrow> db \<Rightarrow> (db \<times> posts) option" where
  "sendFriendRequestNotification receiver sender itemId now d =
     (case relationship_row receiver sender d of
        None \<Rightarrow> Some (d, [])
      | Some r \<Rightarrow>
          if \<not> shouldSendNotification (l_lastNotifiedAt r) (l_status r) now then Some (d, [])
          else case feedPost receiver (FriendRequest sender) (Some (''friend_request_'' @ sender)) itemId now d of
                 None \<Rightarrow> None
               | Some (d1, v) \<Rightarrow> Some (mark_notified receiver sender now d1, [(receiver, v)]))"

definition notify_accepted ::
  "ident \<Rightarrow> ident \<Rightarrow> ident \<Rightarrow> ts \<Rightarrow> db \<Rightarrow> (db \<times> posts) option" where
  "notify_accepted user other itemId now d =
     (case relationship_row user other d of
        None \<Rightarrow> Some (d, [])
      | Some r \<Rightarrow>
          if \<not> shouldSendNotification (l_lastNotifiedAt r) (l_status r) now then Some (d, [])
          else case feedPost user (FriendAccepted other) (Some (''friend_accepted_'' @ other)) itemId now d of
                 None \<Rightarrow> None
               | Some (d1, v) \<Rightarrow> Some (mark_notified user other now d1, [(user, v)]))"

definition sendFriendshipEstablishedNotification ::
  "ident \<Rightarrow> ident \<Rightarrow> ident \<Rightarrow> ident \<Rightarrow> ts \<Rightarrow> db \<Rightarrow> (db \<times> posts) option" where
  "sendFriendshipEstablishedNotification user1 user2 itemId1 itemId2 now d =
     (case notify_accepted user1 user2 itemId1 now d of
        None \<Rightarrow> None
      | Some (d1, p1) \<Rightarrow>
          (case notify_accepted user2 user1 itemId2 now d1 of
             None \<Rightarrow> None
           | Some (d2, p2) \<Rightarrow> Some (d2, p1 @ p2)))"

section \<open>Adding and removing a friend\<close>

record friend_ids =
  fi_first :: ident
  fi_second :: ident

definition friendAdd ::
  "(string \<Rightarrow> string) \<Rightarrow> ident \<Rightarrow> ident \<Rightarrow> friend_ids \<Rightarrow> ts \<Rightarrow> db
   \<Rightarrow> (db \<times> user_profile option \<times> posts) option" where
  "friendAdd public_url ctx uid ids now d =
     (if ctx = uid then Some (d, None, [])
      else case (account_row ctx d, account_row uid d) of
        (Some currentUser, Some targetUser) \<Rightarrow>
          let profile = buildUserProfile public_url targetUser (github_of targetUser d);
              currentRel = relationshipGet ctx uid d;
              targetRel = relationshipGet uid ctx d
          in if targetRel = RRequested then
               (case sendFriendshipEstablishedNotification ctx uid (fi_first ids) (fi_second ids) now
                       (relationshipSet ctx uid RFriend None now (relationshipSet uid ctx RFriend None now d)) of
                  None \<Rightarrow> None
                | Some (d1, ps) \<Rightarrow> Some (d1, Some (profile RFriend), ps))
             else if currentRel = RNone \<or> currentRel = RRejected then
               (let d1 = relationshipSet ctx uid RRequested None now d;
                    d2 = (if targetRel = RNone then relationshipSet uid ctx RPending None now d1 else d1)
                in case sendFriendRequestNotification uid ctx (fi_first ids) now d2 of
                     None \<Rightarrow> None
                   | Some (d3, ps) \<Rightarrow> Some (d3, Some (profile RRequested), ps))
             else Some (d, Some (profile currentRel), [])
      | _ \<Rightarrow> Some (d, None, []))"

definition friendRemove ::
  "(string \<Rightarrow> string) \<Rightarrow> ident \<Rightarrow> ident \<Rightarrow> ts \<Rightarrow> db \<Rightarrow> db \<times> user_profile option" where
  "friendRemove public_url ctx uid now d =
     (case (account_row ctx d, account_row uid d) of
        (Some currentUser, Some targetUser) \<Rightarrow>
          let profile = buildUserProfile public_url targetUser (github_of targetUser d);
              currentRel = relationshipGet ctx uid d;
              targetRel = relationshipGet uid ctx d
          in if currentRel = RRequested then
               (relationshipSet ctx uid RRejected None now d, Some (profile RRejected))
             else if currentRel = RFriend then
               (relationshipSet ctx uid RPending None now (relationshipSet uid ctx RRequested None now d),
                Some (profile RRequested))
             else if currentRel = RPending then
               (let d1 = relationshipSet ctx uid RNone None now d
                in (if targetRel \<noteq> RRejected then relationshipSet uid ctx RNone None now d1 else d1,
                    Some (profile RNone)))
             else (d, Some (profile currentRel))
      | _ \<Rightarrow> (d, None))"

definition friendList :: "(string \<Rightarrow> string) \<Rightarrow> ident \<Rightarrow> db \<Rightarrow> user_profile list" where
  "friendList public_url ctx d =
     List.map_filter (\<lambda>r. map_option (\<lambda>a. buildUserProfile public_url a (github_of a d) (l_status r))
                           (account_row (l_toUserId r) d))
       (filter (\<lambda>r. l_fromUserId r = ctx \<and> l_status r \<in> {RFriend, RPending, RRequested}) (relationships d))"

text \<open>
  The user routes: a profile with the relationship of the caller (\<open>None\<close> is the 404 answer), and the search by user name;
  \<open>ilike\<close> is the case-insensitive prefix match of the database.
\<close>

definition get_user :: "(string \<Rightarrow> string) \<Rightarrow> ident \<Rightarrow> ident \<Rightarrow> db \<Rightarrow> user_profile option" where
  "get_user public_url ctx uid d =
     map_option (\<lambda>a. buildUserProfile public_url a (github_of a d) (relationshipGet ctx uid d)) (account_row uid d)"

definition search_users ::
  "(string \<Rightarrow> string) \<Rightarrow> (string \<Rightarrow> string \<Rightarrow> bool) \<Rightarrow> ident \<Rightarrow> string \<Rightarrow> db \<Rightarrow> user_profile list" where
  "search_users public_url ilike ctx query d =
     map (\<lambda>a. buildUserProfile public_url a (github_of a d) (relationshipGet ctx (a_id a) d))
       (take 10 (sort_key (\<lambda>a. the (a_username a))
          (filter (\<lambda>a. case a_username a of None \<Rightarrow> False | Some n \<Rightarrow> ilike query n) (accounts d))))"

section \<open>Two users as a state machine\<close>

text \<open>The pair of statuses (of the caller to the other user, of the other user to the caller).\<close>

type_synonym rel_pair = "relationship_status \<times> relationship_status"

definition rel_pair_of :: "ident \<Rightarrow> ident \<Rightarrow> db \<Rightarrow> rel_pair" where
  "rel_pair_of a b d = (relationshipGet a b d, relationshipGet b a d)"

fun add_rel :: "rel_pair \<Rightarrow> rel_pair" where
  "add_rel (c, t) =
     (if t = RRequested then (RFriend, RFriend)
      else if c = RNone \<or> c = RRejected then (RRequested, if t = RNone then RPending else t)
      else (c, t))"

fun remove_rel :: "rel_pair \<Rightarrow> rel_pair" where
  "remove_rel (c, t) =
     (case c of
        RRequested \<Rightarrow> (RRejected, t)
      | RFriend \<Rightarrow> (RPending, RRequested)
      | RPending \<Rightarrow> (RNone, if t = RRejected then t else RNone)
      | _ \<Rightarrow> (c, t))"

fun consistent :: "rel_pair \<Rightarrow> bool" where
  "consistent (c, t) =
     ((c, t) \<in> {(RNone, RNone), (RFriend, RFriend), (RRequested, RPending), (RPending, RRequested),
        (RRejected, RPending), (RPending, RRejected), (RRejected, RNone), (RNone, RRejected),
        (RRejected, RRequested), (RRequested, RRejected), (RRejected, RRejected)})"

lemma add_consistent: "consistent p \<Longrightarrow> consistent (add_rel p)"
  by (cases p) auto

lemma remove_consistent: "consistent p \<Longrightarrow> consistent (remove_rel p)"
  by (cases p) auto

lemma consistent_swap: "consistent (c, t) \<longleftrightarrow> consistent (t, c)"
  by auto

lemma consistent_friend: "consistent (c, t) \<Longrightarrow> c = RFriend \<longleftrightarrow> t = RFriend"
  by auto

section \<open>Relationships and notification times after each operation\<close>

definition last_notified :: "ident \<Rightarrow> ident \<Rightarrow> db \<Rightarrow> ts option" where
  "last_notified a b d = Option.bind (relationship_row a b d) l_lastNotifiedAt"

lemma relationship_row_set:
  "relationship_row a b (relationshipSet from to status None now d) =
     (if a = from \<and> b = to
      then Some \<lparr>l_fromUserId = from, l_toUserId = to, l_status = status,
                 l_acceptedAt = (if status = RFriend then Some now else None),
                 l_lastNotifiedAt = last_notified from to d\<rparr>
      else relationship_row a b d)"
proof (cases "relationship_row from to d")
  case None
  then show ?thesis
    by (auto simp: relationshipSet_def Let_def relationship_row_def last_notified_def split: option.splits)
next
  case (Some r)
  have row: "l_fromUserId r = from" "l_toUserId r = to"
    using find_row_SomeD [OF Some [unfolded relationship_row_def]] by auto
  show ?thesis
  proof (cases "a = from \<and> b = to")
    case True
    with Some row show ?thesis
      by (cases r) (auto simp: relationshipSet_def Let_def relationship_row_def last_notified_def
          find_row_update split: option.splits)
  next
    case False
    then have "find_row (\<lambda>r. l_fromUserId r = a \<and> l_toUserId r = b)
        (update_rows (\<lambda>r. l_fromUserId r = from \<and> l_toUserId r = to) f rs)
      = find_row (\<lambda>r. l_fromUserId r = a \<and> l_toUserId r = b) rs"
      if "\<And>r. l_fromUserId (f r) = l_fromUserId r \<and> l_toUserId (f r) = l_toUserId r"
      for f and rs :: "relationship list"
      using that by (intro find_row_update_disjoint) auto
    with False Some show ?thesis
      by (simp add: relationshipSet_def Let_def relationship_row_def del: de_Morgan_conj)
  qed
qed

lemma relationshipGet_set [simp]:
  "relationshipGet a b (relationshipSet from to status None now d) =
     (if a = from \<and> b = to then status else relationshipGet a b d)"
  by (simp add: relationshipGet_def relationship_row_set)

lemma last_notified_set [simp]:
  "last_notified a b (relationshipSet from to status None now d) = last_notified a b d"
  by (simp add: last_notified_def relationship_row_set)

lemma feedPost_relationships [simp]:
  "feedPost uid body repeatKey itemId now d = Some (d', v) \<Longrightarrow> relationships d' = relationships d"
  by (auto simp: feedPost_def allocateFeedSeq_def Let_def split: option.splits if_splits)

lemma relationship_row_mark:
  "relationship_row a b (mark_notified from to now d) =
     map_option (\<lambda>r. if a = from \<and> b = to then r\<lparr>l_lastNotifiedAt := Some now\<rparr> else r) (relationship_row a b d)"
proof -
  have "relationship_row a b (mark_notified from to now d) =
      map_option (\<lambda>r. if l_fromUserId r = from \<and> l_toUserId r = to then r\<lparr>l_lastNotifiedAt := Some now\<rparr> else r)
        (relationship_row a b d)"
    by (simp add: relationship_row_def mark_notified_def find_row_update)
  also have "\<dots> = map_option (\<lambda>r. if a = from \<and> b = to then r\<lparr>l_lastNotifiedAt := Some now\<rparr> else r)
        (relationship_row a b d)"
    by (auto simp: relationship_row_def dest: find_row_SomeD intro!: option.map_cong)
  finally show ?thesis .
qed

lemma relationshipGet_mark [simp]: "relationshipGet a b (mark_notified from to now d) = relationshipGet a b d"
  by (simp add: relationshipGet_def relationship_row_mark split: option.splits)

text \<open>
  Spacing of the notifications about one pair: \<open>spaced a ts b\<close> says that the times \<open>ts\<close> are more
  than a day apart, the first of them more than a day after \<open>a\<close>, and that \<open>b\<close> is the last of them.
\<close>

abbreviation day :: ts where
  "day \<equiv> 24 * 60 * 60 * 1000"

fun spaced :: "ts option \<Rightarrow> ts list \<Rightarrow> ts option \<Rightarrow> bool" where
  "spaced a [] b = (a = b)"
| "spaced a (t # ts) b = ((\<forall>t0. a = Some t0 \<longrightarrow> t0 + day < t) \<and> spaced (Some t) ts b)"

lemma spaced_append: "spaced a xs b \<Longrightarrow> spaced b ys c \<Longrightarrow> spaced a (xs @ ys) c"
  by (induction xs arbitrary: a) auto

lemma spaced_sorted: "spaced a ts b \<Longrightarrow> sorted_wrt (\<lambda>s t. s + day < t) ts"
proof -
  have above: "\<forall>t \<in> set ts. t0 + day < t" if "spaced (Some t0) ts b" for t0 ts
    using that
  proof (induction ts arbitrary: t0)
    case (Cons t ts)
    then have "t0 + day < t" "\<forall>u \<in> set ts. t + day < u" by auto
    then show ?case by force
  qed simp
  show "spaced a ts b \<Longrightarrow> sorted_wrt (\<lambda>s t. s + day < t) ts"
    by (induction ts arbitrary: a) (auto dest: above)
qed

text \<open>The notifications of a transaction: (receiver, the user it is about, time).\<close>

type_synonym notices = "(ident \<times> ident \<times> ts) list"

fun body_uid :: "feed_body \<Rightarrow> ident" where
  "body_uid (FriendRequest u) = u"
| "body_uid (FriendAccepted u) = u"
| "body_uid (FeedText t) = []"

definition notices_of :: "ts \<Rightarrow> posts \<Rightarrow> notices" where
  "notices_of now ps = map (\<lambda>(u, v). (u, body_uid (d_body (fv_item v)), now)) ps"

definition times_of :: "ident \<Rightarrow> ident \<Rightarrow> notices \<Rightarrow> ts list" where
  "times_of u b ns = map (\<lambda>(_, _, t). t) (filter (\<lambda>(u', b', _). u' = u \<and> b' = b) ns)"

lemma times_of_simps [simp]:
  "times_of u b [] = []" "times_of u b (xs @ ys) = times_of u b xs @ times_of u b ys"
  "notices_of now [] = []" "notices_of now (ps @ qs) = notices_of now ps @ notices_of now qs"
  by (simp_all add: times_of_def notices_of_def)

definition keeps_relationships :: "db \<Rightarrow> db \<Rightarrow> bool" where
  "keeps_relationships d d' = (\<forall>a b. relationshipGet a b d' = relationshipGet a b d)"

definition notifies :: "notices \<Rightarrow> db \<Rightarrow> db \<Rightarrow> bool" where
  "notifies ns d d' = (\<forall>u b. spaced (last_notified u b d) (times_of u b ns) (last_notified u b d'))"

lemma notifies_trans: "notifies xs d d1 \<Longrightarrow> notifies ys d1 d2 \<Longrightarrow> notifies (xs @ ys) d d2"
  unfolding notifies_def times_of_simps using spaced_append by metis

lemma notify_one:
  assumes row: "relationship_row user other d = Some r"
    and due: "shouldSendNotification (l_lastNotifiedAt r) (l_status r) now"
    and post: "feedPost user body rk itemId now d = Some (d1, v)" and body: "body_uid body = other"
  shows "keeps_relationships d (mark_notified user other now d1)
       \<and> notifies (notices_of now [(user, v)]) d (mark_notified user other now d1)"
proof -
  have rows: "relationship_row a b d1 = relationship_row a b d" for a b
    using post by (simp add: relationship_row_def)
  have v: "d_body (fv_item v) = body" by (rule feedPost_cases [OF post]) simp
  have last: "last_notified a b (mark_notified user other now d1) =
      (if a = user \<and> b = other then Some now else last_notified a b d)" for a b
    using row by (cases "relationship_row a b d") (auto simp: last_notified_def relationship_row_mark rows)
  have "l_lastNotifiedAt r = Some t0 \<Longrightarrow> t0 + day < now" for t0
    using due by (auto simp: shouldSendNotification_def split: if_splits)
  then show ?thesis
    using row by (auto simp: keeps_relationships_def notifies_def last notices_of_def times_of_def v body
        relationshipGet_def rows relationship_row_mark last_notified_def option.map_ident split: option.splits)
qed

lemma sendFriendRequest_spec:
  assumes "sendFriendRequestNotification receiver sender itemId now d = Some (d', ps)"
  shows "keeps_relationships d d' \<and> notifies (notices_of now ps) d d'"
  using assms notify_one [of receiver sender d _ now "FriendRequest sender"]
  by (auto simp: sendFriendRequestNotification_def keeps_relationships_def notifies_def
      split: option.splits if_splits prod.splits)

lemma notify_accepted_spec:
  assumes "notify_accepted user other itemId now d = Some (d', ps)"
  shows "keeps_relationships d d' \<and> notifies (notices_of now ps) d d'"
  using assms notify_one [of user other d _ now "FriendAccepted other"]
  by (auto simp: notify_accepted_def keeps_relationships_def notifies_def
      split: option.splits if_splits prod.splits)

lemma sendFriendshipEstablished_spec:
  assumes "sendFriendshipEstablishedNotification user1 user2 i1 i2 now d = Some (d', ps)"
  shows "keeps_relationships d d' \<and> notifies (notices_of now ps) d d'"
proof -
  obtain d1 p1 p2 where one: "notify_accepted user1 user2 i1 now d = Some (d1, p1)"
    and two: "notify_accepted user2 user1 i2 now d1 = Some (d', p2)" and ps: "ps = p1 @ p2"
    using assms by (auto simp: sendFriendshipEstablishedNotification_def split: option.splits)
  show ?thesis
    using notify_accepted_spec [OF one] notify_accepted_spec [OF two]
      notifies_trans [of "notices_of now p1" d d1 "notices_of now p2" d']
    by (simp add: keeps_relationships_def ps)
qed

section \<open>The operations implement the state machine\<close>

lemma friendAdd_cases:
  assumes "friendAdd public_url ctx uid ids now d = Some (d', p, ps)"
  shows "notifies (notices_of now ps) d d'
     \<and> (p = None \<and> d' = d
        \<or> ctx \<noteq> uid \<and> rel_pair_of ctx uid d' = add_rel (rel_pair_of ctx uid d)
          \<and> map_option up_status p = Some (fst (add_rel (rel_pair_of ctx uid d)))
          \<and> (\<forall>a b. (a, b) \<noteq> (ctx, uid) \<and> (a, b) \<noteq> (uid, ctx) \<longrightarrow> relationshipGet a b d' = relationshipGet a b d))"
proof (cases "ctx = uid \<or> account_row ctx d = None \<or> account_row uid d = None")
  case True
  then show ?thesis
    using assms by (auto simp: friendAdd_def notifies_def split: option.splits if_splits)
next
  case False
  then obtain cur tgt where rows: "account_row ctx d = Some cur" "account_row uid d = Some tgt"
    and ne: "ctx \<noteq> uid" by auto
  have status: "up_status (buildUserProfile u a g st) = st" for u a g st by (simp add: buildUserProfile_def)
  consider
      (accept) "relationshipGet uid ctx d = RRequested"
    | (request) "relationshipGet uid ctx d \<noteq> RRequested"
        "relationshipGet ctx uid d = RNone \<or> relationshipGet ctx uid d = RRejected"
    | (nothing) "relationshipGet uid ctx d \<noteq> RRequested"
        "\<not> (relationshipGet ctx uid d = RNone \<or> relationshipGet ctx uid d = RRejected)"
    by blast
  then show ?thesis
  proof cases
    case accept
    let ?d1 = "relationshipSet ctx uid RFriend None now (relationshipSet uid ctx RFriend None now d)"
    have send: "sendFriendshipEstablishedNotification ctx uid (fi_first ids) (fi_second ids) now ?d1 = Some (d', ps)"
      and p: "map_option up_status p = Some RFriend"
      using assms accept rows ne by (auto simp: friendAdd_def Let_def status split: option.splits)
    show ?thesis
      using sendFriendshipEstablished_spec [OF send] p accept ne
      by (auto simp: keeps_relationships_def notifies_def rel_pair_of_def)
  next
    case request
    let ?d1 = "relationshipSet ctx uid RRequested None now d"
    let ?d2 = "if relationshipGet uid ctx d = RNone then relationshipSet uid ctx RPending None now ?d1 else ?d1"
    have send: "sendFriendRequestNotification uid ctx (fi_first ids) now ?d2 = Some (d', ps)"
      and p: "map_option up_status p = Some RRequested"
      using assms request rows ne by (auto simp: friendAdd_def Let_def status split: option.splits)
    show ?thesis
      using sendFriendRequest_spec [OF send] p request ne
      by (auto simp: keeps_relationships_def notifies_def rel_pair_of_def split: if_splits)
  next
    case nothing
    then show ?thesis
      using assms rows ne by (auto simp: friendAdd_def Let_def status notifies_def rel_pair_of_def)
  qed
qed

lemma friendRemove_cases:
  assumes "friendRemove public_url ctx uid now d = (d', p)" and "ctx \<noteq> uid"
  shows "notifies [] d d'
     \<and> (p = None \<and> d' = d
        \<or> rel_pair_of ctx uid d' = remove_rel (rel_pair_of ctx uid d)
          \<and> map_option up_status p = Some (if relationshipGet ctx uid d = RFriend then RRequested
                                           else relationshipGet ctx uid d')
          \<and> (\<forall>a b. (a, b) \<noteq> (ctx, uid) \<and> (a, b) \<noteq> (uid, ctx) \<longrightarrow> relationshipGet a b d' = relationshipGet a b d))"
proof (cases "account_row ctx d = None \<or> account_row uid d = None")
  case True
  then show ?thesis
    using assms by (auto simp: friendRemove_def notifies_def split: option.splits)
next
  case False
  then obtain cur tgt where rows: "account_row ctx d = Some cur" "account_row uid d = Some tgt" by auto
  have status: "up_status (buildUserProfile u a g st) = st" for u a g st by (simp add: buildUserProfile_def)
  show ?thesis
    using assms rows
    by (cases "relationshipGet ctx uid d")
      (auto simp: friendRemove_def Let_def status notifies_def rel_pair_of_def)
qed

section \<open>Runs of the social operations\<close>

datatype social_op =
    AddFriend ident ident friend_ids ts
  | RemoveFriend ident ident ts

text \<open>A transaction that throws changes nothing.\<close>

fun social_apply :: "(string \<Rightarrow> string) \<Rightarrow> social_op \<Rightarrow> db \<Rightarrow> db \<times> notices" where
  "social_apply public_url (AddFriend ctx uid ids now) d =
     (case friendAdd public_url ctx uid ids now d of
        None \<Rightarrow> (d, [])
      | Some (d', p, ps) \<Rightarrow> (d', notices_of now ps))"
| "social_apply public_url (RemoveFriend ctx uid now) d = (fst (friendRemove public_url ctx uid now d), [])"

fun social_run :: "(string \<Rightarrow> string) \<Rightarrow> social_op list \<Rightarrow> db \<Rightarrow> db \<times> notices" where
  "social_run public_url [] d = (d, [])"
| "social_run public_url (p # ps) d =
     (case social_apply public_url p d of
        (d1, ns) \<Rightarrow> (case social_run public_url ps d1 of (d2, ms) \<Rightarrow> (d2, ns @ ms)))"

definition social_inv :: "db \<Rightarrow> bool" where
  "social_inv d = (\<forall>a b. consistent (rel_pair_of a b d) \<and> relationshipGet a a d = RNone)"

lemma friendRemove_self:
  assumes "relationshipGet u u d = RNone"
  shows "fst (friendRemove public_url u u now d) = d"
  using assms by (auto simp: friendRemove_def Let_def split: option.splits)

text \<open>A step that moves one pair along the state machine and keeps the others keeps the invariant.\<close>

lemma social_inv_pair:
  assumes inv: "social_inv d" and ne: "ctx \<noteq> uid"
    and new: "consistent (rel_pair_of ctx uid d')"
    and rest: "\<forall>a b. (a, b) \<noteq> (ctx, uid) \<and> (a, b) \<noteq> (uid, ctx) \<longrightarrow> relationshipGet a b d' = relationshipGet a b d"
  shows "social_inv d'"
  unfolding social_inv_def
proof (intro allI conjI)
  fix a b
  have rev_pair: "consistent (rel_pair_of uid ctx d')"
    using new consistent_swap by (simp add: rel_pair_of_def del: consistent.simps)
  show "consistent (rel_pair_of a b d')"
  proof (cases "(a, b) = (ctx, uid) \<or> (a, b) = (uid, ctx)")
    case True
    then show ?thesis using new rev_pair by (auto simp del: consistent.simps)
  next
    case False
    then have "rel_pair_of a b d' = rel_pair_of a b d" using rest by (auto simp: rel_pair_of_def)
    then show ?thesis using inv by (simp add: social_inv_def del: consistent.simps)
  qed
  show "relationshipGet a a d' = RNone" using rest ne inv by (auto simp: social_inv_def)
qed

lemma social_apply_spec:
  assumes "social_inv d" and "social_apply public_url p d = (d', ns)"
  shows "social_inv d' \<and> notifies ns d d'"
proof (cases p)
  case (AddFriend ctx uid ids now)
  show ?thesis
  proof (cases "friendAdd public_url ctx uid ids now d")
    case None
    then show ?thesis using assms AddFriend by (simp add: notifies_def)
  next
    case (Some r)
    obtain d1 q ps where r: "r = (d1, q, ps)" by (cases r)
    then have "d1 = d'" "ns = notices_of now ps" using assms(2) AddFriend Some by auto
    then have ca: "friendAdd public_url ctx uid ids now d = Some (d', q, ps)" "ns = notices_of now ps"
      using Some r by auto
    have "consistent (add_rel (rel_pair_of ctx uid d))"
      using assms(1) add_consistent by (simp add: social_inv_def del: consistent.simps)
    then show ?thesis
      using friendAdd_cases [OF ca(1)] social_inv_pair [OF assms(1), of ctx uid d'] assms(1) ca(2)
      by (metis)
  qed
next
  case (RemoveFriend ctx uid now)
  show ?thesis
  proof (cases "ctx = uid")
    case True
    then have "d' = d \<and> ns = []"
      using assms RemoveFriend friendRemove_self [of uid d] by (simp add: social_inv_def)
    then show ?thesis using assms(1) by (simp add: notifies_def)
  next
    case False
    obtain q where rem: "friendRemove public_url ctx uid now d = (d', q)" and ns: "ns = []"
      using assms(2) RemoveFriend by (cases "friendRemove public_url ctx uid now d") auto
    have "consistent (remove_rel (rel_pair_of ctx uid d))"
      using assms(1) remove_consistent by (simp add: social_inv_def del: consistent.simps)
    then show ?thesis
      using friendRemove_cases [OF rem False] social_inv_pair [OF assms(1) False, of d'] assms(1) ns
      by (metis)
  qed
qed

lemma social_run_spec:
  assumes "social_inv d" and "social_run public_url ops d = (d', ns)"
  shows "social_inv d' \<and> notifies ns d d'"
  using assms
proof (induction ops arbitrary: d ns)
  case Nil
  then show ?case by (simp add: notifies_def)
next
  case (Cons p ops)
  obtain d1 xs where one: "social_apply public_url p d = (d1, xs)" by fastforce
  obtain ys where rest: "social_run public_url ops d1 = (d', ys)" and ns: "ns = xs @ ys"
    using Cons.prems(2) one by (auto split: prod.splits)
  have s: "social_inv d1" "notifies xs d d1" using social_apply_spec [OF Cons.prems(1) one] by auto
  have "social_inv d'" "notifies ys d1 d'" using Cons.IH [OF s(1) rest] by auto
  then show ?case using notifies_trans [OF s(2)] ns by blast
qed

lemma social_inv_empty: "relationships d = [] \<Longrightarrow> social_inv d"
  by (simp add: social_inv_def rel_pair_of_def relationshipGet_def relationship_row_def)

section \<open>Adding a friend does not fail\<close>

definition can_post :: "ident \<Rightarrow> ident \<Rightarrow> db \<Rightarrow> bool" where
  "can_post uid itemId d =
     (feed_ok uid d \<and> feed_seq uid d \<noteq> None \<and> (\<forall>r \<in> set (feedItems d). d_id r \<noteq> itemId))"

lemma can_post_cong:
  "accounts d' = accounts d \<Longrightarrow> feedItems d' = feedItems d \<Longrightarrow> can_post u i d' = can_post u i d"
  by (simp add: can_post_def feed_ok_def feed_seq_def account_row_def)

lemma relationshipSet_frame [simp]:
  "accounts (relationshipSet a b st ln now d) = accounts d"
  "feedItems (relationshipSet a b st ln now d) = feedItems d"
  by (simp_all add: relationshipSet_def Let_def split: option.splits)

lemma can_post_set [simp]: "can_post u i (relationshipSet a b st ln now d) = can_post u i d"
  by (rule can_post_cong) simp_all

lemma can_post_mark [simp]: "can_post u i (mark_notified a b now d) = can_post u i d"
  by (rule can_post_cong) (simp_all add: mark_notified_def)

lemma can_post_total:
  "can_post uid itemId d \<Longrightarrow> rk \<noteq> [] \<Longrightarrow> \<exists>d' v. feedPost uid body (Some rk) itemId now d = Some (d', v)"
  using feedPost_total [of uid d _ "Some rk" itemId body now] by (auto simp: can_post_def)

lemma can_post_after:
  assumes "can_post u i d" and post: "feedPost uid body rk itemId now d = Some (d', v)" and "i \<noteq> itemId"
  shows "can_post u i d'"
proof (rule feedPost_cases [OF post])
  fix n
  assume *: "feed_seq uid d' = Some (n + 1)"
    "fv_item v = \<lparr>d_id = itemId, d_userId = uid, d_counter = n + 1, d_repeatKey = rk, d_body = body, d_createdAt = now\<rparr>"
    "feedItems d' = filter (\<lambda>r. \<not> replaced_by uid rk r) (feedItems d) @ [fv_item v]"
    "\<And>u. u \<noteq> uid \<Longrightarrow> feed_seq u d' = feed_seq u d"
  have "feed_ok u d'" using feedPost_ok [OF post] assms(1) by (simp add: can_post_def)
  with * assms(1,3) show ?thesis by (cases "u = uid") (auto simp: can_post_def)
qed

lemma notify_accepted_total:
  assumes "can_post user itemId d" and "can_post u i d" and "i \<noteq> itemId"
  shows "\<exists>d' ps. notify_accepted user other itemId now d = Some (d', ps) \<and> can_post u i d'"
  using assms can_post_total [OF assms(1), of "''friend_accepted_'' @ other" "FriendAccepted other" now]
    can_post_after [OF assms(2) _ assms(3)]
  by (fastforce simp: notify_accepted_def split: option.splits)

lemma friendAdd_total:
  assumes "can_post ctx (fi_first ids) d" "can_post uid (fi_first ids) d" "can_post uid (fi_second ids) d"
    and "fi_first ids \<noteq> fi_second ids"
  shows "friendAdd public_url ctx uid ids now d \<noteq> None"
proof -
  have est: "sendFriendshipEstablishedNotification ctx uid (fi_first ids) (fi_second ids) now d1 \<noteq> None"
    if ready: "can_post ctx (fi_first ids) d1" "can_post uid (fi_second ids) d1" for d1
  proof -
    obtain d2 ps where "notify_accepted ctx uid (fi_first ids) now d1 = Some (d2, ps)"
      and "can_post uid (fi_second ids) d2"
      using notify_accepted_total [OF ready] assms(4) by metis
    moreover from this obtain d3 qs where "notify_accepted uid ctx (fi_second ids) now d2 = Some (d3, qs)"
      using can_post_total [of uid "fi_second ids" d2 "''friend_accepted_'' @ ctx" "FriendAccepted ctx" now]
      by (fastforce simp: notify_accepted_def split: option.splits)
    ultimately show ?thesis by (simp add: sendFriendshipEstablishedNotification_def)
  qed
  have req: "sendFriendRequestNotification uid ctx (fi_first ids) now d1 \<noteq> None"
    if "can_post uid (fi_first ids) d1" for d1
    using can_post_total [OF that, of "''friend_request_'' @ ctx" "FriendRequest ctx" now]
    by (fastforce simp: sendFriendRequestNotification_def split: option.splits)
  show ?thesis
    using assms by (simp add: friendAdd_def Let_def est req del: not_None_eq split: option.split)
qed

section \<open>Properties\<close>

text \<open>The other pairs keep their statuses.\<close>

definition only_pair :: "ident \<Rightarrow> ident \<Rightarrow> db \<Rightarrow> db \<Rightarrow> bool" where
  "only_pair a b d d' = (\<forall>x y. {x, y} \<noteq> {a, b} \<longrightarrow> rel_pair_of x y d' = rel_pair_of x y d)"

lemma only_pairI:
  assumes "\<forall>x y. (x, y) \<noteq> (a, b) \<and> (x, y) \<noteq> (b, a) \<longrightarrow> relationshipGet x y d' = relationshipGet x y d"
  shows "only_pair a b d d'"
  unfolding only_pair_def rel_pair_of_def
proof (intro allI impI)
  fix x y
  assume "{x, y} \<noteq> {a, b}"
  then have "(x, y) \<noteq> (a, b) \<and> (x, y) \<noteq> (b, a)" "(y, x) \<noteq> (a, b) \<and> (y, x) \<noteq> (b, a)" by auto
  then show "(relationshipGet x y d', relationshipGet y x d') = (relationshipGet x y d, relationshipGet y x d)"
    using assms by metis
qed

text \<open>
  C21.  Adding and removing friends implement the state machine on pairs of statuses.  With fresh
  item ids neither call fails; a call that returns a profile moves exactly the pair of the two
  users by \<open>add_rel\<close> or \<open>remove_rel\<close> and no other pair, a call that returns none changes nothing;
  the profile carries the caller's new status, except that removing a friend reports
  \<^verbatim>\<open>requested\<close> while the caller's status becomes \<^verbatim>\<open>pending\<close>.
\<close>

theorem friends_refine_pairs:
  assumes "ctx \<noteq> uid" and "can_post ctx (fi_first ids) d" and "can_post uid (fi_first ids) d"
    and "can_post uid (fi_second ids) d" and "fi_first ids \<noteq> fi_second ids"
  shows "(case friendAdd public_url ctx uid ids now d of
            None \<Rightarrow> False
          | Some (d', None, ps) \<Rightarrow> d' = d
          | Some (d', Some p, ps) \<Rightarrow>
              rel_pair_of ctx uid d' = add_rel (rel_pair_of ctx uid d)
              \<and> up_status p = relationshipGet ctx uid d' \<and> only_pair ctx uid d d')
     \<and> (case friendRemove public_url ctx uid now d of
            (d', None) \<Rightarrow> d' = d
          | (d', Some p) \<Rightarrow>
              rel_pair_of ctx uid d' = remove_rel (rel_pair_of ctx uid d)
              \<and> up_status p = (if relationshipGet ctx uid d = RFriend then RRequested else relationshipGet ctx uid d')
              \<and> only_pair ctx uid d d')"
proof
  obtain d1 p ps where add: "friendAdd public_url ctx uid ids now d = Some (d1, p, ps)"
    using friendAdd_total [OF assms(2-5), of public_url now] by (cases "friendAdd public_url ctx uid ids now d") auto
  have fst_pair: "relationshipGet ctx uid d1 = fst (rel_pair_of ctx uid d1)" by (simp add: rel_pair_of_def)
  from friendAdd_cases [OF add] only_pairI [of ctx uid d1 d] add show "case friendAdd public_url ctx uid ids now d of
            None \<Rightarrow> False
          | Some (d', None, ps) \<Rightarrow> d' = d
          | Some (d', Some p, ps) \<Rightarrow>
              rel_pair_of ctx uid d' = add_rel (rel_pair_of ctx uid d)
              \<and> up_status p = relationshipGet ctx uid d' \<and> only_pair ctx uid d d'"
    by (cases p) (auto simp: fst_pair simp del: add_rel.simps)
  obtain d2 q where rem: "friendRemove public_url ctx uid now d = (d2, q)" by fastforce
  from friendRemove_cases [OF rem assms(1)] only_pairI [of ctx uid d2 d] rem show "case friendRemove public_url ctx uid now d of
            (d', None) \<Rightarrow> d' = d
          | (d', Some p) \<Rightarrow>
              rel_pair_of ctx uid d' = remove_rel (rel_pair_of ctx uid d)
              \<and> up_status p = (if relationshipGet ctx uid d = RFriend then RRequested else relationshipGet ctx uid d')
              \<and> only_pair ctx uid d d'"
    by (cases q) (auto simp del: remove_rel.simps)
qed

text \<open>
  After any sequence of friend operations from a database without relationships, friendship
  is symmetric, a user is never related to itself, and a pending status always faces a request
  or a rejection.
\<close>

theorem friendship_symmetric:
  assumes "relationships d = []"
  shows "let d' = fst (social_run public_url ops d)
     in (relationshipGet a b d' = RFriend \<longleftrightarrow> relationshipGet b a d' = RFriend)
      \<and> relationshipGet a a d' = RNone
      \<and> (relationshipGet a b d' = RPending \<longrightarrow> relationshipGet b a d' \<in> {RRequested, RRejected})
      \<and> (relationshipGet a b d' = RRequested \<longrightarrow> relationshipGet b a d' \<in> {RPending, RRejected})"
proof -
  obtain d' ns where run: "social_run public_url ops d = (d', ns)" by fastforce
  then have "social_inv d'" using social_run_spec [OF social_inv_empty [OF assms]] by blast
  then have "consistent (relationshipGet a b d', relationshipGet b a d')" "relationshipGet a a d' = RNone"
    by (auto simp: social_inv_def rel_pair_of_def)
  then show ?thesis unfolding run Let_def by (cases "relationshipGet a b d'") auto
qed

text \<open>
  C22.  Notification cooldown: over any sequence of friend operations, two notifications to the
  same user about the same other user are more than 24 hours apart, even when the friendship was
  requested, withdrawn and requested again in between.
\<close>

theorem notification_cooldown:
  assumes "relationships d = []"
  shows "sorted_wrt (\<lambda>s t. s + 24 * 60 * 60 * 1000 < t) (times_of u b (snd (social_run public_url ops d)))"
proof -
  obtain d' ns where run: "social_run public_url ops d = (d', ns)" by fastforce
  then have "notifies ns d d'" using social_run_spec [OF social_inv_empty [OF assms]] by blast
  then show ?thesis using run spaced_sorted by (fastforce simp: notifies_def)
qed

section \<open>A concrete run\<close>

definition demo_social :: db where
  "demo_social = empty_db\<lparr>accounts := [blank_account ''ann'' ''pa'' 0, blank_account ''bob'' ''pb'' 0]\<rparr>"

definition demo_friend_ids :: friend_ids where
  "demo_friend_ids = \<lparr>fi_first = ''i1'', fi_second = ''i2''\<rparr>"

text \<open>Ann asks, withdraws and asks again (no second notification), Bob accepts.\<close>

definition demo_social_ops :: "social_op list" where
  "demo_social_ops =
     [AddFriend ''ann'' ''bob'' demo_friend_ids 10, RemoveFriend ''ann'' ''bob'' 20,
      AddFriend ''ann'' ''bob'' \<lparr>fi_first = ''i3'', fi_second = ''i4''\<rparr> 30,
      AddFriend ''bob'' ''ann'' \<lparr>fi_first = ''i5'', fi_second = ''i6''\<rparr> (40 + 24 * 60 * 60 * 1000)]"

theorem friends_refine_pairs_witness:
  "\<exists>d' p ps. friendAdd id ''ann'' ''bob'' demo_friend_ids 10 demo_social = Some (d', Some p, ps)
     \<and> rel_pair_of ''ann'' ''bob'' d' = (RRequested, RPending) \<and> up_status p = RRequested"
proof -
  have hyp: "''ann'' \<noteq> ''bob''" "can_post ''ann'' (fi_first demo_friend_ids) demo_social"
    "can_post ''bob'' (fi_first demo_friend_ids) demo_social"
    "can_post ''bob'' (fi_second demo_friend_ids) demo_social"
    "fi_first demo_friend_ids \<noteq> fi_second demo_friend_ids"
    by code_simp+
  have "map_option (\<lambda>(d', p, ps). p = None) (friendAdd id ''ann'' ''bob'' demo_friend_ids 10 demo_social) = Some False"
    by code_simp
  then obtain d' p ps where add: "friendAdd id ''ann'' ''bob'' demo_friend_ids 10 demo_social = Some (d', Some p, ps)"
    by auto
  have "add_rel (rel_pair_of ''ann'' ''bob'' demo_social) = (RRequested, RPending)" by code_simp
  then show ?thesis
    using friends_refine_pairs [OF hyp, where public_url = id and now = 10] add
    by (simp add: rel_pair_of_def del: add_rel.simps)
qed

theorem friendship_symmetric_witness:
  "relationshipGet ''ann'' ''bob'' (fst (social_run id demo_social_ops demo_social)) = RFriend
   \<and> relationshipGet ''bob'' ''ann'' (fst (social_run id demo_social_ops demo_social)) = RFriend"
proof -
  have empty: "relationships demo_social = []" by code_simp
  have "relationshipGet ''ann'' ''bob'' (fst (social_run id demo_social_ops demo_social)) = RFriend"
    by code_simp
  then show ?thesis
    using friendship_symmetric [OF empty, where public_url = id and ops = demo_social_ops and a = "''ann''" and b = "''bob''"]
    by (simp add: Let_def)
qed

theorem notification_cooldown_witness:
  "times_of ''bob'' ''ann'' (snd (social_run id demo_social_ops demo_social)) = [10, 40 + 24 * 60 * 60 * 1000]
   \<and> sorted_wrt (\<lambda>s t. s + 24 * 60 * 60 * 1000 < t)
        (times_of ''bob'' ''ann'' (snd (social_run id demo_social_ops demo_social)))"
proof -
  have empty: "relationships demo_social = []" by code_simp
  have "times_of ''bob'' ''ann'' (snd (social_run id demo_social_ops demo_social)) = [10, 40 + 24 * 60 * 60 * 1000]"
    by code_simp
  then show ?thesis
    using notification_cooldown [OF empty, where public_url = id and ops = demo_social_ops and u = "''bob''" and b = "''ann''"]
    by simp
qed

end
