(* ===== verification/SessionVersions.thy ===== *)
theory SessionVersions
  imports Server
begin

text \<open>
  Metadata and agent state of a session as versioned cells.  The compare-and-set statements of
  \<^verbatim>\<open>update-metadata\<close> and \<^verbatim>\<open>update-state\<close> (of a runtime or of a user client) meet the contract
  \<open>versioned_cell\<close>, every other statement of the server keeps the cells, so no update is lost in
  any interleaving; and a success answer of the handlers is given only for a write that was
  applied, by the current owner of the session when a runtime asked for it.
\<close>

section \<open>The cells\<close>

definition metadata_cell :: "ident \<Rightarrow> db \<Rightarrow> (string \<times> int) option" where
  "metadata_cell sid d = map_option (\<lambda>r. (s_metadata r, s_metadataVersion r)) (session_row sid d)"

definition state_cell :: "ident \<Rightarrow> db \<Rightarrow> (string option \<times> int) option" where
  "state_cell sid d = map_option (\<lambda>r. (s_agentState r, s_agentStateVersion r)) (session_row sid d)"

definition session_ids_unique :: "db \<Rightarrow> bool" where
  "session_ids_unique d = unique_by s_id (sessions d)"

lemma session_cas:
  fixes P :: "session \<Rightarrow> bool" and c :: "session \<Rightarrow> 'v \<times> int"
  assumes uniq: "session_ids_unique d" and P: "\<And>r. P r \<Longrightarrow> s_id r = sid \<and> snd (c r) = e"
    and f: "\<And>r. s_id (f r) = s_id r \<and> c (f r) = (v, e + 1)"
  defines "d' \<equiv> d\<lparr>sessions := update_rows P f (sessions d)\<rparr>"
  shows "session_ids_unique d'
     \<and> (0 < count_rows P (sessions d) \<longrightarrow>
          (\<exists>v0. map_option c (session_row sid d) = Some (v0, e))
          \<and> map_option c (session_row sid d') = Some (v, e + 1))
     \<and> (\<not> 0 < count_rows P (sessions d) \<longrightarrow> d' = d)"
proof -
  have "update_rows P f (sessions d) = sessions d \<Longrightarrow> d' = d" by (simp add: d'_def)
  with rows_cas [of s_id "sessions d" P sid c e f v] uniq P f show ?thesis
    by (auto simp: session_ids_unique_def session_row_def d'_def)
qed

text \<open>A write: who writes (account, connection, authorization), what, and when.\<close>

type_synonym 'v session_write = "ident \<times> connection \<times> (ident option \<times> ident option) \<times> 'v \<times> ts"

definition metadata_cas :: "ident \<Rightarrow> int \<Rightarrow> string session_write \<Rightarrow> db \<Rightarrow> db \<times> bool" where
  "metadata_cas sid e x d =
     (case x of (userId, conn, auth, v, now) \<Rightarrow> write_metadata conn userId sid auth e v now d)"

definition state_cas :: "ident \<Rightarrow> int \<Rightarrow> string option session_write \<Rightarrow> db \<Rightarrow> db \<times> bool" where
  "state_cas sid e x d =
     (case x of (userId, conn, auth, v, now) \<Rightarrow> write_state conn userId sid auth e v now d)"

definition write_value :: "'v session_write \<Rightarrow> 'v" where
  "write_value x = (case x of (userId, conn, auth, v, now) \<Rightarrow> v)"

lemma metadata_cas_spec:
  assumes "session_ids_unique d" and "metadata_cas sid e x d = (d', hit)"
  shows "session_ids_unique d'
     \<and> (hit \<longrightarrow> (\<exists>v0. metadata_cell sid d = Some (v0, e)) \<and> metadata_cell sid d' = Some (write_value x, e + 1))
     \<and> (\<not> hit \<longrightarrow> d' = d)"
proof -
  obtain userId conn auth v now where x: "x = (userId, conn, auth, v, now)" by (cases x)
  obtain P f where P: "\<And>r. P r \<Longrightarrow> s_id r = sid \<and> snd (s_metadata r, s_metadataVersion r) = e"
    and f: "\<And>r. s_id (f r) = s_id r \<and> (s_metadata (f r), s_metadataVersion (f r)) = (v, e + 1)"
    and stmt: "metadata_cas sid e x d = (d\<lparr>sessions := update_rows P f (sessions d)\<rparr>, 0 < count_rows P (sessions d))"
    by (cases "is_session_scoped conn"; rule that)
      (auto simp: x metadata_cas_def write_metadata_def updateRuntimeSessionMetadata_def user_update_metadata_def Let_def sql_where)
  from session_cas [OF assms(1), of P sid "\<lambda>r. (s_metadata r, s_metadataVersion r)" e f v, OF P f] show ?thesis
    using assms(2) stmt by (auto simp: metadata_cell_def write_value_def x)
qed

lemma state_cas_spec:
  assumes "session_ids_unique d" and "state_cas sid e x d = (d', hit)"
  shows "session_ids_unique d'
     \<and> (hit \<longrightarrow> (\<exists>v0. state_cell sid d = Some (v0, e)) \<and> state_cell sid d' = Some (write_value x, e + 1))
     \<and> (\<not> hit \<longrightarrow> d' = d)"
proof -
  obtain userId conn auth v now where x: "x = (userId, conn, auth, v, now)" by (cases x)
  obtain P f where P: "\<And>r. P r \<Longrightarrow> s_id r = sid \<and> snd (s_agentState r, s_agentStateVersion r) = e"
    and f: "\<And>r. s_id (f r) = s_id r \<and> (s_agentState (f r), s_agentStateVersion (f r)) = (v, e + 1)"
    and stmt: "state_cas sid e x d = (d\<lparr>sessions := update_rows P f (sessions d)\<rparr>, 0 < count_rows P (sessions d))"
    by (cases "is_session_scoped conn"; rule that)
      (auto simp: x state_cas_def write_state_def updateRuntimeSessionState_def user_update_state_def Let_def sql_where)
  from session_cas [OF assms(1), of P sid "\<lambda>r. (s_agentState r, s_agentStateVersion r)" e f v, OF P f] show ?thesis
    using assms(2) stmt by (auto simp: state_cell_def write_value_def x)
qed

interpretation metadata_versions: versioned_cell "metadata_cas sid" write_value "metadata_cell sid"
  session_ids_unique for sid
  by unfold_locales (metis metadata_cas_spec prod.collapse)+

interpretation state_versions: versioned_cell "state_cas sid" write_value "state_cell sid"
  session_ids_unique for sid
  by unfold_locales (metis state_cas_spec prod.collapse)+

section \<open>The other statements keep the cells\<close>

definition content :: "session \<Rightarrow> ident \<times> (string \<times> int) \<times> (string option \<times> int)" where
  "content r = (s_id r, (s_metadata r, s_metadataVersion r), (s_agentState r, s_agentStateVersion r))"

fun writes_content :: "server_op \<Rightarrow> bool" where
  "writes_content (OpRuntimeMetadata acct sid inst lease v m) = True"
| "writes_content (OpRuntimeState acct sid inst lease v m) = True"
| "writes_content (OpUserMetadata acct sid v m) = True"
| "writes_content (OpUserState acct sid v m) = True"
| "writes_content (OpCreateSession dec userId body newId) = True"
| "writes_content (OpDeleteSession uid sid) = True"
| "writes_content _ = False"

lemma content_update: "(\<And>r. content (f r) = content r) \<Longrightarrow> map content (update_rows P f rs) = map content rs"
  by (induction rs) auto

lemma content_claim:
  "map content (sessions (fst (claimRuntimeConnectionLease inp synthetic now d))) = map content (sessions d)"
  by (cases rule: claim_dispatch [of inp synthetic now d])
    (auto simp: claim_replay_def claim_live_def Let_def lease_cols content_def
      split: option.splits prod.splits intro!: content_update)

lemma content_persist:
  "map content (sessions (fst (persistSessionMessage inp msgId outboxId now d))) = map content (sessions d)"
proof (cases "persistSessionMessageInTx inp msgId outboxId now d")
  case (Some p)
  obtain d' res where p: "p = (d', res)" by (cases p)
  have "map content (sessions d') = map content (sessions d)"
    using Some [unfolded p]
  proof (cases rule: persist_cases)
    case (Inserted r)
    then show ?thesis
      by (auto simp: insert_message_def allocateSessionSeq_def create_message_def allocateUserSeq_def
          create_outbox_row_def content_def Let_def split: option.splits if_splits intro!: content_update)
  qed simp
  with Some p show ?thesis by (simp add: persistSessionMessage_def throwing_def)
qed (simp add: persistSessionMessage_def throwing_def)

lemma content_end:
  "map content (sessions (fst (endRuntimeConnectionLease acct sid iid tombstone now d))) = map content (sessions d)"
  by (cases rule: end_cases [of acct sid iid tombstone now d])
    (auto simp: end_row_def content_def intro!: content_update)

lemma content_op:
  assumes "\<not> writes_content op"
  shows "map content (sessions (apply_op op now d)) = map content (sessions d)"
  using assms
  by (cases op)
    (simp_all add: content_claim content_persist content_end expireRuntimeConnectionLease_def
      renewRuntimeConnectionLease_def renewLegacyRuntimeConnection_def legacy_session_end_def
      timeout_session_cas_def throwing_def allocateUserSeq_def claim_row_def markDelivered_def
      markFailed_def cleanupDelivered_def keep_log_def Let_def content_def content_update
      split: option.splits)

lemma content_cells:
  assumes "map content (sessions d') = map content (sessions d)"
  shows "session_ids_unique d' = session_ids_unique d" and "metadata_cell sid d' = metadata_cell sid d"
    and "state_cell sid d' = state_cell sid d"
proof -
  have "map s_id (sessions d') = map s_id (sessions d)"
    using arg_cong [OF assms, of "map fst"] by (simp add: content_def comp_def)
  then show "session_ids_unique d' = session_ids_unique d" by (simp add: session_ids_unique_def unique_by_def)
  have find: "map_option content (find_row (\<lambda>r. s_id r = sid) rs) = find_row (\<lambda>c. fst c = sid) (map content rs)"
    for rs by (induction rs) (auto simp: content_def)
  then have row: "map_option content (session_row sid d') = map_option content (session_row sid d)"
    by (simp add: session_row_def assms)
  show "metadata_cell sid d' = metadata_cell sid d"
    using arg_cong [OF row, of "map_option (fst \<circ> snd)"]
    by (simp add: metadata_cell_def option.map_comp content_def comp_def)
  show "state_cell sid d' = state_cell sid d"
    using arg_cong [OF row, of "map_option (snd \<circ> snd)"]
    by (simp add: state_cell_def option.map_comp content_def comp_def)
qed

text \<open>The statements that may run beside the metadata (state) writes of a session.\<close>

fun keeps_metadata :: "ident \<Rightarrow> server_op \<Rightarrow> bool" where
  "keeps_metadata sid (OpRuntimeMetadata acct s inst lease v m) = (s \<noteq> sid)"
| "keeps_metadata sid (OpUserMetadata acct s v m) = (s \<noteq> sid)"
| "keeps_metadata sid (OpCreateSession dec userId body newId) = (newId \<noteq> sid)"
| "keeps_metadata sid (OpDeleteSession uid s) = (s \<noteq> sid)"
| "keeps_metadata sid _ = True"

fun keeps_state :: "ident \<Rightarrow> server_op \<Rightarrow> bool" where
  "keeps_state sid (OpRuntimeState acct s inst lease v m) = (s \<noteq> sid)"
| "keeps_state sid (OpUserState acct s v m) = (s \<noteq> sid)"
| "keeps_state sid (OpCreateSession dec userId body newId) = (newId \<noteq> sid)"
| "keeps_state sid (OpDeleteSession uid s) = (s \<noteq> sid)"
| "keeps_state sid _ = True"

lemma update_cells:
  fixes P :: "session \<Rightarrow> bool"
  assumes "session_ids_unique d" and "\<And>r. s_id (f r) = s_id r"
  defines "d' \<equiv> d\<lparr>sessions := update_rows P f (sessions d)\<rparr>"
  shows "session_ids_unique d'"
    and "(\<And>r. P r \<Longrightarrow> s_id r \<noteq> sid) \<Longrightarrow> metadata_cell sid d' = metadata_cell sid d"
    and "(\<And>r. P r \<Longrightarrow> s_id r \<noteq> sid) \<Longrightarrow> state_cell sid d' = state_cell sid d"
    and "(\<And>r. s_metadata (f r) = s_metadata r \<and> s_metadataVersion (f r) = s_metadataVersion r) \<Longrightarrow>
           metadata_cell sid d' = metadata_cell sid d"
    and "(\<And>r. s_agentState (f r) = s_agentState r \<and> s_agentStateVersion (f r) = s_agentStateVersion r) \<Longrightarrow>
           state_cell sid d' = state_cell sid d"
proof -
  show "session_ids_unique d'" using assms by (auto simp: session_ids_unique_def)
  have other: "session_row sid d' = session_row sid d" if "\<And>r. P r \<Longrightarrow> s_id r \<noteq> sid"
    using assms(2) that unfolding d'_def session_row_def by (simp, intro find_row_update_disjoint) auto
  then show "(\<And>r. P r \<Longrightarrow> s_id r \<noteq> sid) \<Longrightarrow> metadata_cell sid d' = metadata_cell sid d"
    and "(\<And>r. P r \<Longrightarrow> s_id r \<noteq> sid) \<Longrightarrow> state_cell sid d' = state_cell sid d"
    by (simp_all add: metadata_cell_def state_cell_def)
  have row: "session_row sid d' = map_option (\<lambda>r. if P r then f r else r) (session_row sid d)"
    using assms(2) unfolding d'_def session_row_def by (simp add: find_row_update)
  show "(\<And>r. s_metadata (f r) = s_metadata r \<and> s_metadataVersion (f r) = s_metadataVersion r) \<Longrightarrow>
           metadata_cell sid d' = metadata_cell sid d"
    unfolding metadata_cell_def row by (cases "session_row sid d") auto
  show "(\<And>r. s_agentState (f r) = s_agentState r \<and> s_agentStateVersion (f r) = s_agentStateVersion r) \<Longrightarrow>
           state_cell sid d' = state_cell sid d"
    unfolding state_cell_def row by (cases "session_row sid d") auto
qed

lemma create_cells:
  assumes "session_ids_unique d" and "newId \<noteq> sid"
    and "d' = fst (throwing (create_session (new_session dec userId body newId now)) d)"
  shows "session_ids_unique d' \<and> session_row sid d' = session_row sid d"
  using assms(1,2) unfolding assms(3)
  by (auto simp: throwing_def create_session_def new_session_def session_ids_unique_def session_row_def
      split: option.splits)

lemma delete_cells:
  assumes "session_ids_unique d" and "s \<noteq> sid"
    and d': "d' = fst (sessionDelete uid s d)"
  shows "session_ids_unique d' \<and> session_row sid d' = session_row sid d"
proof (cases "find_row (\<lambda>r. s_id r = s \<and> s_accountId r = uid) (sessions d)")
  case None
  then show ?thesis using assms(1) d' by (simp add: sessionDelete_miss)
next
  case (Some r)
  then have "sessions d' = delete_rows (\<lambda>r. s_id r = s) (sessions d)"
    unfolding d' by (intro sessionDelete_tables(1)) simp
  then show ?thesis
    using assms(1,2) by (auto simp: session_ids_unique_def session_row_def intro: find_row_delete_disjoint)
qed

lemmas write_defs =
  updateRuntimeSessionMetadata_def updateRuntimeSessionState_def user_update_metadata_def
  user_update_state_def Let_def fst_conv

lemma runtime_metadata_cells:
  assumes "session_ids_unique d"
  shows "session_ids_unique (fst (updateRuntimeSessionMetadata acct s inst lease v m now d))"
    and "state_cell sid (fst (updateRuntimeSessionMetadata acct s inst lease v m now d)) = state_cell sid d"
    and "s \<noteq> sid \<Longrightarrow> metadata_cell sid (fst (updateRuntimeSessionMetadata acct s inst lease v m now d)) = metadata_cell sid d"
  unfolding write_defs using assms by (auto simp: sql_where intro!: update_cells(1,2,5))

lemma user_metadata_cells:
  assumes "session_ids_unique d"
  shows "session_ids_unique (fst (user_update_metadata acct s v m now d))"
    and "state_cell sid (fst (user_update_metadata acct s v m now d)) = state_cell sid d"
    and "s \<noteq> sid \<Longrightarrow> metadata_cell sid (fst (user_update_metadata acct s v m now d)) = metadata_cell sid d"
  unfolding write_defs using assms by (auto simp: sql_where intro!: update_cells(1,2,5))

lemma runtime_state_cells:
  assumes "session_ids_unique d"
  shows "session_ids_unique (fst (updateRuntimeSessionState acct s inst lease v m now d))"
    and "metadata_cell sid (fst (updateRuntimeSessionState acct s inst lease v m now d)) = metadata_cell sid d"
    and "s \<noteq> sid \<Longrightarrow> state_cell sid (fst (updateRuntimeSessionState acct s inst lease v m now d)) = state_cell sid d"
  unfolding write_defs using assms by (auto simp: sql_where intro!: update_cells(1,3,4))

lemma user_state_cells:
  assumes "session_ids_unique d"
  shows "session_ids_unique (fst (user_update_state acct s v m now d))"
    and "metadata_cell sid (fst (user_update_state acct s v m now d)) = metadata_cell sid d"
    and "s \<noteq> sid \<Longrightarrow> state_cell sid (fst (user_update_state acct s v m now d)) = state_cell sid d"
  unfolding write_defs using assms by (auto simp: sql_where intro!: update_cells(1,3,4))

lemmas write_cells = runtime_metadata_cells user_metadata_cells runtime_state_cells user_state_cells

lemma cell_of_row:
  "session_row sid d' = session_row sid d \<Longrightarrow> metadata_cell sid d' = metadata_cell sid d"
  "session_row sid d' = session_row sid d \<Longrightarrow> state_cell sid d' = state_cell sid d"
  by (simp_all add: metadata_cell_def state_cell_def)

lemma op_keeps_metadata:
  assumes "session_ids_unique d" and "keeps_metadata sid op"
  shows "session_ids_unique (apply_op op now d) \<and> metadata_cell sid (apply_op op now d) = metadata_cell sid d"
proof (cases "writes_content op")
  case False
  then show ?thesis using content_cells [OF content_op [of op now d]] assms(1) by simp
next
  case True
  then show ?thesis
    using assms
    by (cases op) (auto simp: write_cells create_cells [THEN conjunct1, OF _ _ refl]
        delete_cells [THEN conjunct1, OF _ _ refl] cell_of_row [OF create_cells [THEN conjunct2, OF _ _ refl]]
        cell_of_row [OF delete_cells [THEN conjunct2, OF _ _ refl]])
qed

lemma op_keeps_state:
  assumes "session_ids_unique d" and "keeps_state sid op"
  shows "session_ids_unique (apply_op op now d) \<and> state_cell sid (apply_op op now d) = state_cell sid d"
proof (cases "writes_content op")
  case False
  then show ?thesis using content_cells [OF content_op [of op now d]] assms(1) by simp
next
  case True
  then show ?thesis
    using assms
    by (cases op) (auto simp: write_cells create_cells [THEN conjunct1, OF _ _ refl]
        delete_cells [THEN conjunct1, OF _ _ refl] cell_of_row [OF create_cells [THEN conjunct2, OF _ _ refl]]
        cell_of_row [OF delete_cells [THEN conjunct2, OF _ _ refl]])
qed

section \<open>No lost update\<close>

text \<open>A history of the server: writes of one cell, and any other statements between them.\<close>

datatype 'v cell_event = CellWrite int "'v session_write" | CellStep server_op ts

fun cell_steps :: "'v cell_event list \<Rightarrow> (db, 'v session_write) cell_step list" where
  "cell_steps [] = []"
| "cell_steps (CellWrite e x # hs) = Write e x # cell_steps hs"
| "cell_steps (CellStep op now # hs) = Other (apply_op op now) # cell_steps hs"

fun steps_keep :: "(server_op \<Rightarrow> bool) \<Rightarrow> 'v cell_event list \<Rightarrow> bool" where
  "steps_keep K [] = True"
| "steps_keep K (CellWrite e x # hs) = steps_keep K hs"
| "steps_keep K (CellStep op now # hs) = (K op \<and> steps_keep K hs)"

lemma steps_keep_metadata:
  "steps_keep (keeps_metadata sid) hs \<Longrightarrow> other_steps_keep session_ids_unique (metadata_cell sid) (cell_steps hs)"
  by (induction hs rule: cell_steps.induct) (auto dest: op_keeps_metadata [rotated])

lemma steps_keep_state:
  "steps_keep (keeps_state sid) hs \<Longrightarrow> other_steps_keep session_ids_unique (state_cell sid) (cell_steps hs)"
  by (induction hs rule: cell_steps.induct) (auto dest: op_keeps_state [rotated])

text \<open>
  C10.  No metadata or state update is lost.  In any interleaving of \<^verbatim>\<open>update-metadata\<close> writes of
  runtimes and user clients with any other statements of the server that do not delete the
  session, the writes that report success are granted the versions n, n+1, n+2, ... each exactly
  once, and the session ends with the value of the last of them; the same holds for the agent
  state.
\<close>

theorem no_lost_session_update:
  assumes "unique_by s_id (sessions d)"
  shows "(steps_keep (keeps_metadata sid) hs \<and> metadata_cell sid d = Some (old, n) \<longrightarrow>
      (case cell_run (metadata_cas sid) (cell_steps hs) d of (d', wins) \<Rightarrow>
         map fst wins = map (\<lambda>i. n + int i) [0..<length wins]
         \<and> metadata_cell sid d' = Some (last (old # map (write_value \<circ> snd) wins), n + int (length wins))))
    \<and> (steps_keep (keeps_state sid) gs \<and> state_cell sid d = Some (oldState, n) \<longrightarrow>
      (case cell_run (state_cas sid) (cell_steps gs) d of (d', wins) \<Rightarrow>
         map fst wins = map (\<lambda>i. n + int i) [0..<length wins]
         \<and> state_cell sid d' = Some (last (oldState # map (write_value \<circ> snd) wins), n + int (length wins))))"
  using assms metadata_versions.no_lost_update [of d sid old n "cell_steps hs"]
    state_versions.no_lost_update [of d sid oldState n "cell_steps gs"]
  by (auto simp: session_ids_unique_def steps_keep_metadata steps_keep_state split: prod.splits)

section \<open>What a success answer means\<close>

definition success_ack :: "int \<Rightarrow> string \<Rightarrow> json \<Rightarrow> effect" where
  "success_ack version field value = Ack (result_json ''success'' version field value)"

lemma error_not_result [simp]: "error_result \<noteq> result_json r v f x" "result_json r v f x \<noteq> error_result"
  by (simp_all add: error_result_def result_json_def)

lemma mismatch_not_success [simp]:
  "metadata_mismatch r \<noteq> result_json ''success'' v f x"
  "state_mismatch r \<noteq> result_json ''success'' v f x"
  "state_mismatch_merged c r \<noteq> result_json ''success'' v f x"
  by (simp_all add: metadata_mismatch_def state_mismatch_def state_mismatch_merged_def)

lemma lost_write_no_success:
  assumes "lost_write w clk userId conn sid seen mismatch merged d = (d', effs)"
    and "(mismatch, merged) \<in> {(metadata_mismatch, \<lambda>cur _. metadata_mismatch cur), (state_mismatch, state_mismatch_merged)}"
  shows "success_ack v f x \<notin> set effs"
  using assms
  by (auto simp: lost_write_def success_ack_def not_sym [OF mismatch_not_success(1)]
      not_sym [OF mismatch_not_success(2)] not_sym [OF mismatch_not_success(3)]
      split: prod.splits option.splits bool.splits if_splits)

text \<open>A write of a runtime that hits a row was made by the owner of the session.\<close>

lemma write_metadata_owner:
  assumes "write_metadata conn userId sid auth e m now d = (d', True)" and "is_session_scoped conn"
  shows "isRuntimeConnectionOwner userId sid (fst auth) (snd auth) now d"
  using assms
  by (auto simp: write_metadata_def updateRuntimeSessionMetadata_def Let_def owner_via_sql count_rows_pos sql_where)

lemma write_state_owner:
  assumes "write_state conn userId sid auth e m now d = (d', True)" and "is_session_scoped conn"
  shows "isRuntimeConnectionOwner userId sid (fst auth) (snd auth) now d"
  using assms
  by (auto simp: write_state_def updateRuntimeSessionState_def Let_def owner_via_sql count_rows_pos sql_where)

lemma write_metadata_account:
  "write_metadata conn userId sid auth e m now d = (d', True) \<Longrightarrow> find_session sid userId d \<noteq> None"
  by (auto simp: write_metadata_def updateRuntimeSessionMetadata_def user_update_metadata_def Let_def
      count_rows_pos sql_where find_session_def find_row_None_iff split: if_splits)

lemma write_state_account:
  "write_state conn userId sid auth e m now d = (d', True) \<Longrightarrow> find_session sid userId d \<noteq> None"
  by (auto simp: write_state_def updateRuntimeSessionState_def user_update_state_def Let_def
      count_rows_pos sql_where find_session_def find_row_None_iff split: if_splits)

lemma emit_success:
  assumes "emit_session_update w k now userId sid payload ok d = (d', effs)" and "success_ack v f x \<in> set effs"
  shows "ok = result_json ''success'' v f x
     \<and> (\<exists>n. throwing (allocateUserSeq userId now) (interfere w k d) = (d', Some n)
          \<and> effs = [Emit (EmitUpdate userId (payload n) (AllInterestedInSession sid)), success_ack v f x])"
  using assms by (auto simp: emit_session_update_def success_ack_def split: prod.splits option.splits dest!: db_call_SomeD)

lemma not_in_acks [simp]:
  "success_ack v f x \<noteq> Ack error_result" "success_ack v f x \<noteq> RejectConnection"
  "success_ack v f x \<noteq> Ack (metadata_mismatch r)" "success_ack v f x \<noteq> Ack (state_mismatch r)"
  by (simp_all add: success_ack_def not_sym [OF mismatch_not_success(1)] not_sym [OF mismatch_not_success(2)])

lemma parse_agentState_Some [simp]: "parse_agentState y = Some m \<longleftrightarrow> y = Some (nullable m)"
  by (auto simp: parse_agentState_def nullable_def split: option.splits json.splits)

text \<open>
  The write of a handler that answered success: the request named the version \<open>v - 1\<close>, and the
  handler's second statement hit; its third drew the number \<open>n\<close> of the update it emits.
\<close>

lemma metadata_success_cases:
  assumes "handle_update_metadata w clk updId userId conn data d = (d', effs)"
    and "success_ack v f x \<in> set effs"
  shows "\<exists>sid m auth d1 n. f = ''metadata'' \<and> x = JStr m
     \<and> get_prop data ''sid'' = Some (JStr sid) \<and> get_prop data ''metadata'' = Some (JStr m)
     \<and> get_prop data ''expectedVersion'' = Some (JNum (v - 1))
     \<and> runtimeWriteAuthorization conn (Some (JStr sid)) = Some auth
     \<and> write_metadata conn userId sid auth (v - 1) m (clk 1) (interfere w 1 (interfere w 0 d)) = (d1, True)
     \<and> throwing (allocateUserSeq userId (clk 2)) (interfere w 2 d1) = (d', Some n)
     \<and> effs = [Emit (EmitUpdate userId (buildUpdateSessionUpdate sid n updId (Some (Some m, v)) None (clk 2))
           (AllInterestedInSession sid)), success_ack v f x]"
  using assms unfolding handle_update_metadata_def
  by (auto simp: Let_def split: if_splits option.splits prod.splits bool.splits
      dest!: db_call_SomeD emit_success dest: lost_write_no_success)

lemma state_success_cases:
  assumes "handle_update_state w clk updId userId conn data d = (d', effs)"
    and "success_ack v f x \<in> set effs"
  shows "\<exists>sid m auth d1 n. f = ''agentState'' \<and> x = nullable m
     \<and> get_prop data ''sid'' = Some (JStr sid) \<and> get_prop data ''agentState'' = Some (nullable m)
     \<and> get_prop data ''expectedVersion'' = Some (JNum (v - 1))
     \<and> runtimeWriteAuthorization conn (Some (JStr sid)) = Some auth
     \<and> write_state conn userId sid auth (v - 1) m (clk 1) (interfere w 1 (interfere w 0 d)) = (d1, True)
     \<and> throwing (allocateUserSeq userId (clk 2)) (interfere w 2 d1) = (d', Some n)
     \<and> effs = [Emit (EmitUpdate userId (buildUpdateSessionUpdate sid n updId None (Some (m, v)) (clk 2))
           (AllInterestedInSession sid)), success_ack v f x]"
  using assms unfolding handle_update_state_def
  by (auto simp: Let_def split: if_splits option.splits prod.splits bool.splits
      dest!: db_call_SomeD emit_success dest: lost_write_no_success) blast+

text \<open>
  Who may write: the connection is authorized for the session of the account, and a runtime
  owns it at that instant.
\<close>

definition entitled_write ::
  "ident \<Rightarrow> connection \<Rightarrow> ident \<Rightarrow> ident option \<times> ident option \<Rightarrow> ts \<Rightarrow> db \<Rightarrow> bool" where
  "entitled_write userId conn sid auth now d =
     (find_session sid userId d \<noteq> None
    \<and> runtimeWriteAuthorization conn (Some (JStr sid)) = Some auth
    \<and> (is_session_scoped conn \<longrightarrow> isRuntimeConnectionOwner userId sid (fst auth) (snd auth) now d))"

lemma metadata_success_applied:
  assumes run: "handle_update_metadata w clk updId userId conn data d = (d', effs)" and ok: "success_ack v f x \<in> set effs"
    and uniq: "session_ids_unique before" and before: "before = interfere w 1 (interfere w 0 d)"
  shows "\<exists>sid m m0 auth after n. f = ''metadata'' \<and> x = JStr m
         \<and> get_prop data ''sid'' = Some (JStr sid) \<and> get_prop data ''metadata'' = Some (JStr m)
         \<and> get_prop data ''expectedVersion'' = Some (JNum (v - 1))
         \<and> entitled_write userId conn sid auth (clk 1) before
         \<and> write_metadata conn userId sid auth (v - 1) m (clk 1) before = (after, True)
         \<and> metadata_cell sid before = Some (m0, v - 1) \<and> metadata_cell sid after = Some (m, v)
         \<and> throwing (allocateUserSeq userId (clk 2)) (interfere w 2 after) = (d', Some n)
         \<and> effs = [Emit (EmitUpdate userId (buildUpdateSessionUpdate sid n updId (Some (Some m, v)) None (clk 2))
               (AllInterestedInSession sid)), success_ack v f x]"
proof -
  from metadata_success_cases [OF run ok, folded before] obtain sid m auth d1 n where
    req: "f = ''metadata''" "x = JStr m" "get_prop data ''sid'' = Some (JStr sid)"
      "get_prop data ''metadata'' = Some (JStr m)" "get_prop data ''expectedVersion'' = Some (JNum (v - 1))"
    and auth: "runtimeWriteAuthorization conn (Some (JStr sid)) = Some auth"
    and wr: "write_metadata conn userId sid auth (v - 1) m (clk 1) before = (d1, True)"
    and rest: "throwing (allocateUserSeq userId (clk 2)) (interfere w 2 d1) = (d', Some n)"
      "effs = [Emit (EmitUpdate userId (buildUpdateSessionUpdate sid n updId (Some (Some m, v)) None (clk 2))
         (AllInterestedInSession sid)), success_ack v f x]"
    by blast
  have "metadata_cas sid (v - 1) (userId, conn, auth, m, clk 1) before = (d1, True)"
    using wr by (simp add: metadata_cas_def)
  from metadata_cas_spec [OF uniq this] obtain m0 where "metadata_cell sid before = Some (m0, v - 1)"
    "metadata_cell sid d1 = Some (m, v)" by (auto simp: write_value_def)
  moreover have "entitled_write userId conn sid auth (clk 1) before"
    using auth write_metadata_owner [OF wr] write_metadata_account [OF wr] by (simp add: entitled_write_def)
  ultimately show ?thesis using req wr rest by blast
qed

lemma state_success_applied:
  assumes run: "handle_update_state w clk updId userId conn data d = (d', effs)" and ok: "success_ack v f x \<in> set effs"
    and uniq: "session_ids_unique before" and before: "before = interfere w 1 (interfere w 0 d)"
  shows "\<exists>sid m m0 auth after n. f = ''agentState'' \<and> x = nullable m
         \<and> get_prop data ''sid'' = Some (JStr sid) \<and> get_prop data ''agentState'' = Some (nullable m)
         \<and> get_prop data ''expectedVersion'' = Some (JNum (v - 1))
         \<and> entitled_write userId conn sid auth (clk 1) before
         \<and> write_state conn userId sid auth (v - 1) m (clk 1) before = (after, True)
         \<and> state_cell sid before = Some (m0, v - 1) \<and> state_cell sid after = Some (m, v)
         \<and> throwing (allocateUserSeq userId (clk 2)) (interfere w 2 after) = (d', Some n)
         \<and> effs = [Emit (EmitUpdate userId (buildUpdateSessionUpdate sid n updId None (Some (m, v)) (clk 2))
               (AllInterestedInSession sid)), success_ack v f x]"
proof -
  from state_success_cases [OF run ok, folded before] obtain sid m auth d1 n where
    req: "f = ''agentState''" "x = nullable m" "get_prop data ''sid'' = Some (JStr sid)"
      "get_prop data ''agentState'' = Some (nullable m)" "get_prop data ''expectedVersion'' = Some (JNum (v - 1))"
    and auth: "runtimeWriteAuthorization conn (Some (JStr sid)) = Some auth"
    and wr: "write_state conn userId sid auth (v - 1) m (clk 1) before = (d1, True)"
    and rest: "throwing (allocateUserSeq userId (clk 2)) (interfere w 2 d1) = (d', Some n)"
      "effs = [Emit (EmitUpdate userId (buildUpdateSessionUpdate sid n updId None (Some (m, v)) (clk 2))
         (AllInterestedInSession sid)), success_ack v f x]"
    by blast
  have "state_cas sid (v - 1) (userId, conn, auth, m, clk 1) before = (d1, True)"
    using wr by (simp add: state_cas_def)
  from state_cas_spec [OF uniq this] obtain m0 where "state_cell sid before = Some (m0, v - 1)"
    "state_cell sid d1 = Some (m, v)" by (auto simp: write_value_def)
  moreover have "entitled_write userId conn sid auth (clk 1) before"
    using auth write_state_owner [OF wr] write_state_account [OF wr] by (simp add: entitled_write_def)
  ultimately show ?thesis using req wr rest by blast
qed

text \<open>
  C12.  A success answer of \<^verbatim>\<open>update-metadata\<close> or \<^verbatim>\<open>update-state\<close> is never wrong, whatever other
  requests do between the statements of the handler.  The request named version \<open>v - 1\<close> in
  \<^verbatim>\<open>expectedVersion\<close>, and that was the version of the session of this account when the write ran;
  right after it the session holds exactly the requested value with version \<open>v\<close>; a runtime that
  made the write owned the session at that instant; the state the handler leaves is the one after
  this write and the allocation of one update number; and exactly one update, carrying this
  number, value and version, is emitted to the clients interested in the session.
\<close>

theorem update_success_fenced:
  fixes w :: "db sched" and d :: db
  defines "before \<equiv> interfere w 1 (interfere w 0 d)"
  assumes "unique_by s_id (sessions before)"
  shows "(handle_update_metadata w clk updId userId conn data d = (d', effs) \<and> success_ack v f x \<in> set effs \<longrightarrow>
      (\<exists>sid m m0 auth after n. f = ''metadata'' \<and> x = JStr m
         \<and> get_prop data ''sid'' = Some (JStr sid) \<and> get_prop data ''metadata'' = Some (JStr m)
         \<and> get_prop data ''expectedVersion'' = Some (JNum (v - 1))
         \<and> entitled_write userId conn sid auth (clk 1) before
         \<and> write_metadata conn userId sid auth (v - 1) m (clk 1) before = (after, True)
         \<and> metadata_cell sid before = Some (m0, v - 1) \<and> metadata_cell sid after = Some (m, v)
         \<and> throwing (allocateUserSeq userId (clk 2)) (interfere w 2 after) = (d', Some n)
         \<and> effs = [Emit (EmitUpdate userId (buildUpdateSessionUpdate sid n updId (Some (Some m, v)) None (clk 2))
               (AllInterestedInSession sid)), success_ack v f x]))
    \<and> (handle_update_state w clk updId userId conn data d = (d', effs) \<and> success_ack v f x \<in> set effs \<longrightarrow>
      (\<exists>sid m m0 auth after n. f = ''agentState'' \<and> x = nullable m
         \<and> get_prop data ''sid'' = Some (JStr sid) \<and> get_prop data ''agentState'' = Some (nullable m)
         \<and> get_prop data ''expectedVersion'' = Some (JNum (v - 1))
         \<and> entitled_write userId conn sid auth (clk 1) before
         \<and> write_state conn userId sid auth (v - 1) m (clk 1) before = (after, True)
         \<and> state_cell sid before = Some (m0, v - 1) \<and> state_cell sid after = Some (m, v)
         \<and> throwing (allocateUserSeq userId (clk 2)) (interfere w 2 after) = (d', Some n)
         \<and> effs = [Emit (EmitUpdate userId (buildUpdateSessionUpdate sid n updId None (Some (m, v)) (clk 2))
               (AllInterestedInSession sid)), success_ack v f x]))"
    (is "(?A \<longrightarrow> ?M) \<and> (?B \<longrightarrow> ?S)")
proof (intro conjI impI; elim conjE)
  have uniq: "session_ids_unique before" using assms by (simp add: session_ids_unique_def)
  assume "handle_update_metadata w clk updId userId conn data d = (d', effs)" and "success_ack v f x \<in> set effs"
  from metadata_success_applied [OF this uniq before_def [THEN meta_eq_to_obj_eq]] show ?M .
next
  have uniq: "session_ids_unique before" using assms by (simp add: session_ids_unique_def)
  assume "handle_update_state w clk updId userId conn data d = (d', effs)" and "success_ack v f x \<in> set effs"
  from state_success_applied [OF this uniq before_def [THEN meta_eq_to_obj_eq]] show ?S .
qed

section \<open>A concrete run\<close>

definition demo_runtime :: "ident \<Rightarrow> connection" where
  "demo_runtime lease = SessionScoped
     \<lparr>sc_socketId = ''sock'', sc_userId = ''u1'', sc_sessionId = ''s1'', sc_sessionInstanceId = Some ''i1'',
      sc_runtimeConnectionLeaseId = Some lease, sc_runtimeConnectionLeaseRejected = False,
      sc_replayOnly = False, sc_replayRequestedSessionInstanceId = None\<rparr>"

text \<open>
  A user client writes version 1; a second writer that still holds version 0 loses, and so does
  the displaced generation L1; the heartbeat of L2 runs in between; L2 writes version 2.
\<close>

definition demo_history :: "string cell_event list" where
  "demo_history =
     [CellWrite 0 (''u1'', UserScoped ''a'' ''u1'', (None, None), ''first'', 1000006),
      CellWrite 0 (''u1'', UserScoped ''b'' ''u1'', (None, None), ''late'', 1000007),
      CellStep (OpRenew ''u1'' ''s1'' ''i1'' ''L2'') 1000008,
      CellWrite 1 (''u1'', demo_runtime ''L1'', (Some ''i1'', Some ''L1''), ''stale'', 1000009),
      CellWrite 1 (''u1'', demo_runtime ''L2'', (Some ''i1'', Some ''L2''), ''second'', 1000010)]"

theorem no_lost_session_update_witness:
  "case cell_run (metadata_cas ''s1'') (cell_steps demo_history) (database demo) of
     (d', wins) \<Rightarrow> map fst wins = [0, 1] \<and> metadata_cell ''s1'' d' = Some (''second'', 2)"
proof -
  have hyp: "unique_by s_id (sessions (database demo))" "steps_keep (keeps_metadata ''s1'') demo_history"
    "metadata_cell ''s1'' (database demo) = Some (''m'', 0)"
    by code_simp+
  have wins: "map fst (snd (cell_run (metadata_cas ''s1'') (cell_steps demo_history) (database demo))) = [0, 1]"
    "map (write_value \<circ> snd) (snd (cell_run (metadata_cas ''s1'') (cell_steps demo_history) (database demo)))
       = [''first'', ''second'']"
    by code_simp+
  obtain d' ws where run: "cell_run (metadata_cas ''s1'') (cell_steps demo_history) (database demo) = (d', ws)"
    by fastforce
  then have "map fst ws = [0, 1]" "map (write_value \<circ> snd) ws = [''first'', ''second'']" using wins by simp_all
  moreover from this have "length ws = 2" using length_map [of fst ws] by simp
  ultimately show ?thesis
    using no_lost_session_update [OF hyp(1), where sid = "''s1''" and hs = demo_history and old = "''m''" and n = 0] hyp run
    by auto
qed

definition demo_update :: jsval where
  "demo_update = Some (JObj [(''sid'', JStr ''s1''), (''metadata'', JStr ''new''), (''expectedVersion'', JNum 0)])"

theorem update_success_fenced_witness:
  "\<exists>m m0 auth after. get_prop demo_update ''expectedVersion'' = Some (JNum 0)
     \<and> metadata_cell ''s1'' (database demo) = Some (m0, 0)
     \<and> write_metadata (demo_runtime ''L2'') ''u1'' ''s1'' auth 0 m 1000006 (database demo) = (after, True)
     \<and> metadata_cell ''s1'' after = Some (m, 1)
     \<and> entitled_write ''u1'' (demo_runtime ''L2'') ''s1'' auth 1000006 (database demo)"
proof -
  let ?h = "handle_update_metadata quiet (\<lambda>_. 1000006) ''upd'' ''u1'' (demo_runtime ''L2'') demo_update (database demo)"
  have uniq: "unique_by s_id (sessions (interfere quiet 1 (interfere quiet 0 (database demo))))"
    unfolding quiet_simps by code_simp
  have ack: "success_ack 1 ''metadata'' (JStr ''new'') \<in> set (snd ?h)"
    by code_simp
  have sid: "get_prop demo_update ''sid'' = Some (JStr ''s1'')"
    "get_prop demo_update ''expectedVersion'' = Some (JNum 0)" by code_simp+
  obtain d' effs where run: "?h = (d', effs)" by fastforce
  show ?thesis
    using update_success_fenced [OF uniq, where clk = "\<lambda>_. 1000006" and updId = "''upd''" and userId = "''u1''"
        and conn = "demo_runtime ''L2''" and data = demo_update and d' = d' and effs = effs and v = 1
        and f = "''metadata''" and x = "JStr ''new''"] run ack sid
    by auto
qed

end
