(* ===== verification/Routing.thy ===== *)
theory Routing
  imports ConnectionGuard
begin

text \<open>
  Who receives what: the room names of the Socket.IO adapter against the filter of the local
  registry, the addressing of durable message notifications, and the packet fence.
\<close>

section \<open>Rooms and filters\<close>

text \<open>
  C28.  Delivery through Socket.IO rooms reaches exactly the connections of the addressed account
  that the recipient filter selects (the sender left out), with one exception: a runtime that
  holds a lease does not receive the updates addressed to all clients interested in a session,
  which the filter of the local registry would give it.  No connection of another account is
  ever reached.  (Ids contain no colon.)
\<close>

theorem rooms_match_filter:
  assumes "\<forall>c \<in> set connected. no_colon (conn_userId c)" and "no_colon u" and "filter_no_colon f"
  shows "set (emit_rooms connected u f skip) =
     {c \<in> set connected. conn_userId c = u \<and> shouldSendToConnection c f
        \<and> \<not> (leased c \<and> (\<exists>sid. f = AllInterestedInSession sid))
        \<and> (case skip of None \<Rightarrow> True | Some s \<Rightarrow> conn_socketId c \<noteq> conn_socketId s)}"
  using assms by (auto simp: emit_rooms_def Let_def in_rooms_recipient simp del: getRecipientRooms.simps)

definition demo_conns :: "connection list" where
  "demo_conns =
     [UserScoped ''a'' ''u1'', UserScoped ''b'' ''u2'', MachineScoped ''c'' ''u1'' ''m1'',
      SessionScoped \<lparr>sc_socketId = ''d'', sc_userId = ''u1'', sc_sessionId = ''s1'',
        sc_sessionInstanceId = Some ''i1'', sc_runtimeConnectionLeaseId = Some ''L1'',
        sc_runtimeConnectionLeaseRejected = False, sc_replayOnly = False,
        sc_replayRequestedSessionInstanceId = None\<rparr>,
      SessionScoped \<lparr>sc_socketId = ''e'', sc_userId = ''u1'', sc_sessionId = ''s1'',
        sc_sessionInstanceId = None, sc_runtimeConnectionLeaseId = None,
        sc_runtimeConnectionLeaseRejected = False, sc_replayOnly = False,
        sc_replayRequestedSessionInstanceId = None\<rparr>]"

theorem rooms_match_filter_witness:
  "UserScoped ''a'' ''u1'' \<in> set (emit_rooms demo_conns ''u1'' (AllInterestedInSession ''s1'') None)
   \<and> demo_conns ! 3 \<notin> set (emit_rooms demo_conns ''u1'' (AllInterestedInSession ''s1'') None)
   \<and> demo_conns ! 4 \<in> set (emit_rooms demo_conns ''u1'' (AllInterestedInSession ''s1'') None)"
proof -
  have hyp: "\<forall>c \<in> set demo_conns. no_colon (conn_userId c)" "no_colon ''u1''"
    "filter_no_colon (AllInterestedInSession ''s1'')"
    by code_simp+
  show ?thesis
    unfolding rooms_match_filter [OF hyp]
    by (simp add: demo_conns_def leased_def)
qed

section \<open>Durable notifications\<close>

text \<open>A notification is addressed to one leased generation or to the legacy runtime, never to both.\<close>

definition one_target :: "notification \<Rightarrow> bool" where
  "one_target n = (\<not> (truthy (nt_targetRuntimeConnectionLeaseId n) \<and> nt_targetLegacyRuntimeConnection n)
     \<and> nt_targetRuntimeConnectionLeaseId n \<noteq> Some [] \<and> nt_originSocketId n \<noteq> Some [])"

fun conn_ids_ok :: "connection \<Rightarrow> bool" where
  "conn_ids_ok (SessionScoped c) = (no_colon (sc_userId c) \<and> no_colon (sc_sessionId c))"
| "conn_ids_ok c = no_colon (conn_userId c)"

lemma session_room_inj [simp]:
  "''session:'' @ x = ''session:'' @ y \<longleftrightarrow> x = y" "''session:'' @ x \<noteq> ''user''" "''session:'' @ x \<noteq> ''all''"
  by simp_all

lemma no_colon_colon [simp]: "\<not> no_colon (x @ CHR '':'' # y)"
  by (simp add: no_colon_def)

lemma colon_neq: "no_colon v \<Longrightarrow> u @ CHR '':'' # x \<noteq> v" "no_colon v \<Longrightarrow> v \<noteq> u @ CHR '':'' # x"
  by (auto simp: no_colon_def)

lemma in_durable_rooms:
  assumes "conn_ids_ok c" and "no_colon (nt_userId n)" and "no_colon (payload_sid (nt_payload n))" and "one_target n"
  shows "in_rooms (durable_rooms n) c \<longleftrightarrow>
     conn_userId c = nt_userId n \<and> (isUserObserver c \<or> isLeaseTarget n c \<or> isLegacyTarget n c)"
proof (cases c)
  case (SessionScoped sc)
  show ?thesis
    using assms SessionScoped
    by (auto simp: in_rooms_def durable_rooms_def Let_def accountRoom_inj getRuntimeConnectionLeaseRoom_def
        append_colon_inj colon_neq one_target_def truthy_def split: option.splits if_splits)
next
  case (UserScoped sock v)
  with assms show ?thesis
    by (auto simp: in_rooms_def durable_rooms_def Let_def accountRoom_inj getRuntimeConnectionLeaseRoom_def)
next
  case (MachineScoped sock v mid)
  with assms show ?thesis
    by (auto simp: in_rooms_def durable_rooms_def Let_def accountRoom_inj getRuntimeConnectionLeaseRoom_def)
qed

text \<open>
  C17.  The two delivery paths of a durable message notification agree: through the rooms of the
  adapter and by the scan of the local registry it reaches the same connections, namely those of
  the account that are user clients, or hold the targeted lease of the message's session, or are
  the legacy runtime of it when that is the target, without the socket that sent the message.
  In particular a runtime generation that was displaced never receives it.
\<close>

theorem durable_paths_agree:
  assumes "\<forall>c \<in> set connected. conn_ids_ok c" and "no_colon (nt_userId n)"
    and "no_colon (payload_sid (nt_payload n))" and "one_target n"
    and "m (nt_userId n) = Some (filter (\<lambda>c. conn_userId c = nt_userId n) connected)"
  shows "durable_via_rooms connected n = durable_local m n
     \<and> set (durable_local m n) =
         {c \<in> set connected. conn_userId c = nt_userId n
            \<and> (isUserObserver c \<or> isLeaseTarget n c \<or> isLegacyTarget n c)
            \<and> Some (conn_socketId c) \<noteq> nt_originSocketId n}"
proof -
  have origin: "(truthy (nt_originSocketId n) \<and> Some x = nt_originSocketId n) \<longleftrightarrow> Some x = nt_originSocketId n" for x
    using assms(4) by (cases "nt_originSocketId n") (auto simp: one_target_def)
  have "durable_via_rooms connected n = filter (\<lambda>c. conn_userId c = nt_userId n
      \<and> (isUserObserver c \<or> isLeaseTarget n c \<or> isLegacyTarget n c) \<and> Some (conn_socketId c) \<noteq> nt_originSocketId n) connected"
    unfolding durable_via_rooms_def origin
    using assms(1) in_durable_rooms [OF _ assms(2-4)] by (intro filter_cong) auto
  moreover have "durable_local m n = filter (\<lambda>c. conn_userId c = nt_userId n
      \<and> (isUserObserver c \<or> isLeaseTarget n c \<or> isLegacyTarget n c) \<and> Some (conn_socketId c) \<noteq> nt_originSocketId n) connected"
    unfolding durable_local_def assms(5) by (auto intro: filter_cong)
  ultimately show ?thesis by auto
qed

definition demo_notification :: notification where
  "demo_notification =
     \<lparr>nt_userId = ''u1'',
      nt_payload = \<lparr>up_id = ''o1'', up_seq = 1, up_body = JObj [(''sid'', JStr ''s1'')], up_createdAt = 0\<rparr>,
      nt_originSocketId = Some ''a'', nt_targetRuntimeConnectionLeaseId = Some ''L1'',
      nt_targetLegacyRuntimeConnection = False\<rparr>"

theorem durable_paths_agree_witness:
  "map conn_socketId (durable_via_rooms demo_conns demo_notification) = [''d'']
   \<and> durable_via_rooms demo_conns demo_notification =
       durable_local [''u1'' \<mapsto> filter (\<lambda>c. conn_userId c = ''u1'') demo_conns] demo_notification"
proof -
  have hyp: "\<forall>c \<in> set demo_conns. conn_ids_ok c" "no_colon (nt_userId demo_notification)"
    "no_colon (payload_sid (nt_payload demo_notification))" "one_target demo_notification"
    by code_simp+
  have m: "[''u1'' \<mapsto> filter (\<lambda>c. conn_userId c = ''u1'') demo_conns] (nt_userId demo_notification)
      = Some (filter (\<lambda>c. conn_userId c = nt_userId demo_notification) demo_conns)"
    by (simp add: demo_notification_def)
  have "map conn_socketId (durable_via_rooms demo_conns demo_notification) = [''d'']" by code_simp
  with durable_paths_agree [where m = "[''u1'' \<mapsto> filter (\<lambda>c. conn_userId c = ''u1'') demo_conns]", OF hyp m] show ?thesis by blast
qed

section \<open>The packet fence\<close>

text \<open>
  What passes the packet fence of a session-scoped socket.  A packet reaches its handler only
  if it is one of the events of the kind of socket and, outside heartbeats, session ends and
  pings (which carry their own fence), only if the socket's generation owns the session at that
  moment; a refused packet has an error; a socket that was rejected once passes nothing any
  more, and the fence itself never lifts a rejection.  User and machine sockets are not fenced.
\<close>

theorem packet_fence_complete:
  shows "case connection_fence db_fails now d (SessionScoped c) p of
     (c', verdict) \<Rightarrow> \<exists>sc. c' = SessionScoped sc
       \<and> sc = (if sc_runtimeConnectionLeaseRejected sc then c\<lparr>sc_runtimeConnectionLeaseRejected := True\<rparr> else c)
       \<and> (sc_runtimeConnectionLeaseRejected c \<longrightarrow> sc = c \<and> verdict = Refused stale_error)
       \<and> (verdict = Pass \<longrightarrow> sc = c \<and> \<not> sc_runtimeConnectionLeaseRejected c
            \<and> (\<exists>e. p = Some (JStr e)
                \<and> (if sc_replayOnly c then e \<in> {''message'', ''session-end'', ''ping''}
                   else e \<in> set LIVE_SESSION_EVENTS
                     \<and> (e \<notin> {''session-alive'', ''session-end'', ''ping''} \<longrightarrow>
                          isRuntimeConnectionOwner (sc_userId c) (sc_sessionId c) (sc_sessionInstanceId c)
                            (sc_runtimeConnectionLeaseId c) now d))))"
proof -
  obtain c' verdict where run: "connection_fence db_fails now d (SessionScoped c) p = (c', verdict)" by fastforce
  obtain sc where sc: "c' = SessionScoped sc" using run by (auto split: prod.splits)
  have state: "sc = c \<or> sc = c\<lparr>sc_runtimeConnectionLeaseRejected := True\<rparr> \<and> verdict \<noteq> Pass"
    using run sc by (auto simp: packet_fence_def rejectRuntimeConnection_def Let_def
        split: if_splits option.splits prod.splits)
  have "sc_runtimeConnectionLeaseRejected c \<Longrightarrow> sc = c \<and> verdict = Refused stale_error"
    using run sc fence_rejected by simp
  moreover have "\<exists>e. p = Some (JStr e) \<and> e \<in> {''message'', ''session-end'', ''ping''}"
    if "verdict = Pass" "sc_replayOnly c"
    using fence_replay_pass run that by blast
  moreover have "\<exists>e. p = Some (JStr e) \<and> e \<in> set LIVE_SESSION_EVENTS
     \<and> (e \<notin> {''session-alive'', ''session-end'', ''ping''} \<longrightarrow>
          isRuntimeConnectionOwner (sc_userId c) (sc_sessionId c) (sc_sessionInstanceId c)
            (sc_runtimeConnectionLeaseId c) now d)"
    if "verdict = Pass" "\<not> sc_replayOnly c"
    using fence_live_pass run that by blast
  ultimately show ?thesis
    unfolding run prod.case using sc state by (intro exI [of _ sc]) auto
qed

theorem packet_fence_complete_witness:
  "snd (connection_fence False 5 empty_db (demo_conns ! 3) (Some (JStr ''message''))) \<noteq> Pass"
proof -
  obtain c where c: "demo_conns ! 3 = SessionScoped c" "\<not> sc_replayOnly c" by (simp add: demo_conns_def)
  have no: "\<not> isRuntimeConnectionOwner u s i l 5 empty_db" for u s i l
    by (simp add: isRuntimeConnectionOwner_def empty_db_def)
  show ?thesis
    using packet_fence_complete [where db_fails = False and now = 5 and d = empty_db and c = c and p = "Some (JStr ''message'')"] c no by auto
qed

end
