(* ===== verification/Dispatcher.thy ===== *)
theory Dispatcher
  imports MessageOutbox Routing
begin

text \<open>
  The dispatcher of the notification outbox at run time, and the Redis bus it publishes on
  (\<^verbatim>\<open>app/session/sessionMessageNotificationBus.ts\<close>).  The first part runs the wake/stop/drain
  functions of the outbox theory as a step relation, with the points where other callbacks can
  interleave; the second is the bus: what is published, and what a subscriber does with it.
\<close>

section \<open>The drain loop as a state machine\<close>

text \<open>
  Every call of \<^verbatim>\<open>drain\<close> that \<^verbatim>\<open>wake\<close> starts is an entry of \<open>ds_drains\<close>, so the state has room for
  any number of them at once.  \<open>InPass\<close>: a pass of the loop is suspended at one of its awaits.
  \<open>Drained\<close>: the loop has ended or failed, its \<^verbatim>\<open>finally\<close> callback has not run yet.  \<open>ds_pending\<close> is
  a ghost: a wake-up was asked for, while not stopped, after the last pass had begun.
\<close>

datatype phase = InPass | Drained

record drain_state =
  ds_disp :: dispatcher
  ds_drains :: "phase list"
  ds_pending :: bool

text \<open>A drain, new or old, begins a pass.\<close>

definition begin_pass :: "dispatcher_options \<Rightarrow> ts \<Rightarrow> phase list \<Rightarrow> dispatcher \<Rightarrow> drain_state" where
  "begin_pass opts now drains p =
     \<lparr>ds_disp = fst (drain_begin_pass opts now p), ds_drains = drains, ds_pending = False\<rparr>"

definition after_wake :: "dispatcher_options \<Rightarrow> ts \<Rightarrow> drain_state \<Rightarrow> dispatcher \<times> bool \<Rightarrow> drain_state" where
  "after_wake opts now s r =
     (if snd r then begin_pass opts now (ds_drains s @ [InPass]) (fst r)
      else s\<lparr>ds_disp := fst r, ds_pending := (ds_pending s \<or> \<not> dp_stopped (fst r))\<rparr>)"

datatype drain_event =
    EvWake ts
  | EvStart ts
  | EvStop
  | EvPassEnd nat nat ts \<comment> \<open>the drain, what its pass claimed, the clock\<close>
  | EvPassFail nat
  | EvFinally nat ts

definition drain_at :: "nat \<Rightarrow> phase \<Rightarrow> drain_state \<Rightarrow> bool" where
  "drain_at i ph s = (i < length (ds_drains s) \<and> ds_drains s ! i = ph)"

definition drop_drain :: "nat \<Rightarrow> phase list \<Rightarrow> phase list" where
  "drop_drain i drains = take i drains @ drop (Suc i) drains"

fun drain_next :: "dispatcher_options \<Rightarrow> drain_event \<Rightarrow> drain_state \<Rightarrow> drain_state option" where
  "drain_next opts (EvWake now) s = Some (after_wake opts now s (wake (ds_disp s)))"
| "drain_next opts (EvStart now) s =
     Some (if \<not> dp_stopped (ds_disp s) then s else after_wake opts now s (start_dispatcher (ds_disp s)))"
| "drain_next opts EvStop s = Some (s\<lparr>ds_disp := stop_dispatcher (ds_disp s)\<rparr>)"
| "drain_next opts (EvPassEnd i n now) s =
     (if \<not> drain_at i InPass s then None
      else case drain_end_pass n (ds_disp s) of
             (p, goes_on) \<Rightarrow> Some (if goes_on then begin_pass opts now (ds_drains s) p
                                 else s\<lparr>ds_disp := p, ds_drains := (ds_drains s)[i := Drained]\<rparr>))"
| "drain_next opts (EvPassFail i) s =
     (if \<not> drain_at i InPass s then None else Some (s\<lparr>ds_drains := (ds_drains s)[i := Drained]\<rparr>))"
| "drain_next opts (EvFinally i now) s =
     (if \<not> drain_at i Drained s then None
      else case drain_finished (ds_disp s) of
             (p, restarts) \<Rightarrow>
               Some (if restarts then begin_pass opts now (drop_drain i (ds_drains s) @ [InPass]) p
                     else s\<lparr>ds_disp := p, ds_drains := drop_drain i (ds_drains s)\<rparr>))"

definition initial_drain :: drain_state where
  "initial_drain = \<lparr>ds_disp = initial_dispatcher, ds_drains = [], ds_pending = False\<rparr>"

inductive drain_reachable :: "dispatcher_options \<Rightarrow> drain_state \<Rightarrow> bool" for opts where
  init: "drain_reachable opts initial_drain"
| step: "drain_reachable opts s \<Longrightarrow> drain_next opts ev s = Some s' \<Longrightarrow> drain_reachable opts s'"

definition drain_inv :: "drain_state \<Rightarrow> bool" where
  "drain_inv s =
     ((if dp_running (ds_disp s) then ds_drains s = [InPass] \<or> ds_drains s = [Drained] else ds_drains s = [])
    \<and> (ds_pending s \<and> \<not> dp_stopped (ds_disp s) \<longrightarrow> dp_running (ds_disp s) \<and> dp_wakeAgain (ds_disp s)))"

lemmas drain_defs = begin_pass_def after_wake_def wake_def start_dispatcher_def stop_dispatcher_def
  drain_begin_pass_def drain_end_pass_def drain_finished_def drain_at_def drop_drain_def Let_def

lemma drain_inv_step:
  assumes "drain_inv s" and "drain_next opts ev s = Some s'"
  shows "drain_inv s'"
  using assms by (cases ev) (auto simp: drain_inv_def drain_defs split: if_splits)

lemma drain_inv_reachable: "drain_reachable opts s \<Longrightarrow> drain_inv s"
proof (induction rule: drain_reachable.induct)
  case init
  show ?case by (simp add: drain_inv_def initial_drain_def initial_dispatcher_def)
next
  case (step s ev s')
  then show ?case using drain_inv_step by blast
qed

definition pass_begins :: "drain_state option \<Rightarrow> bool" where
  "pass_begins r = (case r of None \<Rightarrow> False | Some s \<Rightarrow> ds_drains s = [InPass] \<and> \<not> ds_pending s)"

text \<open>
  C25.  No wake-up is lost and two passes never overlap.  In every reachable state of the
  dispatcher, whatever wake-ups, starts and stops came in between, at most one drain exists, and
  there is one exactly while \<^verbatim>\<open>running\<close> is set: a wake-up, or a restart after a stop, that finds one
  starts no second.  And while the dispatcher is not stopped, a wake-up that arrived after the
  last pass began means that this one drain is there and its next completion begins another pass:
  at once if the pass ends normally, in the \<^verbatim>\<open>finally\<close> callback if the loop failed or had already
  left.  So an idle dispatcher has served every wake-up.
\<close>

theorem no_lost_wakeup:
  assumes "drain_reachable opts s"
  shows "length (ds_drains s) \<le> 1
     \<and> (dp_running (ds_disp s) \<longleftrightarrow> ds_drains s \<noteq> [])
     \<and> (\<not> dp_stopped (ds_disp s) \<and> ds_pending s \<longrightarrow>
          ds_drains s = [InPass] \<and> pass_begins (drain_next opts (EvPassEnd 0 n now) s)
            \<and> pass_begins (Option.bind (drain_next opts (EvPassFail 0) s) (drain_next opts (EvFinally 0 now)))
        \<or> ds_drains s = [Drained] \<and> pass_begins (drain_next opts (EvFinally 0 now) s))"
  using drain_inv_reachable [OF assms]
  by (auto simp: drain_inv_def drain_defs pass_begins_def split: if_splits)

text \<open>A dispatcher that is woken during its first pass.\<close>

definition demo_drain :: drain_state where
  "demo_drain = the (drain_next default_options (EvWake 7) (the (drain_next default_options (EvStart 5) initial_drain)))"

theorem no_lost_wakeup_witness:
  "length (ds_drains demo_drain) \<le> 1 \<and> ds_pending demo_drain
   \<and> pass_begins (drain_next default_options (EvPassEnd 0 0 9) demo_drain)"
proof -
  let ?s1 = "the (drain_next default_options (EvStart 5) initial_drain)"
  have "drain_next default_options (EvStart 5) initial_drain = Some ?s1"
    "drain_next default_options (EvWake 7) ?s1 = Some demo_drain"
    by (simp_all add: demo_drain_def)
  then have "drain_reachable default_options demo_drain"
    using drain_reachable.init drain_reachable.step by blast
  moreover have "\<not> dp_stopped (ds_disp demo_drain)" "ds_pending demo_drain" "ds_drains demo_drain = [InPass]" by code_simp+
  ultimately show ?thesis using no_lost_wakeup [of default_options demo_drain 0 9] by auto
qed

section \<open>Claims and retries\<close>

lemma claim_row_hit:
  assumes "unique_by o_id (outbox d)" and "claim_row oid token now cutoff d = (d1, n)" and "0 < n"
  shows "\<exists>x. find_row (\<lambda>x. o_id x = oid) (outbox d1) = Some x \<and> o_claimedAt x = Some now \<and> o_claimToken x = Some token
     \<and> o_deliveredAt x = None \<and> unique_by o_id (outbox d1)"
proof -
  let ?P = "\<lambda>x. o_id x = oid \<and> pendingClaimWhere now cutoff x"
  obtain x where x: "find_row (\<lambda>x. o_id x = oid) (outbox d) = Some x" "?P x"
    using assms count_rows_key [OF assms(1), of ?P oid] by (auto simp: claim_row_def Let_def)
  have d1: "d1 = d\<lparr>outbox := update_rows ?P (\<lambda>x. x\<lparr>o_claimedAt := Some now, o_claimToken := Some token,
      o_attempts := o_attempts x + 1\<rparr>) (outbox d)\<rparr>"
    using assms(2) by (simp add: claim_row_def Let_def)
  show ?thesis
    using x assms(1) by (auto simp: d1 find_row_update pendingClaimWhere_def)
qed

lemma find_row_all:
  assumes "unique_by o_id xs" and "find_row (\<lambda>x. o_id x = oid) xs = Some x" and "y \<in> set xs" and "o_id y = oid"
  shows "y = x"
  using assms find_row_SomeD [OF assms(2)] unique_by_eq [OF assms(1)] by blast

text \<open>
  C26.  Notifications are claimed exclusively.  When a dispatcher pass claims a row, then until its
  lease of \<open>leaseMs\<close> runs out no other pass can claim the row, and no pass can mark it delivered or
  failed under another token; and the candidates of one pass contain at most one row per session.
\<close>

theorem claim_exclusive:
  assumes "unique_by o_id (outbox d)" and "claim_row oid token now cutoff d = (d1, n)" and "0 < n"
  shows "(\<forall>token' now'. now' \<le> now + leaseMs \<longrightarrow> claim_row oid token' now' (now' - leaseMs) d1 = (d1, 0))
     \<and> (\<forall>x t. o_id x = oid \<and> o_claimToken x \<noteq> Some token \<longrightarrow>
          markDelivered x t d1 = d1 \<and> markFailed x err t d1 = d1)
     \<and> (\<forall>x \<in> set (claim_candidates jsnow cutoffNow limit d). \<forall>y \<in> set (claim_candidates jsnow cutoffNow limit d).
          o_sessionId x = o_sessionId y \<longrightarrow> x = y)"
proof (intro conjI allI impI ballI)
  obtain x where x: "find_row (\<lambda>x. o_id x = oid) (outbox d1) = Some x" "o_claimedAt x = Some now"
    "o_claimToken x = Some token" and uniq: "unique_by o_id (outbox d1)"
    using claim_row_hit [OF assms] by blast
  have only: "y = x" if "y \<in> set (outbox d1)" "o_id y = oid" for y
    using find_row_all [OF uniq x(1)] that by blast
  {
    fix token' now'
    assume t: "now' \<le> now + leaseMs"
    have none: "\<not> (o_id y = oid \<and> pendingClaimWhere now' (now' - leaseMs) y)" if "y \<in> set (outbox d1)" for y
      using only [OF that] claimed_row_not_pending [OF x(2)] t by auto
    then have "update_rows (\<lambda>y. o_id y = oid \<and> pendingClaimWhere now' (now' - leaseMs) y) f (outbox d1) = outbox d1" for f
      by (intro update_rows_noop) blast
    then show "claim_row oid token' now' (now' - leaseMs) d1 = (d1, 0)"
      using none by (auto simp: claim_row_def Let_def count_rows_zero)
  }
  {
    fix z :: outbox_row and t
    assume z: "o_id z = oid \<and> o_claimToken z \<noteq> Some token"
    have "\<not> held_by z y" if "y \<in> set (outbox d1)" for y
      using only [OF that] x(3) z by (auto simp: held_by_def)
    then have "update_rows (held_by z) f (outbox d1) = outbox d1" for f by (intro update_rows_noop) blast
    then show "markDelivered z t d1 = d1" and "markFailed z err t d1 = d1"
      by (simp_all add: markDelivered_def markFailed_def)
  }
  fix y z
  assume y: "y \<in> set (claim_candidates jsnow cutoffNow limit d)" and z: "z \<in> set (claim_candidates jsnow cutoffNow limit d)"
    and "o_sessionId y = o_sessionId z"
  then have "o_id y = o_id z" using one_head_per_session by blast
  then show "y = z" using claim_candidates_heads(1) [OF y] claim_candidates_heads(1) [OF z] unique_by_eq [OF assms(1)] by blast
qed

definition demo_outbox :: db where
  "demo_outbox = empty_db\<lparr>outbox := [\<lparr>o_id = ''o1'', o_accountId = ''u1'', o_sessionId = ''s1'', o_messageId = ''m1'',
     o_updateSeq = 1, o_originSocketId = None, o_targetRuntimeConnectionLeaseId = Some ''L1'',
     o_targetLegacyRuntimeConnection = False, o_attempts = 0, o_nextAttemptAt = 0, o_claimedAt = None,
     o_claimToken = None, o_deliveredAt = None, o_lastError = None, o_createdAt = 0\<rparr>]\<rparr>"

theorem claim_exclusive_witness:
  "snd (claim_row ''o1'' ''t2'' 30010 (30010 - 30000) (fst (claim_row ''o1'' ''t1'' 10 (10 - 30000) demo_outbox))) = 0"
proof -
  have hyp: "unique_by o_id (outbox demo_outbox)" "snd (claim_row ''o1'' ''t1'' 10 (10 - 30000) demo_outbox) = 1"
    by code_simp+
  obtain d1 n where run: "claim_row ''o1'' ''t1'' 10 (10 - 30000) demo_outbox = (d1, n)" by fastforce
  with hyp(2) have "0 < n" by simp
  from claim_exclusive [OF hyp(1) run this, where leaseMs = 30000, THEN conjunct1, rule_format, of 30010 "''t2''"]
  show ?thesis using run by simp
qed

text \<open>
  The delay before a failed notification is tried again is at least one millisecond and at
  most \<open>retryMaxMs\<close>, for every number of attempts and every random number; with the default
  options it is at most \<open>500 * 2 ^ (attempts - 1)\<close> milliseconds for the first seven attempts and a
  minute afterwards.
\<close>

theorem retry_delay_in_bounds:
  assumes "1 \<le> op_retryBaseMs opts" and "1 \<le> op_retryMaxMs opts" and "0 \<le> r" and "r < 1"
  shows "1 \<le> retry_delay opts r n \<and> retry_delay opts r n \<le> op_retryMaxMs opts
     \<and> (1 \<le> k \<and> k \<le> 7 \<longrightarrow> retry_delay default_options r (int k) \<le> 500 * 2 ^ (k - 1))"
proof -
  have "retry_delay default_options r (int k) \<le> 500 * 2 ^ (k - 1)" if "1 \<le> k" "k \<le> 7"
  proof -
    have k: "k \<in> {1, 2, 3, 4, 5, 6, 7}" using that by auto
    have c: "retry_ceiling default_options (int k) = 500 * 2 ^ (k - 1)"
      using k by (auto simp: retry_ceiling_def default_options_def)
    have "\<lfloor>r * real_of_int (500 * 2 ^ (k - 1) + 1)\<rfloor> \<le> 500 * 2 ^ (k - 1)"
      using assms(4) by (rule floor_scaled) simp
    moreover have "(1::int) \<le> 500 * 2 ^ (k - 1)" using k by auto
    ultimately show ?thesis unfolding retry_delay_def c by simp
  qed
  then show ?thesis using retry_delay_bounds [OF assms] by blast
qed

theorem retry_delay_in_bounds_witness:
  "retry_delay default_options (1 / 2) 3 \<le> 60000 \<and> retry_delay default_options (1 / 2) (int 3) \<le> 2000"
proof -
  have hyp: "1 \<le> op_retryBaseMs default_options" "1 \<le> op_retryMaxMs default_options"
    by code_simp+
  have max: "op_retryMaxMs default_options = 60000" by code_simp
  show ?thesis using retry_delay_in_bounds [OF hyp, of "1 / 2" 3 3] by (simp add: max)
qed

section \<open>The bus\<close>

text \<open>
  The text on the channel is represented by the document it parses to, \<open>None\<close> when
  \<^verbatim>\<open>JSON.parse\<close> throws.  \<open>bus_publish\<close> is what is handed to Redis.
\<close>

definition notification_json :: "notification \<Rightarrow> json" where
  "notification_json n =
     JObj [(''userId'', JStr (nt_userId n)),
           (''payload'', JObj [(''id'', JStr (up_id (nt_payload n))), (''seq'', JNum (up_seq (nt_payload n))),
              (''body'', up_body (nt_payload n)), (''createdAt'', JNum (up_createdAt (nt_payload n)))]),
           (''originSocketId'', nullable (nt_originSocketId n)),
           (''targetRuntimeConnectionLeaseId'', nullable (nt_targetRuntimeConnectionLeaseId n)),
           (''targetLegacyRuntimeConnection'', JBool (nt_targetLegacyRuntimeConnection n))]"

definition bus_publish :: "notification \<Rightarrow> json option" where
  "bus_publish n = Some (notification_json n)"

text \<open>The race of the publication with its timer: what \<^verbatim>\<open>publish\<close> throws, if anything.\<close>

datatype redis_answer = Published | PublishError string | NoAnswer

fun bus_publish_result :: "redis_answer \<Rightarrow> string option" where
  "bus_publish_result Published = None"
| "bus_publish_result (PublishError e) = Some e"
| "bus_publish_result NoAnswer = Some ''Redis session-message notification publish timed out''"

fun null_or_string :: "jsval \<Rightarrow> bool" where
  "null_or_string (Some JNull) = True"
| "null_or_string (Some (JStr s)) = True"
| "null_or_string _ = False"

fun as_bool :: "jsval \<Rightarrow> bool option" where
  "as_bool (Some (JBool b)) = Some b"
| "as_bool _ = None"

definition isNotification :: "jsval \<Rightarrow> bool" where
  "isNotification v =
     (js_truthy v \<and> is_object v
      \<and> as_string (get_prop v ''userId'') \<noteq> None
      \<and> null_or_string (get_prop v ''originSocketId'')
      \<and> null_or_string (get_prop v ''targetRuntimeConnectionLeaseId'')
      \<and> as_bool (get_prop v ''targetLegacyRuntimeConnection'') \<noteq> None
      \<and> js_truthy (get_prop v ''payload'') \<and> is_object (get_prop v ''payload'')
      \<and> as_string (get_prop (get_prop v ''payload'') ''id'') \<noteq> None
      \<and> as_number (get_prop (get_prop v ''payload'') ''seq'') \<noteq> None
      \<and> js_truthy (get_prop (get_prop v ''payload'') ''body''))"

text \<open>The fields the router reads of an accepted value; \<^verbatim>\<open>createdAt\<close> is passed on unchecked.\<close>

definition read_notification :: "jsval \<Rightarrow> notification" where
  "read_notification v =
     (let p = get_prop v ''payload''
      in \<lparr>nt_userId = the (as_string (get_prop v ''userId'')),
          nt_payload = \<lparr>up_id = the (as_string (get_prop p ''id'')), up_seq = the (as_number (get_prop p ''seq'')),
                        up_body = the (get_prop p ''body''),
                        up_createdAt = (case as_number (get_prop p ''createdAt'') of None \<Rightarrow> 0 | Some t \<Rightarrow> t)\<rparr>,
          nt_originSocketId = as_string (get_prop v ''originSocketId''),
          nt_targetRuntimeConnectionLeaseId = as_string (get_prop v ''targetRuntimeConnectionLeaseId''),
          nt_targetLegacyRuntimeConnection = the (as_bool (get_prop v ''targetLegacyRuntimeConnection''))\<rparr>)"

record bus =
  bus_running :: bool
  bus_listening :: bool

text \<open>The flag of \<open>bus_start\<close> and \<open>bus_stop\<close> is \<open>False\<close> when the call throws; \<open>ok\<close> is Redis' answer.\<close>

definition bus_start :: "bool \<Rightarrow> bus \<Rightarrow> bus \<times> bool" where
  "bus_start ok b =
     (if bus_running b then (b, True)
      else if ok then (\<lparr>bus_running = True, bus_listening = True\<rparr>, True)
      else (\<lparr>bus_running = False, bus_listening = False\<rparr>, False))"

definition bus_stop :: "bool \<Rightarrow> bus \<Rightarrow> bus \<times> bool" where
  "bus_stop ok b =
     (if \<not> bus_running b then (b, True)
      else (\<lparr>bus_running = False, bus_listening = False\<rparr>, ok))"

definition handleMessage :: "bus \<Rightarrow> string \<Rightarrow> string \<Rightarrow> json option \<Rightarrow> notification option" where
  "handleMessage b mine channel encoded =
     (if \<not> bus_running b \<or> channel \<noteq> mine then None
      else case encoded of
             None \<Rightarrow> None
           | Some v \<Rightarrow> if isNotification (Some v) then Some (read_notification (Some v)) else None)"

lemma nullable_string [simp]: "null_or_string (Some (nullable x))" "as_string (Some (nullable x)) = x"
  by (cases x; simp add: nullable_def)+

lemma read_notification_json:
  assumes "js_truthy (Some (up_body (nt_payload n)))"
  shows "isNotification (Some (notification_json n)) \<and> read_notification (Some (notification_json n)) = n"
  using assms by (simp add: isNotification_def read_notification_def notification_json_def Let_def)

text \<open>
  C29.  Notifications survive the bus.  What one replica publishes for an outbox row is accepted by
  every running subscriber of the channel and read back as the same notification, so that local
  delivery there has the same recipients; a stopped subscriber, another channel, malformed text
  and values of another shape deliver nothing.
\<close>

theorem bus_roundtrip:
  "handleMessage b mine channel (bus_publish (outbox_notification xm now)) =
     (if bus_running b \<and> channel = mine then Some (outbox_notification xm now) else None)
   \<and> handleMessage b mine channel None = None
   \<and> (\<not> isNotification (Some v) \<longrightarrow> handleMessage b mine channel (Some v) = None)"
proof -
  have "js_truthy (Some (up_body (nt_payload (outbox_notification xm now))))"
    by (simp add: outbox_notification_def buildNewMessageUpdate_def split: prod.split)
  from read_notification_json [OF this] show ?thesis by (simp add: handleMessage_def bus_publish_def)
qed

theorem bus_roundtrip_witness:
  "handleMessage (fst (bus_start True \<lparr>bus_running = False, bus_listening = False\<rparr>)) ''c'' ''c'' (Some (JObj [(''userId'', JNum 3)])) = None"
proof -
  have "\<not> isNotification (Some (JObj [(''userId'', JNum 3)]))" by code_simp
  then show ?thesis using bus_roundtrip by blast
qed

end
