(* ===== verification/SessionSafety.thy ===== *)
theory SessionSafety
  imports SessionStore
begin

text \<open>
  Properties of the session routes and of the timeout sweep: sequence numbers, pages of the
  session list, create-or-load, deletion and the sweep, the last three under arbitrary
  interference of other requests.
\<close>

section \<open>Sequence numbers\<close>

text \<open>
  The update sequence numbers of an account strictly increase: in whatever order requests
  allocate them, and whatever the statements between two allocations do (except setting the
  counter back), every allocation returns a larger number than all earlier ones; it never fails
  while the account exists.  The same holds for the message numbers of a session.
\<close>

theorem sequence_numbers_increase:
  "((\<forall>f \<in> set fs. counter_step (user_seq uid) f) \<longrightarrow> sorted_wrt (<) (allocations (allocateUserSeq uid now) fs d))
   \<and> ((\<forall>f \<in> set fs. counter_step (session_seq sid) f) \<longrightarrow> sorted_wrt (<) (allocations (allocateSessionSeq sid now) fs d))
   \<and> (user_seq uid d \<noteq> None \<longrightarrow> allocateUserSeq uid now d \<noteq> None)
   \<and> (session_seq sid d \<noteq> None \<longrightarrow> allocateSessionSeq sid now d \<noteq> None)"
  by (intro conjI impI user_counter.allocations_increasing session_counter.allocations_increasing
      user_counter.alloc_total session_counter.alloc_total)

definition demo_accounts :: db where
  "demo_accounts = empty_db\<lparr>accounts := [blank_account ''u1'' ''pk'' 0, blank_account ''u2'' ''pk2'' 0]\<rparr>"

theorem sequence_numbers_increase_witness:
  "allocations (allocateUserSeq ''u1'' 5) [id, id, id] demo_accounts = [1, 2, 3]
   \<and> sorted_wrt (<) (allocations (allocateUserSeq ''u1'' 5) [id, id, id] demo_accounts)"
proof -
  have "allocations (allocateUserSeq ''u1'' 5) [id, id, id] demo_accounts = [1, 2, 3]" by code_simp
  moreover have "\<forall>f \<in> set [id, id, id]. counter_step (user_seq ''u1'') f"
    by (auto simp: counter_step_def split: option.splits)
  ultimately show ?thesis
    using sequence_numbers_increase [where fs = "[id, id, id]" and uid = "''u1''" and now = 5 and d = demo_accounts] by blast
qed

section \<open>Pages of the session list\<close>

text \<open>
  Following the cursor of the session list returns every session of the account that changed
  since the given time exactly once, in descending id order, in finitely many requests, for every
  page size; a cursor the server handed out is always accepted again.
\<close>

theorem session_pages_complete:
  assumes "keys_ok d" and "\<forall>r \<in> set (sessions d). s_id r \<noteq> []" and "0 < limit"
    and "length (sessions_desc uid since d) < n"
  shows "read_pages (session_list_page (uid, since, d) limit) s_id n None = Some (sessions_desc uid since d)
     \<and> distinct (sessions_desc uid since d)
     \<and> set (sessions_desc uid since d) = {r \<in> set (sessions d). s_accountId r = uid \<and> changed_after since r}
     \<and> (\<forall>c p next. list_sessions_v2_page uid c limit since d = Some p \<and> pg_nextCursor p = Some next \<longrightarrow>
          list_sessions_v2_page uid (Some next) limit since d \<noteq> None)"
proof (intro conjI allI impI)
  show "read_pages (session_list_page (uid, since, d) limit) s_id n None = Some (sessions_desc uid since d)"
    using session_pages.read_pages_complete [of "(uid, since, d)" limit None n] assms
    by (simp add: after_cursor_def [abs_def])
  show "distinct (sessions_desc uid since d)"
    using keys_okD(1) [OF assms(1)] unfolding sessions_desc_def unique_by_def
    by (simp add: distinct_map)
  show "set (sessions_desc uid since d) = {r \<in> set (sessions d). s_accountId r = uid \<and> changed_after since r}"
    by (auto simp: sessions_desc_def)
next
  fix c p nxt
  assume "list_sessions_v2_page uid c limit since d = Some p \<and> pg_nextCursor p = Some nxt"
  then obtain sid where "nxt = encode_cursor sid"
    by (auto simp: list_sessions_v2_page_def Let_def split: cursor_query.splits if_splits)
  then show "list_sessions_v2_page uid (Some nxt) limit since d \<noteq> None"
    by (auto simp: list_sessions_v2_page_def Let_def decode_cursor_def encode_cursor_def cursor_prefix_def
        split: cursor_query.splits)
qed

definition demo_session :: "ident \<Rightarrow> ident \<Rightarrow> string \<Rightarrow> session" where
  "demo_session sid uid tag =
     new_session id uid \<lparr>sb_tag = tag, sb_metadata = ''m'', sb_agentState = None, sb_dataEncryptionKey = None\<rparr> sid 100"

definition demo_sessions :: db where
  "demo_sessions = demo_accounts\<lparr>sessions :=
     [demo_session ''s1'' ''u1'' ''a'', demo_session ''s2'' ''u1'' ''b'', demo_session ''s3'' ''u2'' ''a'',
      demo_session ''s4'' ''u1'' ''c'']\<rparr>"

theorem session_pages_complete_witness:
  "map_option (map s_id) (read_pages (session_list_page (''u1'', None, demo_sessions) 2) s_id 4 None)
     = Some [''s4'', ''s2'', ''s1'']"
proof -
  have hyp: "keys_ok demo_sessions" "\<forall>r \<in> set (sessions demo_sessions). s_id r \<noteq> []" "(0::nat) < 2"
    "length (sessions_desc ''u1'' None demo_sessions) < 4"
    by code_simp+
  have "map s_id (sessions_desc ''u1'' None demo_sessions) = [''s4'', ''s2'', ''s1'']" by code_simp
  with session_pages_complete [OF hyp] show ?thesis by simp
qed

section \<open>Create or load\<close>

text \<open>At most one session per account and tag.\<close>

definition tags_unique :: "db \<Rightarrow> bool" where
  "tags_unique d = unique_by (\<lambda>r. (s_accountId r, s_tag r)) (sessions d)"

lemma find_by_tag_unique:
  assumes "tags_unique d" and "r \<in> set (sessions d)" and "s_accountId r = u" and "s_tag r = t"
  shows "find_session_by_tag u t d = Some r"
  unfolding find_session_by_tag_def
  using assms by (intro find_row_unique [of "\<lambda>r. (s_accountId r, s_tag r)"]) (auto simp: tags_unique_def)

lemma create_session_tag:
  assumes "create_session s d = Some (d', s')"
  shows "s' = s \<and> find_session_by_tag (s_accountId s) (s_tag s) d = None
     \<and> find_session_by_tag (s_accountId s) (s_tag s) d' = Some s \<and> (tags_unique d \<longrightarrow> tags_unique d')"
proof -
  have d': "d' = d\<lparr>sessions := sessions d @ [s]\<rparr>" "s' = s"
    and fresh: "\<forall>r \<in> set (sessions d). \<not> (s_accountId r = s_accountId s \<and> s_tag r = s_tag s)"
    using assms by (auto simp: create_session_def split: if_splits)
  then have none: "find_session_by_tag (s_accountId s) (s_tag s) d = None"
    by (simp add: find_session_by_tag_def find_row_None_iff)
  then have "find_session_by_tag (s_accountId s) (s_tag s) d' = Some s"
    by (simp add: d' find_session_by_tag_def)
  moreover have "tags_unique d \<longrightarrow> tags_unique d'" using fresh by (auto simp: d' tags_unique_def)
  ultimately show ?thesis using none d'(2) by blast
qed

lemma create_or_load_cases:
  assumes "create_or_load_session enc dec w uid body newId updId now d = (d', r, ems)"
  shows "(r = Threw \<and> ems = [])
     \<or> (\<exists>s. r = session_reply enc s \<and> find_session_by_tag uid (sb_tag body) d' = Some s
           \<and> (ems = [] \<and> d' = interfere w 0 d
              \<or> s = new_session dec uid body newId now \<and> find_session_by_tag uid (sb_tag body) (interfere w 0 d) = None
                \<and> (\<exists>n. ems = [EmitUpdate uid (buildNewSessionUpdate enc s n updId now) UserScopedOnly])))"
proof (cases rule: db_call_cases [of w 0 "\<lambda>d. (d, find_session_by_tag uid (sb_tag body) d)" d])
  case Rejected
  then show ?thesis using assms by (simp add: create_or_load_session_def)
next
  case (Done d1 x)
  have new: "s_accountId (new_session dec uid body newId now) = uid" "s_tag (new_session dec uid body newId now) = sb_tag body"
    by (simp_all add: new_session_def)
  show ?thesis
  proof (cases x)
    case (Some s)
    then show ?thesis using assms Done by (auto simp: create_or_load_session_def)
  next
    case None
    then have run: "(case db_call w 1 (throwing (allocateUserSeq uid now)) d1 of
            (d2, Some (Some updSeq)) \<Rightarrow>
             (case db_call w 2 (throwing (create_session (new_session dec uid body newId now))) d2 of
                (d3, Some (Some s)) \<Rightarrow>
                  (d3, session_reply enc s,
                   [EmitUpdate uid (buildNewSessionUpdate enc s updSeq updId now) UserScopedOnly])
              | (d3, _) \<Rightarrow> (d3, Threw, []))
          | (d2, _) \<Rightarrow> (d2, Threw, [])) = (d', r, ems)"
      using assms Done by (simp add: create_or_load_session_def)
    have create: "\<exists>d3. create_session (new_session dec uid body newId now) (interfere w 2 d2) = Some (d3, s) \<and> d3 = d4"
      if "db_call w 2 (throwing (create_session (new_session dec uid body newId now))) d2 = (d4, Some (Some s))" for d2 d4 s
      using that by (cases rule: db_call_cases [of w 2 "throwing (create_session (new_session dec uid body newId now))" d2])
        (auto simp: throwing_def split: option.splits)
    show ?thesis
      using run None Done new
      by (auto split: prod.splits option.splits dest!: create create_session_tag)
  qed
qed

lemma create_then_load:
  assumes "account_row uid d \<noteq> None" and "\<forall>r \<in> set (sessions d). s_id r \<noteq> newId"
  shows "\<exists>d1 r ems. create_or_load_session enc dec quiet uid body newId updId now d = (d1, r, ems) \<and> r \<noteq> Threw
          \<and> create_or_load_session enc dec quiet uid body againId updAgain againAt d1 = (d1, r, [])"
proof (cases "find_session_by_tag uid (sb_tag body) d")
  case (Some s)
  then show ?thesis by (simp add: create_or_load_session_def session_reply_def)
next
  case None
  let ?s = "new_session dec uid body newId now"
  obtain d2 n where seq: "allocateUserSeq uid now d = Some (d2, n)"
    and d2: "sessions d2 = sessions d" "account_row uid d2 \<noteq> None"
    using assms(1) by (auto simp: allocateUserSeq_def account_row_def find_row_update split: option.splits)
  have "create_session ?s d2 = Some (d2\<lparr>sessions := sessions d2 @ [?s]\<rparr>, ?s)"
    using None assms(2) d2
    by (auto simp: create_session_def new_session_def find_session_by_tag_def find_row_None_iff)
  moreover from create_session_tag [OF this]
  have "find_session_by_tag uid (sb_tag body) (d2\<lparr>sessions := sessions d2 @ [?s]\<rparr>) = Some ?s"
    by (simp add: new_session_def)
  ultimately show ?thesis
    using None seq by (simp add: create_or_load_session_def throwing_def session_reply_def)
qed

text \<open>
  Create-or-load by tag, whatever other requests do between its statements.  It answers with
  a session of the account with the asked tag that the database holds at that moment: an
  existing one, and then nothing is emitted and nothing is written, or a new one that no other
  session shared the tag with, and then exactly one \<^verbatim>\<open>new-session\<close> update is emitted; when a
  statement throws (the tag was taken meanwhile, or the database failed) nothing is emitted.
  Without interference a second call returns the session of the first and writes nothing.
\<close>

theorem create_or_load_by_tag:
  shows "(case create_or_load_session enc dec w uid body newId updId now d of
      (d', Threw, ems) \<Rightarrow> ems = []
    | (d', Reply st j, ems) \<Rightarrow>
        (\<exists>s. Reply st j = session_reply enc s \<and> find_session_by_tag uid (sb_tag body) d' = Some s
           \<and> (ems = [] \<and> d' = interfere w 0 d
              \<or> s = new_session dec uid body newId now \<and> find_session_by_tag uid (sb_tag body) (interfere w 0 d) = None
                \<and> (\<exists>n. ems = [EmitUpdate uid (buildNewSessionUpdate enc s n updId now) UserScopedOnly]))))
   \<and> (account_row uid d \<noteq> None \<and> (\<forall>r \<in> set (sessions d). s_id r \<noteq> newId) \<longrightarrow>
       (\<exists>d1 r ems. create_or_load_session enc dec quiet uid body newId updId now d = (d1, r, ems) \<and> r \<noteq> Threw
          \<and> create_or_load_session enc dec quiet uid body againId updAgain againAt d1 = (d1, r, [])))"
proof (intro conjI impI)
  obtain d' r ems where run: "create_or_load_session enc dec w uid body newId updId now d = (d', r, ems)"
    by (cases "create_or_load_session enc dec w uid body newId updId now d")
  then show "case create_or_load_session enc dec w uid body newId updId now d of
      (d', Threw, ems) \<Rightarrow> ems = []
    | (d', Reply st j, ems) \<Rightarrow>
        (\<exists>s. Reply st j = session_reply enc s \<and> find_session_by_tag uid (sb_tag body) d' = Some s
           \<and> (ems = [] \<and> d' = interfere w 0 d
              \<or> s = new_session dec uid body newId now \<and> find_session_by_tag uid (sb_tag body) (interfere w 0 d) = None
                \<and> (\<exists>n. ems = [EmitUpdate uid (buildNewSessionUpdate enc s n updId now) UserScopedOnly])))"
    using create_or_load_cases [OF run] by (cases r) (auto simp: session_reply_def)
qed (rule create_then_load, auto)

theorem create_or_load_by_tag_witness:
  "\<exists>d1 r ems. create_or_load_session id id quiet ''u1'' \<lparr>sb_tag = ''z'', sb_metadata = ''m'', sb_agentState = None,
        sb_dataEncryptionKey = None\<rparr> ''s9'' ''e1'' 7 demo_sessions = (d1, r, ems) \<and> length ems = 1
     \<and> create_or_load_session id id quiet ''u1'' \<lparr>sb_tag = ''z'', sb_metadata = ''m'', sb_agentState = None,
        sb_dataEncryptionKey = None\<rparr> ''s10'' ''e2'' 8 d1 = (d1, r, [])"
proof -
  let ?b = "\<lparr>sb_tag = ''z'', sb_metadata = ''m'', sb_agentState = None, sb_dataEncryptionKey = None\<rparr>"
  have hyp: "account_row ''u1'' demo_sessions \<noteq> None" "\<forall>r \<in> set (sessions demo_sessions). s_id r \<noteq> ''s9''"
    by code_simp+
  have "length (snd (snd (create_or_load_session id id quiet ''u1'' ?b ''s9'' ''e1'' 7 demo_sessions))) = 1"
    by code_simp
  then show ?thesis
    using create_or_load_by_tag [where enc = id and dec = id and w = quiet and uid = "''u1''" and body = ?b
        and newId = "''s9''" and updId = "''e1''" and now = 7 and d = demo_sessions and updAgain = "''e2''"
        and againId = "''s10''" and againAt = 8] hyp
    by auto
qed

section \<open>Deletion\<close>

text \<open>No row of any table refers to the session.\<close>

definition session_gone :: "ident \<Rightarrow> db \<Rightarrow> bool" where
  "session_gone sid d =
     (session_row sid d = None
      \<and> (\<forall>m \<in> set (messages d). m_sessionId m \<noteq> sid)
      \<and> (\<forall>t \<in> set (retirements d). r_sessionId t \<noteq> sid)
      \<and> (\<forall>u \<in> set (usageReports d). u_sessionId u \<noteq> Some sid)
      \<and> (\<forall>k \<in> set (accessKeys d). k_sessionId k \<noteq> sid)
      \<and> (\<forall>x \<in> set (outbox d). o_sessionId x \<noteq> sid))"

text \<open>The rows of the other sessions.\<close>

definition others :: "ident \<Rightarrow> db \<Rightarrow> db" where
  "others sid d =
     d\<lparr>sessions := filter (\<lambda>r. s_id r \<noteq> sid) (sessions d),
       messages := filter (\<lambda>m. m_sessionId m \<noteq> sid) (messages d),
       retirements := filter (\<lambda>t. r_sessionId t \<noteq> sid) (retirements d),
       usageReports := filter (\<lambda>u. u_sessionId u \<noteq> Some sid) (usageReports d),
       accessKeys := filter (\<lambda>k. k_sessionId k \<noteq> sid) (accessKeys d),
       outbox := filter (\<lambda>x. o_sessionId x \<noteq> sid) (outbox d)\<rparr>"

text \<open>Every outbox row has the message of its session it announces.\<close>

definition outbox_linked :: "db \<Rightarrow> bool" where
  "outbox_linked d =
     (\<forall>x \<in> set (outbox d). \<exists>m \<in> set (messages d). m_id m = o_messageId x \<and> m_sessionId m = o_sessionId x)"

text \<open>
  C27.  Deleting a session is complete and isolated.  When the owner deletes a session, no row of
  any table refers to it afterwards (the cascades of the schema included) and every row of every
  other session, and every other table, is exactly as before; a call for a session that does not
  exist or belongs to another account answers 404 and changes nothing.
\<close>

theorem delete_complete_and_isolated:
  assumes "outbox_linked d" and "unique_by m_id (messages d)"
  shows "case delete_session_route uid sid d of
     (d', Reply st j) \<Rightarrow>
       (if \<exists>r \<in> set (sessions d). s_id r = sid \<and> s_accountId r = uid
        then st = 200 \<and> session_gone sid d' \<and> d' = others sid d
        else st = 404 \<and> d' = d)
   | (d', Threw) \<Rightarrow> False"
proof (cases "find_row (\<lambda>r. s_id r = sid \<and> s_accountId r = uid) (sessions d)")
  case None
  then have "sessionDelete uid sid d = (d, False)" by (simp add: sessionDelete_def)
  moreover have "\<not> (\<exists>r \<in> set (sessions d). s_id r = sid \<and> s_accountId r = uid)"
    using None by (auto simp: find_row_None_iff)
  ultimately show ?thesis by (simp add: delete_session_route_def)
next
  case (Some r)
  have outbox: "(\<exists>m \<in> set (messages d). m_sessionId m = sid \<and> m_id m = o_messageId x) \<longleftrightarrow> o_sessionId x = sid"
    if "x \<in> set (outbox d)" for x
    using assms(1) that unique_by_eq [OF assms(2)] unfolding outbox_linked_def by metis
  have keep: "delete_rows (\<lambda>x. \<exists>m \<in> set (messages d). m_sessionId m = sid \<and> m_id m = o_messageId x) (outbox d)
      = filter (\<lambda>x. o_sessionId x \<noteq> sid) (outbox d)"
    unfolding delete_rows_def using outbox by (intro filter_cong) auto
  have "fst (sessionDelete uid sid d) = others sid d"
    using Some keep
    by (simp add: sessionDelete_def Let_def delete_messages_def delete_session_row_def others_def delete_rows_def)
  moreover have "snd (sessionDelete uid sid d)" using Some by (simp add: sessionDelete_def Let_def)
  ultimately have "sessionDelete uid sid d = (others sid d, True)" by (cases "sessionDelete uid sid d") auto
  moreover have "session_gone sid (others sid d)"
    by (auto simp: session_gone_def others_def session_row_def find_row_None_iff)
  moreover have "\<exists>r \<in> set (sessions d). s_id r = sid \<and> s_accountId r = uid"
    using find_row_SomeD [OF Some] by blast
  ultimately show ?thesis by (simp add: delete_session_route_def)
qed

theorem delete_complete_and_isolated_witness:
  "session_gone ''s1'' (fst (delete_session_route ''u1'' ''s1'' demo_sessions))
   \<and> map s_id (sessions (fst (delete_session_route ''u1'' ''s1'' demo_sessions))) = [''s2'', ''s3'', ''s4'']"
proof -
  have hyp: "outbox_linked demo_sessions" "unique_by m_id (messages demo_sessions)"
    "\<exists>r \<in> set (sessions demo_sessions). s_id r = ''s1'' \<and> s_accountId r = ''u1''"
    by code_simp+
  have "map s_id (sessions (others ''s1'' demo_sessions)) = [''s2'', ''s3'', ''s4'']" by code_simp
  then show ?thesis
    using delete_complete_and_isolated [OF hyp(1,2), where uid = "''u1''" and sid = "''s1''"] hyp(3)
    by (auto split: prod.splits reply.splits)
qed

section \<open>The timeout sweep\<close>

definition idle_session :: "ts \<Rightarrow> session \<Rightarrow> bool" where
  "idle_session now r = (s_active r \<and> s_lastActiveAt r \<le> now - TIMEOUT_MS)"

definition idle_machine :: "ts \<Rightarrow> machine \<Rightarrow> bool" where
  "idle_machine now c = (c_active c \<and> c_lastActiveAt c \<le> now - TIMEOUT_MS)"

definition idle_activity :: "session \<Rightarrow> activity" where
  "idle_activity r = \<lparr>ac_userId = s_accountId r, ac_sessionId = s_id r, ac_active = False,
     ac_activeAt = s_lastActiveAt r, ac_thinking = False\<rparr>"

definition idle_emission :: "machine \<Rightarrow> emission" where
  "idle_emission c = EmitEphemeral (c_accountId c)
     (buildMachineActivityEphemeral (c_id c) False (c_lastActiveAt c)) UserScopedOnly"

lemma timeout_sessions_acts:
  assumes "timeout_sessions w k cutoff clk ss d = (d', acts, ok)"
  shows "\<forall>a \<in> set acts. ac_activeAt a \<le> cutoff \<and> \<not> ac_active a"
  using assms
proof (induction ss arbitrary: k d acts)
  case (Cons s ss)
  have hit: "\<forall>u \<in> set us. s_lastActiveAt u \<le> cutoff"
    if "db_call w k (timeout_session_cas (s_id s) cutoff (clk k)) d = (d1, Some us)" for d1 us
    using that by (cases rule: db_call_cases [of w k "timeout_session_cas (s_id s) cutoff (clk k)" d])
      (auto simp: timeout_session_cas_def Let_def)
  show ?case
    using Cons.prems Cons.IH hit
    by (force split: prod.splits option.splits list.splits)
qed simp

lemma timeout_sessions_quiet:
  assumes "unique_by s_id (sessions d)" and "set ss \<subseteq> {r \<in> set (sessions d). s_active r \<and> s_lastActiveAt r \<le> cutoff}"
    and "unique_by s_id ss"
  shows "timeout_sessions quiet k cutoff (\<lambda>_. now) ss d =
    (d\<lparr>sessions := update_rows (\<lambda>r. s_id r \<in> s_id ` set ss \<and> s_active r \<and> s_lastActiveAt r \<le> cutoff)
         (\<lambda>r. r\<lparr>s_active := False, s_updatedAt := now\<rparr>) (sessions d)\<rparr>, map idle_activity ss, True)"
  using assms
proof (induction ss arbitrary: k d)
  case Nil
  then show ?case by (simp add: update_rows_noop)
next
  case (Cons s ss)
  let ?P = "\<lambda>r. s_id r = s_id s \<and> s_active r \<and> s_lastActiveAt r \<le> cutoff"
  let ?f = "\<lambda>r. r\<lparr>s_active := False, s_updatedAt := now\<rparr>"
  let ?d1 = "d\<lparr>sessions := update_rows ?P ?f (sessions d)\<rparr>"
  have one: "timeout_session_cas (s_id s) cutoff now d = (?d1, [?f s])"
    using filter_id [of s_id "sessions d" s "\<lambda>r. s_active r \<and> s_lastActiveAt r \<le> cutoff"] Cons.prems
    by (simp add: timeout_session_cas_def Let_def)
  have "r \<in> set (sessions ?d1)" if r: "r \<in> set ss" for r
  proof -
    have "s_id r \<noteq> s_id s" using Cons.prems(3) r by (auto simp: image_iff)
    then have "r = (if ?P r then ?f r else r)" by simp
    moreover have "r \<in> set (sessions d)" using Cons.prems(2) r by auto
    ultimately have "r \<in> (\<lambda>r. if ?P r then ?f r else r) ` set (sessions d)" by (rule image_eqI)
    then show ?thesis by (simp add: set_update_rows)
  qed
  then have sub: "set ss \<subseteq> {r \<in> set (sessions ?d1). s_active r \<and> s_lastActiveAt r \<le> cutoff}"
    using Cons.prems(2) by auto
  have "unique_by s_id (sessions ?d1)" using Cons.prems(1) by auto
  from Cons.IH [OF this sub] Cons.prems(3)
  have rest: "timeout_sessions quiet (k + 1) cutoff (\<lambda>_. now) ss ?d1 =
    (?d1\<lparr>sessions := update_rows (\<lambda>r. s_id r \<in> s_id ` set ss \<and> s_active r \<and> s_lastActiveAt r \<le> cutoff) ?f (sessions ?d1)\<rparr>,
     map idle_activity ss, True)" by simp
  have "update_rows (\<lambda>r. s_id r \<in> s_id ` set ss \<and> s_active r \<and> s_lastActiveAt r \<le> cutoff) ?f (update_rows ?P ?f rs)
      = update_rows (\<lambda>r. s_id r \<in> s_id ` set (s # ss) \<and> s_active r \<and> s_lastActiveAt r \<le> cutoff) ?f rs" for rs :: "session list"
    by (subst update_rows_twice) (auto intro: update_rows_cong)
  with one rest show ?case by (simp add: idle_activity_def)
qed

lemma timeout_machines_quiet:
  assumes "unique_by c_id (machines d)" and "set cs \<subseteq> {c \<in> set (machines d). c_active c}" and "unique_by c_id cs"
  shows "timeout_machines quiet k (\<lambda>_. now) cs d =
    (d\<lparr>machines := update_rows (\<lambda>c. c_id c \<in> c_id ` set cs \<and> c_active c)
         (\<lambda>c. c\<lparr>c_active := False, c_updatedAt := now\<rparr>) (machines d)\<rparr>, map idle_emission cs, True)"
  using assms
proof (induction cs arbitrary: k d)
  case Nil
  then show ?case by (simp add: update_rows_noop)
next
  case (Cons c cs)
  let ?P = "\<lambda>r. c_id r = c_id c \<and> c_active r"
  let ?f = "\<lambda>r. r\<lparr>c_active := False, c_updatedAt := now\<rparr>"
  let ?d1 = "d\<lparr>machines := update_rows ?P ?f (machines d)\<rparr>"
  have one: "timeout_machine_cas (c_id c) now d = (?d1, [?f c])"
    using filter_id [of c_id "machines d" c c_active] Cons.prems by (simp add: timeout_machine_cas_def Let_def)
  have "r \<in> set (machines ?d1)" if r: "r \<in> set cs" for r
  proof -
    have "c_id r \<noteq> c_id c" using Cons.prems(3) r by (auto simp: image_iff)
    then have "r = (if ?P r then ?f r else r)" by simp
    moreover have "r \<in> set (machines d)" using Cons.prems(2) r by auto
    ultimately have "r \<in> (\<lambda>r. if ?P r then ?f r else r) ` set (machines d)" by (rule image_eqI)
    then show ?thesis by (simp add: set_update_rows)
  qed
  then have sub: "set cs \<subseteq> {r \<in> set (machines ?d1). c_active r}" using Cons.prems(2) by auto
  have "unique_by c_id (machines ?d1)" using Cons.prems(1) by auto
  from Cons.IH [OF this sub] Cons.prems(3)
  have rest: "timeout_machines quiet (k + 1) (\<lambda>_. now) cs ?d1 =
    (?d1\<lparr>machines := update_rows (\<lambda>r. c_id r \<in> c_id ` set cs \<and> c_active r) ?f (machines ?d1)\<rparr>,
     map idle_emission cs, True)" by simp
  have "update_rows (\<lambda>r. c_id r \<in> c_id ` set cs \<and> c_active r) ?f (update_rows ?P ?f rs)
      = update_rows (\<lambda>r. c_id r \<in> c_id ` set (c # cs) \<and> c_active r) ?f rs" for rs :: "machine list"
    by (subst update_rows_twice) (auto intro: update_rows_cong)
  with one rest show ?case by (simp add: idle_emission_def)
qed

text \<open>
  One round of the timeout sweep.  Whatever other requests do meanwhile, every session it
  reports as inactive had been idle for ten minutes at the instant of its write: a heartbeat that
  arrives between the select and the write wins.  Without interference the round deactivates
  exactly the idle sessions and the idle machines, reports each of them once, and touches nothing
  else.
\<close>

theorem timeout_round_exact:
  assumes "unique_by s_id (sessions d)" and "unique_by c_id (machines d)"
  shows "(case timeout_round w clk d of (d', acts, ems, ok) \<Rightarrow>
       \<forall>a \<in> set acts. ac_activeAt a \<le> clk 0 - TIMEOUT_MS \<and> \<not> ac_active a)
   \<and> timeout_round quiet (\<lambda>_. now) d =
      (d\<lparr>sessions := update_rows (idle_session now) (\<lambda>r. r\<lparr>s_active := False, s_updatedAt := now\<rparr>) (sessions d),
         machines := update_rows (idle_machine now) (\<lambda>c. c\<lparr>c_active := False, c_updatedAt := now\<rparr>) (machines d)\<rparr>,
       map idle_activity (filter (idle_session now) (sessions d)),
       map idle_emission (filter (idle_machine now) (machines d)), True)"
proof
  show "case timeout_round w clk d of (d', acts, ems, ok) \<Rightarrow>
       \<forall>a \<in> set acts. ac_activeAt a \<le> clk 0 - TIMEOUT_MS \<and> \<not> ac_active a"
    unfolding timeout_round_def Let_def
    by (auto split: prod.splits option.splits bool.splits dest!: timeout_sessions_acts)
next
  let ?ss = "filter (idle_session now) (sessions d)" and ?cs = "filter (idle_machine now) (machines d)"
  let ?d1 = "d\<lparr>sessions := update_rows (idle_session now) (\<lambda>r. r\<lparr>s_active := False, s_updatedAt := now\<rparr>) (sessions d)\<rparr>"
  have "update_rows (\<lambda>r. s_id r \<in> s_id ` set ?ss \<and> s_active r \<and> s_lastActiveAt r \<le> now - TIMEOUT_MS) f (sessions d)
      = update_rows (idle_session now) f (sessions d)" for f
    by (rule update_rows_cong) (auto simp: selected_ids [OF assms(1)] idle_session_def simp del: set_filter)
  then have ses: "timeout_sessions quiet 1 (now - TIMEOUT_MS) (\<lambda>_. now) ?ss d = (?d1, map idle_activity ?ss, True)"
    using timeout_sessions_quiet [OF assms(1), of ?ss "now - TIMEOUT_MS" 1 now] unique_by_filter [OF assms(1)]
    by (auto simp: idle_session_def [abs_def])
  have "update_rows (\<lambda>r. c_id r \<in> c_id ` set ?cs \<and> c_active r) f (machines d)
      = update_rows (idle_machine now) f (machines d)" for f
    by (rule update_rows_cong) (auto simp: selected_ids [OF assms(2)] idle_machine_def simp del: set_filter)
  then have mac: "timeout_machines quiet k (\<lambda>_. now) ?cs ?d1 =
      (?d1\<lparr>machines := update_rows (idle_machine now) (\<lambda>c. c\<lparr>c_active := False, c_updatedAt := now\<rparr>) (machines d)\<rparr>,
       map idle_emission ?cs, True)" for k
    using timeout_machines_quiet [of ?d1 ?cs k now] assms(2) unique_by_filter [OF assms(2)]
    by (auto simp: idle_machine_def [abs_def])
  show "timeout_round quiet (\<lambda>_. now) d =
      (d\<lparr>sessions := update_rows (idle_session now) (\<lambda>r. r\<lparr>s_active := False, s_updatedAt := now\<rparr>) (sessions d),
         machines := update_rows (idle_machine now) (\<lambda>c. c\<lparr>c_active := False, c_updatedAt := now\<rparr>) (machines d)\<rparr>,
       map idle_activity ?ss, map idle_emission ?cs, True)"
    using ses mac by (simp add: timeout_round_def Let_def idle_session_def [abs_def] idle_machine_def [abs_def])
qed

theorem timeout_round_exact_witness:
  "map ac_sessionId (fst (snd (timeout_round quiet (\<lambda>_. 100 + TIMEOUT_MS) demo_sessions))) = [''s1'', ''s2'', ''s3'', ''s4'']"
proof -
  have hyp: "unique_by s_id (sessions demo_sessions)" "unique_by c_id (machines demo_sessions)" by code_simp+
  have "map ac_sessionId (map idle_activity (filter (idle_session (100 + TIMEOUT_MS)) (sessions demo_sessions)))
      = [''s1'', ''s2'', ''s3'', ''s4'']"
    by code_simp
  with timeout_round_exact [OF hyp, where now = "100 + TIMEOUT_MS"] show ?thesis by simp
qed

end
