(* ===== verification/ActivityPublisher.thy ===== *)
theory ActivityPublisher
  imports SessionStore Text "HOL-Library.AList"
begin

text \<open>
  The coalescing publisher of session activity, \<^verbatim>\<open>app/presence/sessionActivityPublisher.ts\<close>: the
  first observation and every change of state are emitted at once, an unchanged state only after
  the refresh interval; idle entries are dropped.  The clock is an argument of each call.
\<close>

section \<open>The activity publisher\<close>

record activity_state =
  st_active :: bool
  st_thinking :: bool
  st_lastPublishedAt :: ts
  st_lastObservedAt :: ts

record publisher =
  pb_states :: "(string \<times> activity_state) list"
  pb_refreshIntervalMs :: int
  pb_staleEntryTtlMs :: int
  pb_lastCleanupAt :: ts

definition new_publisher :: "int option \<Rightarrow> int option \<Rightarrow> ts \<Rightarrow> publisher option" where
  "new_publisher refreshIntervalMs staleEntryTtlMs now =
     (let refresh = (case refreshIntervalMs of None \<Rightarrow> 30000 | Some n \<Rightarrow> n);
          ttl = (case staleEntryTtlMs of None \<Rightarrow> 20 * 60000 | Some n \<Rightarrow> n)
      in if refresh \<le> 0 \<or> ttl \<le> refresh then None
         else Some \<lparr>pb_states = [], pb_refreshIntervalMs = refresh, pb_staleEntryTtlMs = ttl,
                    pb_lastCleanupAt = now\<rparr>)"

definition publisher_key :: "ident \<Rightarrow> ident \<Rightarrow> string" where
  "publisher_key userId sessionId = show_nat (length userId) @ '':'' @ userId @ sessionId"

definition cleanupIfNeeded :: "ts \<Rightarrow> publisher \<Rightarrow> publisher" where
  "cleanupIfNeeded observedAt p =
     (if observedAt - pb_lastCleanupAt p < pb_staleEntryTtlMs p then p
      else p\<lparr>pb_lastCleanupAt := observedAt,
             pb_states := filter (\<lambda>(k, st). \<not> observedAt - st_lastObservedAt st \<ge> pb_staleEntryTtlMs p) (pb_states p)\<rparr>)"

datatype publish_reason = First | StateChange | Refresh

definition publish_activity :: "ts \<Rightarrow> activity \<Rightarrow> publisher \<Rightarrow> publisher \<times> emission list \<times> bool" where
  "publish_activity observedAt ac p =
     (let p1 = cleanupIfNeeded observedAt p;
          key = publisher_key (ac_userId ac) (ac_sessionId ac);
          previous = map_of (pb_states p1) key;
          reason = (case previous of
                      None \<Rightarrow> Some First
                    | Some st \<Rightarrow>
                        if st_active st \<noteq> ac_active ac \<or> st_thinking st \<noteq> ac_thinking ac then Some StateChange
                        else if observedAt - st_lastPublishedAt st \<ge> pb_refreshIntervalMs p1 then Some Refresh
                        else None)
      in case reason of
           None \<Rightarrow> (p1\<lparr>pb_states := AList.update key ((the previous)\<lparr>st_lastObservedAt := observedAt\<rparr>) (pb_states p1)\<rparr>, [], False)
         | Some _ \<Rightarrow>
             (p1\<lparr>pb_states := AList.update key
                    \<lparr>st_active = ac_active ac, st_thinking = ac_thinking ac,
                     st_lastPublishedAt = observedAt, st_lastObservedAt = observedAt\<rparr> (pb_states p1)\<rparr>,
              [EmitEphemeral (ac_userId ac)
                 (buildSessionActivityEphemeral (ac_sessionId ac) (ac_active ac) (ac_activeAt ac) (ac_thinking ac))
                 UserScopedOnly],
              True))"

fun publish_run :: "(ts \<times> activity) list \<Rightarrow> publisher \<Rightarrow> publisher \<times> (ts \<times> activity) list" where
  "publish_run [] p = (p, [])"
| "publish_run ((t, ac) # xs) p =
     (case publish_activity t ac p of
        (p1, ems, published) \<Rightarrow>
          (case publish_run xs p1 of (p2, out) \<Rightarrow> (p2, if published then (t, ac) # out else out)))"

section \<open>Keys\<close>

lemma colon_not_digit: "\<not> is_digit (CHR '':'')"
  by (simp add: is_digit_def)

lemma publisher_key_inj:
  "publisher_key u s = publisher_key u' s' \<longleftrightarrow> u = u' \<and> s = s'"
proof
  assume eq: "publisher_key u s = publisher_key u' s'"
  have digits: "takeWhile is_digit (show_nat n @ CHR '':'' # xs) = show_nat n" for n xs
    using digits_show_nat by (subst takeWhile_append2) (auto simp: colon_not_digit)
  have len: "show_nat (length u) = show_nat (length u')"
    using arg_cong [OF eq, of "takeWhile is_digit"] by (simp add: publisher_key_def digits)
  then have "length u = length u'" by (metis read_show_nat)
  with eq len show "u = u' \<and> s = s'" by (simp add: publisher_key_def)
qed simp

section \<open>What subscribers see\<close>

text \<open>The observations (or publications) of one session.\<close>

definition of_session :: "ident \<Rightarrow> ident \<Rightarrow> (ts \<times> activity) list \<Rightarrow> (ts \<times> activity) list" where
  "of_session u s xs = filter (\<lambda>(t, ac). ac_userId ac = u \<and> ac_sessionId ac = s) xs"

definition same_state :: "activity \<Rightarrow> activity \<Rightarrow> bool" where
  "same_state a b = (ac_active a = ac_active b \<and> ac_thinking a = ac_thinking b)"

text \<open>
  After the observations \<open>xs\<close> with the publications \<open>out\<close>: the last publication of the session
  shows the last observed state and is younger than the refresh interval; what the publisher
  remembers of the session are the times of both; what it forgot was observed a while ago.
\<close>

definition remembers :: "publisher \<Rightarrow> activity_state option \<Rightarrow> ts \<times> activity \<Rightarrow> ts \<Rightarrow> bool" where
  "remembers p st x published =
     (case st of
        None \<Rightarrow> fst x + pb_staleEntryTtlMs p \<le> pb_lastCleanupAt p
      | Some st \<Rightarrow> st = \<lparr>st_active = ac_active (snd x), st_thinking = ac_thinking (snd x),
                       st_lastPublishedAt = published, st_lastObservedAt = fst x\<rparr>)"

definition view_ok :: "ident \<Rightarrow> ident \<Rightarrow> (ts \<times> activity) list \<Rightarrow> (ts \<times> activity) list \<Rightarrow> publisher \<Rightarrow> bool" where
  "view_ok u s xs out p =
     (let seen = of_session u s xs; shown = of_session u s out; st = map_of (pb_states p) (publisher_key u s)
      in if seen = [] then shown = [] \<and> st = None
         else shown \<noteq> [] \<and> same_state (snd (last shown)) (snd (last seen))
            \<and> fst (last shown) \<le> fst (last seen)
            \<and> fst (last seen) - fst (last shown) < pb_refreshIntervalMs p
            \<and> remembers p st (last seen) (fst (last shown)))"

definition spaced :: "int \<Rightarrow> (ts \<times> activity) list \<Rightarrow> bool" where
  "spaced r out = successively (\<lambda>(t, a) (t', a'). \<not> same_state a a' \<or> t' - t \<ge> r) out"

lemma publish_run_append:
  "publish_run (xs @ ys) p =
     (case publish_run xs p of (p1, out1) \<Rightarrow> case publish_run ys p1 of (p2, out2) \<Rightarrow> (p2, out1 @ out2))"
  by (induction xs p rule: publish_run.induct) (auto split: prod.splits)

definition publisher_ok :: "ts \<Rightarrow> publisher \<Rightarrow> bool" where
  "publisher_ok t p =
     (distinct (map fst (pb_states p)) \<and> 0 < pb_refreshIntervalMs p
    \<and> pb_refreshIntervalMs p < pb_staleEntryTtlMs p \<and> pb_lastCleanupAt p \<le> t)"

lemma cleanup_params [simp]:
  "pb_refreshIntervalMs (cleanupIfNeeded t p) = pb_refreshIntervalMs p"
  "pb_staleEntryTtlMs (cleanupIfNeeded t p) = pb_staleEntryTtlMs p"
  by (simp_all add: cleanupIfNeeded_def)

lemma publisher_cleanup_ok: "publisher_ok t p \<Longrightarrow> publisher_ok t (cleanupIfNeeded t p)"
  by (auto simp: publisher_ok_def cleanupIfNeeded_def distinct_map_filter)

lemma map_of_filter:
  assumes "distinct (map fst m)"
  shows "map_of (filter (\<lambda>(k, v). P v) m) k =
     (case map_of m k of None \<Rightarrow> None | Some v \<Rightarrow> if P v then Some v else None)"
  using assms
proof (induction m)
  case (Cons x m)
  then have "fst x \<notin> fst ` set m" by simp
  then have "map_of m (fst x) = None" by (simp add: map_of_eq_None_iff)
  with Cons show ?case by (cases x) (auto split: option.splits)
qed simp

lemma cleanup_lookup:
  assumes "publisher_ok t p"
  shows "map_of (pb_states (cleanupIfNeeded t p)) k =
     (if t - pb_lastCleanupAt p < pb_staleEntryTtlMs p then map_of (pb_states p) k
      else case map_of (pb_states p) k of
             None \<Rightarrow> None
           | Some st \<Rightarrow> if t - st_lastObservedAt st < pb_staleEntryTtlMs p then Some st else None)"
  using assms map_of_filter [of "pb_states p" "\<lambda>st. \<not> t - st_lastObservedAt st \<ge> pb_staleEntryTtlMs p" k]
  by (auto simp: cleanupIfNeeded_def publisher_ok_def split: option.splits)

lemma cleanup_view:
  assumes "publisher_ok t p" and "view_ok u s xs out p"
  shows "view_ok u s xs out (cleanupIfNeeded t p)"
proof -
  have "remembers (cleanupIfNeeded t p) (map_of (pb_states (cleanupIfNeeded t p)) k) x t'"
    if "remembers p (map_of (pb_states p) k) x t'" for k x t'
    using that assms(1) unfolding cleanup_lookup [OF assms(1)]
    by (cases "map_of (pb_states p) k")
      (auto simp: remembers_def cleanupIfNeeded_def publisher_ok_def simp del: map_of_eq_Some_iff)
  then show ?thesis
    using assms(2) by (auto simp: view_ok_def Let_def cleanup_lookup [OF assms(1)] split: if_splits)
qed

lemma of_session_snoc:
  "of_session u s (xs @ [(t, ac)]) =
     (if ac_userId ac = u \<and> ac_sessionId ac = s then of_session u s xs @ [(t, ac)] else of_session u s xs)"
  by (simp add: of_session_def)

lemma of_session_time: "(\<And>y. y \<in> set xs \<Longrightarrow> fst y \<le> t) \<Longrightarrow> of_session u s xs \<noteq> [] \<Longrightarrow> fst (last (of_session u s xs)) \<le> t"
  using last_in_set [of "of_session u s xs"] by (auto simp: of_session_def)

lemma publish_params:
  assumes "publisher_ok t p" and "publish_activity t ac p = (p', ems, b)"
  shows "publisher_ok t p' \<and> pb_refreshIntervalMs p' = pb_refreshIntervalMs p"
  using assms publisher_cleanup_ok [OF assms(1)]
  by (auto simp: publish_activity_def publisher_ok_def distinct_update Let_def split: option.splits)

text \<open>One observation after the cleanup.\<close>

lemma publish_view:
  assumes "publisher_ok t p" and "view_ok u s xs out p" and "spaced (pb_refreshIntervalMs p) (of_session u s out)"
    and times: "\<And>y. y \<in> set xs \<Longrightarrow> fst y \<le> t" and "publish_activity t ac p = (p', ems, b)"
  shows "view_ok u s (xs @ [(t, ac)]) (out @ (if b then [(t, ac)] else [])) p'
     \<and> spaced (pb_refreshIntervalMs p) (of_session u s (out @ (if b then [(t, ac)] else [])))"
proof -
  let ?p = "cleanupIfNeeded t p" and ?key = "publisher_key (ac_userId ac) (ac_sessionId ac)"
  note ok = publisher_cleanup_ok [OF assms(1)] and view = cleanup_view [OF assms(1,2)]
  show ?thesis
  proof (cases "ac_userId ac = u \<and> ac_sessionId ac = s")
    case False
    then have "map_of (pb_states p') (publisher_key u s) = map_of (pb_states ?p) (publisher_key u s)"
      using assms(5) by (auto simp: publish_activity_def Let_def update_conv' publisher_key_inj split: option.splits if_splits)
    moreover have "pb_refreshIntervalMs p' = pb_refreshIntervalMs ?p" "pb_staleEntryTtlMs p' = pb_staleEntryTtlMs ?p"
      "pb_lastCleanupAt p' = pb_lastCleanupAt ?p"
      using assms(5) by (auto simp: publish_activity_def Let_def split: option.splits if_splits)
    moreover have "of_session u s (out @ (if b then [(t, ac)] else [])) = of_session u s out"
      "of_session u s (xs @ [(t, ac)]) = of_session u s xs"
      using False by (auto simp: of_session_def)
    ultimately show ?thesis
      using view assms(3) by (auto simp: view_ok_def remembers_def Let_def split: if_splits cong: option.case_cong)
  next
    case True
    let ?st = "map_of (pb_states ?p) (publisher_key u s)"
    let ?seen = "of_session u s xs" and ?shown = "of_session u s out"
    have r: "pb_refreshIntervalMs p = pb_refreshIntervalMs ?p" by simp
    have late: "fst (last ?seen) \<le> t" if "?seen \<noteq> []" using of_session_time [of xs t u s] times that by simp
    consider (published) "b" "?st = None \<or> (\<exists>st. ?st = Some st \<and> (st_active st \<noteq> ac_active ac \<or> st_thinking st \<noteq> ac_thinking ac
              \<or> t - st_lastPublishedAt st \<ge> pb_refreshIntervalMs ?p))"
          "p' = ?p\<lparr>pb_states := AList.update (publisher_key u s)
              \<lparr>st_active = ac_active ac, st_thinking = ac_thinking ac, st_lastPublishedAt = t, st_lastObservedAt = t\<rparr> (pb_states ?p)\<rparr>"
      | (coalesced) st where "\<not> b" "?st = Some st" "st_active st = ac_active ac" "st_thinking st = ac_thinking ac"
          "t - st_lastPublishedAt st < pb_refreshIntervalMs ?p"
          "p' = ?p\<lparr>pb_states := AList.update (publisher_key u s) (st\<lparr>st_lastObservedAt := t\<rparr>) (pb_states ?p)\<rparr>"
      using assms(5) True by (auto simp: publish_activity_def Let_def split: option.splits if_splits)
    then show ?thesis
    proof cases
      case published
      have gap: "\<not> same_state (snd (last ?shown)) ac \<or> t - fst (last ?shown) \<ge> pb_refreshIntervalMs ?p" if "?shown \<noteq> []"
        using view published(2) that late ok
        by (cases ?st) (auto simp: view_ok_def remembers_def Let_def same_state_def publisher_ok_def split: if_splits)
      show ?thesis
        unfolding r using published(1,3) gap assms(3) ok True
        by (auto simp: view_ok_def remembers_def of_session_snoc update_conv' same_state_def publisher_ok_def
            spaced_def successively_append_iff Let_def split: prod.splits)
    next
      case coalesced
      then show ?thesis
        using view True assms(3) late
        by (auto simp: view_ok_def remembers_def of_session_snoc update_conv' same_state_def Let_def split: if_splits)
    qed
  qed
qed

lemma run_view:
  assumes "publisher_ok start p" and "sorted (start # map fst xs)" and "pb_states p = []"
    and "publish_run xs p = (p', out)"
  shows "publisher_ok (last (start # map fst xs)) p' \<and> pb_refreshIntervalMs p' = pb_refreshIntervalMs p
     \<and> view_ok u s xs out p' \<and> spaced (pb_refreshIntervalMs p) (of_session u s out)"
  using assms(2,4)
proof (induction xs arbitrary: p' out rule: rev_induct)
  case Nil
  then show ?case using assms(1,3) by (auto simp: view_ok_def spaced_def of_session_def)
next
  case (snoc x xs)
  obtain t ac where x: "x = (t, ac)" by (cases x)
  obtain p1 out1 where run: "publish_run xs p = (p1, out1)" by fastforce
  obtain ems b where step: "publish_activity t ac p1 = (p', ems, b)"
    and out: "out = out1 @ (if b then [(t, ac)] else [])"
    using snoc.prems(2) run x by (auto simp: publish_run_append split: prod.splits if_splits)
  have sorted: "sorted (start # map fst xs)" and upper: "\<And>y. y \<in> set (start # map fst xs) \<Longrightarrow> y \<le> t"
    using snoc.prems(1) x by (auto simp: sorted_append)
  note IH = snoc.IH [OF sorted run]
  have ok: "publisher_ok t p1"
    using IH upper [OF last_in_set [of "start # map fst xs"]] by (auto simp: publisher_ok_def simp del: last.simps)
  then show ?case
    using publish_view [OF ok _ _ _ step, of u s xs out1] IH upper publish_params [OF ok step] x out by auto
qed

text \<open>
  What subscribers are shown of a session is never out of date.  After any observations, in the
  order of the clock, of any number of sessions, the last activity published for an observed
  session has the active and thinking flags of the last observation, and was published less than
  one refresh interval before it; two consecutive publications with the same flags are at least
  one refresh interval apart.  This holds across the cleanup of idle entries.
\<close>

theorem publisher_view:
  assumes "new_publisher refresh ttl now = Some p" and "sorted (now # map fst xs)"
    and "publish_run xs p = (p', out)"
  shows "spaced (pb_refreshIntervalMs p) (of_session u s out)
     \<and> (of_session u s xs \<noteq> [] \<longrightarrow> of_session u s out \<noteq> []
        \<and> same_state (snd (last (of_session u s out))) (snd (last (of_session u s xs)))
        \<and> fst (last (of_session u s xs)) - fst (last (of_session u s out)) < pb_refreshIntervalMs p)"
proof -
  have "publisher_ok now p" "pb_states p = []"
    using assms(1) by (auto simp: new_publisher_def publisher_ok_def Let_def split: if_splits)
  from run_view [OF this(1) assms(2) this(2) assms(3), of u s] show ?thesis
    by (auto simp: view_ok_def Let_def)
qed

definition demo_activity :: "bool \<Rightarrow> activity" where
  "demo_activity thinking = \<lparr>ac_userId = ''u1'', ac_sessionId = ''s1'', ac_active = True, ac_activeAt = 5, ac_thinking = thinking\<rparr>"

definition demo_observations :: "(ts \<times> activity) list" where
  "demo_observations = [(10, demo_activity False), (20, demo_activity False), (30, demo_activity True), (31000, demo_activity True)]"

theorem publisher_view_witness:
  "map fst (snd (publish_run demo_observations (the (new_publisher None None 0)))) = [10, 30, 31000]
   \<and> same_state (snd (last (of_session ''u1'' ''s1'' (snd (publish_run demo_observations (the (new_publisher None None 0)))))))
        (demo_activity True)"
proof -
  let ?p = "the (new_publisher None None 0)"
  obtain p' out where run: "publish_run demo_observations ?p = (p', out)" by fastforce
  have new: "new_publisher None None 0 = Some ?p" by (simp add: new_publisher_def Let_def)
  have "map fst (snd (publish_run demo_observations ?p)) = [10, 30, 31000]"
    "sorted (0 # map fst demo_observations)" "of_session ''u1'' ''s1'' demo_observations \<noteq> []"
    "snd (last (of_session ''u1'' ''s1'' demo_observations)) = demo_activity True" by code_simp+
  with publisher_view [OF new _ run, of "''u1''" "''s1''"] run show ?thesis by auto
qed

end
