(* ===== verification/ActivityCache.thy ===== *)
theory ActivityCache
  imports SessionStore "HOL-Library.AList" "HOL-Library.Multiset"
begin

text \<open>
  Presence in memory: the write-behind cache of heartbeats, \<^verbatim>\<open>app/presence/sessionCache.ts\<close>.

  The cache is shared by all requests of the process, so it is a state machine whose events are
  the synchronous stretches of the code: a validation that returns from the database, a queued
  heartbeat, the start of a flush, the answer of the database to one write, the continuation of
  that write, the end of a batch, the cleanup timer, the shutdown.  The \<^verbatim>\<open>Map\<close>s are association
  lists in insertion order; entries are mutable objects compared by identity (\<^verbatim>\<open>===\<close>), so each
  carries the number of its allocation (\<open>en_ref\<close>).  Sessions and machines have the same code on
  different pending values: a record with the runtime instance for sessions, a number for
  machines.
\<close>

section \<open>Entries\<close>

definition CACHE_TTL_MS :: int where "CACHE_TTL_MS = 30000"
definition UPDATE_THRESHOLD_MS :: int where "UPDATE_THRESHOLD_MS = 30000"
definition DEFAULT_MAX_FLUSH_CONCURRENCY :: nat where "DEFAULT_MAX_FLUSH_CONCURRENCY = 8"

record 'p cache_entry =
  en_ref :: nat
  en_validUntil :: ts
  en_lastUpdateSent :: ts
  en_pendingUpdate :: "'p option"
  en_inFlightUpdate :: "'p option"
  en_userId :: ident

record session_pending =
  sp_timestamp :: ts
  sp_sessionInstanceId :: "ident option"

type_synonym session_entry = "session_pending cache_entry"
type_synonym machine_entry = "ts cache_entry"

definition same_instance :: "session_pending \<Rightarrow> session_pending \<Rightarrow> bool" where
  "same_instance p q = (sp_sessionInstanceId p = sp_sessionInstanceId q)"

definition any_machine :: "ts \<Rightarrow> ts \<Rightarrow> bool" where
  "any_machine p q = True"

text \<open>A mark that does not match counts as \<^verbatim>\<open>Number.NEGATIVE_INFINITY\<close>.\<close>

definition watermark ::
  "('p \<Rightarrow> ts) \<Rightarrow> ('p \<Rightarrow> 'p \<Rightarrow> bool) \<Rightarrow> 'p \<Rightarrow> 'p cache_entry \<Rightarrow> ts" where
  "watermark stamp matches x e =
     (let mark = (\<lambda>p. case p of None \<Rightarrow> [] | Some q \<Rightarrow> if matches q x then [stamp q] else [])
      in foldr max (mark (en_inFlightUpdate e) @ mark (en_pendingUpdate e)) (en_lastUpdateSent e))"

definition queue_entry ::
  "('p \<Rightarrow> ts) \<Rightarrow> ('p \<Rightarrow> 'p \<Rightarrow> bool) \<Rightarrow> 'p \<Rightarrow> 'p cache_entry \<Rightarrow> 'p cache_entry \<times> bool" where
  "queue_entry stamp matches x e =
     (if \<bar>stamp x - watermark stamp matches x e\<bar> > UPDATE_THRESHOLD_MS
       \<and> (case en_pendingUpdate e of None \<Rightarrow> True | Some p \<Rightarrow> stamp x \<ge> stamp p)
      then (e\<lparr>en_pendingUpdate := Some x\<rparr>, True)
      else (e, False))"

definition take_entry :: "'p cache_entry \<Rightarrow> ('p cache_entry \<times> 'p) option" where
  "take_entry e =
     (case (en_pendingUpdate e, en_inFlightUpdate e) of
        (Some p, None) \<Rightarrow> Some (e\<lparr>en_pendingUpdate := None, en_inFlightUpdate := Some p\<rparr>, p)
      | _ \<Rightarrow> None)"

text \<open>After a write that was applied.\<close>

definition settle_entry ::
  "('p \<Rightarrow> ts) \<Rightarrow> ('p \<Rightarrow> 'p \<Rightarrow> bool) \<Rightarrow> 'p \<Rightarrow> 'p cache_entry \<Rightarrow> 'p cache_entry" where
  "settle_entry stamp matches x e =
     (let e1 = e\<lparr>en_lastUpdateSent := max (en_lastUpdateSent e) (stamp x), en_inFlightUpdate := None\<rparr>
      in case en_pendingUpdate e1 of
           None \<Rightarrow> e1
         | Some p \<Rightarrow>
             if matches p x \<and> \<bar>stamp p - en_lastUpdateSent e1\<bar> \<le> UPDATE_THRESHOLD_MS
             then e1\<lparr>en_pendingUpdate := None\<rparr> else e1)"

text \<open>\<^verbatim>\<open>requeueFailedUpdate\<close> on the entry.\<close>

definition requeue_entry :: "'p \<Rightarrow> 'p cache_entry \<Rightarrow> 'p cache_entry" where
  "requeue_entry x e =
     (let e1 = e\<lparr>en_inFlightUpdate := None\<rparr>
      in if en_pendingUpdate e1 = None then e1\<lparr>en_pendingUpdate := Some x\<rparr> else e1)"

definition refresh_entry :: "ts \<Rightarrow> ts \<Rightarrow> 'p cache_entry \<Rightarrow> 'p cache_entry" where
  "refresh_entry now lastActiveAt e =
     e\<lparr>en_validUntil := now + CACHE_TTL_MS,
       en_lastUpdateSent := max (en_lastUpdateSent e) lastActiveAt\<rparr>"

definition fresh_entry :: "nat \<Rightarrow> ts \<Rightarrow> ts \<Rightarrow> ident \<Rightarrow> 'p cache_entry" where
  "fresh_entry ref now lastActiveAt userId =
     \<lparr>en_ref = ref, en_validUntil = now + CACHE_TTL_MS, en_lastUpdateSent = lastActiveAt,
      en_pendingUpdate = None, en_inFlightUpdate = None, en_userId = userId\<rparr>"

section \<open>The cache\<close>

type_synonym 'p entry_map = "(ident \<times> 'p cache_entry) list"

text \<open>One write of a flush: id of the row, entry it was taken from, value, owner.\<close>

record 'p update_item =
  ui_id :: ident
  ui_ref :: nat
  ui_value :: 'p
  ui_userId :: ident

datatype activity_update = SessionItem "session_pending update_item" | MachineItem "ts update_item"

datatype db_answer = Applied | MissingRecord | Rejected

text \<open>The batch \<^verbatim>\<open>runBounded\<close> works on: what no worker took yet, and what the workers await.\<close>

record flush_batch =
  fb_waiting :: "activity_update list"
  fb_running :: "(activity_update \<times> db_answer option) list"
  fb_failures :: nat

record activity_cache =
  sessionCache :: "session_pending entry_map"
  machineCache :: "ts entry_map"
  maxFlushConcurrency :: nat
  nextRef :: nat
  flushing :: "flush_batch option"
  flushAgain :: bool
  isShuttingDown :: bool
  batchTimer :: bool

text \<open>The constructor; \<open>None\<close> when it throws.\<close>

definition new_activity_cache :: "bool \<Rightarrow> int option \<Rightarrow> int option \<Rightarrow> activity_cache option" where
  "new_activity_cache autoStart batchIntervalMs maxConcurrency =
     (let interval = (case batchIntervalMs of None \<Rightarrow> 5000 | Some n \<Rightarrow> n);
          concurrency = (case maxConcurrency of None \<Rightarrow> int DEFAULT_MAX_FLUSH_CONCURRENCY | Some n \<Rightarrow> n)
      in if interval \<le> 0 \<or> concurrency \<le> 0 then None
         else Some \<lparr>sessionCache = [], machineCache = [], maxFlushConcurrency = nat concurrency,
                    nextRef = 0, flushing = None, flushAgain = False, isShuttingDown = False,
                    batchTimer = autoStart\<rparr>)"

subsection \<open>Validation\<close>

definition cache_hit :: "ts \<Rightarrow> ident \<Rightarrow> ident \<Rightarrow> 'p entry_map \<Rightarrow> bool" where
  "cache_hit now entryId userId m =
     (case map_of m entryId of
        None \<Rightarrow> False
      | Some e \<Rightarrow> en_validUntil e > now \<and> en_userId e = userId)"

text \<open>What happens to the map when the row was found; the flag tells that an entry was allocated.\<close>

definition validated_map ::
  "nat \<Rightarrow> ts \<Rightarrow> ident \<Rightarrow> ident \<Rightarrow> ts \<Rightarrow> 'p entry_map \<Rightarrow> 'p entry_map \<times> bool" where
  "validated_map ref now entryId userId lastActiveAt m =
     (case map_of m entryId of
        Some e \<Rightarrow> if en_userId e = userId
                  then (AList.update entryId (refresh_entry now lastActiveAt e) m, False)
                  else (AList.update entryId (fresh_entry ref now lastActiveAt userId) m, True)
      | None \<Rightarrow> (AList.update entryId (fresh_entry ref now lastActiveAt userId) m, True))"

definition session_validated :: "ts \<Rightarrow> ident \<Rightarrow> ident \<Rightarrow> session option \<Rightarrow> activity_cache \<Rightarrow> activity_cache \<times> bool" where
  "session_validated now sid userId row c =
     (case row of
        None \<Rightarrow> (c, False)
      | Some r \<Rightarrow>
          (case validated_map (nextRef c) now sid userId (s_lastActiveAt r) (sessionCache c) of
             (m, allocated) \<Rightarrow>
               (c\<lparr>sessionCache := m, nextRef := nextRef c + (if allocated then 1 else 0)\<rparr>, True)))"

definition machine_validated :: "ts \<Rightarrow> ident \<Rightarrow> ident \<Rightarrow> machine option \<Rightarrow> activity_cache \<Rightarrow> activity_cache \<times> bool" where
  "machine_validated now mid userId row c =
     (case row of
        None \<Rightarrow> (c, False)
      | Some r \<Rightarrow>
          (case validated_map (nextRef c) now mid userId (c_lastActiveAt r) (machineCache c) of
             (m, allocated) \<Rightarrow>
               (c\<lparr>machineCache := m, nextRef := nextRef c + (if allocated then 1 else 0)\<rparr>, True)))"

definition find_machine :: "ident \<Rightarrow> ident \<Rightarrow> db \<Rightarrow> machine option" where
  "find_machine userId mid d = find_row (\<lambda>r. c_accountId r = userId \<and> c_id r = mid) (machines d)"

text \<open>
  The whole calls.  The state is the cache with the database; what others do while the lookup is
  awaited is the interference of statement 0.
\<close>

type_synonym presence = "activity_cache \<times> db"

definition isSessionValid ::
  "presence sched \<Rightarrow> ts \<Rightarrow> ident \<Rightarrow> ident \<Rightarrow> presence \<Rightarrow> presence \<times> bool" where
  "isSessionValid w now sid userId s =
     (if cache_hit now sid userId (sessionCache (fst s)) then (s, True)
      else (case db_call w 0 (\<lambda>s. (s, find_row (\<lambda>r. s_id r = sid \<and> s_accountId r = userId) (sessions (snd s)))) s of
              (s1, None) \<Rightarrow> (s1, False)
            | (s1, Some row) \<Rightarrow>
                (case session_validated now sid userId row (fst s1) of
                   (c, valid) \<Rightarrow> ((c, snd s1), valid))))"

definition isMachineValid ::
  "presence sched \<Rightarrow> ts \<Rightarrow> ident \<Rightarrow> ident \<Rightarrow> presence \<Rightarrow> presence \<times> bool" where
  "isMachineValid w now mid userId s =
     (if cache_hit now mid userId (machineCache (fst s)) then (s, True)
      else (case db_call w 0 (\<lambda>s. (s, find_machine userId mid (snd s))) s of
              (s1, None) \<Rightarrow> (s1, False)
            | (s1, Some row) \<Rightarrow>
                (case machine_validated now mid userId row (fst s1) of
                   (c, valid) \<Rightarrow> ((c, snd s1), valid))))"

subsection \<open>Queueing\<close>

definition queueSessionUpdate :: "ident \<Rightarrow> ts \<Rightarrow> ident option \<Rightarrow> activity_cache \<Rightarrow> activity_cache \<times> bool" where
  "queueSessionUpdate sid timestamp inst c =
     (case map_of (sessionCache c) sid of
        None \<Rightarrow> (c, False)
      | Some e \<Rightarrow>
          if isShuttingDown c then (c, False)
          else (case queue_entry sp_timestamp same_instance
                       \<lparr>sp_timestamp = timestamp, sp_sessionInstanceId = inst\<rparr> e of
                  (e', queued) \<Rightarrow> (c\<lparr>sessionCache := AList.update sid e' (sessionCache c)\<rparr>, queued)))"

definition queueMachineUpdate :: "ident \<Rightarrow> ts \<Rightarrow> activity_cache \<Rightarrow> activity_cache \<times> bool" where
  "queueMachineUpdate mid timestamp c =
     (case map_of (machineCache c) mid of
        None \<Rightarrow> (c, False)
      | Some e \<Rightarrow>
          if isShuttingDown c then (c, False)
          else (case queue_entry id any_machine timestamp e of
                  (e', queued) \<Rightarrow> (c\<lparr>machineCache := AList.update mid e' (machineCache c)\<rparr>, queued)))"

subsection \<open>Flushing\<close>

fun take_map :: "'p entry_map \<Rightarrow> 'p entry_map \<times> 'p update_item list" where
  "take_map [] = ([], [])"
| "take_map ((k, e) # m) =
     (case take_map m of
        (m', items) \<Rightarrow>
          (case take_entry e of
             None \<Rightarrow> ((k, e) # m', items)
           | Some (e', p) \<Rightarrow>
               ((k, e') # m',
                \<lparr>ui_id = k, ui_ref = en_ref e, ui_value = p, ui_userId = en_userId e\<rparr> # items)))"

definition takePendingUpdates :: "activity_cache \<Rightarrow> activity_cache \<times> activity_update list" where
  "takePendingUpdates c =
     (case take_map (sessionCache c) of (sm, sitems) \<Rightarrow>
      case take_map (machineCache c) of (mm, mitems) \<Rightarrow>
        (c\<lparr>sessionCache := sm, machineCache := mm\<rparr>, map SessionItem sitems @ map MachineItem mitems))"

text \<open>One pass of the loop: \<^verbatim>\<open>runBounded\<close> starts as many workers as the concurrency allows.\<close>

definition start_batch :: "activity_cache \<Rightarrow> activity_cache" where
  "start_batch c =
     (case takePendingUpdates (c\<lparr>flushAgain := False\<rparr>) of
        (c1, updates) \<Rightarrow>
          c1\<lparr>flushing := Some \<lparr>fb_waiting = drop (maxFlushConcurrency c) updates,
                fb_running = map (\<lambda>u. (u, None)) (take (maxFlushConcurrency c) updates),
                fb_failures = 0\<rparr>\<rparr>)"

definition flushPendingUpdates :: "activity_cache \<Rightarrow> activity_cache" where
  "flushPendingUpdates c =
     (if flushing c \<noteq> None then c\<lparr>flushAgain := True\<rparr> else start_batch c)"

text \<open>
  The statement of \<^verbatim>\<open>persistUpdate\<close>.  A rejected statement may or may not have been applied.
  \<^verbatim>\<open>updateMany\<close> reports no missing row, \<^verbatim>\<open>update\<close> does (P2025).
\<close>

datatype db_fate = Answers | RejectedBefore | RejectedAfter

definition persist_session_row :: "session_pending update_item \<Rightarrow> ts \<Rightarrow> db \<Rightarrow> db" where
  "persist_session_row u now d =
     (let p = ui_value u
      in d\<lparr>sessions := update_rows
            (\<lambda>r. s_id r = ui_id u \<and> s_lastActiveAt r < sp_timestamp p
               \<and> (truthy (sp_sessionInstanceId p) \<longrightarrow>
                    s_activeInstanceId r = sp_sessionInstanceId p \<and> s_active r))
            (\<lambda>r. r\<lparr>s_lastActiveAt := sp_timestamp p, s_active := True, s_updatedAt := now\<rparr>)
            (sessions d)\<rparr>)"

definition persist_machine_row :: "ts update_item \<Rightarrow> ts \<Rightarrow> db \<Rightarrow> (db \<times> unit) option" where
  "persist_machine_row u now d =
     (case find_machine (ui_userId u) (ui_id u) d of
        None \<Rightarrow> None
      | Some _ \<Rightarrow>
          Some (d\<lparr>machines := update_rows (\<lambda>r. c_accountId r = ui_userId u \<and> c_id r = ui_id u)
                    (\<lambda>r. r\<lparr>c_lastActiveAt := ui_value u, c_updatedAt := now\<rparr>) (machines d)\<rparr>, ()))"

fun persist_statement :: "activity_update \<Rightarrow> ts \<Rightarrow> db \<Rightarrow> db \<times> db_answer" where
  "persist_statement (SessionItem u) now d = (persist_session_row u now d, Applied)"
| "persist_statement (MachineItem u) now d =
     (case persist_machine_row u now d of
        None \<Rightarrow> (d, MissingRecord)
      | Some (d', _) \<Rightarrow> (d', Applied))"

definition await_statement :: "db_fate \<Rightarrow> activity_update \<Rightarrow> ts \<Rightarrow> db \<Rightarrow> db \<times> db_answer" where
  "await_statement fate u now d =
     (case fate of
        Answers \<Rightarrow> persist_statement u now d
      | RejectedBefore \<Rightarrow> (d, Rejected)
      | RejectedAfter \<Rightarrow> (fst (persist_statement u now d), Rejected))"

text \<open>The continuation of \<^verbatim>\<open>persistUpdate\<close>: nothing happens to an entry that was replaced meanwhile.\<close>

definition after_write ::
  "('p \<Rightarrow> ts) \<Rightarrow> ('p \<Rightarrow> 'p \<Rightarrow> bool) \<Rightarrow> 'p update_item \<Rightarrow> db_answer \<Rightarrow> 'p entry_map \<Rightarrow> 'p entry_map" where
  "after_write stamp matches u ans m =
     (case map_of m (ui_id u) of
        None \<Rightarrow> m
      | Some e \<Rightarrow>
          if en_ref e \<noteq> ui_ref u then m
          else (case ans of
                  Applied \<Rightarrow> AList.update (ui_id u) (settle_entry stamp matches (ui_value u) e) m
                | MissingRecord \<Rightarrow> AList.delete (ui_id u) m
                | Rejected \<Rightarrow> AList.update (ui_id u) (requeue_entry (ui_value u) e) m))"

fun continue_update :: "activity_update \<Rightarrow> db_answer \<Rightarrow> activity_cache \<Rightarrow> activity_cache" where
  "continue_update (SessionItem u) ans c =
     c\<lparr>sessionCache := after_write sp_timestamp same_instance u ans (sessionCache c)\<rparr>"
| "continue_update (MachineItem u) ans c =
     c\<lparr>machineCache := after_write id any_machine u ans (machineCache c)\<rparr>"

text \<open>The worker that finished item \<open>i\<close> takes the next waiting one.\<close>

definition drop_nth :: "nat \<Rightarrow> 'a list \<Rightarrow> 'a list" where
  "drop_nth i xs = take i xs @ drop (Suc i) xs"

definition finish_item :: "nat \<Rightarrow> bool \<Rightarrow> flush_batch \<Rightarrow> flush_batch" where
  "finish_item i failed b =
     b\<lparr>fb_running := drop_nth i (fb_running b) @ map (\<lambda>u. (u, None)) (take 1 (fb_waiting b)),
       fb_waiting := drop 1 (fb_waiting b),
       fb_failures := fb_failures b + (if failed then 1 else 0)\<rparr>"

subsection \<open>Cleanup and shutdown\<close>

definition keep_entry :: "ts \<Rightarrow> 'p cache_entry \<Rightarrow> bool" where
  "keep_entry now e =
     (\<not> (en_validUntil e < now \<and> en_pendingUpdate e = None \<and> en_inFlightUpdate e = None))"

definition cache_cleanup :: "ts \<Rightarrow> activity_cache \<Rightarrow> activity_cache" where
  "cache_cleanup now c =
     c\<lparr>sessionCache := filter (\<lambda>(k, e). keep_entry now e) (sessionCache c),
       machineCache := filter (\<lambda>(k, e). keep_entry now e) (machineCache c)\<rparr>"

definition cache_shutdown :: "activity_cache \<Rightarrow> activity_cache" where
  "cache_shutdown c =
     (if isShuttingDown c then c
      else flushPendingUpdates (c\<lparr>isShuttingDown := True, batchTimer := False\<rparr>))"

section \<open>The cache as a state machine\<close>

datatype cache_event =
    EvValidateSession ts ident ident "session option"
  | EvValidateMachine ts ident ident "machine option"
  | EvQueueSession ident ts "ident option"
  | EvQueueMachine ident ts
  | EvFlush
  | EvAnswer nat db_fate ts
  | EvContinue nat
  | EvBatchEnd
  | EvCleanup ts
  | EvShutdown
  | EvDatabase "db \<Rightarrow> db"

text \<open>
  A validation event carries the row its lookup returned, read at any earlier time.  An event that
  is not enabled does nothing.  \<open>EvDatabase\<close> is whatever other components do to the database.
\<close>

definition answer_step :: "nat \<Rightarrow> db_fate \<Rightarrow> ts \<Rightarrow> presence \<Rightarrow> presence" where
  "answer_step i fate now s =
     (case flushing (fst s) of
        Some b \<Rightarrow>
          if i < length (fb_running b) \<and> snd (fb_running b ! i) = None
          then (case await_statement fate (fst (fb_running b ! i)) now (snd s) of
                  (d, ans) \<Rightarrow>
                    ((fst s)\<lparr>flushing := Some (b\<lparr>fb_running := (fb_running b)[i := (fst (fb_running b ! i), Some ans)]\<rparr>)\<rparr>, d))
          else s
      | None \<Rightarrow> s)"

definition continue_step :: "nat \<Rightarrow> activity_cache \<Rightarrow> activity_cache" where
  "continue_step i c =
     (case flushing c of
        Some b \<Rightarrow>
          if i < length (fb_running b)
          then (case fb_running b ! i of
                  (u, Some ans) \<Rightarrow>
                    (continue_update u ans c)\<lparr>flushing := Some (finish_item i (ans = Rejected) b)\<rparr>
                | (u, None) \<Rightarrow> c)
          else c
      | None \<Rightarrow> c)"

definition batch_end_step :: "activity_cache \<Rightarrow> activity_cache" where
  "batch_end_step c =
     (case flushing c of
        Some b \<Rightarrow>
          if fb_running b = []
          then (if flushAgain c \<and> fb_failures b = 0 then start_batch c else c\<lparr>flushing := None\<rparr>)
          else c
      | None \<Rightarrow> c)"

fun cache_step :: "cache_event \<Rightarrow> presence \<Rightarrow> presence" where
  "cache_step (EvValidateSession now sid userId row) (c, d) =
     (fst (session_validated now sid userId row c), d)"
| "cache_step (EvValidateMachine now mid userId row) (c, d) =
     (fst (machine_validated now mid userId row c), d)"
| "cache_step (EvQueueSession sid t inst) (c, d) = (fst (queueSessionUpdate sid t inst c), d)"
| "cache_step (EvQueueMachine mid t) (c, d) = (fst (queueMachineUpdate mid t c), d)"
| "cache_step EvFlush (c, d) = (flushPendingUpdates c, d)"
| "cache_step (EvAnswer i fate now) (c, d) = answer_step i fate now (c, d)"
| "cache_step (EvContinue i) (c, d) = (continue_step i c, d)"
| "cache_step EvBatchEnd (c, d) = (batch_end_step c, d)"
| "cache_step (EvCleanup now) (c, d) = (cache_cleanup now c, d)"
| "cache_step EvShutdown (c, d) = (cache_shutdown c, d)"
| "cache_step (EvDatabase f) (c, d) = (c, f d)"

definition cache_run :: "cache_event list \<Rightarrow> presence \<Rightarrow> presence" where
  "cache_run evs s = fold cache_step evs s"


section \<open>Invariant of the cache\<close>

text \<open>The writes of the running flush that are not finished.\<close>

definition active_items :: "activity_cache \<Rightarrow> activity_update list" where
  "active_items c =
     (case flushing c of None \<Rightarrow> [] | Some b \<Rightarrow> map fst (fb_running b) @ fb_waiting b)"

fun session_item :: "activity_update \<Rightarrow> session_pending update_item option" where
  "session_item (SessionItem u) = Some u"
| "session_item (MachineItem u) = None"

fun machine_item :: "activity_update \<Rightarrow> ts update_item option" where
  "machine_item (SessionItem u) = None"
| "machine_item (MachineItem u) = Some u"

definition session_items :: "activity_update list \<Rightarrow> session_pending update_item list" where
  "session_items us = List.map_filter session_item us"

definition machine_items :: "activity_update list \<Rightarrow> ts update_item list" where
  "machine_items us = List.map_filter machine_item us"

text \<open>
  An entry is in flight exactly while one unfinished write of the flush was taken from it, and
  with the value of that write.
\<close>

definition tracked :: "nat \<Rightarrow> 'p entry_map \<Rightarrow> 'p update_item list \<Rightarrow> bool" where
  "tracked ref m items =
     (distinct (map fst m)
    \<and> (\<forall>k e. map_of m k = Some e \<longrightarrow> en_ref e < ref)
    \<and> (\<forall>u \<in> set items. ui_ref u < ref)
    \<and> distinct (map (\<lambda>u. (ui_id u, ui_ref u)) items)
    \<and> (\<forall>k e x. map_of m k = Some e \<longrightarrow>
         (en_inFlightUpdate e = Some x \<longleftrightarrow> (\<exists>u \<in> set items. ui_id u = k \<and> ui_ref u = en_ref e \<and> ui_value u = x))))"

definition cache_ok :: "activity_cache \<Rightarrow> bool" where
  "cache_ok c =
     (tracked (nextRef c) (sessionCache c) (session_items (active_items c))
    \<and> tracked (nextRef c) (machineCache c) (machine_items (active_items c))
    \<and> 0 < maxFlushConcurrency c
    \<and> (\<forall>b. flushing c = Some b \<longrightarrow>
         length (fb_running b) \<le> maxFlushConcurrency c
         \<and> (fb_waiting b \<noteq> [] \<longrightarrow> length (fb_running b) = maxFlushConcurrency c)))"

lemma trackedD:
  assumes "tracked ref m items"
  shows "distinct (map fst m)" and "map_of m k = Some e \<Longrightarrow> en_ref e < ref"
    and "u \<in> set items \<Longrightarrow> ui_ref u < ref"
    and "distinct (map (\<lambda>u. (ui_id u, ui_ref u)) items)"
    and "map_of m k = Some e \<Longrightarrow>
      en_inFlightUpdate e = Some x \<longleftrightarrow> (\<exists>u \<in> set items. ui_id u = k \<and> ui_ref u = en_ref e \<and> ui_value u = x)"
  using assms unfolding tracked_def by blast+

text \<open>Changing one entry without touching its identity or its in-flight value.\<close>

lemma tracked_update:
  assumes "tracked ref m items" and "map_of m k = Some e"
    and "en_ref e' = en_ref e" and "en_inFlightUpdate e' = en_inFlightUpdate e"
  shows "tracked ref (AList.update k e' m) items"
  using assms unfolding tracked_def
  by (auto simp: update_conv' distinct_update split: if_splits)

lemma tracked_fresh:
  assumes "tracked ref m items"
  shows "tracked (Suc ref) (AList.update k (fresh_entry ref now t userId) m) items"
  using assms unfolding tracked_def
  by (auto simp: update_conv' distinct_update fresh_entry_def split: if_splits) fastforce+

lemma tracked_Suc: "tracked ref m items \<Longrightarrow> tracked (Suc ref) m items"
  unfolding tracked_def by (meson less_SucI)

lemma tracked_validated:
  assumes "tracked ref m items"
  shows "validated_map ref now k userId t m = (m', True) \<Longrightarrow> tracked (Suc ref) m' items"
    and "validated_map ref now k userId t m = (m', False) \<Longrightarrow> tracked ref m' items"
  using assms tracked_update [OF assms(1), of k _ "refresh_entry now t _"] tracked_fresh [OF assms(1)]
  by (auto simp: validated_map_def refresh_entry_def split: option.splits if_splits)

lemma tracked_filter:
  assumes "tracked ref m items"
  shows "tracked ref (filter (\<lambda>(k, e). P e) m) items"
proof -
  have sub: "map_of m k = Some e" if "map_of (filter (\<lambda>(k, e). P e) m) k = Some e" for k e
    using trackedD(1) [OF assms] map_of_SomeD [OF that] by auto
  have "distinct (map fst (filter (\<lambda>(k, e). P e) m))"
    using trackedD(1) [OF assms] by (rule distinct_map_filter)
  with assms sub show ?thesis unfolding tracked_def by blast
qed

lemma tracked_finish:
  assumes "tracked ref m items" and "mset items = add_mset u (mset items')"
  shows "tracked ref (after_write stamp matches u ans m) items'"
proof -
  have in_items: "set items = insert u (set items')"
    using arg_cong [OF assms(2), of set_mset] by simp
  have "mset (map (\<lambda>u. (ui_id u, ui_ref u)) items) = add_mset (ui_id u, ui_ref u) (mset (map (\<lambda>u. (ui_id u, ui_ref u)) items'))"
    using assms(2) by simp
  then have key: "(ui_id u, ui_ref u) \<notin> (\<lambda>u. (ui_id u, ui_ref u)) ` set items'"
    and dist: "distinct (map (\<lambda>u. (ui_id u, ui_ref u)) items')"
    using trackedD(4) [OF assms(1)] mset_eq_imp_distinct_iff [of "map (\<lambda>u. (ui_id u, ui_ref u)) items" "(ui_id u, ui_ref u) # map (\<lambda>u. (ui_id u, ui_ref u)) items'"]
    by auto
  have other: "(\<exists>v \<in> set items. ui_id v = k \<and> ui_ref v = r \<and> ui_value v = x) \<longleftrightarrow>
      (\<exists>v \<in> set items'. ui_id v = k \<and> ui_ref v = r \<and> ui_value v = x)" if "k \<noteq> ui_id u \<or> r \<noteq> ui_ref u" for k r x
    using in_items that by auto
  have gone: "\<not> (\<exists>v \<in> set items'. ui_id v = ui_id u \<and> ui_ref v = ui_ref u \<and> ui_value v = x)" for x
    using key unfolding image_iff by auto
  show ?thesis
  proof (cases "map_of m (ui_id u)")
    case None
    then have "after_write stamp matches u ans m = m" by (simp add: after_write_def)
    with None assms(1) in_items dist other show ?thesis unfolding tracked_def by fastforce
  next
    case (Some e)
    show ?thesis
    proof (cases "en_ref e = ui_ref u")
      case False
      then have "after_write stamp matches u ans m = m" using Some by (simp add: after_write_def)
      with Some False assms(1) in_items dist other show ?thesis
        unfolding tracked_def by (smt (verit, best) insertI2 option.inject)
    next
      case True
      have settled: "tracked ref (AList.update (ui_id u) e' m) items'"
        if "en_ref e' = en_ref e" "en_inFlightUpdate e' = None" for e'
        using assms(1) Some True in_items dist other gone that trackedD(2) [OF assms(1) Some]
        unfolding tracked_def by (auto simp: update_conv' distinct_update split: if_splits)
      have deleted: "tracked ref (AList.delete (ui_id u) m) items'"
        using assms(1) Some True in_items dist other gone
        unfolding tracked_def by (auto simp: delete_conv' distinct_delete split: if_splits)
      show ?thesis
        using settled [of "settle_entry stamp matches (ui_value u) e"] settled [of "requeue_entry (ui_value u) e"]
          deleted Some True
        by (cases ans) (auto simp: after_write_def settle_entry_def requeue_entry_def Let_def split: option.splits)
    qed
  qed
qed

text \<open>What a flush takes: every pending value of an entry that is not in flight, and nothing else.\<close>

definition taken :: "'p cache_entry \<Rightarrow> 'p cache_entry" where
  "taken e = (case take_entry e of None \<Rightarrow> e | Some (e', p) \<Rightarrow> e')"

lemma take_map_spec:
  assumes "take_map m = (m', items)"
  shows "m' = map (\<lambda>(k, e). (k, taken e)) m"
    and "map ui_id items = map fst (filter (\<lambda>(k, e). take_entry e \<noteq> None) m)"
    and "u \<in> set items \<longleftrightarrow> (\<exists>e e'. (ui_id u, e) \<in> set m \<and> take_entry e = Some (e', ui_value u)
           \<and> ui_ref u = en_ref e \<and> ui_userId u = en_userId e)"
  using assms
proof (induction m arbitrary: m' items)
  case (Cons ke m)
  obtain k e where ke: "ke = (k, e)" by (cases ke)
  obtain m1 items1 where rest: "take_map m = (m1, items1)" by fastforce
  note IH = Cons.IH [OF rest]
  {
    case 1
    then show ?case using IH(1) rest ke by (auto simp: taken_def split: option.splits)
  next
    case 2
    then show ?case using IH(2) rest ke by (auto split: option.splits)
  next
    case 3
    then show ?case using IH(3) rest ke by (cases u) (auto split: option.splits)
  }
qed auto

lemma taken_simps [simp]: "en_ref (taken e) = en_ref e" "en_userId (taken e) = en_userId e"
  "en_lastUpdateSent (taken e) = en_lastUpdateSent e"
  by (auto simp: taken_def take_entry_def split: option.splits)

lemma tracked_take:
  assumes "tracked ref m []" and "take_map m = (m', items)"
  shows "tracked ref m' items"
proof -
  note spec = take_map_spec [OF assms(2)] and old = trackedD [OF assms(1)]
  have map': "map_of m' k = map_option taken (map_of m k)" for k
    unfolding spec(1) by (induction m) auto
  have idle: "en_inFlightUpdate e = None" if "map_of m k = Some e" for k e
    using old(5) [OF that] by (cases "en_inFlightUpdate e") auto
  have mem: "(k, e) \<in> set m \<longleftrightarrow> map_of m k = Some e" for k e
    using old(1) by simp
  have "distinct (map ui_id items)"
    unfolding spec(2) using old(1) by (rule distinct_map_filter)
  then have dist: "distinct (map (\<lambda>u. (ui_id u, ui_ref u)) items)"
    by (auto simp: distinct_map inj_on_def)
  have flight: "en_inFlightUpdate (taken e) = Some x \<longleftrightarrow> take_entry e = Some (taken e, x)"
    if "map_of m k = Some e" for k e x
    using idle [OF that] by (auto simp: taken_def take_entry_def split: option.splits)
  have "en_inFlightUpdate (taken e) = Some x \<longleftrightarrow>
      (\<exists>u \<in> set items. ui_id u = k \<and> ui_ref u = en_ref e \<and> ui_value u = x)" if e: "map_of m k = Some e" for k e x
  proof
    assume "en_inFlightUpdate (taken e) = Some x"
    then have "\<lparr>ui_id = k, ui_ref = en_ref e, ui_value = x, ui_userId = en_userId e\<rparr> \<in> set items"
      using flight [OF e] e by (auto simp: spec(3) mem)
    then show "\<exists>u \<in> set items. ui_id u = k \<and> ui_ref u = en_ref e \<and> ui_value u = x" by force
  next
    assume "\<exists>u \<in> set items. ui_id u = k \<and> ui_ref u = en_ref e \<and> ui_value u = x"
    then have "\<exists>e'. take_entry e = Some (e', x)" using e by (auto simp: spec(3) mem)
    then show "en_inFlightUpdate (taken e) = Some x"
      by (auto simp: taken_def take_entry_def split: option.splits)
  qed
  moreover have "distinct (map fst m')"
    using old(1) unfolding spec(1) by (simp add: comp_def case_prod_beta)
  moreover have "ui_ref u < ref" if "u \<in> set items" for u
    using that old(2) by (auto simp: spec(3) mem)
  ultimately show ?thesis
    using dist old(2) by (auto simp: tracked_def map')
qed

lemma items_append [simp]:
  "session_items (us @ vs) = session_items us @ session_items vs"
  "machine_items (us @ vs) = machine_items us @ machine_items vs"
  by (simp_all add: session_items_def machine_items_def map_filter_def)

lemma items_of_batch [simp]:
  "session_items (map SessionItem xs) = xs" "session_items (map MachineItem ys) = []"
  "machine_items (map SessionItem xs) = []" "machine_items (map MachineItem ys) = ys"
  "session_items [] = []" "machine_items [] = []"
  by (simp_all add: session_items_def machine_items_def map_filter_def comp_def)

lemma start_batch_ok:
  assumes "cache_ok c" and "active_items c = []"
  shows "cache_ok (start_batch c)"
proof -
  obtain sm sitems where s: "take_map (sessionCache c) = (sm, sitems)" by fastforce
  obtain mm mitems where m: "take_map (machineCache c) = (mm, mitems)" by fastforce
  have "tracked (nextRef c) sm sitems" "tracked (nextRef c) mm mitems"
    using assms s m by (auto simp: cache_ok_def intro: tracked_take)
  moreover have "active_items (start_batch c) = map SessionItem sitems @ map MachineItem mitems"
    "sessionCache (start_batch c) = sm" "machineCache (start_batch c) = mm" "nextRef (start_batch c) = nextRef c"
    "maxFlushConcurrency (start_batch c) = maxFlushConcurrency c"
    "\<exists>us. flushing (start_batch c) = Some \<lparr>fb_waiting = drop (maxFlushConcurrency c) us,
       fb_running = map (\<lambda>u. (u, None)) (take (maxFlushConcurrency c) us), fb_failures = 0\<rparr>"
    using s m by (auto simp: start_batch_def takePendingUpdates_def active_items_def comp_def
        simp del: take_append drop_append)
  ultimately show ?thesis
    using assms(1) by (auto simp: cache_ok_def)
qed

lemma idle_no_items: "flushing c = None \<Longrightarrow> active_items c = []"
  by (simp add: active_items_def)

lemma flush_ok: "cache_ok c \<Longrightarrow> cache_ok (flushPendingUpdates c)"
  using start_batch_ok [of c] idle_no_items [of c]
  by (auto simp: flushPendingUpdates_def cache_ok_def active_items_def)

lemma finish_items:
  assumes "i < length (fb_running b)" and "fb_running b ! i = (u, ans)"
  shows "mset (map fst (fb_running b) @ fb_waiting b) =
     add_mset u (mset (map fst (fb_running (finish_item i f b)) @ fb_waiting (finish_item i f b)))"
proof -
  have "mset (fb_running b) = add_mset (u, ans) (mset (drop_nth i (fb_running b)))"
    using arg_cong [OF id_take_nth_drop [OF assms(1)], of mset] assms(2) by (simp add: drop_nth_def)
  then have "mset (map fst (fb_running b)) = add_mset u (mset (map fst (drop_nth i (fb_running b))))" by simp
  moreover have "mset (fb_waiting b) = mset (take 1 (fb_waiting b)) + mset (drop 1 (fb_waiting b))"
    by (metis append_take_drop_id mset_append)
  ultimately show ?thesis by (simp add: finish_item_def comp_def)
qed

lemma map_filter_mset: "mset us = mset vs \<Longrightarrow> mset (List.map_filter f us) = mset (List.map_filter f vs)"
  by (simp add: map_filter_def)

lemma items_mset:
  "mset us = add_mset (SessionItem u) (mset vs) \<Longrightarrow>
     mset (session_items us) = add_mset u (mset (session_items vs)) \<and> mset (machine_items us) = mset (machine_items vs)"
  "mset us = add_mset (MachineItem v) (mset vs) \<Longrightarrow>
     mset (machine_items us) = add_mset v (mset (machine_items vs)) \<and> mset (session_items us) = mset (session_items vs)"
  using map_filter_mset [of us "SessionItem u # vs" session_item] map_filter_mset [of us "MachineItem v # vs" session_item]
    map_filter_mset [of us "SessionItem u # vs" machine_item] map_filter_mset [of us "MachineItem v # vs" machine_item]
  by (simp_all add: session_items_def machine_items_def map_filter_simps)

lemma tracked_mset:
  assumes "tracked ref m items" and "mset items = mset items'"
  shows "tracked ref m items'"
  using assms mset_eq_setD [OF assms(2)] mset_eq_imp_distinct_iff [of "map (\<lambda>u. (ui_id u, ui_ref u)) items" "map (\<lambda>u. (ui_id u, ui_ref u)) items'"]
  by (simp add: tracked_def)

lemma continue_ok:
  assumes "cache_ok c"
  shows "cache_ok (continue_step i c)"
proof (cases "\<exists>b u ans. flushing c = Some b \<and> i < length (fb_running b) \<and> fb_running b ! i = (u, Some ans)")
  case True
  then obtain b u ans where b: "flushing c = Some b" "i < length (fb_running b)" "fb_running b ! i = (u, Some ans)" by blast
  let ?b = "finish_item i (ans = Rejected) b"
  let ?c = "continue_update u ans c"
  have step: "continue_step i c = ?c\<lparr>flushing := Some ?b\<rparr>"
    using b by (simp add: continue_step_def)
  have mset: "mset (active_items c) = add_mset u (mset (map fst (fb_running ?b) @ fb_waiting ?b))"
    using finish_items [OF b(2,3)] b(1) by (simp add: active_items_def)
  have ok: "tracked (nextRef c) (sessionCache c) (session_items (active_items c))"
    "tracked (nextRef c) (machineCache c) (machine_items (active_items c))"
    using assms by (simp_all add: cache_ok_def)
  have "tracked (nextRef c) (sessionCache ?c) (session_items (map fst (fb_running ?b) @ fb_waiting ?b))
      \<and> tracked (nextRef c) (machineCache ?c) (machine_items (map fst (fb_running ?b) @ fb_waiting ?b))"
  proof (cases u)
    case (SessionItem v)
    then show ?thesis
      using ok items_mset(1) [OF mset [unfolded SessionItem]]
      by (auto simp del: items_append intro: tracked_finish tracked_mset)
  next
    case (MachineItem v)
    then show ?thesis
      using ok items_mset(2) [OF mset [unfolded MachineItem]]
      by (auto simp del: items_append intro: tracked_finish tracked_mset)
  qed
  moreover have "nextRef ?c = nextRef c" "maxFlushConcurrency ?c = maxFlushConcurrency c"
    by (cases u; simp)+
  moreover have "length (fb_running ?b) \<le> maxFlushConcurrency c
      \<and> (fb_waiting ?b \<noteq> [] \<longrightarrow> length (fb_running ?b) = maxFlushConcurrency c)"
    using assms b by (cases "fb_waiting b") (auto simp: cache_ok_def finish_item_def drop_nth_def)
  ultimately show ?thesis
    using assms by (simp add: step cache_ok_def active_items_def del: items_append)
next
  case False
  then have "continue_step i c = c"
    by (auto simp: continue_step_def split: option.splits prod.splits)
  with assms show ?thesis by simp
qed

lemma answer_ok:
  assumes "cache_ok (fst s)"
  shows "cache_ok (fst (answer_step i fate now s))"
proof -
  have fsts: "map fst (rs[i := (fst (rs ! i), a)]) = map fst rs" for rs :: "(activity_update \<times> db_answer option) list" and a
    by (cases "i < length rs") (simp_all add: map_update list_update_beyond list_update_same_conv)
  show ?thesis
    using assms
    by (cases s) (auto simp: answer_step_def cache_ok_def active_items_def fsts split: option.splits prod.splits)
qed

lemma batch_end_ok:
  assumes "cache_ok c"
  shows "cache_ok (batch_end_step c)"
proof (cases "flushing c")
  case (Some b)
  show ?thesis
  proof (cases "fb_running b = []")
    case True
    then have none: "active_items c = []"
      using assms Some by (auto simp: cache_ok_def active_items_def)
    then have "cache_ok (c\<lparr>flushing := None\<rparr>)"
      using assms by (simp add: cache_ok_def active_items_def)
    with none show ?thesis
      using Some True start_batch_ok [OF assms] by (simp add: batch_end_step_def)
  qed (use Some assms in \<open>simp add: batch_end_step_def\<close>)
qed (use assms in \<open>simp add: batch_end_step_def\<close>)

lemma queue_ok:
  "cache_ok c \<Longrightarrow> cache_ok (fst (queueSessionUpdate sid t inst c))"
  "cache_ok c \<Longrightarrow> cache_ok (fst (queueMachineUpdate mid t c))"
  by (auto simp: queueSessionUpdate_def queueMachineUpdate_def cache_ok_def active_items_def queue_entry_def
      split: option.splits prod.splits if_splits intro: tracked_update)

lemma validated_ok:
  "cache_ok c \<Longrightarrow> cache_ok (fst (session_validated now sid userId row c))"
  "cache_ok c \<Longrightarrow> cache_ok (fst (machine_validated now mid userId row' c))"
  by (auto simp: session_validated_def machine_validated_def cache_ok_def active_items_def
      split: option.splits prod.splits intro: tracked_validated tracked_Suc)

lemma cleanup_ok: "cache_ok c \<Longrightarrow> cache_ok (cache_cleanup now c)"
  by (simp add: cache_ok_def cache_cleanup_def active_items_def tracked_filter)

lemma shutdown_ok: "cache_ok c \<Longrightarrow> cache_ok (cache_shutdown c)"
  using flush_ok [of "c\<lparr>isShuttingDown := True, batchTimer := False\<rparr>"]
  by (simp add: cache_shutdown_def cache_ok_def [of "c\<lparr>isShuttingDown := _, batchTimer := _\<rparr>"] active_items_def)
    (simp add: cache_ok_def active_items_def)

lemma step_ok: "cache_ok (fst s) \<Longrightarrow> cache_ok (fst (cache_step ev s))"
  by (cases s; cases ev)
    (simp_all add: queue_ok validated_ok flush_ok answer_ok continue_ok batch_end_ok cleanup_ok shutdown_ok)

lemma run_ok: "cache_ok (fst s) \<Longrightarrow> cache_ok (fst (cache_run evs s))"
  by (induction evs arbitrary: s) (simp_all add: cache_run_def step_ok)

lemma new_cache_ok: "new_activity_cache autoStart interval concurrency = Some c \<Longrightarrow> cache_ok c"
  by (auto simp: new_activity_cache_def cache_ok_def tracked_def active_items_def Let_def split: if_splits)

section \<open>No heartbeat is forgotten\<close>

text \<open>The heartbeats of a machine that are offered to the cache before the shutdown.\<close>

fun heartbeats :: "ident \<Rightarrow> bool \<Rightarrow> cache_event list \<Rightarrow> ts list" where
  "heartbeats mid down [] = []"
| "heartbeats mid down (EvQueueMachine k t # evs) =
     (if k = mid \<and> \<not> down then t # heartbeats mid down evs else heartbeats mid down evs)"
| "heartbeats mid down (EvShutdown # evs) = heartbeats mid True evs"
| "heartbeats mid down (_ # evs) = heartbeats mid down evs"

definition in_order :: "ts \<Rightarrow> machine_entry \<Rightarrow> bool" where
  "in_order h e =
     ((\<forall>x. en_inFlightUpdate e = Some x \<longrightarrow> x \<le> h \<and> (\<forall>p. en_pendingUpdate e = Some p \<longrightarrow> x \<le> p))
    \<and> (\<forall>p. en_pendingUpdate e = Some p \<longrightarrow> p \<le> h))"

definition covers :: "ts \<Rightarrow> machine_entry \<Rightarrow> bool" where
  "covers h e =
     ((\<exists>x. (en_pendingUpdate e = Some x \<or> en_inFlightUpdate e = Some x) \<and> h - UPDATE_THRESHOLD_MS \<le> x)
    \<or> h - 2 * UPDATE_THRESHOLD_MS \<le> en_lastUpdateSent e)"

lemmas entry_defs = in_order_def covers_def UPDATE_THRESHOLD_MS_def

lemma queue_entry_covers:
  assumes "in_order h e" and "h \<le> t" and "queue_entry id any_machine t e = (e', q)"
  shows "in_order t e' \<and> covers t e'"
  using assms
  by (auto simp: queue_entry_def watermark_def any_machine_def entry_defs Let_def split: if_splits option.splits)

lemma take_entry_covers:
  assumes "in_order h e" and "covers h e"
  shows "in_order h (taken e) \<and> covers h (taken e)"
  using assms by (auto simp: taken_def take_entry_def entry_defs split: option.splits)

lemma settle_entry_covers:
  assumes "in_order h e" and "covers h e" and "en_inFlightUpdate e = Some x"
  shows "in_order h (settle_entry id any_machine x e) \<and> covers h (settle_entry id any_machine x e)"
  using assms by (auto simp: settle_entry_def any_machine_def entry_defs Let_def split: option.splits if_splits)

lemma requeue_entry_covers:
  assumes "in_order h e" and "covers h e" and "en_inFlightUpdate e = Some x"
  shows "in_order h (requeue_entry x e) \<and> covers h (requeue_entry x e)"
  using assms by (auto simp: requeue_entry_def entry_defs Let_def split: option.splits if_splits)

lemma refresh_entry_covers:
  "in_order h e \<Longrightarrow> covers h e \<Longrightarrow> in_order h (refresh_entry now t e) \<and> covers h (refresh_entry now t e)"
  by (auto simp: refresh_entry_def entry_defs)

text \<open>The entry with allocation number \<open>ref\<close> covers the newest heartbeat as long as it lives.\<close>

definition machine_covered :: "ident \<Rightarrow> nat \<Rightarrow> ts \<Rightarrow> activity_cache \<Rightarrow> bool" where
  "machine_covered mid ref h c =
     (cache_ok c \<and> ref < nextRef c
    \<and> (\<forall>e. map_of (machineCache c) mid = Some e \<and> en_ref e = ref \<longrightarrow> in_order h e \<and> covers h e))"

lemma covered_by_map:
  assumes "machine_covered mid ref h c" and "cache_ok c'" and "nextRef c \<le> nextRef c'"
    and "\<And>e'. map_of (machineCache c') mid = Some e' \<Longrightarrow> en_ref e' = ref \<Longrightarrow>
      \<exists>e. map_of (machineCache c) mid = Some e \<and> en_ref e = ref
        \<and> (in_order h e \<and> covers h e \<longrightarrow> in_order h e' \<and> covers h e')"
  shows "machine_covered mid ref h c'"
  unfolding machine_covered_def
proof (intro conjI allI impI)
  show "cache_ok c'" by fact
  show "ref < nextRef c'" using assms(1,3) by (simp add: machine_covered_def)
  fix e'
  assume "map_of (machineCache c') mid = Some e' \<and> en_ref e' = ref"
  then show "in_order h e'" "covers h e'" using assms(1,4) unfolding machine_covered_def by blast+
qed

lemma machines_unchanged:
  assumes "machine_covered mid ref h c" and "cache_ok c'" and "nextRef c' = nextRef c"
    and "machineCache c' = machineCache c"
  shows "machine_covered mid ref h c'"
  using assms by (simp add: machine_covered_def)

lemma map_of_taken:
  "take_map m = (m', items) \<Longrightarrow> map_of m' k = map_option taken (map_of m k)"
  using take_map_spec(1) [of m m' items] by (induction m arbitrary: m' items) (auto simp: map_of_map)

lemma covered_start:
  assumes "machine_covered mid ref h c" and "active_items c = []"
  shows "machine_covered mid ref h (start_batch c)"
proof (rule covered_by_map [OF assms(1)])
  show "cache_ok (start_batch c)" using assms by (simp add: machine_covered_def start_batch_ok)
  show "nextRef c \<le> nextRef (start_batch c)"
    by (simp add: start_batch_def takePendingUpdates_def split: prod.splits)
  obtain mm items where mm: "take_map (machineCache c) = (mm, items)" by fastforce
  then have mc: "machineCache (start_batch c) = mm"
    by (simp add: start_batch_def takePendingUpdates_def split: prod.splits)
  fix e'
  assume "map_of (machineCache (start_batch c)) mid = Some e'" and "en_ref e' = ref"
  then show "\<exists>e. map_of (machineCache c) mid = Some e \<and> en_ref e = ref
        \<and> (in_order h e \<and> covers h e \<longrightarrow> in_order h e' \<and> covers h e')"
    using map_of_taken [OF mm, of mid] take_entry_covers by (auto simp: mc)
qed

lemma covered_flush: "machine_covered mid ref h c \<Longrightarrow> machine_covered mid ref h (flushPendingUpdates c)"
  using covered_start [of mid ref h c] idle_no_items [of c] flush_ok [of c]
  by (auto simp: flushPendingUpdates_def machine_covered_def)

lemma covered_batch_end:
  assumes "machine_covered mid ref h c"
  shows "machine_covered mid ref h (batch_end_step c)"
proof (cases "\<exists>b. flushing c = Some b \<and> fb_running b = []")
  case True
  then obtain b where b: "flushing c = Some b" "fb_running b = []" by blast
  then have none: "active_items c = []"
    using assms by (auto simp: machine_covered_def cache_ok_def active_items_def)
  show ?thesis
  proof (cases "flushAgain c \<and> fb_failures b = 0")
    case True
    with b none show ?thesis using covered_start [OF assms] by (simp add: batch_end_step_def)
  next
    case False
    have "cache_ok (batch_end_step c)" using assms by (simp add: machine_covered_def batch_end_ok)
    with False b show ?thesis by (intro machines_unchanged [OF assms]) (auto simp: batch_end_step_def)
  qed
qed (use assms in \<open>auto simp: batch_end_step_def split: option.splits\<close>)

lemma entry_refs [simp]:
  "en_ref (settle_entry stamp matches x e) = en_ref e" "en_ref (requeue_entry x e) = en_ref e"
  by (simp_all add: settle_entry_def requeue_entry_def Let_def split: option.splits)

lemma continue_update_machines:
  "nextRef (continue_update u ans c) = nextRef c"
  "machineCache (continue_update u ans c) =
     (case u of SessionItem v \<Rightarrow> machineCache c
      | MachineItem v \<Rightarrow> after_write id any_machine v ans (machineCache c))"
  by (cases u; simp)+

lemma covered_continue:
  assumes "machine_covered mid ref h c"
  shows "machine_covered mid ref h (continue_step i c)"
proof (cases "\<exists>b u ans. flushing c = Some b \<and> i < length (fb_running b) \<and> fb_running b ! i = (MachineItem u, Some ans)")
  case True
  then obtain b u ans where b: "flushing c = Some b" "i < length (fb_running b)"
    "fb_running b ! i = (MachineItem u, Some ans)" by blast
  have ok: "cache_ok c" using assms by (simp add: machine_covered_def)
  have "MachineItem u \<in> set (active_items c)"
    using b nth_mem [OF b(2)] by (force simp: active_items_def)
  then have item: "u \<in> set (machine_items (active_items c))"
    by (force simp: machine_items_def map_filter_def)
  have mc: "machineCache (continue_step i c) = after_write id any_machine u ans (machineCache c)"
    and ref: "nextRef (continue_step i c) = nextRef c"
    using b by (simp_all add: continue_step_def)
  have flight: "en_inFlightUpdate e = Some (ui_value u)"
    if "map_of (machineCache c) (ui_id u) = Some e" "en_ref e = ui_ref u" for e
    using trackedD(5) [of "nextRef c" "machineCache c" "machine_items (active_items c)" "ui_id u" e "ui_value u"]
      ok item that by (auto simp: cache_ok_def)
  show ?thesis
  proof (rule covered_by_map [OF assms continue_ok [OF ok]])
    fix e'
    assume "map_of (machineCache (continue_step i c)) mid = Some e'" and "en_ref e' = ref"
    then show "\<exists>e. map_of (machineCache c) mid = Some e \<and> en_ref e = ref
        \<and> (in_order h e \<and> covers h e \<longrightarrow> in_order h e' \<and> covers h e')"
      using flight settle_entry_covers requeue_entry_covers
      by (cases "map_of (machineCache c) (ui_id u)"; cases ans)
        (auto simp: mc after_write_def update_conv' delete_conv' split: if_splits option.splits)
  qed (simp add: ref)
next
  case False
  then have "machineCache (continue_step i c) = machineCache c \<and> nextRef (continue_step i c) = nextRef c"
    by (auto simp: continue_step_def continue_update_machines split: option.splits prod.splits activity_update.splits)
  with assms show ?thesis using machines_unchanged continue_ok by (auto simp: machine_covered_def)
qed

lemma covered_validate:
  assumes "machine_covered mid ref h c"
  shows "machine_covered mid ref h (fst (machine_validated now k userId row c))"
proof (cases row)
  case (Some r)
  obtain m allocated where m: "validated_map (nextRef c) now k userId (c_lastActiveAt r) (machineCache c) = (m, allocated)"
    by fastforce
  have ref: "ref < nextRef c" using assms by (simp add: machine_covered_def)
  show ?thesis
  proof (rule covered_by_map [OF assms validated_ok(2)])
    fix e'
    assume "map_of (machineCache (fst (machine_validated now k userId row c))) mid = Some e'" and "en_ref e' = ref"
    then show "\<exists>e. map_of (machineCache c) mid = Some e \<and> en_ref e = ref
        \<and> (in_order h e \<and> covers h e \<longrightarrow> in_order h e' \<and> covers h e')"
      using m ref Some refresh_entry_covers
      by (auto simp: machine_validated_def validated_map_def update_conv' fresh_entry_def
          refresh_entry_def [of now _ _, symmetric] split: option.splits if_splits)
        (auto simp: refresh_entry_def)
  qed (use assms m Some in \<open>auto simp: machine_covered_def machine_validated_def\<close>)
qed (use assms in \<open>simp add: machine_validated_def\<close>)

lemma covered_queue:
  assumes "machine_covered mid ref h c" and "k = mid \<Longrightarrow> \<not> isShuttingDown c \<Longrightarrow> h \<le> t"
  shows "machine_covered mid ref (if k = mid \<and> \<not> isShuttingDown c then t else h) (fst (queueMachineUpdate k t c))"
proof -
  have ok: "cache_ok (fst (queueMachineUpdate k t c))" using assms(1) by (simp add: machine_covered_def queue_ok)
  show ?thesis
  proof (cases "k = mid \<and> \<not> isShuttingDown c")
    case True
    have same_ref: "en_ref e' = en_ref e" if "queue_entry id any_machine t e = (e', q)" for e e' q
      using that by (auto simp: queue_entry_def split: if_splits)
    show ?thesis
      using assms True ok queue_entry_covers [of h _ t] same_ref
      by (auto simp: machine_covered_def queueMachineUpdate_def update_conv' split: option.splits prod.splits if_splits)
  next
    case False
    with assms(1) ok show ?thesis
      by (auto simp: machine_covered_def queueMachineUpdate_def update_conv' split: option.splits prod.splits if_splits)
  qed
qed

lemma covered_cleanup: 
  assumes "machine_covered mid ref h c"
  shows "machine_covered mid ref h (cache_cleanup now c)"
proof (rule covered_by_map [OF assms cleanup_ok])
  fix e'
  assume e': "map_of (machineCache (cache_cleanup now c)) mid = Some e'" "en_ref e' = ref"
  have "distinct (map fst (machineCache c))"
    using assms trackedD(1) by (auto simp: machine_covered_def cache_ok_def)
  with e' show "\<exists>e. map_of (machineCache c) mid = Some e \<and> en_ref e = ref
        \<and> (in_order h e \<and> covers h e \<longrightarrow> in_order h e' \<and> covers h e')"
    using map_of_SomeD [OF e'(1)] by (auto simp: cache_cleanup_def)
qed (use assms in \<open>auto simp: machine_covered_def cache_cleanup_def\<close>)

lemma covered_unchanged:
  assumes "machine_covered mid ref h (fst s)" and "machineCache (fst (cache_step ev s)) = machineCache (fst s)"
    and "nextRef (fst s) \<le> nextRef (fst (cache_step ev s))"
  shows "machine_covered mid ref h (fst (cache_step ev s))"
  using assms step_ok [of s ev] by (auto simp: machine_covered_def)

lemma covered_step:
  assumes "machine_covered mid ref h (fst s)" and "\<And>k t. ev \<noteq> EvQueueMachine k t"
  shows "machine_covered mid ref h (fst (cache_step ev s))"
proof (cases ev)
  case (EvValidateSession now sid userId row)
  then show ?thesis
    by (intro covered_unchanged [OF assms(1)]; cases s)
      (auto simp: session_validated_def split: option.splits prod.splits)
next
  case (EvQueueSession sid t inst)
  then show ?thesis
    by (intro covered_unchanged [OF assms(1)]; cases s)
      (auto simp: queueSessionUpdate_def split: option.splits prod.splits)
next
  case (EvAnswer i fate now)
  then show ?thesis
    by (intro covered_unchanged [OF assms(1)]; cases s)
      (auto simp: answer_step_def split: option.splits prod.splits)
next
  case EvShutdown
  have "machine_covered mid ref h ((fst s)\<lparr>isShuttingDown := True, batchTimer := False\<rparr>)"
    using assms(1) by (simp add: machine_covered_def cache_ok_def active_items_def)
  from covered_flush [OF this] show ?thesis
    using assms(1) EvShutdown by (cases s) (simp add: cache_shutdown_def)
qed (use assms in \<open>cases s; simp add: covered_validate covered_flush covered_continue covered_batch_end covered_cleanup\<close>)+

lemma shutting_step:
  "isShuttingDown (fst (cache_step ev s)) \<longleftrightarrow> isShuttingDown (fst s) \<or> ev = EvShutdown"
proof -
  have start: "isShuttingDown (start_batch c) = isShuttingDown c" for c
    by (simp add: start_batch_def takePendingUpdates_def split: prod.splits)
  have cont: "isShuttingDown (continue_update u ans c) = isShuttingDown c" for u ans c
    by (cases u) auto
  show ?thesis
    by (cases s; cases ev)
      (auto simp: session_validated_def machine_validated_def queueSessionUpdate_def queueMachineUpdate_def
        flushPendingUpdates_def answer_step_def continue_step_def batch_end_step_def cache_cleanup_def
        cache_shutdown_def start cont split: option.splits prod.splits)
qed

lemma covered_run:
  assumes "machine_covered mid ref h (fst s)" and "sorted (h # heartbeats mid (isShuttingDown (fst s)) evs)"
  shows "machine_covered mid ref (last (h # heartbeats mid (isShuttingDown (fst s)) evs)) (fst (cache_run evs s))"
  using assms
proof (induction evs arbitrary: s h)
  case (Cons ev evs)
  show ?case
  proof (cases "\<exists>k t. ev = EvQueueMachine k t")
    case True
    then obtain k t where ev: "ev = EvQueueMachine k t" by blast
    let ?h = "if k = mid \<and> \<not> isShuttingDown (fst s) then t else h"
    have "machine_covered mid ref ?h (fst (cache_step ev s))"
      using covered_queue [OF Cons.prems(1), of k t] Cons.prems(2) ev by (cases s) auto
    from Cons.IH [OF this] show ?thesis
      using Cons.prems(2) ev shutting_step [of ev s] by (auto simp: cache_run_def split: if_splits)
  next
    case False
    then have "machine_covered mid ref h (fst (cache_step ev s))" using covered_step [OF Cons.prems(1)] by blast
    from Cons.IH [OF this] show ?thesis
      using Cons.prems(2) False shutting_step [of ev s] by (cases ev) (auto simp: cache_run_def)
  qed
qed (simp add: cache_run_def)

section \<open>A flush completes\<close>

text \<open>The database answers one write after the other, then the batch ends.\<close>

definition drain_events :: "ts \<Rightarrow> nat \<Rightarrow> cache_event list" where
  "drain_events now n = concat (replicate n [EvAnswer 0 Answers now, EvContinue 0]) @ [EvBatchEnd]"

lemma drain_one:
  assumes "cache_ok c" and "flushing c = Some b" and "active_items c \<noteq> []"
  shows "\<exists>c' d' b'. cache_run [EvAnswer 0 Answers now, EvContinue 0] (c, d) = (c', d')
     \<and> flushing c' = Some b' \<and> flushAgain c' = flushAgain c
     \<and> length (active_items c) = Suc (length (active_items c'))"
proof -
  obtain u ans rs where rs: "fb_running b = (u, ans) # rs"
    using assms by (cases "fb_running b") (auto simp: cache_ok_def active_items_def)
  have size: "length (active_items c) = Suc (length rs + length (fb_waiting b))"
    using assms(2) rs by (simp add: active_items_def)
  have again: "flushAgain (continue_update v a c1) = flushAgain c1" for v a c1 by (cases v) auto
  show ?thesis
    using assms(2) rs size
    by (cases ans; cases "fb_waiting b"; cases "await_statement Answers u now d")
      (auto simp: cache_run_def answer_step_def continue_step_def finish_item_def drop_nth_def active_items_def again)
qed

lemma drain_all:
  assumes "cache_ok c" and "flushing c = Some b" and "\<not> flushAgain c"
  shows "flushing (fst (cache_run (drain_events now (length (active_items c))) (c, d))) = None"
  using assms
proof (induction "length (active_items c)" arbitrary: c d b)
  case 0
  then have "fb_running b = []" by (simp add: active_items_def)
  with 0 show ?case by (simp add: drain_events_def cache_run_def batch_end_step_def)
next
  case (Suc n)
  then have "active_items c \<noteq> []" by auto
  then obtain c' d' b' where one: "cache_run [EvAnswer 0 Answers now, EvContinue 0] (c, d) = (c', d')"
    "flushing c' = Some b'" "flushAgain c' = flushAgain c" "length (active_items c) = Suc (length (active_items c'))"
    using drain_one [OF Suc.prems(1,2)] by blast
  have "cache_ok c'" using run_ok [of "(c, d)" "[EvAnswer 0 Answers now, EvContinue 0]"] Suc.prems(1) one(1) by simp
  with Suc one have "flushing (fst (cache_run (drain_events now (length (active_items c'))) (c', d'))) = None" by simp
  moreover have "cache_run (drain_events now (length (active_items c))) (c, d)
      = cache_run (drain_events now (length (active_items c'))) (cache_run [EvAnswer 0 Answers now, EvContinue 0] (c, d))"
    unfolding one(4) by (simp add: drain_events_def cache_run_def)
  ultimately show ?case using one(1) by simp
qed

lemma idle_not_in_flight:
  assumes "tracked ref m items" and "items = []" and "map_of m k = Some e"
  shows "en_inFlightUpdate e = None"
  using trackedD(5) [OF assms(1,3)] assms(2) by (cases "en_inFlightUpdate e") auto

lemma sorted_le_last: "sorted xs \<Longrightarrow> x \<in> set xs \<Longrightarrow> x \<le> last xs"
  by (induction xs) auto

lemma idle_cache:
  assumes "cache_ok c" and "flushing c = None"
  shows "map_of (machineCache c) k = Some e \<Longrightarrow> en_inFlightUpdate e = None"
    and "map_of (sessionCache c) k = Some e' \<Longrightarrow> en_inFlightUpdate e' = None"
  using assms by (auto simp: cache_ok_def active_items_def intro: idle_not_in_flight)

text \<open>
  C30.  The heartbeat cache never gets stuck.  Whatever sequence of validations, heartbeats, flushes,
  database answers (including failures), cleanups and a shutdown the process runs, an entry is in
  flight exactly while one unfinished write of the running flush carries its value, at most
  \<^verbatim>\<open>maxFlushConcurrency\<close> writes are awaited at a time, and a running flush that nobody asks to
  repeat ends as soon as the database has answered its writes, with nothing left in flight: every
  later pending heartbeat will be taken by the next flush.
\<close>

theorem flush_completes:
  assumes "new_activity_cache autoStart interval concurrency = Some c0"
    and "cache_run evs (c0, d0) = (c, d)"
  shows "(\<forall>k e x. map_of (machineCache c) k = Some e \<longrightarrow>
           (en_inFlightUpdate e = Some x \<longleftrightarrow>
              (\<exists>u \<in> set (machine_items (active_items c)). ui_id u = k \<and> ui_ref u = en_ref e \<and> ui_value u = x)))
     \<and> (\<forall>k e x. map_of (sessionCache c) k = Some e \<longrightarrow>
           (en_inFlightUpdate e = Some x \<longleftrightarrow>
              (\<exists>u \<in> set (session_items (active_items c)). ui_id u = k \<and> ui_ref u = en_ref e \<and> ui_value u = x)))
     \<and> (\<forall>b. flushing c = Some b \<longrightarrow> length (fb_running b) \<le> maxFlushConcurrency c)
     \<and> (\<forall>now. flushing c \<noteq> None \<and> \<not> flushAgain c \<longrightarrow>
          (let c' = fst (cache_run (drain_events now (length (active_items c))) (c, d))
           in flushing c' = None
            \<and> (\<forall>k e. map_of (machineCache c') k = Some e \<longrightarrow> en_inFlightUpdate e = None)
            \<and> (\<forall>k e. map_of (sessionCache c') k = Some e \<longrightarrow> en_inFlightUpdate e = None)))"
proof -
  have ok: "cache_ok c"
    using run_ok [of "(c0, d0)" evs] new_cache_ok [OF assms(1)] assms(2) by simp
  have fin: "let c' = fst (cache_run (drain_events now (length (active_items c))) (c, d))
      in flushing c' = None
       \<and> (\<forall>k e. map_of (machineCache c') k = Some e \<longrightarrow> en_inFlightUpdate e = None)
       \<and> (\<forall>k e. map_of (sessionCache c') k = Some e \<longrightarrow> en_inFlightUpdate e = None)"
    if "flushing c \<noteq> None" "\<not> flushAgain c" for now
  proof -
    let ?c = "fst (cache_run (drain_events now (length (active_items c))) (c, d))"
    have "flushing ?c = None" using drain_all [OF ok] that by blast
    moreover have "cache_ok ?c" using run_ok [of "(c, d)"] ok by simp
    ultimately show ?thesis using idle_cache [of ?c] by (auto simp: Let_def)
  qed
  show ?thesis
    using ok fin unfolding cache_ok_def by (auto simp: trackedD(5))
qed

section \<open>What reached the database\<close>

text \<open>The states a run goes through, and whether a machine's row holds a time.\<close>

fun cache_states :: "cache_event list \<Rightarrow> presence \<Rightarrow> presence list" where
  "cache_states [] s = [s]"
| "cache_states (ev # evs) s = s # cache_states evs (cache_step ev s)"

definition in_database :: "ident \<Rightarrow> ts \<Rightarrow> db \<Rightarrow> bool" where
  "in_database mid x d = (\<exists>r \<in> set (machines d). c_id r = mid \<and> c_lastActiveAt r = x)"

text \<open>
  The times the entry takes for stored (\<open>en_lastUpdateSent\<close>), and those of its writes that were
  answered as applied but have not continued yet, lie in \<open>S\<close>.
\<close>

definition sent_within :: "ident \<Rightarrow> nat \<Rightarrow> ts set \<Rightarrow> activity_cache \<Rightarrow> bool" where
  "sent_within mid ref S c =
     (ref < nextRef c
    \<and> (\<forall>e. map_of (machineCache c) mid = Some e \<and> en_ref e = ref \<longrightarrow> en_lastUpdateSent e \<in> S)
    \<and> (\<forall>b u. flushing c = Some b \<and> (MachineItem u, Some Applied) \<in> set (fb_running b)
         \<and> ui_id u = mid \<and> ui_ref u = ref \<longrightarrow> ui_value u \<in> S))"

lemma applied_in_database:
  assumes "await_statement fate (MachineItem u) now d = (d', Applied)"
  shows "in_database (ui_id u) (ui_value u) d'"
proof -
  obtain r where r: "find_machine (ui_userId u) (ui_id u) d = Some r"
    and d': "d' = d\<lparr>machines := update_rows (\<lambda>r. c_accountId r = ui_userId u \<and> c_id r = ui_id u)
        (\<lambda>r. r\<lparr>c_lastActiveAt := ui_value u, c_updatedAt := now\<rparr>) (machines d)\<rparr>"
    using assms by (cases fate) (auto simp: await_statement_def persist_machine_row_def split: option.splits)
  have row: "r \<in> set (machines d)" "c_accountId r = ui_userId u" "c_id r = ui_id u"
    using find_row_SomeD [OF r [unfolded find_machine_def]] by auto
  have "r\<lparr>c_lastActiveAt := ui_value u, c_updatedAt := now\<rparr> \<in> set (machines d')"
    using row by (auto simp: d' set_update_rows image_iff intro!: bexI [of _ r])
  then show ?thesis unfolding in_database_def using row(3) by (intro bexI) simp_all
qed

lemma taken_sent: "en_lastUpdateSent (taken e) = en_lastUpdateSent e" "en_ref (taken e) = en_ref e"
  by (auto simp: taken_def take_entry_def split: option.splits)

lemma sent_start:
  assumes "sent_within mid ref S c"
  shows "sent_within mid ref S (start_batch c)"
proof -
  obtain mm items where mm: "take_map (machineCache c) = (mm, items)" by fastforce
  have "machineCache (start_batch c) = mm" "nextRef (start_batch c) = nextRef c"
    "\<And>b u a. flushing (start_batch c) = Some b \<Longrightarrow> (u, Some a) \<notin> set (fb_running b)"
    using mm by (auto simp: start_batch_def takePendingUpdates_def split: prod.splits)
  then show ?thesis
    using assms map_of_taken [OF mm, of mid] by (fastforce simp: sent_within_def taken_sent)
qed

lemma sent_cong:
  assumes "nextRef c' = nextRef c" and "machineCache c' = machineCache c" and "flushing c' = flushing c"
  shows "sent_within mid ref S c' = sent_within mid ref S c"
  by (simp only: sent_within_def assms)

lemma sent_idle:
  assumes "sent_within mid ref S c" and "nextRef c' = nextRef c" and "machineCache c' = machineCache c"
    and "flushing c' = None"
  shows "sent_within mid ref S c'"
  using assms by (simp add: sent_within_def)

lemma sent_flush:
  assumes "sent_within mid ref S c"
  shows "sent_within mid ref S (flushPendingUpdates c)"
  using sent_start [OF assms] assms sent_cong [of "c\<lparr>flushAgain := True\<rparr>" c]
  by (simp add: flushPendingUpdates_def)

lemma sent_batch_end:
  assumes "sent_within mid ref S c"
  shows "sent_within mid ref S (batch_end_step c)"
  using sent_start [OF assms] assms sent_idle [OF assms, of "c\<lparr>flushing := None\<rparr>"]
  by (simp add: batch_end_step_def split: option.splits)

lemma sent_answer:
  assumes "sent_within mid ref S (fst s)" and "\<And>x. in_database mid x (snd (answer_step i fate now s)) \<Longrightarrow> x \<in> S"
  shows "sent_within mid ref S (fst (answer_step i fate now s))"
proof (cases "\<exists>b. flushing (fst s) = Some b \<and> i < length (fb_running b) \<and> snd (fb_running b ! i) = None")
  case True
  then obtain b where b: "flushing (fst s) = Some b" "i < length (fb_running b)" "snd (fb_running b ! i) = None"
    by blast
  obtain d ans where stmt: "await_statement fate (fst (fb_running b ! i)) now (snd s) = (d, ans)" by fastforce
  have step: "answer_step i fate now s =
      ((fst s)\<lparr>flushing := Some (b\<lparr>fb_running := (fb_running b)[i := (fst (fb_running b ! i), Some ans)]\<rparr>)\<rparr>, d)"
    using b stmt by (simp add: answer_step_def)
  have new: "ui_value u \<in> S" if "fst (fb_running b ! i) = MachineItem u" "ans = Applied" "ui_id u = mid" for u
    using applied_in_database [of fate u now "snd s" d] stmt that assms(2) step by simp
  show ?thesis
    using assms(1) b(1) new unfolding step sent_within_def
    by (auto dest!: set_update_subset_insert [THEN subsetD])
qed (use assms(1) in \<open>auto simp: answer_step_def split: option.splits\<close>)

lemma entry_sent:
  "en_lastUpdateSent (settle_entry id any_machine x e) \<in> {en_lastUpdateSent e, x}"
  "en_lastUpdateSent (requeue_entry x e) = en_lastUpdateSent e"
  "en_lastUpdateSent (refresh_entry now t e) \<in> {en_lastUpdateSent e, t}" "en_ref (refresh_entry now t e) = en_ref e"
  "queue_entry stamp matches x e = (e', q) \<Longrightarrow> en_lastUpdateSent e' = en_lastUpdateSent e \<and> en_ref e' = en_ref e"
  by (auto simp: settle_entry_def requeue_entry_def refresh_entry_def queue_entry_def Let_def
      split: option.splits if_splits)

lemma finish_item_running:
  "(u, Some a) \<in> set (fb_running (finish_item i failed b)) \<Longrightarrow> (u, Some a) \<in> set (fb_running b)"
  by (auto simp: finish_item_def drop_nth_def dest: in_set_takeD in_set_dropD)

lemma sent_after_write:
  assumes "map_of (after_write id any_machine u ans m) mid = Some e"
    and "\<And>e0. map_of m mid = Some e0 \<Longrightarrow> en_ref e0 = en_ref e \<Longrightarrow> en_lastUpdateSent e0 \<in> S"
    and "ans = Applied \<Longrightarrow> ui_id u = mid \<Longrightarrow> ui_ref u = en_ref e \<Longrightarrow> ui_value u \<in> S"
  shows "en_lastUpdateSent e \<in> S"
proof (cases "ui_id u = mid \<and> (\<exists>e0. map_of m mid = Some e0 \<and> en_ref e0 = ui_ref u)")
  case True
  then obtain e0 where e0: "ui_id u = mid" "map_of m mid = Some e0" "en_ref e0 = ui_ref u" by blast
  show ?thesis
  proof (cases ans)
    case Applied
    with e0 assms(1) have "e = settle_entry id any_machine (ui_value u) e0"
      by (simp add: after_write_def update_conv')
    then show ?thesis
      using entry_sent(1) [of "ui_value u" e0] assms(2) [OF e0(2)] assms(3) [OF Applied e0(1)] e0(3) by auto
  next
    case MissingRecord
    with e0 assms(1) show ?thesis by (simp add: after_write_def delete_conv')
  next
    case Rejected
    with e0 assms(1) have "e = requeue_entry (ui_value u) e0" by (simp add: after_write_def update_conv')
    then show ?thesis using assms(2) [OF e0(2)] by (simp add: entry_sent(2))
  qed
next
  case False
  then have "map_of (after_write id any_machine u ans m) mid = map_of m mid"
    by (cases ans) (auto simp: after_write_def update_conv' delete_conv' split: option.splits)
  then show ?thesis using assms(1,2) by simp
qed

lemma sent_continue:
  assumes "sent_within mid ref S c"
  shows "sent_within mid ref S (continue_step i c)"
proof (cases "\<exists>b u ans. flushing c = Some b \<and> i < length (fb_running b) \<and> fb_running b ! i = (u, Some ans)")
  case True
  then obtain b u ans where b: "flushing c = Some b" "i < length (fb_running b)" "fb_running b ! i = (u, Some ans)"
    by blast
  have item: "(u, Some ans) \<in> set (fb_running b)" using b nth_mem by metis
  have step: "continue_step i c = (continue_update u ans c)\<lparr>flushing := Some (finish_item i (ans = Rejected) b)\<rparr>"
    using b by (simp add: continue_step_def)
  have entries: "en_lastUpdateSent e \<in> S"
    if "map_of (machineCache (continue_step i c)) mid = Some e" "en_ref e = ref" for e
  proof (cases u)
    case (SessionItem v)
    then show ?thesis using that assms by (simp add: step sent_within_def)
  next
    case (MachineItem v)
    have "map_of (after_write id any_machine v ans (machineCache c)) mid = Some e"
      using that(1) MachineItem by (simp add: step)
    then show ?thesis
      by (rule sent_after_write) (use assms that(2) b(1) item MachineItem in \<open>auto simp: sent_within_def\<close>)
  qed
  show ?thesis
    using assms b(1) entries finish_item_running
    by (auto simp: sent_within_def step continue_update_machines)
qed (use assms in \<open>auto simp: continue_step_def split: option.splits prod.splits\<close>)

lemma sent_validate:
  assumes "sent_within mid ref S c" and "\<And>r. k = mid \<Longrightarrow> row = Some r \<Longrightarrow> c_lastActiveAt r \<in> S"
  shows "sent_within mid ref S (fst (machine_validated now k userId row c))"
proof (cases row)
  case (Some r)
  obtain m allocated where m: "validated_map (nextRef c) now k userId (c_lastActiveAt r) (machineCache c) = (m, allocated)"
    by fastforce
  have ref: "ref < nextRef c" using assms(1) by (simp add: sent_within_def)
  have "en_lastUpdateSent e \<in> S" if "map_of m mid = Some e" "en_ref e = ref" for e
  proof (cases "k = mid")
    case False
    then have "map_of m mid = map_of (machineCache c) mid"
      using m by (auto simp: validated_map_def update_conv' split: option.splits if_splits)
    with that assms(1) show ?thesis by (simp add: sent_within_def)
  next
    case True
    with that ref m obtain e0 where e0: "map_of (machineCache c) mid = Some e0"
      "e = refresh_entry now (c_lastActiveAt r) e0"
      by (auto simp: validated_map_def update_conv' fresh_entry_def split: option.splits if_splits)
    then have "en_lastUpdateSent e0 \<in> S" using that(2) assms(1) by (simp add: sent_within_def entry_sent(4))
    then show ?thesis using entry_sent(3) [of now "c_lastActiveAt r" e0] e0(2) assms(2) [OF True Some] by auto
  qed
  then show ?thesis using assms(1) m Some by (auto simp: sent_within_def machine_validated_def)
qed (use assms(1) in \<open>simp add: machine_validated_def\<close>)

lemma sent_queue:
  assumes "sent_within mid ref S c"
  shows "sent_within mid ref S (fst (queueMachineUpdate k t c))"
proof (cases "\<exists>e. map_of (machineCache c) k = Some e \<and> \<not> isShuttingDown c")
  case True
  then obtain e where e: "map_of (machineCache c) k = Some e" "\<not> isShuttingDown c" by blast
  obtain e' q where q: "queue_entry id any_machine t e = (e', q)" by fastforce
  have "en_lastUpdateSent e' = en_lastUpdateSent e" "en_ref e' = en_ref e"
    using entry_sent(5) [OF q] by simp_all
  then show ?thesis
    using assms e q by (auto simp: sent_within_def queueMachineUpdate_def update_conv' split: if_splits)
qed (use assms in \<open>auto simp: queueMachineUpdate_def split: option.splits\<close>)

lemma sent_cleanup:
  assumes "sent_within mid ref S c" and "distinct (map fst (machineCache c))"
  shows "sent_within mid ref S (cache_cleanup now c)"
proof -
  have "map_of (machineCache c) mid = Some e"
    if "map_of (filter (\<lambda>(k, e). keep_entry now e) (machineCache c)) mid = Some e" for e
    using map_of_SomeD [OF that] assms(2) by auto
  then show ?thesis using assms(1) by (auto simp: sent_within_def cache_cleanup_def)
qed

lemma sent_step:
  assumes "sent_within mid ref S (fst s)" and "cache_ok (fst s)"
    and "\<And>x. in_database mid x (snd (cache_step ev s)) \<Longrightarrow> x \<in> S"
    and "\<And>now u r. ev = EvValidateMachine now mid u (Some r) \<Longrightarrow> c_lastActiveAt r \<in> S"
  shows "sent_within mid ref S (fst (cache_step ev s))"
proof (cases ev)
  case (EvValidateSession now sid userId row)
  obtain c d where s: "s = (c, d)" by (cases s)
  have same: "machineCache (fst (session_validated now sid userId row c)) = machineCache c"
    "flushing (fst (session_validated now sid userId row c)) = flushing c"
    "nextRef c \<le> nextRef (fst (session_validated now sid userId row c))"
    by (simp_all add: session_validated_def split: option.splits prod.splits)
  show ?thesis
    using assms(1) same EvValidateSession unfolding s sent_within_def by (simp del: split_paired_All) blast
next
  case (EvQueueSession sid t inst)
  obtain c d where s: "s = (c, d)" by (cases s)
  have "nextRef (fst (queueSessionUpdate sid t inst c)) = nextRef c"
    "machineCache (fst (queueSessionUpdate sid t inst c)) = machineCache c"
    "flushing (fst (queueSessionUpdate sid t inst c)) = flushing c"
    by (simp_all add: queueSessionUpdate_def split: option.splits prod.splits)
  from sent_cong [OF this] show ?thesis using assms(1) EvQueueSession s by simp
next
  case (EvAnswer i fate now)
  then show ?thesis using assms(1,3) sent_answer [of mid ref S s i fate now] by (cases s) auto
next
  case (EvValidateMachine now k userId row)
  then show ?thesis using assms(1,4) by (cases s) (auto intro: sent_validate)
next
  case EvShutdown
  have "sent_within mid ref S ((fst s)\<lparr>isShuttingDown := True, batchTimer := False\<rparr>)"
    using assms(1) by (subst sent_cong [of _ "fst s"]) simp_all
  from sent_flush [OF this] show ?thesis using assms(1) EvShutdown by (cases s) (simp add: cache_shutdown_def)
next
  case (EvCleanup now)
  have "distinct (map fst (machineCache (fst s)))" using assms(2) by (simp add: cache_ok_def tracked_def)
  then show ?thesis using assms(1) EvCleanup by (cases s) (simp add: sent_cleanup)
qed (use assms(1) in \<open>cases s; simp add: sent_flush sent_continue sent_batch_end sent_queue\<close>)+

lemma cache_states_first: "s \<in> set (cache_states evs s)"
  by (cases evs) auto

lemma sent_run:
  assumes "sent_within mid ref S (fst s)" and "cache_ok (fst s)"
    and "\<And>x s'. s' \<in> set (cache_states evs s) \<Longrightarrow> in_database mid x (snd s') \<Longrightarrow> x \<in> S"
    and "\<And>now u r. EvValidateMachine now mid u (Some r) \<in> set evs \<Longrightarrow> c_lastActiveAt r \<in> S"
  shows "sent_within mid ref S (fst (cache_run evs s))"
  using assms
proof (induction evs arbitrary: s)
  case (Cons ev evs)
  have "sent_within mid ref S (fst (cache_step ev s))"
    by (rule sent_step [OF Cons.prems(1,2)])
      (use Cons.prems(3) [of "cache_step ev s"] Cons.prems(4) cache_states_first in auto)
  then have "sent_within mid ref S (fst (cache_run evs (cache_step ev s)))"
  proof (rule Cons.IH)
    show "cache_ok (fst (cache_step ev s))" by (rule step_ok [OF Cons.prems(2)])
    show "x \<in> S" if "s' \<in> set (cache_states evs (cache_step ev s))" "in_database mid x (snd s')" for x s'
      using Cons.prems(3) [of s' x] that by simp
    show "c_lastActiveAt r \<in> S" if "EvValidateMachine now mid u (Some r) \<in> set evs" for now u r
      using Cons.prems(4) [of now u r] that by simp
  qed
  then show ?case by (simp add: cache_run_def)
qed (simp add: cache_run_def)

text \<open>
  C31.  No heartbeat of a machine is lost.  From the moment a machine's entry is cached, whatever
  else happens (flushes, failed and rejected writes, validations, cleanups, other components on the
  database), as long as the entry lives and the heartbeats arrive in order, every heartbeat that
  was offered is covered by a time at most 60 seconds older that is pending, or carried by an
  unfinished write of the running flush, or stored: the row of the machine in the database has
  held it at some point since (or a validation read it there, or the entry began with it).  So
  when nothing is pending and no write of the entry is unfinished, such a time has reached the
  database.
\<close>

theorem heartbeats_covered:
  fixes c0 :: activity_cache and d0 :: db
  assumes "cache_ok c0" and "map_of (machineCache c0) mid = Some e0"
    and "en_pendingUpdate e0 = None" and "en_inFlightUpdate e0 = None"
    and "sorted (heartbeats mid (isShuttingDown c0) evs)" and "t \<in> set (heartbeats mid (isShuttingDown c0) evs)"
    and "cache_run evs (c0, d0) = (c, d)" and "map_of (machineCache c) mid = Some e" and "en_ref e = en_ref e0"
  defines "stored x \<equiv> (\<exists>s \<in> set (cache_states evs (c0, d0)). in_database mid x (snd s))
      \<or> (\<exists>now u r. EvValidateMachine now mid u (Some r) \<in> set evs \<and> c_lastActiveAt r = x)
      \<or> x = en_lastUpdateSent e0"
  shows "(\<exists>x \<ge> t - 60000. en_pendingUpdate e = Some x
            \<or> (\<exists>u \<in> set (machine_items (active_items c)). ui_id u = mid \<and> ui_ref u = en_ref e \<and> ui_value u = x)
            \<or> stored x)
     \<and> (en_pendingUpdate e = None
        \<and> (\<forall>u \<in> set (machine_items (active_items c)). \<not> (ui_id u = mid \<and> ui_ref u = en_ref e))
          \<longrightarrow> (\<exists>x \<ge> t - 60000. stored x))"
proof -
  let ?ts = "heartbeats mid (isShuttingDown c0) evs"
  define h where "h = min (hd ?ts) (en_lastUpdateSent e0)"
  have "\<forall>x \<in> set ?ts. hd ?ts \<le> x" using assms(5) by (cases ?ts) auto
  then have sorted: "sorted (h # ?ts)" using assms(5) by (auto simp: h_def)
  have "machine_covered mid (en_ref e0) h c0"
    using assms(1-4) trackedD(2) by (auto simp: machine_covered_def cache_ok_def entry_defs h_def)
  then have "machine_covered mid (en_ref e0) (last (h # ?ts)) c"
    using covered_run [of mid "en_ref e0" h "(c0, d0)" evs] sorted assms(7) by simp
  then have "covers (last (h # ?ts)) e" using assms(8,9) by (auto simp: machine_covered_def)
  moreover have "t \<le> last (h # ?ts)"
    using sorted_le_last [OF assms(5,6)] assms(6) by (cases ?ts) auto
  ultimately have cover: "\<exists>x \<in> set_option (en_pendingUpdate e) \<union> set_option (en_inFlightUpdate e) \<union> {en_lastUpdateSent e}.
      t - 60000 \<le> x"
    "en_pendingUpdate e = None \<and> en_inFlightUpdate e = None \<longrightarrow> t - 60000 \<le> en_lastUpdateSent e"
    by (auto simp: covers_def UPDATE_THRESHOLD_MS_def)
  have ok: "cache_ok c" using run_ok [of "(c0, d0)" evs] assms(1,7) by simp
  have flight: "en_inFlightUpdate e = Some x \<longleftrightarrow>
      (\<exists>u \<in> set (machine_items (active_items c)). ui_id u = mid \<and> ui_ref u = en_ref e \<and> ui_value u = x)" for x
    using ok assms(8) unfolding cache_ok_def by (blast dest: trackedD(5))
  have no_items: False
    if "flushing c0 = Some b" "(MachineItem u, a) \<in> set (fb_running b)" "ui_id u = mid" "ui_ref u = en_ref e0" for b u a
  proof -
    have "MachineItem u \<in> set (active_items c0)" using that(1,2) by (force simp: active_items_def)
    then have "u \<in> set (machine_items (active_items c0))" by (force simp: machine_items_def map_filter_def)
    then show False
      using trackedD(5) [of "nextRef c0" "machineCache c0" "machine_items (active_items c0)" mid e0 "ui_value u"]
        assms(1,2,4) that(3,4) by (auto simp: cache_ok_def)
  qed
  have "sent_within mid (en_ref e0) {x. stored x} c0"
    unfolding sent_within_def
  proof (intro conjI allI impI; (elim conjE)?)
    show "en_ref e0 < nextRef c0" using assms(1,2) trackedD(2) by (auto simp: cache_ok_def)
    show "en_lastUpdateSent e1 \<in> {x. stored x}" if "map_of (machineCache c0) mid = Some e1" for e1
      using that assms(2) by (simp add: stored_def)
    show "ui_value u \<in> {x. stored x}" if "flushing c0 = Some b" "(MachineItem u, Some Applied) \<in> set (fb_running b)"
      "ui_id u = mid" "ui_ref u = en_ref e0" for b u
      using no_items [OF that] by blast
  qed
  then have "sent_within mid (en_ref e0) {x. stored x} (fst (cache_run evs (c0, d0)))"
    by (intro sent_run) (use assms(1) in \<open>auto simp: stored_def\<close>)
  then have sent: "stored (en_lastUpdateSent e)" using assms(7-9) by (simp add: sent_within_def)
  show ?thesis using cover flight sent by fastforce
qed

section \<open>A concrete run of the cache\<close>

definition demo_machine :: machine where
  "demo_machine = \<lparr>c_id = ''m1'', c_accountId = ''u1'', c_metadata = ''meta'', c_metadataVersion = 1,
     c_daemonState = None, c_daemonStateVersion = 0, c_dataEncryptionKey = None, c_seq = 0,
     c_active = False, c_lastActiveAt = 0, c_createdAt = 0, c_updatedAt = 0\<rparr>"

definition demo_presence_db :: db where
  "demo_presence_db = empty_db\<lparr>accounts := [blank_account ''u1'' ''pk'' 0], machines := [demo_machine]\<rparr>"

definition demo_cache :: activity_cache where
  "demo_cache = the (new_activity_cache True None (Some 2))"

definition demo_validated :: activity_cache where
  "demo_validated = fst (cache_run [EvValidateMachine 0 ''m1'' ''u1'' (Some demo_machine)] (demo_cache, demo_presence_db))"

text \<open>Three heartbeats; the first write fails, a flush is running at the end.\<close>

definition demo_beats :: "cache_event list" where
  "demo_beats = [EvQueueMachine ''m1'' 40000, EvFlush, EvQueueMachine ''m1'' 50000, EvAnswer 0 RejectedBefore 50001,
     EvContinue 0, EvBatchEnd, EvQueueMachine ''m1'' 90000, EvFlush]"

theorem flush_completes_witness:
  "flushing (fst (cache_run (EvValidateMachine 0 ''m1'' ''u1'' (Some demo_machine) # demo_beats) (demo_cache, demo_presence_db))) \<noteq> None
   \<and> (let s = cache_run (EvValidateMachine 0 ''m1'' ''u1'' (Some demo_machine) # demo_beats) (demo_cache, demo_presence_db)
      in flushing (fst (cache_run (drain_events 90001 (length (active_items (fst s)))) s)) = None)"
proof -
  let ?evs = "EvValidateMachine 0 ''m1'' ''u1'' (Some demo_machine) # demo_beats"
  obtain c d where run: "cache_run ?evs (demo_cache, demo_presence_db) = (c, d)" by fastforce
  have new: "new_activity_cache True None (Some 2) = Some demo_cache" by code_simp
  have "flushing (fst (cache_run ?evs (demo_cache, demo_presence_db))) \<noteq> None"
    "\<not> flushAgain (fst (cache_run ?evs (demo_cache, demo_presence_db)))" by code_simp+
  then show ?thesis using flush_completes [OF new run] run by (auto simp: Let_def)
qed

theorem heartbeats_covered_witness:
  "\<exists>e. map_of (machineCache (fst (cache_run demo_beats (demo_validated, demo_presence_db)))) ''m1'' = Some e
     \<and> en_pendingUpdate e = None
     \<and> (\<exists>x \<ge> 90000 - 60000.
          (\<exists>u \<in> set (machine_items (active_items (fst (cache_run demo_beats (demo_validated, demo_presence_db))))).
             ui_id u = ''m1'' \<and> ui_value u = x)
        \<or> (\<exists>s \<in> set (cache_states demo_beats (demo_validated, demo_presence_db)). in_database ''m1'' x (snd s)))"
proof -
  have ok: "cache_ok demo_validated"
    using run_ok [of "(demo_cache, demo_presence_db)" "[EvValidateMachine 0 ''m1'' ''u1'' (Some demo_machine)]"]
      new_cache_ok [of True None "Some 2" demo_cache]
    by (simp add: demo_validated_def) (simp add: demo_cache_def new_activity_cache_def Let_def)
  have start: "map_of (machineCache demo_validated) ''m1'' = Some (fresh_entry 0 0 0 ''u1'')" by code_simp
  obtain c d where run: "cache_run demo_beats (demo_validated, demo_presence_db) = (c, d)" by fastforce
  have "map_option (\<lambda>e. (en_ref e, en_pendingUpdate e))
      (map_of (machineCache (fst (cache_run demo_beats (demo_validated, demo_presence_db)))) ''m1'') = Some (0, None)"
    by code_simp
  then obtain e where e: "map_of (machineCache c) ''m1'' = Some e" "en_ref e = 0" "en_pendingUpdate e = None"
    using run by auto
  have hb: "heartbeats ''m1'' (isShuttingDown demo_validated) demo_beats = [40000, 50000, 90000]" by code_simp
  have evs: "EvValidateMachine now ''m1'' u (Some r) \<notin> set demo_beats" for now u r by (simp add: demo_beats_def)
  show ?thesis
    using heartbeats_covered [OF ok start, of demo_beats 90000 demo_presence_db c d e] run e hb evs
    by (auto simp: fresh_entry_def)
qed

end
