(* ===== verification/Machines.thy ===== *)
theory Machines
  imports SessionUpdate ActivityCache
begin

text \<open>
  Machines: the socket handlers of \<^verbatim>\<open>api/socket/machineUpdateHandler.ts\<close> (heartbeat, metadata and
  daemon-state updates with optimistic concurrency control) and the routes of
  \<^verbatim>\<open>api/routes/machinesRoutes.ts\<close> (create or load, list, read one).  \<open>enc\<close> and \<open>dec\<close> are base64
  encoding and decoding of \<^verbatim>\<open>Buffer\<close>.
\<close>

section \<open>Heartbeat\<close>

definition handle_machine_alive ::
  "presence sched \<Rightarrow> ts \<Rightarrow> ident \<Rightarrow> jsval \<Rightarrow> presence \<Rightarrow> presence \<times> emission list" where
  "handle_machine_alive w now userId data s =
     (case as_number (get_prop data ''time'') of
        None \<Rightarrow> (s, [])
      | Some time \<Rightarrow>
          if \<not> js_truthy data \<or> \<not> js_truthy (get_prop data ''machineId'') then (s, [])
          else let t = (if time > now then now else time)
               in if t < now - 1000 * 60 * 10 then (s, [])
                  else (case as_string (get_prop data ''machineId'') of
                          None \<Rightarrow> (s, [])
                        | Some mid \<Rightarrow>
                            (case isMachineValid w now mid userId s of
                               (s1, False) \<Rightarrow> (s1, [])
                             | (s1, True) \<Rightarrow>
                                 ((fst (queueMachineUpdate mid t (fst s1)), snd s1),
                                  [EmitEphemeral userId (buildMachineActivityEphemeral mid True t) UserScopedOnly]))))"

section \<open>Metadata and daemon state\<close>

definition error_message :: "string \<Rightarrow> json" where
  "error_message msg = JObj [(''result'', JStr ''error''), (''message'', JStr msg)]"

definition update_machine_metadata :: "ident \<Rightarrow> ident \<Rightarrow> int \<Rightarrow> string \<Rightarrow> ts \<Rightarrow> db \<Rightarrow> db \<times> bool" where
  "update_machine_metadata userId mid expectedVersion metadata now d =
     (let P = (\<lambda>r. c_accountId r = userId \<and> c_id r = mid \<and> c_metadataVersion r = expectedVersion)
      in (d\<lparr>machines := update_rows P
              (\<lambda>r. r\<lparr>c_metadata := metadata, c_metadataVersion := expectedVersion + 1, c_updatedAt := now\<rparr>)
              (machines d)\<rparr>,
          count_rows P (machines d) > 0))"

definition update_machine_state :: "ident \<Rightarrow> ident \<Rightarrow> int \<Rightarrow> string \<Rightarrow> ts \<Rightarrow> db \<Rightarrow> db \<times> bool" where
  "update_machine_state userId mid expectedVersion daemonState now d =
     (let P = (\<lambda>r. c_accountId r = userId \<and> c_id r = mid \<and> c_daemonStateVersion r = expectedVersion)
      in (d\<lparr>machines := update_rows P
              (\<lambda>r. r\<lparr>c_daemonState := Some daemonState, c_daemonStateVersion := expectedVersion + 1,
                     c_active := True, c_lastActiveAt := now, c_updatedAt := now\<rparr>)
              (machines d)\<rparr>,
          count_rows P (machines d) > 0))"

definition machine_metadata_mismatch :: "machine option \<Rightarrow> json" where
  "machine_metadata_mismatch current =
     (case current of
        None \<Rightarrow> JObj [(''result'', JStr ''version-mismatch''), (''version'', JNum 0)]
      | Some r \<Rightarrow> result_json ''version-mismatch'' (c_metadataVersion r) ''metadata'' (JStr (c_metadata r)))"

definition machine_state_mismatch :: "machine option \<Rightarrow> json" where
  "machine_state_mismatch current =
     (case current of
        None \<Rightarrow> JObj [(''result'', JStr ''version-mismatch''), (''version'', JNum 0)]
      | Some r \<Rightarrow> result_json ''version-mismatch'' (c_daemonStateVersion r) ''daemonState'' (nullable (c_daemonState r)))"

text \<open>After the compare-and-set: the re-read of a lost write, or the update and the success answer.\<close>

definition finish_machine_update ::
  "db sched \<Rightarrow> ts \<Rightarrow> ident \<Rightarrow> ident \<Rightarrow> bool \<Rightarrow> (machine option \<Rightarrow> json) \<Rightarrow> (int \<Rightarrow> update_payload) \<Rightarrow> json
   \<Rightarrow> db \<Rightarrow> db \<times> effect list" where
  "finish_machine_update w now userId mid written mismatch payload success d =
     (if \<not> written
      then (case db_call w 2 (\<lambda>d. (d, find_machine userId mid d)) d of
              (d1, None) \<Rightarrow> (d1, [Ack (error_message ''Internal error'')])
            | (d1, Some current) \<Rightarrow> (d1, [Ack (mismatch current)]))
      else (case db_call w 2 (throwing (allocateUserSeq userId now)) d of
              (d1, Some (Some updSeq)) \<Rightarrow>
                (d1, [Emit (EmitUpdate userId (payload updSeq) (MachineScopedOnly mid)), Ack success])
            | (d1, _) \<Rightarrow> (d1, [Ack (error_message ''Internal error'')])))"

definition handle_machine_update_metadata ::
  "db sched \<Rightarrow> (nat \<Rightarrow> ts) \<Rightarrow> ident \<Rightarrow> ident \<Rightarrow> jsval \<Rightarrow> db \<Rightarrow> db \<times> effect list" where
  "handle_machine_update_metadata w clk updId userId data d =
     (if nullish data then (d, [Ack (error_message ''Internal error'')])
      else case (as_string (get_prop data ''metadata''), as_number (get_prop data ''expectedVersion'')) of
        (Some metadata, Some expectedVersion) \<Rightarrow>
          if \<not> js_truthy (get_prop data ''machineId'') then (d, [Ack (error_message ''Invalid parameters'')])
          else (case as_string (get_prop data ''machineId'') of
             None \<Rightarrow> (d, [Ack (error_message ''Internal error'')])
           | Some mid \<Rightarrow>
              (case db_call w 0 (\<lambda>d. (d, find_machine userId mid d)) d of
                 (d1, None) \<Rightarrow> (d1, [Ack (error_message ''Internal error'')])
               | (d1, Some None) \<Rightarrow> (d1, [Ack (error_message ''Machine not found'')])
               | (d1, Some (Some m)) \<Rightarrow>
                   if c_metadataVersion m \<noteq> expectedVersion
                   then (d1, [Ack (machine_metadata_mismatch (Some m))])
                   else (case db_call w 1 (update_machine_metadata userId mid expectedVersion metadata (clk 1)) d1 of
                      (d2, None) \<Rightarrow> (d2, [Ack (error_message ''Internal error'')])
                    | (d2, Some written) \<Rightarrow>
                        finish_machine_update w (clk 2) userId mid written machine_metadata_mismatch
                          (\<lambda>updSeq. buildUpdateMachineUpdate mid updSeq updId
                             (Some (Some metadata, expectedVersion + 1)) None (clk 2))
                          (result_json ''success'' (expectedVersion + 1) ''metadata'' (JStr metadata)) d2)))
      | _ \<Rightarrow> (d, [Ack (error_message ''Invalid parameters'')]))"

definition handle_machine_update_state ::
  "db sched \<Rightarrow> (nat \<Rightarrow> ts) \<Rightarrow> ident \<Rightarrow> ident \<Rightarrow> jsval \<Rightarrow> db \<Rightarrow> db \<times> effect list" where
  "handle_machine_update_state w clk updId userId data d =
     (if nullish data then (d, [Ack (error_message ''Internal error'')])
      else case (as_string (get_prop data ''daemonState''), as_number (get_prop data ''expectedVersion'')) of
        (Some daemonState, Some expectedVersion) \<Rightarrow>
          if \<not> js_truthy (get_prop data ''machineId'') then (d, [Ack (error_message ''Invalid parameters'')])
          else (case as_string (get_prop data ''machineId'') of
             None \<Rightarrow> (d, [Ack (error_message ''Internal error'')])
           | Some mid \<Rightarrow>
              (case db_call w 0 (\<lambda>d. (d, find_machine userId mid d)) d of
                 (d1, None) \<Rightarrow> (d1, [Ack (error_message ''Internal error'')])
               | (d1, Some None) \<Rightarrow> (d1, [Ack (error_message ''Machine not found'')])
               | (d1, Some (Some m)) \<Rightarrow>
                   if c_daemonStateVersion m \<noteq> expectedVersion
                   then (d1, [Ack (machine_state_mismatch (Some m))])
                   else (case db_call w 1 (update_machine_state userId mid expectedVersion daemonState (clk 1)) d1 of
                      (d2, None) \<Rightarrow> (d2, [Ack (error_message ''Internal error'')])
                    | (d2, Some written) \<Rightarrow>
                        finish_machine_update w (clk 2) userId mid written machine_state_mismatch
                          (\<lambda>updSeq. buildUpdateMachineUpdate mid updSeq updId
                             None (Some (Some daemonState, expectedVersion + 1)) (clk 2))
                          (result_json ''success'' (expectedVersion + 1) ''daemonState'' (JStr daemonState)) d2)))
      | _ \<Rightarrow> (d, [Ack (error_message ''Invalid parameters'')]))"

section \<open>Routes\<close>

record machine_body =
  mb_id :: ident
  mb_metadata :: string
  mb_daemonState :: "string option"
  mb_dataEncryptionKey :: "string option"

definition new_machine :: "(string \<Rightarrow> bytes) \<Rightarrow> ident \<Rightarrow> machine_body \<Rightarrow> ts \<Rightarrow> machine" where
  "new_machine dec userId body now =
     \<lparr>c_id = mb_id body, c_accountId = userId, c_metadata = mb_metadata body, c_metadataVersion = 1,
      c_daemonState = (if truthy (mb_daemonState body) then mb_daemonState body else None),
      c_daemonStateVersion = (if truthy (mb_daemonState body) then 1 else 0),
      c_dataEncryptionKey = (if truthy (mb_dataEncryptionKey body)
                             then map_option dec (mb_dataEncryptionKey body) else None),
      c_seq = 0, c_active = False, c_lastActiveAt = now, c_createdAt = now, c_updatedAt = now\<rparr>"

text \<open>The id is the primary key across all accounts: \<^verbatim>\<open>create\<close> throws when it is taken.\<close>

definition create_machine :: "machine \<Rightarrow> db \<Rightarrow> (db \<times> machine) option" where
  "create_machine c d =
     (if (\<exists>r \<in> set (machines d). c_id r = c_id c) \<or> account_row (c_accountId c) d = None then None
      else Some (d\<lparr>machines := machines d @ [c]\<rparr>, c))"

definition machine_fields :: "(bytes \<Rightarrow> string) \<Rightarrow> bool \<Rightarrow> machine \<Rightarrow> (string \<times> json) list" where
  "machine_fields enc withSeq m =
     [(''id'', JStr (c_id m)), (''metadata'', JStr (c_metadata m)),
      (''metadataVersion'', JNum (c_metadataVersion m)),
      (''daemonState'', nullable (c_daemonState m)),
      (''daemonStateVersion'', JNum (c_daemonStateVersion m)),
      (''dataEncryptionKey'', nullable (map_option enc (c_dataEncryptionKey m)))]
     @ (if withSeq then [(''seq'', JNum (c_seq m))] else [])
     @ [(''active'', JBool (c_active m)), (''activeAt'', JNum (c_lastActiveAt m)),
        (''createdAt'', JNum (c_createdAt m)), (''updatedAt'', JNum (c_updatedAt m))]"

definition machine_reply :: "(bytes \<Rightarrow> string) \<Rightarrow> bool \<Rightarrow> machine \<Rightarrow> reply" where
  "machine_reply enc withSeq m = Reply 200 (JObj [(''machine'', JObj (machine_fields enc withSeq m))])"

definition create_or_load_machine ::
  "(bytes \<Rightarrow> string) \<Rightarrow> (string \<Rightarrow> bytes) \<Rightarrow> db sched \<Rightarrow> ident \<Rightarrow> machine_body \<Rightarrow> ident \<Rightarrow> ident \<Rightarrow> ts
   \<Rightarrow> db \<Rightarrow> db \<times> reply \<times> emission list" where
  "create_or_load_machine enc dec w userId body updId1 updId2 now d =
     (case db_call w 0 (\<lambda>d. (d, find_machine userId (mb_id body) d)) d of
        (d1, None) \<Rightarrow> (d1, Threw, [])
      | (d1, Some (Some m)) \<Rightarrow> (d1, machine_reply enc False m, [])
      | (d1, Some None) \<Rightarrow>
         (case db_call w 1 (throwing (create_machine (new_machine dec userId body now))) d1 of
            (d2, Some (Some m)) \<Rightarrow>
             (case db_call w 2 (throwing (allocateUserSeq userId now)) d2 of
                (d3, Some (Some updSeq1)) \<Rightarrow>
                 (case db_call w 3 (throwing (allocateUserSeq userId now)) d3 of
                    (d4, Some (Some updSeq2)) \<Rightarrow>
                      (d4, machine_reply enc False m,
                       [EmitUpdate userId (buildNewMachineUpdate enc m updSeq1 updId1 now) UserScopedOnly,
                        EmitUpdate userId
                          (buildUpdateMachineUpdate (c_id m) updSeq2 updId2 (Some (Some (mb_metadata body), 1)) None now)
                          (MachineScopedOnly (c_id m))])
                  | (d4, _) \<Rightarrow> (d4, Threw, []))
              | (d3, _) \<Rightarrow> (d3, Threw, []))
          | (d2, _) \<Rightarrow> (d2, Threw, [])))"

definition list_machines :: "(bytes \<Rightarrow> string) \<Rightarrow> ident \<Rightarrow> db \<Rightarrow> reply" where
  "list_machines enc userId d =
     Reply 200 (JArr (map (\<lambda>m. JObj (machine_fields enc True m))
       (sort_key (\<lambda>m. - c_lastActiveAt m) (filter (\<lambda>m. c_accountId m = userId) (machines d)))))"

definition get_machine :: "(bytes \<Rightarrow> string) \<Rightarrow> ident \<Rightarrow> ident \<Rightarrow> db \<Rightarrow> reply" where
  "get_machine enc userId mid d =
     (case find_machine userId mid d of
        None \<Rightarrow> Reply 404 (JObj [(''error'', JStr ''Machine not found'')])
      | Some m \<Rightarrow> machine_reply enc True m)"

section \<open>Machine metadata and daemon state as versioned cells\<close>

definition machine_row :: "ident \<Rightarrow> db \<Rightarrow> machine option" where
  "machine_row mid d = find_row (\<lambda>r. c_id r = mid) (machines d)"

definition machine_metadata_cell :: "ident \<Rightarrow> db \<Rightarrow> (string \<times> int) option" where
  "machine_metadata_cell mid d = map_option (\<lambda>r. (c_metadata r, c_metadataVersion r)) (machine_row mid d)"

definition daemon_state_cell :: "ident \<Rightarrow> db \<Rightarrow> (string option \<times> int) option" where
  "daemon_state_cell mid d = map_option (\<lambda>r. (c_daemonState r, c_daemonStateVersion r)) (machine_row mid d)"

definition machine_ids_unique :: "db \<Rightarrow> bool" where
  "machine_ids_unique d = unique_by c_id (machines d)"

type_synonym machine_write = "ident \<times> string \<times> ts"

definition machine_metadata_cas :: "ident \<Rightarrow> int \<Rightarrow> machine_write \<Rightarrow> db \<Rightarrow> db \<times> bool" where
  "machine_metadata_cas mid e x d =
     (case x of (userId, v, now) \<Rightarrow> update_machine_metadata userId mid e v now d)"

definition daemon_state_cas :: "ident \<Rightarrow> int \<Rightarrow> machine_write \<Rightarrow> db \<Rightarrow> db \<times> bool" where
  "daemon_state_cas mid e x d =
     (case x of (userId, v, now) \<Rightarrow> update_machine_state userId mid e v now d)"

definition machine_write_value :: "machine_write \<Rightarrow> string" where
  "machine_write_value x = fst (snd x)"

lemma machine_metadata_cas_spec:
  assumes "machine_ids_unique d" and "machine_metadata_cas mid e x d = (d', hit)"
  shows "machine_ids_unique d'
     \<and> (hit \<longrightarrow> (\<exists>v0. machine_metadata_cell mid d = Some (v0, e))
              \<and> machine_metadata_cell mid d' = Some (machine_write_value x, e + 1))
     \<and> (\<not> hit \<longrightarrow> d' = d)"
proof -
  obtain u v now where x: "x = (u, v, now)" by (cases x)
  let ?P = "\<lambda>r. c_accountId r = u \<and> c_id r = mid \<and> c_metadataVersion r = e"
  let ?f = "\<lambda>r :: machine. r\<lparr>c_metadata := v, c_metadataVersion := e + 1, c_updatedAt := now\<rparr>"
  show ?thesis
    using rows_cas [of c_id "machines d" ?P mid "\<lambda>r. (c_metadata r, c_metadataVersion r)" e ?f v] assms
    by (auto simp: x machine_metadata_cas_def update_machine_metadata_def Let_def machine_ids_unique_def
        machine_metadata_cell_def machine_row_def machine_write_value_def)
qed

lemma daemon_state_cas_spec:
  assumes "machine_ids_unique d" and "daemon_state_cas mid e x d = (d', hit)"
  shows "machine_ids_unique d'
     \<and> (hit \<longrightarrow> (\<exists>v0. daemon_state_cell mid d = Some (v0, e))
              \<and> daemon_state_cell mid d' = Some (Some (machine_write_value x), e + 1))
     \<and> (\<not> hit \<longrightarrow> d' = d)"
proof -
  obtain u v now where x: "x = (u, v, now)" by (cases x)
  let ?P = "\<lambda>r. c_accountId r = u \<and> c_id r = mid \<and> c_daemonStateVersion r = e"
  let ?f = "\<lambda>r :: machine. r\<lparr>c_daemonState := Some v, c_daemonStateVersion := e + 1, c_active := True,
      c_lastActiveAt := now, c_updatedAt := now\<rparr>"
  show ?thesis
    using rows_cas [of c_id "machines d" ?P mid "\<lambda>r. (c_daemonState r, c_daemonStateVersion r)" e ?f "Some v"] assms
    by (auto simp: x daemon_state_cas_def update_machine_state_def Let_def machine_ids_unique_def
        daemon_state_cell_def machine_row_def machine_write_value_def)
qed

interpretation machine_metadata_versions: versioned_cell "machine_metadata_cas mid" machine_write_value
  "machine_metadata_cell mid" machine_ids_unique for mid
  by unfold_locales (metis machine_metadata_cas_spec prod.collapse)+

interpretation daemon_state_versions: versioned_cell "daemon_state_cas mid" "Some \<circ> machine_write_value"
  "daemon_state_cell mid" machine_ids_unique for mid
  by unfold_locales (metis daemon_state_cas_spec prod.collapse comp_apply)+

section \<open>What an answer of the handlers means\<close>

lemma mismatch_no_success [simp]:
  "machine_metadata_mismatch c \<noteq> result_json ''success'' v f x" "result_json ''success'' v f x \<noteq> machine_metadata_mismatch c"
  "machine_state_mismatch c \<noteq> result_json ''success'' v f x" "result_json ''success'' v f x \<noteq> machine_state_mismatch c"
  "error_message m \<noteq> result_json r v f x" "result_json r v f x \<noteq> error_message m"
  by (auto simp: machine_metadata_mismatch_def machine_state_mismatch_def result_json_def error_message_def
      split: option.splits)

lemma finish_success:
  assumes "finish_machine_update w now userId mid written mismatch payload ok d = (d', effs)"
    and "Ack (result_json ''success'' v f x) \<in> set effs"
    and "mismatch \<in> {machine_metadata_mismatch, machine_state_mismatch}"
  shows "written \<and> ok = result_json ''success'' v f x
     \<and> (\<exists>n. throwing (allocateUserSeq userId now) (interfere w 2 d) = (d', Some n)
          \<and> effs = [Emit (EmitUpdate userId (payload n) (MachineScopedOnly mid)), Ack ok])"
  using assms by (auto simp: finish_machine_update_def split: if_splits prod.splits option.splits dest!: db_call_SomeD)

text \<open>
  The write of a handler that answered success: the request named the version \<open>v - 1\<close>, and the
  handler's second statement hit; its third drew the number \<open>n\<close> of the update it emits.
\<close>

lemma machine_metadata_success:
  assumes "handle_machine_update_metadata w clk updId userId data d = (d', effs)"
    and "Ack (result_json ''success'' v f x) \<in> set effs"
  shows "\<exists>mid m d1 n. f = ''metadata'' \<and> x = JStr m
     \<and> get_prop data ''machineId'' = Some (JStr mid) \<and> get_prop data ''metadata'' = Some (JStr m)
     \<and> get_prop data ''expectedVersion'' = Some (JNum (v - 1))
     \<and> update_machine_metadata userId mid (v - 1) m (clk 1) (interfere w 1 (interfere w 0 d)) = (d1, True)
     \<and> throwing (allocateUserSeq userId (clk 2)) (interfere w 2 d1) = (d', Some n)
     \<and> effs = [Emit (EmitUpdate userId (buildUpdateMachineUpdate mid n updId (Some (Some m, v)) None (clk 2))
           (MachineScopedOnly mid)), Ack (result_json ''success'' v f x)]"
  using assms unfolding handle_machine_update_metadata_def
  by (auto split: if_splits option.splits prod.splits
      dest!: db_call_SomeD finish_success [where v = v and f = f and x = x])

lemma machine_state_success:
  assumes "handle_machine_update_state w clk updId userId data d = (d', effs)"
    and "Ack (result_json ''success'' v f x) \<in> set effs"
  shows "\<exists>mid m d1 n. f = ''daemonState'' \<and> x = JStr m
     \<and> get_prop data ''machineId'' = Some (JStr mid) \<and> get_prop data ''daemonState'' = Some (JStr m)
     \<and> get_prop data ''expectedVersion'' = Some (JNum (v - 1))
     \<and> update_machine_state userId mid (v - 1) m (clk 1) (interfere w 1 (interfere w 0 d)) = (d1, True)
     \<and> throwing (allocateUserSeq userId (clk 2)) (interfere w 2 d1) = (d', Some n)
     \<and> effs = [Emit (EmitUpdate userId (buildUpdateMachineUpdate mid n updId None (Some (Some m, v)) (clk 2))
           (MachineScopedOnly mid)), Ack (result_json ''success'' v f x)]"
  using assms unfolding handle_machine_update_state_def
  by (auto split: if_splits option.splits prod.splits
      dest!: db_call_SomeD finish_success [where v = v and f = f and x = x])

lemma state_update_activates:
  assumes "machine_ids_unique d" and "update_machine_state userId mid e m now d = (d1, True)"
  shows "map_option (\<lambda>r. (c_active r, c_lastActiveAt r)) (machine_row mid d1) = Some (True, now)"
proof -
  let ?P = "\<lambda>r. c_accountId r = userId \<and> c_id r = mid \<and> c_daemonStateVersion r = e"
  obtain r where "find_row (\<lambda>r. c_id r = mid) (machines d) = Some r" "?P r"
    using assms count_rows_key [of c_id "machines d" ?P mid]
    by (auto simp: update_machine_state_def Let_def machine_ids_unique_def)
  then show ?thesis
    using assms(2) by (auto simp: update_machine_state_def Let_def machine_row_def find_row_update)
qed

lemma machine_write_account:
  "update_machine_metadata userId mid e m now d = (d1, True) \<Longrightarrow> find_machine userId mid d \<noteq> None"
  "update_machine_state userId mid e m now d = (d1, True) \<Longrightarrow> find_machine userId mid d \<noteq> None"
  by (auto simp: update_machine_metadata_def update_machine_state_def Let_def count_rows_pos
      find_machine_def find_row_None_iff)

lemma machine_metadata_applied:
  assumes "machine_ids_unique d" and wr: "update_machine_metadata userId mid (v - 1) m now d = (d1, True)"
  shows "\<exists>m0. machine_metadata_cell mid d = Some (m0, v - 1) \<and> machine_metadata_cell mid d1 = Some (m, v)"
proof -
  have "machine_metadata_cas mid (v - 1) (userId, m, now) d = (d1, True)"
    using wr by (simp add: machine_metadata_cas_def)
  from machine_metadata_cas_spec [OF assms(1) this] show ?thesis by (simp add: machine_write_value_def)
qed

lemma daemon_state_applied:
  assumes "machine_ids_unique d" and wr: "update_machine_state userId mid (v - 1) m now d = (d1, True)"
  shows "\<exists>m0. daemon_state_cell mid d = Some (m0, v - 1) \<and> daemon_state_cell mid d1 = Some (Some m, v)"
proof -
  have "daemon_state_cas mid (v - 1) (userId, m, now) d = (d1, True)"
    using wr by (simp add: daemon_state_cas_def)
  from daemon_state_cas_spec [OF assms(1) this] show ?thesis by (simp add: machine_write_value_def)
qed

text \<open>
  C32.  A success answer of \<^verbatim>\<open>machine-update-metadata\<close> or \<^verbatim>\<open>machine-update-state\<close> is never wrong,
  whatever other requests do between the statements of the handler.  The request named version
  \<open>v - 1\<close> in \<^verbatim>\<open>expectedVersion\<close>, and that was the version of this account's machine when the
  write ran; right after it the machine holds exactly the requested value with version \<open>v\<close> (and is
  active as of that instant after a daemon-state update); the state the handler leaves is the one
  after this write and the allocation of one update number; and exactly one update with this
  number, value and version goes to the machine's own connections and the user's clients.
\<close>

theorem machine_update_success:
  fixes w :: "db sched" and d :: db
  defines "before \<equiv> interfere w 1 (interfere w 0 d)"
  assumes "unique_by c_id (machines before)"
  shows "(handle_machine_update_metadata w clk updId userId data d = (d', effs)
        \<and> Ack (result_json ''success'' v f x) \<in> set effs \<longrightarrow>
      (\<exists>mid m m0 after n. f = ''metadata'' \<and> x = JStr m
         \<and> get_prop data ''machineId'' = Some (JStr mid) \<and> get_prop data ''metadata'' = Some (JStr m)
         \<and> get_prop data ''expectedVersion'' = Some (JNum (v - 1))
         \<and> find_machine userId mid before \<noteq> None
         \<and> update_machine_metadata userId mid (v - 1) m (clk 1) before = (after, True)
         \<and> machine_metadata_cell mid before = Some (m0, v - 1) \<and> machine_metadata_cell mid after = Some (m, v)
         \<and> throwing (allocateUserSeq userId (clk 2)) (interfere w 2 after) = (d', Some n)
         \<and> effs = [Emit (EmitUpdate userId (buildUpdateMachineUpdate mid n updId (Some (Some m, v)) None (clk 2))
               (MachineScopedOnly mid)), Ack (result_json ''success'' v f x)]))
    \<and> (handle_machine_update_state w clk updId userId data d = (d', effs)
        \<and> Ack (result_json ''success'' v f x) \<in> set effs \<longrightarrow>
      (\<exists>mid m m0 after n. f = ''daemonState'' \<and> x = JStr m
         \<and> get_prop data ''machineId'' = Some (JStr mid) \<and> get_prop data ''daemonState'' = Some (JStr m)
         \<and> get_prop data ''expectedVersion'' = Some (JNum (v - 1))
         \<and> find_machine userId mid before \<noteq> None
         \<and> update_machine_state userId mid (v - 1) m (clk 1) before = (after, True)
         \<and> daemon_state_cell mid before = Some (m0, v - 1) \<and> daemon_state_cell mid after = Some (Some m, v)
         \<and> map_option (\<lambda>r. (c_active r, c_lastActiveAt r)) (machine_row mid after) = Some (True, clk 1)
         \<and> throwing (allocateUserSeq userId (clk 2)) (interfere w 2 after) = (d', Some n)
         \<and> effs = [Emit (EmitUpdate userId (buildUpdateMachineUpdate mid n updId None (Some (Some m, v)) (clk 2))
               (MachineScopedOnly mid)), Ack (result_json ''success'' v f x)]))"
    (is "(?A \<longrightarrow> ?M) \<and> (?B \<longrightarrow> ?S)")
proof (intro conjI impI; elim conjE)
  have uniq: "machine_ids_unique before" using assms by (simp add: machine_ids_unique_def)
  assume "handle_machine_update_metadata w clk updId userId data d = (d', effs)"
    and "Ack (result_json ''success'' v f x) \<in> set effs"
  from machine_metadata_success [OF this, folded before_def] obtain mid m d1 n where
    wr: "update_machine_metadata userId mid (v - 1) m (clk 1) before = (d1, True)"
    and rest: "f = ''metadata''" "x = JStr m" "get_prop data ''machineId'' = Some (JStr mid)"
      "get_prop data ''metadata'' = Some (JStr m)" "get_prop data ''expectedVersion'' = Some (JNum (v - 1))"
      "throwing (allocateUserSeq userId (clk 2)) (interfere w 2 d1) = (d', Some n)"
      "effs = [Emit (EmitUpdate userId (buildUpdateMachineUpdate mid n updId (Some (Some m, v)) None (clk 2))
           (MachineScopedOnly mid)), Ack (result_json ''success'' v f x)]"
    by blast
  then show ?M using machine_metadata_applied [OF uniq wr] machine_write_account(1) [OF wr] by blast
next
  have uniq: "machine_ids_unique before" using assms by (simp add: machine_ids_unique_def)
  assume "handle_machine_update_state w clk updId userId data d = (d', effs)"
    and "Ack (result_json ''success'' v f x) \<in> set effs"
  from machine_state_success [OF this, folded before_def] obtain mid m d1 n where
    wr: "update_machine_state userId mid (v - 1) m (clk 1) before = (d1, True)"
    and rest: "f = ''daemonState''" "x = JStr m" "get_prop data ''machineId'' = Some (JStr mid)"
      "get_prop data ''daemonState'' = Some (JStr m)" "get_prop data ''expectedVersion'' = Some (JNum (v - 1))"
      "throwing (allocateUserSeq userId (clk 2)) (interfere w 2 d1) = (d', Some n)"
      "effs = [Emit (EmitUpdate userId (buildUpdateMachineUpdate mid n updId None (Some (Some m, v)) (clk 2))
           (MachineScopedOnly mid)), Ack (result_json ''success'' v f x)]"
    by blast
  then show ?S
    using daemon_state_applied [OF uniq wr] machine_write_account(2) [OF wr] state_update_activates [OF uniq wr]
    by blast
qed

definition demo_machine_update :: jsval where
  "demo_machine_update =
     Some (JObj [(''machineId'', JStr ''m1''), (''metadata'', JStr ''new''), (''expectedVersion'', JNum 1)])"

theorem machine_update_success_witness:
  "\<exists>m m0 after. get_prop demo_machine_update ''expectedVersion'' = Some (JNum 1)
     \<and> machine_metadata_cell ''m1'' demo_presence_db = Some (m0, 1)
     \<and> update_machine_metadata ''u1'' ''m1'' 1 m 7 demo_presence_db = (after, True)
     \<and> machine_metadata_cell ''m1'' after = Some (m, 2)"
proof -
  let ?h = "handle_machine_update_metadata quiet (\<lambda>_. 7) ''upd'' ''u1'' demo_machine_update demo_presence_db"
  have uniq: "unique_by c_id (machines (interfere quiet 1 (interfere quiet 0 demo_presence_db)))"
    unfolding quiet_simps by code_simp
  have ack: "Ack (result_json ''success'' 2 ''metadata'' (JStr ''new'')) \<in> set (snd ?h)" by code_simp
  have mid: "get_prop demo_machine_update ''machineId'' = Some (JStr ''m1'')"
    "get_prop demo_machine_update ''expectedVersion'' = Some (JNum 1)" by code_simp+
  obtain d' effs where run: "?h = (d', effs)" by fastforce
  show ?thesis
    using machine_update_success [OF uniq, where clk = "\<lambda>_. 7" and updId = "''upd''" and userId = "''u1''"
        and data = demo_machine_update and d' = d' and effs = effs and v = 2
        and f = "''metadata''" and x = "JStr ''new''"] run ack mid
    by auto
qed

end
