(* ===== verification/Artifacts.thy ===== *)
theory Artifacts
  imports Machines
begin

text \<open>
  Artifacts: the socket handlers of \<^verbatim>\<open>api/socket/artifactUpdateHandler.ts\<close> and the routes of
  \<^verbatim>\<open>api/routes/artifactsRoutes.ts\<close>.  Header and body have their own versions; the socket writes
  them with a compare-and-set, the route with a check before an unconditional update.
  \<open>enc\<close> is \<^verbatim>\<open>privacyKit.encodeBase64\<close>; \<open>dec\<close> is \<^verbatim>\<open>privacyKit.decodeBase64\<close>, \<open>None\<close> when it throws.
\<close>

section \<open>Rows and answers\<close>

definition find_artifact :: "ident \<Rightarrow> ident \<Rightarrow> db \<Rightarrow> artifact option" where
  "find_artifact aid userId d = find_row (\<lambda>r. f_id r = aid \<and> f_accountId r = userId) (artifacts d)"

definition artifact_row :: "ident \<Rightarrow> db \<Rightarrow> artifact option" where
  "artifact_row aid d = find_row (\<lambda>r. f_id r = aid) (artifacts d)"

definition artifact_json :: "(bytes \<Rightarrow> string) \<Rightarrow> bool \<Rightarrow> artifact \<Rightarrow> json" where
  "artifact_json enc withKey a =
     JObj ([(''id'', JStr (f_id a)),
       (''header'', JStr (enc (f_header a))), (''headerVersion'', JNum (f_headerVersion a)),
       (''body'', JStr (enc (f_body a))), (''bodyVersion'', JNum (f_bodyVersion a))]
      @ (if withKey then [(''dataEncryptionKey'', JStr (enc (f_dataEncryptionKey a)))] else [])
      @ [(''seq'', JNum (f_seq a)), (''createdAt'', JNum (f_createdAt a)), (''updatedAt'', JNum (f_updatedAt a))])"

definition artifact_success :: "(bytes \<Rightarrow> string) \<Rightarrow> artifact \<Rightarrow> json" where
  "artifact_success enc a = JObj [(''result'', JStr ''success''), (''artifact'', artifact_json enc False a)]"

section \<open>Socket: read\<close>

definition handle_artifact_read ::
  "(bytes \<Rightarrow> string) \<Rightarrow> db sched \<Rightarrow> ident \<Rightarrow> jsval \<Rightarrow> db \<Rightarrow> db \<times> effect list" where
  "handle_artifact_read enc w userId data d =
     (if nullish data then (d, [Ack (error_message ''Internal error'')])
      else if \<not> js_truthy (get_prop data ''artifactId'') then (d, [Ack (error_message ''Invalid parameters'')])
      else (case as_string (get_prop data ''artifactId'') of
              None \<Rightarrow> (d, [Ack (error_message ''Internal error'')])
            | Some aid \<Rightarrow>
                (case db_call w 0 (\<lambda>d. (d, find_artifact aid userId d)) d of
                   (d1, None) \<Rightarrow> (d1, [Ack (error_message ''Internal error'')])
                 | (d1, Some None) \<Rightarrow> (d1, [Ack (error_message ''Artifact not found'')])
                 | (d1, Some (Some a)) \<Rightarrow> (d1, [Ack (artifact_success enc a)]))))"

section \<open>Socket: update\<close>

text \<open>One of the two optional parts of the request: absent, malformed, or text and expected version.\<close>

datatype part_request = NoPart | BadPart | Part string int

definition parse_part :: "jsval \<Rightarrow> part_request" where
  "parse_part v =
     (if \<not> js_truthy v then NoPart
      else case (as_string (get_prop v ''data''), as_number (get_prop v ''expectedVersion'')) of
             (Some s, Some n) \<Rightarrow> Part s n
           | _ \<Rightarrow> BadPart)"

definition decode_part :: "(string \<Rightarrow> bytes option) \<Rightarrow> (string \<times> int) option \<Rightarrow> (bytes \<times> int) option option" where
  "decode_part dec p =
     (case p of
        None \<Rightarrow> Some None
      | Some (s, e) \<Rightarrow> map_option (\<lambda>b. Some (b, e)) (dec s))"

definition set_parts ::
  "(bytes \<times> int) option \<Rightarrow> (bytes \<times> int) option \<Rightarrow> int \<Rightarrow> ts \<Rightarrow> artifact \<Rightarrow> artifact" where
  "set_parts hdr body seq now r =
     (let r1 = r\<lparr>f_updatedAt := now, f_seq := seq\<rparr>;
          r2 = (case hdr of None \<Rightarrow> r1 | Some (b, e) \<Rightarrow> r1\<lparr>f_header := b, f_headerVersion := e + 1\<rparr>)
      in case body of None \<Rightarrow> r2 | Some (b, e) \<Rightarrow> r2\<lparr>f_body := b, f_bodyVersion := e + 1\<rparr>)"

definition part_matches :: "('a \<times> int) option \<Rightarrow> int \<Rightarrow> bool" where
  "part_matches p version = (case p of None \<Rightarrow> True | Some (b, e) \<Rightarrow> version = e)"

definition update_artifact_cas ::
  "ident \<Rightarrow> ident \<Rightarrow> (bytes \<times> int) option \<Rightarrow> (bytes \<times> int) option \<Rightarrow> int \<Rightarrow> ts \<Rightarrow> db \<Rightarrow> db \<times> bool" where
  "update_artifact_cas aid userId hdr body seq now d =
     (let P = (\<lambda>r. f_id r = aid \<and> f_accountId r = userId
                 \<and> part_matches hdr (f_headerVersion r) \<and> part_matches body (f_bodyVersion r))
      in (d\<lparr>artifacts := update_rows P (set_parts hdr body seq now) (artifacts d)\<rparr>,
          count_rows P (artifacts d) > 0))"

definition current_part :: "int \<Rightarrow> string \<Rightarrow> json" where
  "current_part version text = JObj [(''currentVersion'', JNum version), (''currentData'', JStr text)]"

definition artifact_mismatch :: "(bytes \<Rightarrow> string) \<Rightarrow> bool \<Rightarrow> bool \<Rightarrow> artifact \<Rightarrow> json" where
  "artifact_mismatch enc withHeader withBody a =
     JObj ([(''result'', JStr ''version-mismatch'')]
      @ (if withHeader then [(''header'', current_part (f_headerVersion a) (enc (f_header a)))] else [])
      @ (if withBody then [(''body'', current_part (f_bodyVersion a) (enc (f_body a)))] else []))"

definition next_part :: "(string \<times> int) option \<Rightarrow> (string option \<times> int) option" where
  "next_part p = map_option (\<lambda>(s, e). (Some s, e + 1)) p"

definition success_part :: "string \<Rightarrow> (string \<times> int) option \<Rightarrow> (string \<times> json) list" where
  "success_part field p =
     (case p of None \<Rightarrow> [] | Some (s, e) \<Rightarrow> [(field, JObj [(''version'', JNum (e + 1)), (''data'', JStr s)])])"

definition update_success :: "(string \<times> int) option \<Rightarrow> (string \<times> int) option \<Rightarrow> json" where
  "update_success hdr body =
     JObj ([(''result'', JStr ''success'')] @ success_part ''header'' hdr @ success_part ''body'' body)"

definition perform_artifact_update ::
  "(bytes \<Rightarrow> string) \<Rightarrow> (string \<Rightarrow> bytes option) \<Rightarrow> db sched \<Rightarrow> (nat \<Rightarrow> ts) \<Rightarrow> ident \<Rightarrow> ident \<Rightarrow> ident
   \<Rightarrow> (string \<times> int) option \<Rightarrow> (string \<times> int) option \<Rightarrow> db \<Rightarrow> db \<times> effect list" where
  "perform_artifact_update enc dec w clk updId userId aid hdr body d =
     (case db_call w 0 (\<lambda>d. (d, find_artifact aid userId d)) d of
        (d1, None) \<Rightarrow> (d1, [Ack (error_message ''Internal error'')])
      | (d1, Some None) \<Rightarrow> (d1, [Ack (error_message ''Artifact not found'')])
      | (d1, Some (Some a)) \<Rightarrow>
          let headerMismatch = \<not> part_matches hdr (f_headerVersion a);
              bodyMismatch = \<not> part_matches body (f_bodyVersion a)
          in if headerMismatch \<or> bodyMismatch
             then (d1, [Ack (artifact_mismatch enc headerMismatch bodyMismatch a)])
             else (case (decode_part dec hdr, decode_part dec body) of
               (Some h, Some b) \<Rightarrow>
                 (case db_call w 1 (update_artifact_cas aid userId h b (f_seq a + 1) (clk 1)) d1 of
                    (d2, None) \<Rightarrow> (d2, [Ack (error_message ''Internal error'')])
                  | (d2, Some False) \<Rightarrow>
                      (case db_call w 2 (\<lambda>d. (d, find_artifact aid userId d)) d2 of
                         (d3, None) \<Rightarrow> (d3, [Ack (error_message ''Internal error'')])
                       | (d3, Some None) \<Rightarrow> (d3, [Ack (JObj [(''result'', JStr ''version-mismatch'')])])
                       | (d3, Some (Some cur)) \<Rightarrow>
                           (d3, [Ack (artifact_mismatch enc (hdr \<noteq> None) (body \<noteq> None) cur)]))
                  | (d2, Some True) \<Rightarrow>
                      (case db_call w 2 (throwing (allocateUserSeq userId (clk 2))) d2 of
                         (d3, Some (Some updSeq)) \<Rightarrow>
                           (d3, [Emit (EmitUpdate userId
                                   (buildUpdateArtifactUpdate aid updSeq updId (next_part hdr) (next_part body) (clk 2))
                                   UserScopedOnly),
                                 Ack (update_success hdr body)])
                       | (d3, _) \<Rightarrow> (d3, [Ack (error_message ''Internal error'')])))
             | _ \<Rightarrow> (d1, [Ack (error_message ''Internal error'')])))"

definition part_of :: "part_request \<Rightarrow> (string \<times> int) option" where
  "part_of p = (case p of Part s e \<Rightarrow> Some (s, e) | _ \<Rightarrow> None)"

definition handle_artifact_update ::
  "(bytes \<Rightarrow> string) \<Rightarrow> (string \<Rightarrow> bytes option) \<Rightarrow> db sched \<Rightarrow> (nat \<Rightarrow> ts) \<Rightarrow> ident \<Rightarrow> ident \<Rightarrow> jsval
   \<Rightarrow> db \<Rightarrow> db \<times> effect list" where
  "handle_artifact_update enc dec w clk updId userId data d =
     (if nullish data then (d, [Ack (error_message ''Internal error'')])
      else let hdr = parse_part (get_prop data ''header''); body = parse_part (get_prop data ''body'') in
      if \<not> js_truthy (get_prop data ''artifactId'') then (d, [Ack (error_message ''Invalid parameters'')])
      else if hdr = NoPart \<and> body = NoPart then (d, [Ack (error_message ''No updates provided'')])
      else if hdr = BadPart then (d, [Ack (error_message ''Invalid header parameters'')])
      else if body = BadPart then (d, [Ack (error_message ''Invalid body parameters'')])
      else (case as_string (get_prop data ''artifactId'') of
              None \<Rightarrow> (d, [Ack (error_message ''Internal error'')])
            | Some aid \<Rightarrow>
                perform_artifact_update enc dec w clk updId userId aid (part_of hdr) (part_of body) d))"

section \<open>Create\<close>

definition new_artifact :: "ident \<Rightarrow> ident \<Rightarrow> bytes \<Rightarrow> bytes \<Rightarrow> bytes \<Rightarrow> ts \<Rightarrow> artifact" where
  "new_artifact aid userId header body key now =
     \<lparr>f_id = aid, f_accountId = userId, f_header = header, f_headerVersion = 1, f_body = body,
      f_bodyVersion = 1, f_dataEncryptionKey = key, f_seq = 0, f_createdAt = now, f_updatedAt = now\<rparr>"

definition create_artifact :: "artifact \<Rightarrow> db \<Rightarrow> (db \<times> artifact) option" where
  "create_artifact a d =
     (if (\<exists>r \<in> set (artifacts d). f_id r = f_id a) \<or> account_row (f_accountId a) d = None then None
      else Some (d\<lparr>artifacts := artifacts d @ [a]\<rparr>, a))"

datatype create_outcome = OtherAccount | Existing artifact | Created artifact int | CreateFailed

text \<open>What the socket and the route have in common; they differ in how they answer.\<close>

definition perform_artifact_create ::
  "(string \<Rightarrow> bytes option) \<Rightarrow> db sched \<Rightarrow> (nat \<Rightarrow> ts) \<Rightarrow> ident \<Rightarrow> ident \<Rightarrow> string \<Rightarrow> string \<Rightarrow> string
   \<Rightarrow> db \<Rightarrow> db \<times> create_outcome" where
  "perform_artifact_create dec w clk userId aid header body key d =
     (case db_call w 0 (\<lambda>d. (d, artifact_row aid d)) d of
        (d1, None) \<Rightarrow> (d1, CreateFailed)
      | (d1, Some (Some a)) \<Rightarrow> (d1, if f_accountId a \<noteq> userId then OtherAccount else Existing a)
      | (d1, Some None) \<Rightarrow>
          (case (dec header, dec body, dec key) of
             (Some h, Some b, Some k) \<Rightarrow>
               (case db_call w 1 (throwing (create_artifact (new_artifact aid userId h b k (clk 1)))) d1 of
                  (d2, Some (Some a)) \<Rightarrow>
                    (case db_call w 2 (throwing (allocateUserSeq userId (clk 2))) d2 of
                       (d3, Some (Some updSeq)) \<Rightarrow> (d3, Created a updSeq)
                     | (d3, _) \<Rightarrow> (d3, CreateFailed))
                | (d2, _) \<Rightarrow> (d2, CreateFailed))
           | _ \<Rightarrow> (d1, CreateFailed)))"

definition other_account_message :: string where
  "other_account_message = ''Artifact with this ID already exists for another account''"

definition handle_artifact_create ::
  "(bytes \<Rightarrow> string) \<Rightarrow> (string \<Rightarrow> bytes option) \<Rightarrow> db sched \<Rightarrow> (nat \<Rightarrow> ts) \<Rightarrow> ident \<Rightarrow> ident \<Rightarrow> jsval
   \<Rightarrow> db \<Rightarrow> db \<times> effect list" where
  "handle_artifact_create enc dec w clk updId userId data d =
     (if nullish data then (d, [Ack (error_message ''Internal error'')])
      else case (as_string (get_prop data ''header''), as_string (get_prop data ''body''),
                 as_string (get_prop data ''dataEncryptionKey'')) of
        (Some header, Some body, Some key) \<Rightarrow>
          if \<not> js_truthy (get_prop data ''id'') then (d, [Ack (error_message ''Invalid parameters'')])
          else (case as_string (get_prop data ''id'') of
             None \<Rightarrow> (d, [Ack (error_message ''Internal error'')])
           | Some aid \<Rightarrow>
               (case perform_artifact_create dec w clk userId aid header body key d of
                  (d1, OtherAccount) \<Rightarrow> (d1, [Ack (error_message other_account_message)])
                | (d1, Existing a) \<Rightarrow> (d1, [Ack (artifact_success enc a)])
                | (d1, Created a updSeq) \<Rightarrow>
                    (d1, [Emit (EmitUpdate userId (buildNewArtifactUpdate enc a updSeq updId (clk 2)) UserScopedOnly),
                          Ack (artifact_success enc a)])
                | (d1, CreateFailed) \<Rightarrow> (d1, [Ack (error_message ''Internal error'')])))
      | _ \<Rightarrow> (d, [Ack (error_message ''Invalid parameters'')]))"

definition create_artifact_route ::
  "(bytes \<Rightarrow> string) \<Rightarrow> (string \<Rightarrow> bytes option) \<Rightarrow> db sched \<Rightarrow> (nat \<Rightarrow> ts) \<Rightarrow> ident \<Rightarrow> ident \<Rightarrow> ident
   \<Rightarrow> string \<Rightarrow> string \<Rightarrow> string \<Rightarrow> db \<Rightarrow> db \<times> reply \<times> emission list" where
  "create_artifact_route enc dec w clk updId userId aid header body key d =
     (case perform_artifact_create dec w clk userId aid header body key d of
        (d1, OtherAccount) \<Rightarrow> (d1, Reply 409 (JObj [(''error'', JStr other_account_message)]), [])
      | (d1, Existing a) \<Rightarrow> (d1, Reply 200 (artifact_json enc True a), [])
      | (d1, Created a updSeq) \<Rightarrow>
          (d1, Reply 200 (artifact_json enc True a),
           [EmitUpdate userId (buildNewArtifactUpdate enc a updSeq updId (clk 2)) UserScopedOnly])
      | (d1, CreateFailed) \<Rightarrow> (d1, Reply 500 (JObj [(''error'', JStr ''Failed to create artifact'')]), []))"

section \<open>Delete\<close>

definition delete_artifact :: "ident \<Rightarrow> db \<Rightarrow> (db \<times> unit) option" where
  "delete_artifact aid d =
     (case artifact_row aid d of
        None \<Rightarrow> None
      | Some _ \<Rightarrow> Some (d\<lparr>artifacts := delete_rows (\<lambda>r. f_id r = aid) (artifacts d)\<rparr>, ()))"

datatype delete_outcome = Absent | Deleted int | DeleteFailed

definition perform_artifact_delete ::
  "db sched \<Rightarrow> (nat \<Rightarrow> ts) \<Rightarrow> ident \<Rightarrow> ident \<Rightarrow> db \<Rightarrow> db \<times> delete_outcome" where
  "perform_artifact_delete w clk userId aid d =
     (case db_call w 0 (\<lambda>d. (d, find_artifact aid userId d)) d of
        (d1, None) \<Rightarrow> (d1, DeleteFailed)
      | (d1, Some None) \<Rightarrow> (d1, Absent)
      | (d1, Some (Some _)) \<Rightarrow>
          (case db_call w 1 (throwing (delete_artifact aid)) d1 of
             (d2, Some (Some _)) \<Rightarrow>
               (case db_call w 2 (throwing (allocateUserSeq userId (clk 2))) d2 of
                  (d3, Some (Some updSeq)) \<Rightarrow> (d3, Deleted updSeq)
                | (d3, _) \<Rightarrow> (d3, DeleteFailed))
           | (d2, _) \<Rightarrow> (d2, DeleteFailed)))"

definition handle_artifact_delete ::
  "db sched \<Rightarrow> (nat \<Rightarrow> ts) \<Rightarrow> ident \<Rightarrow> ident \<Rightarrow> jsval \<Rightarrow> db \<Rightarrow> db \<times> effect list" where
  "handle_artifact_delete w clk updId userId data d =
     (if nullish data then (d, [Ack (error_message ''Internal error'')])
      else if \<not> js_truthy (get_prop data ''artifactId'') then (d, [Ack (error_message ''Invalid parameters'')])
      else (case as_string (get_prop data ''artifactId'') of
              None \<Rightarrow> (d, [Ack (error_message ''Internal error'')])
            | Some aid \<Rightarrow>
                (case perform_artifact_delete w clk userId aid d of
                   (d1, Absent) \<Rightarrow> (d1, [Ack (error_message ''Artifact not found'')])
                 | (d1, Deleted updSeq) \<Rightarrow>
                     (d1, [Emit (EmitUpdate userId (buildDeleteArtifactUpdate aid updSeq updId (clk 2)) UserScopedOnly),
                           Ack (JObj [(''result'', JStr ''success'')])])
                 | (d1, DeleteFailed) \<Rightarrow> (d1, [Ack (error_message ''Internal error'')]))))"

definition delete_artifact_route ::
  "db sched \<Rightarrow> (nat \<Rightarrow> ts) \<Rightarrow> ident \<Rightarrow> ident \<Rightarrow> ident \<Rightarrow> db \<Rightarrow> db \<times> reply \<times> emission list" where
  "delete_artifact_route w clk updId userId aid d =
     (case perform_artifact_delete w clk userId aid d of
        (d1, Absent) \<Rightarrow> (d1, Reply 404 (JObj [(''error'', JStr ''Artifact not found'')]), [])
      | (d1, Deleted updSeq) \<Rightarrow>
          (d1, Reply 200 (JObj [(''success'', JBool True)]),
           [EmitUpdate userId (buildDeleteArtifactUpdate aid updSeq updId (clk 2)) UserScopedOnly])
      | (d1, DeleteFailed) \<Rightarrow> (d1, Reply 500 (JObj [(''error'', JStr ''Failed to delete artifact'')]), []))"

section \<open>Routes: list, read, update\<close>

definition artifact_info_json :: "(bytes \<Rightarrow> string) \<Rightarrow> artifact \<Rightarrow> json" where
  "artifact_info_json enc a =
     JObj [(''id'', JStr (f_id a)), (''header'', JStr (enc (f_header a))),
       (''headerVersion'', JNum (f_headerVersion a)), (''dataEncryptionKey'', JStr (enc (f_dataEncryptionKey a))),
       (''seq'', JNum (f_seq a)), (''createdAt'', JNum (f_createdAt a)), (''updatedAt'', JNum (f_updatedAt a))]"

definition list_artifacts :: "(bytes \<Rightarrow> string) \<Rightarrow> db sched \<Rightarrow> ident \<Rightarrow> db \<Rightarrow> db \<times> reply" where
  "list_artifacts enc w userId d =
     (case db_call w 0 (\<lambda>d. (d, sort_key (\<lambda>a. - f_updatedAt a)
              (filter (\<lambda>a. f_accountId a = userId) (artifacts d)))) d of
        (d1, None) \<Rightarrow> (d1, Reply 500 (JObj [(''error'', JStr ''Failed to get artifacts'')]))
      | (d1, Some rows) \<Rightarrow> (d1, Reply 200 (JArr (map (artifact_info_json enc) rows))))"

definition get_artifact :: "(bytes \<Rightarrow> string) \<Rightarrow> db sched \<Rightarrow> ident \<Rightarrow> ident \<Rightarrow> db \<Rightarrow> db \<times> reply" where
  "get_artifact enc w userId aid d =
     (case db_call w 0 (\<lambda>d. (d, find_artifact aid userId d)) d of
        (d1, None) \<Rightarrow> (d1, Reply 500 (JObj [(''error'', JStr ''Failed to get artifact'')]))
      | (d1, Some None) \<Rightarrow> (d1, Reply 404 (JObj [(''error'', JStr ''Artifact not found'')]))
      | (d1, Some (Some a)) \<Rightarrow> (d1, Reply 200 (artifact_json enc True a)))"

text \<open>\<^verbatim>\<open>db.artifact.update\<close> names only the id: it throws when the row is gone and checks no version.\<close>

definition update_artifact_by_id ::
  "ident \<Rightarrow> (bytes \<times> int) option \<Rightarrow> (bytes \<times> int) option \<Rightarrow> int \<Rightarrow> ts \<Rightarrow> db \<Rightarrow> (db \<times> unit) option" where
  "update_artifact_by_id aid hdr body seq now d =
     (case artifact_row aid d of
        None \<Rightarrow> None
      | Some _ \<Rightarrow>
          Some (d\<lparr>artifacts := update_rows (\<lambda>r. f_id r = aid) (set_parts hdr body seq now) (artifacts d)\<rparr>, ()))"

text \<open>A part counts only when the text and its expected version are both given.\<close>

definition route_part :: "string option \<Rightarrow> int option \<Rightarrow> (string \<times> int) option" where
  "route_part text expected = Option.bind text (\<lambda>s. map_option (\<lambda>e. (s, e)) expected)"

definition route_mismatch :: "(bytes \<Rightarrow> string) \<Rightarrow> bool \<Rightarrow> bool \<Rightarrow> artifact \<Rightarrow> json" where
  "route_mismatch enc withHeader withBody a =
     JObj ([(''success'', JBool False), (''error'', JStr ''version-mismatch'')]
      @ (if withHeader then [(''currentHeaderVersion'', JNum (f_headerVersion a)),
                             (''currentHeader'', JStr (enc (f_header a)))] else [])
      @ (if withBody then [(''currentBodyVersion'', JNum (f_bodyVersion a)),
                           (''currentBody'', JStr (enc (f_body a)))] else []))"

definition update_artifact_route ::
  "(bytes \<Rightarrow> string) \<Rightarrow> (string \<Rightarrow> bytes option) \<Rightarrow> db sched \<Rightarrow> (nat \<Rightarrow> ts) \<Rightarrow> ident \<Rightarrow> ident \<Rightarrow> ident
   \<Rightarrow> string option \<Rightarrow> int option \<Rightarrow> string option \<Rightarrow> int option \<Rightarrow> db \<Rightarrow> db \<times> reply \<times> emission list" where
  "update_artifact_route enc dec w clk updId userId aid header expectedHeaderVersion body expectedBodyVersion d =
     (let hdr = route_part header expectedHeaderVersion; bdy = route_part body expectedBodyVersion;
          failed = Reply 500 (JObj [(''error'', JStr ''Failed to update artifact'')])
      in case db_call w 0 (\<lambda>d. (d, find_artifact aid userId d)) d of
        (d1, None) \<Rightarrow> (d1, failed, [])
      | (d1, Some None) \<Rightarrow> (d1, Reply 404 (JObj [(''error'', JStr ''Artifact not found'')]), [])
      | (d1, Some (Some a)) \<Rightarrow>
          let headerMismatch = \<not> part_matches hdr (f_headerVersion a);
              bodyMismatch = \<not> part_matches bdy (f_bodyVersion a)
          in if headerMismatch \<or> bodyMismatch
             then (d1, Reply 200 (route_mismatch enc headerMismatch bodyMismatch a), [])
             else (case (decode_part dec hdr, decode_part dec bdy) of
               (Some h, Some b) \<Rightarrow>
                 (case db_call w 1 (throwing (update_artifact_by_id aid h b (f_seq a + 1) (clk 1))) d1 of
                    (d2, Some (Some _)) \<Rightarrow>
                      (case db_call w 2 (throwing (allocateUserSeq userId (clk 2))) d2 of
                         (d3, Some (Some updSeq)) \<Rightarrow>
                           (d3, Reply 200 (JObj ([(''success'', JBool True)]
                                  @ (case hdr of None \<Rightarrow> [] | Some (s, e) \<Rightarrow> [(''headerVersion'', JNum (e + 1))])
                                  @ (case bdy of None \<Rightarrow> [] | Some (s, e) \<Rightarrow> [(''bodyVersion'', JNum (e + 1))]))),
                            [EmitUpdate userId
                               (buildUpdateArtifactUpdate aid updSeq updId (next_part hdr) (next_part bdy) (clk 2))
                               UserScopedOnly])
                       | (d3, _) \<Rightarrow> (d3, failed, []))
                  | (d2, _) \<Rightarrow> (d2, failed, []))
             | _ \<Rightarrow> (d1, failed, [])))"

section \<open>Header and body as versioned cells\<close>

definition artifact_header_cell :: "ident \<Rightarrow> db \<Rightarrow> (bytes \<times> int) option" where
  "artifact_header_cell aid d = map_option (\<lambda>r. (f_header r, f_headerVersion r)) (artifact_row aid d)"

definition artifact_body_cell :: "ident \<Rightarrow> db \<Rightarrow> (bytes \<times> int) option" where
  "artifact_body_cell aid d = map_option (\<lambda>r. (f_body r, f_bodyVersion r)) (artifact_row aid d)"

definition artifact_ids_unique :: "db \<Rightarrow> bool" where
  "artifact_ids_unique d = unique_by f_id (artifacts d)"

text \<open>A write of one part: account, value, what is written to the other part, sequence number, clock.\<close>

type_synonym artifact_write = "ident \<times> bytes \<times> (bytes \<times> int) option \<times> int \<times> ts"

definition artifact_header_cas :: "ident \<Rightarrow> int \<Rightarrow> artifact_write \<Rightarrow> db \<Rightarrow> db \<times> bool" where
  "artifact_header_cas aid e x d =
     (case x of (userId, v, body, seq, now) \<Rightarrow> update_artifact_cas aid userId (Some (v, e)) body seq now d)"

definition artifact_body_cas :: "ident \<Rightarrow> int \<Rightarrow> artifact_write \<Rightarrow> db \<Rightarrow> db \<times> bool" where
  "artifact_body_cas aid e x d =
     (case x of (userId, v, header, seq, now) \<Rightarrow> update_artifact_cas aid userId header (Some (v, e)) seq now d)"

definition artifact_write_value :: "artifact_write \<Rightarrow> bytes" where
  "artifact_write_value x = fst (snd x)"

lemma set_parts_columns:
  "f_id (set_parts hdr body seq now r) = f_id r"
  "f_header (set_parts (Some (v, e)) body seq now r) = v"
  "f_headerVersion (set_parts (Some (v, e)) body seq now r) = e + 1"
  "f_body (set_parts hdr (Some (v, e)) seq now r) = v"
  "f_bodyVersion (set_parts hdr (Some (v, e)) seq now r) = e + 1"
  by (auto simp: set_parts_def Let_def split: option.splits)

lemma artifact_header_cas_spec:
  assumes "artifact_ids_unique d" and "artifact_header_cas aid e x d = (d', hit)"
  shows "artifact_ids_unique d'
     \<and> (hit \<longrightarrow> (\<exists>v0. artifact_header_cell aid d = Some (v0, e))
              \<and> artifact_header_cell aid d' = Some (artifact_write_value x, e + 1))
     \<and> (\<not> hit \<longrightarrow> d' = d)"
proof -
  obtain u v body seq now where x: "x = (u, v, body, seq, now)" by (cases x)
  let ?P = "\<lambda>r. f_id r = aid \<and> f_accountId r = u \<and> part_matches (Some (v, e)) (f_headerVersion r) \<and> part_matches body (f_bodyVersion r)"
  show ?thesis
    using rows_cas [of f_id "artifacts d" ?P aid "\<lambda>r. (f_header r, f_headerVersion r)" e
        "set_parts (Some (v, e)) body seq now" v] assms
    by (auto simp: x artifact_header_cas_def update_artifact_cas_def Let_def artifact_ids_unique_def set_parts_columns
        artifact_header_cell_def artifact_row_def artifact_write_value_def part_matches_def)
qed

lemma artifact_body_cas_spec:
  assumes "artifact_ids_unique d" and "artifact_body_cas aid e x d = (d', hit)"
  shows "artifact_ids_unique d'
     \<and> (hit \<longrightarrow> (\<exists>v0. artifact_body_cell aid d = Some (v0, e))
              \<and> artifact_body_cell aid d' = Some (artifact_write_value x, e + 1))
     \<and> (\<not> hit \<longrightarrow> d' = d)"
proof -
  obtain u v hdr seq now where x: "x = (u, v, hdr, seq, now)" by (cases x)
  let ?P = "\<lambda>r. f_id r = aid \<and> f_accountId r = u \<and> part_matches hdr (f_headerVersion r) \<and> part_matches (Some (v, e)) (f_bodyVersion r)"
  show ?thesis
    using rows_cas [of f_id "artifacts d" ?P aid "\<lambda>r. (f_body r, f_bodyVersion r)" e
        "set_parts hdr (Some (v, e)) seq now" v] assms
    by (auto simp: x artifact_body_cas_def update_artifact_cas_def Let_def artifact_ids_unique_def set_parts_columns
        artifact_body_cell_def artifact_row_def artifact_write_value_def part_matches_def)
qed

interpretation artifact_header_versions: versioned_cell "artifact_header_cas aid" artifact_write_value
  "artifact_header_cell aid" artifact_ids_unique for aid
  by unfold_locales (metis artifact_header_cas_spec prod.collapse)+

interpretation artifact_body_versions: versioned_cell "artifact_body_cas aid" artifact_write_value
  "artifact_body_cell aid" artifact_ids_unique for aid
  by unfold_locales (metis artifact_body_cas_spec prod.collapse)+

end
