(* ===== verification/AccessKeys.thy ===== *)
theory AccessKeys
  imports Machines
begin

text \<open>
  Access keys, the encrypted key material a session and a machine share: the routes of
  \<^verbatim>\<open>api/routes/accessKeysRoutes.ts\<close> and the socket handler of \<^verbatim>\<open>api/socket/accessKeyHandler.ts\<close>.
  The two lookups started by \<^verbatim>\<open>Promise.all\<close> are statements 0 and 1; the call is rejected when one
  of them is.
\<close>

definition find_access_key :: "ident \<Rightarrow> ident \<Rightarrow> ident \<Rightarrow> db \<Rightarrow> access_key option" where
  "find_access_key userId mid sid d =
     find_row (\<lambda>k. k_accountId k = userId \<and> k_machineId k = mid \<and> k_sessionId k = sid) (accessKeys d)"

definition access_key_json :: "access_key \<Rightarrow> json" where
  "access_key_json k =
     JObj [(''data'', JStr (k_data k)), (''dataVersion'', JNum (k_dataVersion k)),
       (''createdAt'', JNum (k_createdAt k)), (''updatedAt'', JNum (k_updatedAt k))]"

text \<open>Both lookups; \<open>None\<close> when the promise is rejected, else whether both rows belong to the user.\<close>

definition owns_both :: "db sched \<Rightarrow> ident \<Rightarrow> ident \<Rightarrow> ident \<Rightarrow> db \<Rightarrow> db \<times> bool option" where
  "owns_both w userId sid mid d =
     (case db_call w 0 (\<lambda>d. (d, find_session sid userId d)) d of (d1, s) \<Rightarrow>
      case db_call w 1 (\<lambda>d. (d, find_machine userId mid d)) d1 of (d2, m) \<Rightarrow>
        (d2, (case (s, m) of (Some s', Some m') \<Rightarrow> Some (s' \<noteq> None \<and> m' \<noteq> None) | _ \<Rightarrow> None)))"

definition not_found_reply :: reply where
  "not_found_reply = Reply 404 (JObj [(''error'', JStr ''Session or machine not found'')])"

section \<open>Routes\<close>

definition get_access_key :: "db sched \<Rightarrow> ident \<Rightarrow> ident \<Rightarrow> ident \<Rightarrow> db \<Rightarrow> db \<times> reply" where
  "get_access_key w userId sid mid d =
     (case owns_both w userId sid mid d of
        (d1, None) \<Rightarrow> (d1, Reply 500 (JObj [(''error'', JStr ''Failed to get access key'')]))
      | (d1, Some False) \<Rightarrow> (d1, not_found_reply)
      | (d1, Some True) \<Rightarrow>
          (case db_call w 2 (\<lambda>d. (d, find_access_key userId mid sid d)) d1 of
             (d2, None) \<Rightarrow> (d2, Reply 500 (JObj [(''error'', JStr ''Failed to get access key'')]))
           | (d2, Some None) \<Rightarrow> (d2, Reply 200 (JObj [(''accessKey'', JNull)]))
           | (d2, Some (Some k)) \<Rightarrow> (d2, Reply 200 (JObj [(''accessKey'', access_key_json k)]))))"

text \<open>\<^verbatim>\<open>create\<close> throws on a taken key and on missing referenced rows.\<close>

definition create_access_key :: "ident \<Rightarrow> ident \<Rightarrow> ident \<Rightarrow> string \<Rightarrow> ts \<Rightarrow> db \<Rightarrow> (db \<times> access_key) option" where
  "create_access_key userId mid sid data now d =
     (if find_access_key userId mid sid d \<noteq> None \<or> find_machine userId mid d = None
       \<or> session_row sid d = None \<or> account_row userId d = None
      then None
      else let k = \<lparr>k_accountId = userId, k_machineId = mid, k_sessionId = sid, k_data = data,
                    k_dataVersion = 1, k_createdAt = now, k_updatedAt = now\<rparr>
           in Some (d\<lparr>accessKeys := accessKeys d @ [k]\<rparr>, k))"

definition create_access_key_route ::
  "db sched \<Rightarrow> ident \<Rightarrow> ident \<Rightarrow> ident \<Rightarrow> string \<Rightarrow> ts \<Rightarrow> db \<Rightarrow> db \<times> reply" where
  "create_access_key_route w userId sid mid data now d =
     (let failed = Reply 500 (JObj [(''error'', JStr ''Failed to create access key'')])
      in case owns_both w userId sid mid d of
        (d1, None) \<Rightarrow> (d1, failed)
      | (d1, Some False) \<Rightarrow> (d1, not_found_reply)
      | (d1, Some True) \<Rightarrow>
          (case db_call w 2 (\<lambda>d. (d, find_access_key userId mid sid d)) d1 of
             (d2, None) \<Rightarrow> (d2, failed)
           | (d2, Some (Some _)) \<Rightarrow> (d2, Reply 409 (JObj [(''error'', JStr ''Access key already exists'')]))
           | (d2, Some None) \<Rightarrow>
               (case db_call w 3 (throwing (create_access_key userId mid sid data now)) d2 of
                  (d3, Some (Some k)) \<Rightarrow>
                    (d3, Reply 200 (JObj [(''success'', JBool True), (''accessKey'', access_key_json k)]))
                | (d3, _) \<Rightarrow> (d3, failed))))"

definition update_access_key :: "ident \<Rightarrow> ident \<Rightarrow> ident \<Rightarrow> int \<Rightarrow> string \<Rightarrow> ts \<Rightarrow> db \<Rightarrow> db \<times> bool" where
  "update_access_key userId mid sid expectedVersion data now d =
     (let P = (\<lambda>k. k_accountId k = userId \<and> k_machineId k = mid \<and> k_sessionId k = sid
                 \<and> k_dataVersion k = expectedVersion)
      in (d\<lparr>accessKeys := update_rows P
              (\<lambda>k. k\<lparr>k_data := data, k_dataVersion := expectedVersion + 1, k_updatedAt := now\<rparr>) (accessKeys d)\<rparr>,
          count_rows P (accessKeys d) > 0))"

definition access_key_mismatch :: "access_key option \<Rightarrow> reply" where
  "access_key_mismatch k =
     Reply 200 (JObj [(''success'', JBool False), (''error'', JStr ''version-mismatch''),
       (''currentVersion'', JNum (case k of None \<Rightarrow> 0 | Some k \<Rightarrow> k_dataVersion k)),
       (''currentData'', JStr (case k of None \<Rightarrow> [] | Some k \<Rightarrow> k_data k))])"

definition access_key_updated :: "int \<Rightarrow> reply" where
  "access_key_updated version = Reply 200 (JObj [(''success'', JBool True), (''version'', JNum version)])"

definition update_access_key_route ::
  "db sched \<Rightarrow> ident \<Rightarrow> ident \<Rightarrow> ident \<Rightarrow> string \<Rightarrow> int \<Rightarrow> ts \<Rightarrow> db \<Rightarrow> db \<times> reply" where
  "update_access_key_route w userId sid mid data expectedVersion now d =
     (let failed = Reply 500 (JObj [(''success'', JBool False), (''error'', JStr ''Failed to update access key'')])
      in case db_call w 0 (\<lambda>d. (d, find_access_key userId mid sid d)) d of
        (d1, None) \<Rightarrow> (d1, failed)
      | (d1, Some None) \<Rightarrow> (d1, Reply 404 (JObj [(''error'', JStr ''Access key not found'')]))
      | (d1, Some (Some k)) \<Rightarrow>
          if k_dataVersion k \<noteq> expectedVersion then (d1, access_key_mismatch (Some k))
          else (case db_call w 1 (update_access_key userId mid sid expectedVersion data now) d1 of
             (d2, None) \<Rightarrow> (d2, failed)
           | (d2, Some True) \<Rightarrow> (d2, access_key_updated (expectedVersion + 1))
           | (d2, Some False) \<Rightarrow>
               (case db_call w 2 (\<lambda>d. (d, find_access_key userId mid sid d)) d2 of
                  (d3, None) \<Rightarrow> (d3, failed)
                | (d3, Some cur) \<Rightarrow> (d3, access_key_mismatch cur))))"

section \<open>Socket\<close>

definition key_error :: "string \<Rightarrow> json" where
  "key_error msg = JObj [(''ok'', JBool False), (''error'', JStr msg)]"

definition handle_access_key_get ::
  "db sched \<Rightarrow> ident \<Rightarrow> jsval \<Rightarrow> db \<Rightarrow> db \<times> effect list" where
  "handle_access_key_get w userId data d =
     (if nullish data then (d, [Ack (key_error ''Internal error'')])
      else if \<not> js_truthy (get_prop data ''sessionId'') \<or> \<not> js_truthy (get_prop data ''machineId'')
      then (d, [Ack (key_error ''Invalid parameters: sessionId and machineId are required'')])
      else (case (as_string (get_prop data ''sessionId''), as_string (get_prop data ''machineId'')) of
        (Some sid, Some mid) \<Rightarrow>
          (case owns_both w userId sid mid d of
             (d1, None) \<Rightarrow> (d1, [Ack (key_error ''Internal error'')])
           | (d1, Some False) \<Rightarrow> (d1, [Ack (key_error ''Session or machine not found'')])
           | (d1, Some True) \<Rightarrow>
               (case db_call w 2 (\<lambda>d. (d, find_access_key userId mid sid d)) d1 of
                  (d2, None) \<Rightarrow> (d2, [Ack (key_error ''Internal error'')])
                | (d2, Some key) \<Rightarrow>
                    (d2, [Ack (JObj [(''ok'', JBool True),
                       (''accessKey'', case key of None \<Rightarrow> JNull | Some k \<Rightarrow> access_key_json k)])])))
      | _ \<Rightarrow> (d, [Ack (key_error ''Internal error'')])))"

section \<open>The key as a versioned cell\<close>

type_synonym key_id = "ident \<times> ident \<times> ident"

definition key_columns :: "access_key \<Rightarrow> key_id" where
  "key_columns k = (k_accountId k, k_machineId k, k_sessionId k)"

definition access_keys_unique :: "db \<Rightarrow> bool" where
  "access_keys_unique d = unique_by key_columns (accessKeys d)"

definition access_key_cell :: "key_id \<Rightarrow> db \<Rightarrow> (string \<times> int) option" where
  "access_key_cell i d =
     map_option (\<lambda>k. (k_data k, k_dataVersion k)) (find_row (\<lambda>k. key_columns k = i) (accessKeys d))"

definition access_key_cas :: "key_id \<Rightarrow> int \<Rightarrow> string \<times> ts \<Rightarrow> db \<Rightarrow> db \<times> bool" where
  "access_key_cas i e x d = update_access_key (fst i) (fst (snd i)) (snd (snd i)) e (fst x) (snd x) d"

lemma access_key_cas_spec:
  assumes "access_keys_unique d" and "access_key_cas i e x d = (d', hit)"
  shows "access_keys_unique d'
     \<and> (hit \<longrightarrow> (\<exists>v0. access_key_cell i d = Some (v0, e)) \<and> access_key_cell i d' = Some (fst x, e + 1))
     \<and> (\<not> hit \<longrightarrow> d' = d)"
proof -
  obtain u mid sid where i: "i = (u, mid, sid)" by (cases i)
  let ?P = "\<lambda>k. k_accountId k = u \<and> k_machineId k = mid \<and> k_sessionId k = sid \<and> k_dataVersion k = e"
  let ?f = "\<lambda>k :: access_key. k\<lparr>k_data := fst x, k_dataVersion := e + 1, k_updatedAt := snd x\<rparr>"
  show ?thesis
    using rows_cas [of key_columns "accessKeys d" ?P i "\<lambda>k. (k_data k, k_dataVersion k)" e ?f "fst x"] assms
    by (auto simp: i access_key_cas_def update_access_key_def Let_def access_keys_unique_def access_key_cell_def
        key_columns_def [abs_def])
qed

interpretation access_key_versions: versioned_cell "access_key_cas i" fst "access_key_cell i" access_keys_unique for i
  by unfold_locales (metis access_key_cas_spec prod.collapse)+

end
