(* ===== verification/Account.thy ===== *)
theory Account
  imports Machines Social
begin

text \<open>
  The account: profile and settings (\<^verbatim>\<open>api/routes/accountRoutes.ts\<close>), user name
  (\<^verbatim>\<open>social/usernameUpdate.ts\<close>), the GitHub link (\<^verbatim>\<open>github/githubConnect.ts\<close>,
  \<^verbatim>\<open>github/githubDisconnect.ts\<close>, \<^verbatim>\<open>utils/separateName.ts\<close>), vendor tokens
  (\<^verbatim>\<open>api/routes/connectRoutes.ts\<close>) and push tokens (\<^verbatim>\<open>api/routes/pushRoutes.ts\<close>).

  Encryption (\<open>encrypt\<close>, \<open>decrypt\<close>), the public URL of a file and the image upload are parameters;
  a GitHub profile is represented by the fields the server reads.
\<close>

section \<open>Account updates\<close>

definition image_json :: "(string \<Rightarrow> string) \<Rightarrow> image_ref \<Rightarrow> json" where
  "image_json public_url im =
     JObj [(''path'', JStr (im_path im)), (''width'', JNum (im_width im)), (''height'', JNum (im_height im)),
       (''thumbhash'', JStr (im_thumbhash im)), (''url'', JStr (public_url (im_path im)))]"

text \<open>The spread properties in order; a missing or NULL avatar is \<^verbatim>\<open>undefined\<close> and not sent.\<close>

definition buildUpdateAccountUpdate ::
  "(string \<Rightarrow> string) \<Rightarrow> ident \<Rightarrow> (string \<times> json) list \<Rightarrow> image_ref option \<Rightarrow> int \<Rightarrow> ident \<Rightarrow> ts \<Rightarrow> update_payload" where
  "buildUpdateAccountUpdate public_url userId profile avatar updateSeq updateId now =
     \<lparr>up_id = updateId, up_seq = updateSeq,
      up_body = JObj ([(''t'', JStr ''update-account''), (''id'', JStr userId)] @ profile
        @ opt_field ''avatar'' (map_option (image_json public_url) avatar)),
      up_createdAt = now\<rparr>"

definition github_json :: "github_profile \<Rightarrow> json" where
  "github_json g =
     JObj [(''id'', JNum (gp_id g)), (''login'', JStr (gp_login g)), (''name'', nullable (gp_name g)),
       (''avatar_url'', JStr (gp_avatar_url g)), (''bio'', nullable (gp_bio g))]"

section \<open>Profile\<close>

text \<open>\<^verbatim>\<open>Array.from(new Set(..))\<close>: first occurrences in order.\<close>

definition first_occurrences :: "'a list \<Rightarrow> 'a list" where
  "first_occurrences xs = rev (remdups (rev xs))"

definition get_profile :: "(string \<Rightarrow> string) \<Rightarrow> db sched \<Rightarrow> ident \<Rightarrow> ts \<Rightarrow> db \<Rightarrow> db \<times> reply" where
  "get_profile public_url w userId now d =
     (case db_call w 0 (\<lambda>d. (d, map_option (\<lambda>a. (a, github_of a d)) (account_row userId d))) d of
        (d1, Some (Some (a, github))) \<Rightarrow>
          (case db_call w 1 (\<lambda>d. (d, filter (\<lambda>y. y_accountId y = userId) (serviceTokens d))) d1 of
             (d2, None) \<Rightarrow> (d2, Threw)
           | (d2, Some tokens) \<Rightarrow>
               (d2, Reply 200 (JObj [(''id'', JStr userId), (''timestamp'', JNum now),
                  (''firstName'', nullable (a_firstName a)), (''lastName'', nullable (a_lastName a)),
                  (''username'', nullable (a_username a)),
                  (''avatar'', case a_avatar a of None \<Rightarrow> JNull | Some im \<Rightarrow> image_json public_url im),
                  (''github'', case github of None \<Rightarrow> JNull | Some g \<Rightarrow> github_json g),
                  (''connectedServices'', JArr (map JStr (first_occurrences (map y_vendor tokens))))])))
      | (d1, _) \<Rightarrow> (d1, Threw))"

section \<open>Settings\<close>

definition get_settings :: "db sched \<Rightarrow> ident \<Rightarrow> db \<Rightarrow> db \<times> reply" where
  "get_settings w userId d =
     (case db_call w 0 (\<lambda>d. (d, account_row userId d)) d of
        (d1, Some (Some a)) \<Rightarrow>
          (d1, Reply 200 (JObj [(''settings'', nullable (a_settings a)), (''settingsVersion'', JNum (a_settingsVersion a))]))
      | (d1, _) \<Rightarrow> (d1, Reply 500 (JObj [(''error'', JStr ''Failed to get account settings'')])))"

definition write_settings :: "ident \<Rightarrow> int \<Rightarrow> string option \<Rightarrow> ts \<Rightarrow> db \<Rightarrow> db \<times> bool" where
  "write_settings userId expectedVersion settings now d =
     (let P = (\<lambda>a. a_id a = userId \<and> a_settingsVersion a = expectedVersion)
      in (d\<lparr>accounts := update_rows P
              (\<lambda>a. a\<lparr>a_settings := settings, a_settingsVersion := expectedVersion + 1, a_updatedAt := now\<rparr>)
              (accounts d)\<rparr>,
          count_rows P (accounts d) > 0))"

definition settings_mismatch :: "int \<Rightarrow> string option \<Rightarrow> reply" where
  "settings_mismatch version settings =
     Reply 200 (JObj [(''success'', JBool False), (''error'', JStr ''version-mismatch''),
       (''currentVersion'', JNum version), (''currentSettings'', nullable settings)])"

text \<open>In the answer after a lost write an empty text is falsy and becomes NULL.\<close>

definition update_settings ::
  "(string \<Rightarrow> string) \<Rightarrow> db sched \<Rightarrow> (nat \<Rightarrow> ts) \<Rightarrow> ident \<Rightarrow> ident \<Rightarrow> string option \<Rightarrow> int \<Rightarrow> db
   \<Rightarrow> db \<times> reply \<times> emission list" where
  "update_settings public_url w clk updId userId settings expectedVersion d =
     (let failed = Reply 500 (JObj [(''success'', JBool False), (''error'', JStr ''Failed to update account settings'')])
      in case db_call w 0 (\<lambda>d. (d, account_row userId d)) d of
        (d1, Some (Some a)) \<Rightarrow>
          if a_settingsVersion a \<noteq> expectedVersion
          then (d1, settings_mismatch (a_settingsVersion a) (a_settings a), [])
          else (case db_call w 1 (write_settings userId expectedVersion settings (clk 1)) d1 of
             (d2, None) \<Rightarrow> (d2, failed, [])
           | (d2, Some False) \<Rightarrow>
               (case db_call w 2 (\<lambda>d. (d, account_row userId d)) d2 of
                  (d3, None) \<Rightarrow> (d3, failed, [])
                | (d3, Some None) \<Rightarrow> (d3, settings_mismatch 0 None, [])
                | (d3, Some (Some cur)) \<Rightarrow>
                    (d3, settings_mismatch (a_settingsVersion cur)
                           (if truthy (a_settings cur) then a_settings cur else None), []))
           | (d2, Some True) \<Rightarrow>
               (case db_call w 2 (throwing (allocateUserSeq userId (clk 2))) d2 of
                  (d3, Some (Some updSeq)) \<Rightarrow>
                    (d3, Reply 200 (JObj [(''success'', JBool True), (''version'', JNum (expectedVersion + 1))]),
                     [EmitUpdate userId
                        (buildUpdateAccountUpdate public_url userId
                           [(''settings'', versioned (settings, expectedVersion + 1))] None updSeq updId (clk 2))
                        UserScopedOnly])
                | (d3, _) \<Rightarrow> (d3, failed, [])))
      | (d1, _) \<Rightarrow> (d1, failed, []))"

subsection \<open>Settings as a versioned cell\<close>

definition account_ids_unique :: "db \<Rightarrow> bool" where
  "account_ids_unique d = unique_by a_id (accounts d)"

definition settings_cell :: "ident \<Rightarrow> db \<Rightarrow> (string option \<times> int) option" where
  "settings_cell uid d = map_option (\<lambda>a. (a_settings a, a_settingsVersion a)) (account_row uid d)"

definition settings_cas :: "ident \<Rightarrow> int \<Rightarrow> string option \<times> ts \<Rightarrow> db \<Rightarrow> db \<times> bool" where
  "settings_cas uid e x d = write_settings uid e (fst x) (snd x) d"

lemma settings_cas_spec:
  assumes "account_ids_unique d" and "settings_cas uid e x d = (d', hit)"
  shows "account_ids_unique d'
     \<and> (hit \<longrightarrow> (\<exists>v0. settings_cell uid d = Some (v0, e)) \<and> settings_cell uid d' = Some (fst x, e + 1))
     \<and> (\<not> hit \<longrightarrow> d' = d)"
proof -
  let ?P = "\<lambda>a :: account. a_id a = uid \<and> a_settingsVersion a = e"
  let ?f = "\<lambda>a :: account. a\<lparr>a_settings := fst x, a_settingsVersion := e + 1, a_updatedAt := snd x\<rparr>"
  show ?thesis
    using rows_cas [of a_id "accounts d" ?P uid "\<lambda>a. (a_settings a, a_settingsVersion a)" e ?f "fst x"] assms
    by (simp add: settings_cas_def write_settings_def Let_def account_ids_unique_def settings_cell_def account_row_def)
      (cases hit; clarsimp)
qed

interpretation settings_versions: versioned_cell "settings_cas uid" fst "settings_cell uid" account_ids_unique for uid
  by unfold_locales (metis settings_cas_spec prod.collapse)+

section \<open>User name\<close>

text \<open>\<^verbatim>\<open>update\<close> throws when the row is gone or a unique column is taken.\<close>

definition taken_by_other :: "ident \<Rightarrow> (account \<Rightarrow> 'a option) \<Rightarrow> 'a option \<Rightarrow> db \<Rightarrow> bool" where
  "taken_by_other userId col v d = (v \<noteq> None \<and> (\<exists>a \<in> set (accounts d). a_id a \<noteq> userId \<and> col a = v))"

definition set_username :: "ident \<Rightarrow> string \<Rightarrow> ts \<Rightarrow> db \<Rightarrow> (db \<times> unit) option" where
  "set_username userId name now d =
     (if account_row userId d = None \<or> taken_by_other userId a_username (Some name) d then None
      else Some (d\<lparr>accounts := update_rows (\<lambda>a. a_id a = userId)
                    (\<lambda>a. a\<lparr>a_username := Some name, a_updatedAt := now\<rparr>) (accounts d)\<rparr>, ()))"

text \<open>The flag is \<open>False\<close> when the promise is rejected.\<close>

definition usernameUpdate ::
  "(string \<Rightarrow> string) \<Rightarrow> db sched \<Rightarrow> (nat \<Rightarrow> ts) \<Rightarrow> ident \<Rightarrow> ident \<Rightarrow> string \<Rightarrow> db \<Rightarrow> db \<times> bool \<times> emission list" where
  "usernameUpdate public_url w clk updId userId name d =
     (case db_call w 0 (\<lambda>d. (d, find_row (\<lambda>a. a_username a = Some name \<and> a_id a \<noteq> userId) (accounts d))) d of
        (d1, Some None) \<Rightarrow>
          (case db_call w 1 (throwing (set_username userId name (clk 1))) d1 of
             (d2, Some (Some _)) \<Rightarrow>
               (case db_call w 2 (throwing (allocateUserSeq userId (clk 2))) d2 of
                  (d3, Some (Some updSeq)) \<Rightarrow>
                    (d3, True, [EmitUpdate userId
                       (buildUpdateAccountUpdate public_url userId [(''username'', JStr name)] None updSeq updId (clk 2))
                       UserScopedOnly])
                | (d3, _) \<Rightarrow> (d3, False, []))
           | (d2, _) \<Rightarrow> (d2, False, []))
      | (d1, _) \<Rightarrow> (d1, False, []))"

section \<open>GitHub\<close>

subsection \<open>Names\<close>

definition trim :: "string \<Rightarrow> string" where
  "trim s = rev (dropWhile is_space (rev (dropWhile is_space s)))"

text \<open>\<^verbatim>\<open>split(/\s+/)\<close> of a text without leading and trailing white space.\<close>

fun words_from :: "string \<Rightarrow> string \<Rightarrow> string list" where
  "words_from w [] = (if w = [] then [] else [rev w])"
| "words_from w (c # cs) =
     (if is_space c then (if w = [] then words_from [] cs else rev w # words_from [] cs)
      else words_from (c # w) cs)"

definition split_words :: "string \<Rightarrow> string list" where
  "split_words s = words_from [] s"

fun join_words :: "string list \<Rightarrow> string" where
  "join_words [] = []"
| "join_words [x] = x"
| "join_words (x # y # xs) = x @ '' '' @ join_words (y # xs)"

definition separateName :: "string option \<Rightarrow> string option \<times> string option" where
  "separateName fullName =
     (if \<not> truthy fullName then (None, None)
      else let trimmed = trim (the fullName)
           in if trimmed = [] then (None, None)
              else (case split_words trimmed of
                      [x] \<Rightarrow> (Some x, None)
                    | parts \<Rightarrow> (Some (hd parts), Some (join_words (tl parts)))))"

subsection \<open>Disconnect\<close>

definition clear_github :: "ident \<Rightarrow> ident \<Rightarrow> ts \<Rightarrow> db \<Rightarrow> (db \<times> unit) option" where
  "clear_github userId gid now d =
     (if account_row userId d = None
       \<or> find_row (\<lambda>g. g_id g = gid) (githubUsers d) = None
       \<or> (\<exists>a \<in> set (accounts d). a_id a \<noteq> userId \<and> a_githubUserId a = Some gid)
      then None
      else Some (d\<lparr>accounts := update_rows (\<lambda>a. a_id a = userId)
                     (\<lambda>a. a\<lparr>a_githubUserId := None, a_username := None, a_updatedAt := now\<rparr>) (accounts d),
                   githubUsers := delete_rows (\<lambda>g. g_id g = gid) (githubUsers d)\<rparr>, ()))"

text \<open>Statements \<open>k\<close> to \<open>k + 2\<close>; \<open>False\<close> when the promise is rejected.\<close>

definition githubDisconnect ::
  "(string \<Rightarrow> string) \<Rightarrow> db sched \<Rightarrow> nat \<Rightarrow> (nat \<Rightarrow> ts) \<Rightarrow> ident \<Rightarrow> ident \<Rightarrow> db \<Rightarrow> db \<times> bool \<times> emission list" where
  "githubDisconnect public_url w k clk updId userId d =
     (case db_call w k (\<lambda>d. (d, account_row userId d)) d of
        (d1, None) \<Rightarrow> (d1, False, [])
      | (d1, Some acc) \<Rightarrow>
          (let gid = Option.bind acc a_githubUserId
           in if \<not> truthy gid then (d1, True, [])
              else (case db_call w (k + 1) (throwing (clear_github userId (the gid) (clk (k + 1)))) d1 of
                 (d2, Some (Some _)) \<Rightarrow>
                   (case db_call w (k + 2) (throwing (allocateUserSeq userId (clk (k + 2)))) d2 of
                      (d3, Some (Some updSeq)) \<Rightarrow>
                        (d3, True, [EmitUpdate userId
                           (buildUpdateAccountUpdate public_url userId [(''github'', JNull), (''username'', JNull)]
                              None updSeq updId (clk (k + 2))) UserScopedOnly])
                    | (d3, _) \<Rightarrow> (d3, False, []))
               | (d2, _) \<Rightarrow> (d2, False, []))))"

subsection \<open>Connect\<close>

text \<open>The transaction: upsert the GitHub user, then link the account; unique columns may be taken.\<close>

definition link_github ::
  "ident \<Rightarrow> ident \<Rightarrow> github_profile \<Rightarrow> bytes \<Rightarrow> string option \<times> string option \<Rightarrow> image_ref \<Rightarrow> ts \<Rightarrow> db \<Rightarrow> (db \<times> unit) option" where
  "link_github userId gid profile token name avatar now d =
     (if account_row userId d = None
       \<or> taken_by_other userId a_githubUserId (Some gid) d
       \<or> taken_by_other userId a_username (Some (gp_login profile)) d
      then None
      else Some (d\<lparr>githubUsers :=
               (if find_row (\<lambda>g. g_id g = gid) (githubUsers d) = None
                then githubUsers d @ [\<lparr>g_id = gid, g_profile = profile, g_token = token\<rparr>]
                else update_rows (\<lambda>g. g_id g = gid) (\<lambda>g. g\<lparr>g_profile := profile, g_token := token\<rparr>) (githubUsers d)),
             accounts := update_rows (\<lambda>a. a_id a = userId)
               (\<lambda>a. a\<lparr>a_githubUserId := Some gid, a_username := Some (gp_login profile),
                      a_firstName := fst name, a_lastName := snd name, a_avatar := Some avatar,
                      a_updatedAt := now\<rparr>) (accounts d)\<rparr>, ()))"

definition finish_connect ::
  "(string \<Rightarrow> string) \<Rightarrow> (string list \<Rightarrow> string \<Rightarrow> bytes) \<Rightarrow> db sched \<Rightarrow> (nat \<Rightarrow> ts) \<Rightarrow> ident \<Rightarrow> ident \<Rightarrow> ident
   \<Rightarrow> github_profile \<Rightarrow> string \<Rightarrow> image_ref option \<Rightarrow> db \<Rightarrow> db \<times> bool \<times> emission list" where
  "finish_connect public_url encrypt w clk updId userId gid profile accessToken uploaded d =
     (case uploaded of
        None \<Rightarrow> (d, False, [])
      | Some avatar \<Rightarrow>
          (let name = separateName (gp_name profile);
               token = encrypt [''user'', userId, ''github'', ''token''] accessToken
           in case db_call w 5 (throwing (link_github userId gid profile token name avatar (clk 5))) d of
                (d1, Some (Some _)) \<Rightarrow>
                  (case db_call w 6 (throwing (allocateUserSeq userId (clk 6))) d1 of
                     (d2, Some (Some updSeq)) \<Rightarrow>
                       (d2, True, [EmitUpdate userId
                          (buildUpdateAccountUpdate public_url userId
                             [(''github'', github_json profile), (''username'', JStr (gp_login profile)),
                              (''firstName'', nullable (fst name)), (''lastName'', nullable (snd name))]
                             (Some avatar) updSeq updId (clk 6)) UserScopedOnly])
                   | (d2, _) \<Rightarrow> (d2, False, []))
              | (d1, _) \<Rightarrow> (d1, False, [])))"

text \<open>\<open>uploaded\<close> is the stored avatar, \<open>None\<close> when the download or the upload fails.\<close>

definition githubConnect ::
  "(string \<Rightarrow> string) \<Rightarrow> (string list \<Rightarrow> string \<Rightarrow> bytes) \<Rightarrow> db sched \<Rightarrow> (nat \<Rightarrow> ts) \<Rightarrow> ident \<Rightarrow> ident \<Rightarrow> ident
   \<Rightarrow> github_profile \<Rightarrow> string \<Rightarrow> image_ref option \<Rightarrow> db \<Rightarrow> db \<times> bool \<times> emission list" where
  "githubConnect public_url encrypt w clk updId updId' userId profile accessToken uploaded d =
     (let gid = show_int (gp_id profile)
      in case db_call w 0 (\<lambda>d. (d, account_row userId d)) d of
           (d1, Some (Some a)) \<Rightarrow>
             if a_githubUserId a = Some gid then (d1, True, [])
             else (case db_call w 1 (\<lambda>d. (d, find_row (\<lambda>b. a_githubUserId b = Some gid \<and> a_id b \<noteq> userId) (accounts d))) d1 of
                (d2, None) \<Rightarrow> (d2, False, [])
              | (d2, Some None) \<Rightarrow> finish_connect public_url encrypt w clk updId userId gid profile accessToken uploaded d2
              | (d2, Some (Some b)) \<Rightarrow>
                  (case githubDisconnect public_url w 2 clk updId' (a_id b) d2 of
                     (d3, False, ems) \<Rightarrow> (d3, False, ems)
                   | (d3, True, ems) \<Rightarrow>
                       (case finish_connect public_url encrypt w clk updId userId gid profile accessToken uploaded d3 of
                          (d4, ok, ems') \<Rightarrow> (d4, ok, ems @ ems'))))
         | (d1, _) \<Rightarrow> (d1, False, []))"

section \<open>Vendor tokens\<close>

definition vendor_path :: "ident \<Rightarrow> string \<Rightarrow> string list" where
  "vendor_path userId vendor = [''user'', userId, ''vendors'', vendor, ''token'']"

definition find_service_token :: "ident \<Rightarrow> string \<Rightarrow> db \<Rightarrow> service_token option" where
  "find_service_token userId vendor d =
     find_row (\<lambda>y. y_accountId y = userId \<and> y_vendor y = vendor) (serviceTokens d)"

definition register_vendor_token ::
  "(string list \<Rightarrow> string \<Rightarrow> bytes) \<Rightarrow> ident \<Rightarrow> string \<Rightarrow> string \<Rightarrow> ident \<Rightarrow> ts \<Rightarrow> db \<Rightarrow> db \<times> reply" where
  "register_vendor_token encrypt userId vendor token newId now d =
     (let encrypted = encrypt (vendor_path userId vendor) token
      in case find_service_token userId vendor d of
           Some _ \<Rightarrow>
             (d\<lparr>serviceTokens := update_rows (\<lambda>y. y_accountId y = userId \<and> y_vendor y = vendor)
                  (\<lambda>y. y\<lparr>y_token := encrypted, y_updatedAt := now\<rparr>) (serviceTokens d)\<rparr>,
              Reply 200 (JObj [(''success'', JBool True)]))
         | None \<Rightarrow>
             if account_row userId d = None then (d, Threw)
             else (d\<lparr>serviceTokens := serviceTokens d @
                      [\<lparr>y_id = newId, y_accountId = userId, y_vendor = vendor, y_token = encrypted,
                        y_createdAt = now, y_updatedAt = now\<rparr>]\<rparr>,
                   Reply 200 (JObj [(''success'', JBool True)])))"

text \<open>\<open>decrypt\<close> is \<open>None\<close> when it throws.\<close>

definition get_vendor_token ::
  "(string list \<Rightarrow> bytes \<Rightarrow> string option) \<Rightarrow> ident \<Rightarrow> string \<Rightarrow> db \<Rightarrow> reply" where
  "get_vendor_token decrypt userId vendor d =
     (case find_service_token userId vendor d of
        None \<Rightarrow> Reply 200 (JObj [(''token'', JNull)])
      | Some y \<Rightarrow>
          (case decrypt (vendor_path userId vendor) (y_token y) of
             None \<Rightarrow> Threw
           | Some t \<Rightarrow> Reply 200 (JObj [(''token'', JStr t)])))"

definition delete_vendor_token :: "ident \<Rightarrow> string \<Rightarrow> db \<Rightarrow> db \<times> reply" where
  "delete_vendor_token userId vendor d =
     (case find_service_token userId vendor d of
        None \<Rightarrow> (d, Threw)
      | Some _ \<Rightarrow>
          (d\<lparr>serviceTokens := delete_rows (\<lambda>y. y_accountId y = userId \<and> y_vendor y = vendor) (serviceTokens d)\<rparr>,
           Reply 200 (JObj [(''success'', JBool True)])))"

fun decrypt_tokens :: "(string list \<Rightarrow> bytes \<Rightarrow> string option) \<Rightarrow> ident \<Rightarrow> service_token list \<Rightarrow> json list option" where
  "decrypt_tokens decrypt userId [] = Some []"
| "decrypt_tokens decrypt userId (y # ys) =
     (case decrypt (vendor_path userId (y_vendor y)) (y_token y) of
        None \<Rightarrow> None
      | Some t \<Rightarrow> map_option (\<lambda>rest. JObj [(''vendor'', JStr (y_vendor y)), (''token'', JStr t)] # rest)
                    (decrypt_tokens decrypt userId ys))"

definition list_vendor_tokens :: "(string list \<Rightarrow> bytes \<Rightarrow> string option) \<Rightarrow> ident \<Rightarrow> db \<Rightarrow> reply" where
  "list_vendor_tokens decrypt userId d =
     (case decrypt_tokens decrypt userId (filter (\<lambda>y. y_accountId y = userId) (serviceTokens d)) of
        None \<Rightarrow> Threw
      | Some tokens \<Rightarrow> Reply 200 (JObj [(''tokens'', JArr tokens)]))"

section \<open>Push tokens\<close>

definition register_push_token :: "db sched \<Rightarrow> ident \<Rightarrow> string \<Rightarrow> ident \<Rightarrow> ts \<Rightarrow> db \<Rightarrow> db \<times> reply" where
  "register_push_token w userId token newId now d =
     (case db_call w 0 (throwing (\<lambda>d.
          case find_row (\<lambda>p. p_accountId p = userId \<and> p_token p = token) (pushTokens d) of
            Some _ \<Rightarrow> Some (d\<lparr>pushTokens := update_rows (\<lambda>p. p_accountId p = userId \<and> p_token p = token)
                              (\<lambda>p. p\<lparr>p_updatedAt := now\<rparr>) (pushTokens d)\<rparr>, ())
          | None \<Rightarrow> if account_row userId d = None then None
                    else Some (d\<lparr>pushTokens := pushTokens d @
                           [\<lparr>p_id = newId, p_accountId = userId, p_token = token, p_createdAt = now,
                             p_updatedAt = now\<rparr>]\<rparr>, ()))) d of
        (d1, Some (Some _)) \<Rightarrow> (d1, Reply 200 (JObj [(''success'', JBool True)]))
      | (d1, _) \<Rightarrow> (d1, Reply 500 (JObj [(''error'', JStr ''Failed to register push token'')])))"

definition delete_push_token :: "db sched \<Rightarrow> ident \<Rightarrow> string \<Rightarrow> db \<Rightarrow> db \<times> reply" where
  "delete_push_token w userId token d =
     (case db_call w 0 (\<lambda>d. (d\<lparr>pushTokens := delete_rows (\<lambda>p. p_accountId p = userId \<and> p_token p = token)
                                 (pushTokens d)\<rparr>, ())) d of
        (d1, Some _) \<Rightarrow> (d1, Reply 200 (JObj [(''success'', JBool True)]))
      | (d1, None) \<Rightarrow> (d1, Reply 500 (JObj [(''error'', JStr ''Failed to delete push token'')])))"

definition list_push_tokens :: "db sched \<Rightarrow> ident \<Rightarrow> db \<Rightarrow> db \<times> reply" where
  "list_push_tokens w userId d =
     (case db_call w 0 (\<lambda>d. (d, sort_key (\<lambda>p. - p_createdAt p)
              (filter (\<lambda>p. p_accountId p = userId) (pushTokens d)))) d of
        (d1, Some tokens) \<Rightarrow>
          (d1, Reply 200 (JObj [(''tokens'', JArr (map (\<lambda>p. JObj [(''id'', JStr (p_id p)), (''token'', JStr (p_token p)),
             (''createdAt'', JNum (p_createdAt p)), (''updatedAt'', JNum (p_updatedAt p))]) tokens))]))
      | (d1, None) \<Rightarrow> (d1, Reply 500 (JObj [(''error'', JStr ''Failed to get push tokens'')])))"

end
