(* ===== verification/Auth.thy ===== *)
theory Auth
  imports SessionStore "HOL-Library.AList"
begin

text \<open>
  Authentication: the token module with its cache (\<^verbatim>\<open>app/auth/auth.ts\<close>), the request
  decorator (\<^verbatim>\<open>api/utils/enableAuthentication.ts\<close>) and the sign-in routes
  (\<^verbatim>\<open>api/routes/authRoutes.ts\<close>).

  Tokens, signatures and encodings are those of privacy-kit and tweetnacl, parameters here:
  \<open>gen\<close> and \<open>ver\<close> create and verify a token with its user and extras, \<open>dec\<close> is
  \<^verbatim>\<open>decodeBase64\<close> (\<open>None\<close> when it throws), \<open>hex\<close> is \<^verbatim>\<open>encodeHex\<close>, \<open>sig\<close> the signature check.
\<close>

section \<open>The token module\<close>

type_synonym claims = "ident \<times> json option"

record token_entry =
  tk_userId :: ident
  tk_extras :: "json option"
  tk_cachedAt :: ts

record auth_module =
  tokenCache :: "(string \<times> token_entry) list"
  initialized :: bool

definition new_auth :: auth_module where
  "new_auth = \<lparr>tokenCache = [], initialized = False\<rparr>"

definition auth_init :: "auth_module \<Rightarrow> auth_module" where
  "auth_init m = m\<lparr>initialized := True\<rparr>"

text \<open>\<open>None\<close>: the module is not initialized and the call throws.\<close>

definition createToken ::
  "(claims \<Rightarrow> string) \<Rightarrow> ident \<Rightarrow> json option \<Rightarrow> ts \<Rightarrow> auth_module \<Rightarrow> auth_module \<times> string option" where
  "createToken gen userId extras now m =
     (if \<not> initialized m then (m, None)
      else let token = gen (userId, extras)
           in (m\<lparr>tokenCache := AList.update token
                   \<lparr>tk_userId = userId, tk_extras = extras, tk_cachedAt = now\<rparr> (tokenCache m)\<rparr>, Some token))"

datatype verification = Verified ident "json option" | Invalid | VerifyThrew

text \<open>\<open>ver\<close> is \<open>None\<close> for a token it rejects or throws on.\<close>

definition verifyToken ::
  "(string \<Rightarrow> claims option) \<Rightarrow> string \<Rightarrow> ts \<Rightarrow> auth_module \<Rightarrow> auth_module \<times> verification" where
  "verifyToken ver token now m =
     (case map_of (tokenCache m) token of
        Some e \<Rightarrow> (m, Verified (tk_userId e) (tk_extras e))
      | None \<Rightarrow>
          if \<not> initialized m then (m, VerifyThrew)
          else (case ver token of
                  None \<Rightarrow> (m, Invalid)
                | Some (userId, extras) \<Rightarrow>
                    (m\<lparr>tokenCache := AList.update token
                        \<lparr>tk_userId = userId, tk_extras = extras, tk_cachedAt = now\<rparr> (tokenCache m)\<rparr>,
                     Verified userId extras)))"

definition invalidateUserTokens :: "ident \<Rightarrow> auth_module \<Rightarrow> auth_module" where
  "invalidateUserTokens userId m =
     m\<lparr>tokenCache := filter (\<lambda>(t, e). tk_userId e \<noteq> userId) (tokenCache m)\<rparr>"

definition invalidateToken :: "string \<Rightarrow> auth_module \<Rightarrow> auth_module" where
  "invalidateToken token m = m\<lparr>tokenCache := AList.delete token (tokenCache m)\<rparr>"

definition getCacheStats :: "ts \<Rightarrow> auth_module \<Rightarrow> nat \<times> ts option" where
  "getCacheStats now m =
     (if tokenCache m = [] then (0, None)
      else (length (tokenCache m), Some (foldl (\<lambda>oldest (t, e). if tk_cachedAt e < oldest then tk_cachedAt e else oldest) now (tokenCache m))))"

definition createGithubToken :: "(ident \<times> string \<Rightarrow> string) \<Rightarrow> ident \<Rightarrow> auth_module \<Rightarrow> string option" where
  "createGithubToken gen userId m = (if initialized m then Some (gen (userId, ''github-oauth'')) else None)"

definition verifyGithubToken :: "(string \<Rightarrow> ident option) \<Rightarrow> string \<Rightarrow> auth_module \<Rightarrow> ident option option" where
  "verifyGithubToken ver token m = (if initialized m then Some (ver token) else None)"

section \<open>The request decorator\<close>

datatype auth_result = Authenticated ident | Unauthorized string

definition authenticate ::
  "(string \<Rightarrow> claims option) \<Rightarrow> string option \<Rightarrow> ts \<Rightarrow> auth_module \<Rightarrow> auth_module \<times> auth_result" where
  "authenticate ver header now m =
     (case header of
        None \<Rightarrow> (m, Unauthorized ''Missing authorization header'')
      | Some h \<Rightarrow>
          if h = [] \<or> take 7 h \<noteq> ''Bearer '' then (m, Unauthorized ''Missing authorization header'')
          else (case verifyToken ver (drop 7 h) now m of
                  (m1, Verified userId _) \<Rightarrow> (m1, Authenticated userId)
                | (m1, Invalid) \<Rightarrow> (m1, Unauthorized ''Invalid token'')
                | (m1, VerifyThrew) \<Rightarrow> (m1, Unauthorized ''Authentication failed'')))"

section \<open>Sign-in with a signature\<close>

type_synonym auth_state = "auth_module \<times> db"

definition upsert_account :: "string \<Rightarrow> ident \<Rightarrow> ts \<Rightarrow> db \<Rightarrow> db \<times> account" where
  "upsert_account publicKey newId now d =
     (case find_row (\<lambda>a. a_publicKey a = publicKey) (accounts d) of
        Some a \<Rightarrow> (d\<lparr>accounts := update_rows (\<lambda>b. a_publicKey b = publicKey) (\<lambda>b. b\<lparr>a_updatedAt := now\<rparr>) (accounts d)\<rparr>,
                   a\<lparr>a_updatedAt := now\<rparr>)
      | None \<Rightarrow> (let a = blank_account newId publicKey now in (d\<lparr>accounts := accounts d @ [a]\<rparr>, a)))"

definition auth_route ::
  "(string \<Rightarrow> bytes option) \<Rightarrow> (bytes \<Rightarrow> string) \<Rightarrow> (bytes \<Rightarrow> bytes \<Rightarrow> bytes \<Rightarrow> bool) \<Rightarrow> (claims \<Rightarrow> string)
   \<Rightarrow> string \<Rightarrow> string \<Rightarrow> string \<Rightarrow> ident \<Rightarrow> ts \<Rightarrow> auth_state \<Rightarrow> auth_state \<times> reply" where
  "auth_route dec hex sig gen publicKey challenge signature newId now s =
     (case (dec publicKey, dec challenge, dec signature) of
        (Some pk, Some ch, Some sg) \<Rightarrow>
          if \<not> sig ch sg pk then (s, Reply 401 (JObj [(''error'', JStr ''Invalid signature'')]))
          else (case upsert_account (hex pk) newId now (snd s) of
                  (d1, user) \<Rightarrow>
                    (case createToken gen (a_id user) None now (fst s) of
                       (m1, None) \<Rightarrow> ((m1, d1), Threw)
                     | (m1, Some token) \<Rightarrow>
                         ((m1, d1), Reply 200 (JObj [(''success'', JBool True), (''token'', JStr token)]))))
      | _ \<Rightarrow> (s, Threw))"

section \<open>Terminal requests\<close>

definition publicKeyLength :: nat where "publicKeyLength = 32"

definition key_of :: "(string \<Rightarrow> bytes option) \<Rightarrow> (bytes \<Rightarrow> string) \<Rightarrow> string \<Rightarrow> string option option" where
  "key_of dec hex publicKey =
     map_option (\<lambda>pk. if length pk = publicKeyLength then Some (hex pk) else None) (dec publicKey)"

definition invalid_key_reply :: reply where
  "invalid_key_reply = Reply 401 (JObj [(''error'', JStr ''Invalid public key'')])"

definition requested_reply :: reply where
  "requested_reply = Reply 200 (JObj [(''state'', JStr ''requested'')])"

definition authorized_reply :: "string \<Rightarrow> string \<Rightarrow> reply" where
  "authorized_reply token response =
     Reply 200 (JObj [(''state'', JStr ''authorized''), (''token'', JStr token), (''response'', JStr response)])"

definition terminal_row :: "string \<Rightarrow> db \<Rightarrow> terminal_auth_request option" where
  "terminal_row key d = find_row (\<lambda>r. t_publicKey r = key) (terminalAuthRequests d)"


definition terminal_answered :: "terminal_auth_request \<Rightarrow> (string \<times> ident) option" where
  "terminal_answered r =
     (if truthy (t_response r) \<and> truthy (t_responseAccountId r)
      then Some (the (t_response r), the (t_responseAccountId r)) else None)"


definition status_reply :: "string \<Rightarrow> bool \<Rightarrow> reply" where
  "status_reply status v2 = Reply 200 (JObj [(''status'', JStr status), (''supportsV2'', JBool v2)])"

definition auth_status_route ::
  "(string \<Rightarrow> bytes option) \<Rightarrow> (bytes \<Rightarrow> string) \<Rightarrow> string \<Rightarrow> db \<Rightarrow> reply" where
  "auth_status_route dec hex publicKey d =
     (case key_of dec hex publicKey of
        None \<Rightarrow> Threw
      | Some None \<Rightarrow> status_reply ''not_found'' False
      | Some (Some key) \<Rightarrow>
          (case terminal_row key d of
             None \<Rightarrow> status_reply ''not_found'' False
           | Some r \<Rightarrow> if terminal_answered r \<noteq> None then status_reply ''authorized'' False
                       else status_reply ''pending'' (t_supportsV2 r)))"

definition success_reply :: reply where
  "success_reply = Reply 200 (JObj [(''success'', JBool True)])"

definition answer_terminal :: "ident \<Rightarrow> string \<Rightarrow> ident \<Rightarrow> ts \<Rightarrow> db \<Rightarrow> (db \<times> unit) option" where
  "answer_terminal rid response userId now d =
     (if find_row (\<lambda>r. t_id r = rid) (terminalAuthRequests d) = None \<or> account_row userId d = None then None
      else Some (d\<lparr>terminalAuthRequests := update_rows (\<lambda>r. t_id r = rid)
             (\<lambda>r. r\<lparr>t_response := Some response, t_responseAccountId := Some userId, t_updatedAt := now\<rparr>)
             (terminalAuthRequests d)\<rparr>, ()))"

definition auth_response_route ::
  "(string \<Rightarrow> bytes option) \<Rightarrow> (bytes \<Rightarrow> string) \<Rightarrow> db sched \<Rightarrow> ident \<Rightarrow> string \<Rightarrow> string \<Rightarrow> ts \<Rightarrow> db \<Rightarrow> db \<times> reply" where
  "auth_response_route dec hex w userId response publicKey now d =
     (case key_of dec hex publicKey of
        None \<Rightarrow> (d, Threw)
      | Some None \<Rightarrow> (d, invalid_key_reply)
      | Some (Some key) \<Rightarrow>
          (case db_call w 0 (\<lambda>d. (d, terminal_row key d)) d of
             (d1, None) \<Rightarrow> (d1, Threw)
           | (d1, Some None) \<Rightarrow> (d1, Reply 404 (JObj [(''error'', JStr ''Request not found'')]))
           | (d1, Some (Some r)) \<Rightarrow>
               if truthy (t_response r) then (d1, success_reply)
               else (case db_call w 1 (throwing (answer_terminal (t_id r) response userId now)) d1 of
                       (d2, Some (Some _)) \<Rightarrow> (d2, success_reply)
                     | (d2, _) \<Rightarrow> (d2, Threw))))"

section \<open>Account requests\<close>

definition account_request_row :: "string \<Rightarrow> db \<Rightarrow> account_auth_request option" where
  "account_request_row key d = find_row (\<lambda>r. q_publicKey r = key) (accountAuthRequests d)"

definition upsert_account_request :: "string \<Rightarrow> ident \<Rightarrow> ts \<Rightarrow> db \<Rightarrow> db \<times> account_auth_request" where
  "upsert_account_request key newId now d =
     (case account_request_row key d of
        Some r \<Rightarrow> (d, r)
      | None \<Rightarrow> (let r = \<lparr>q_reqId = newId, q_publicKey = key, q_response = None, q_responseAccountId = None,
                         q_reqCreatedAt = now, q_reqUpdatedAt = now\<rparr>
                in (d\<lparr>accountAuthRequests := accountAuthRequests d @ [r]\<rparr>, r)))"

definition account_request_route ::
  "(string \<Rightarrow> bytes option) \<Rightarrow> (bytes \<Rightarrow> string) \<Rightarrow> (claims \<Rightarrow> string) \<Rightarrow> string \<Rightarrow> ident \<Rightarrow> ts
   \<Rightarrow> auth_state \<Rightarrow> auth_state \<times> reply" where
  "account_request_route dec hex gen publicKey newId now s =
     (case key_of dec hex publicKey of
        None \<Rightarrow> (s, Threw)
      | Some None \<Rightarrow> (s, invalid_key_reply)
      | Some (Some key) \<Rightarrow>
          (case upsert_account_request key newId now (snd s) of
             (d1, r) \<Rightarrow>
               if truthy (q_response r) \<and> truthy (q_responseAccountId r)
               then (case createToken gen (the (q_responseAccountId r)) None now (fst s) of
                       (m1, None) \<Rightarrow> ((m1, d1), Threw)
                     | (m1, Some token) \<Rightarrow> ((m1, d1), authorized_reply token (the (q_response r))))
               else ((fst s, d1), requested_reply)))"

definition answer_account_request :: "ident \<Rightarrow> string \<Rightarrow> ident \<Rightarrow> ts \<Rightarrow> db \<Rightarrow> (db \<times> unit) option" where
  "answer_account_request rid response userId now d =
     (if find_row (\<lambda>r. q_reqId r = rid) (accountAuthRequests d) = None \<or> account_row userId d = None then None
      else Some (d\<lparr>accountAuthRequests := update_rows (\<lambda>r. q_reqId r = rid)
             (\<lambda>r. r\<lparr>q_response := Some response, q_responseAccountId := Some userId, q_reqUpdatedAt := now\<rparr>)
             (accountAuthRequests d)\<rparr>, ()))"

definition account_response_route ::
  "(string \<Rightarrow> bytes option) \<Rightarrow> (bytes \<Rightarrow> string) \<Rightarrow> db sched \<Rightarrow> ident \<Rightarrow> string \<Rightarrow> string \<Rightarrow> ts \<Rightarrow> db \<Rightarrow> db \<times> reply" where
  "account_response_route dec hex w userId response publicKey now d =
     (case key_of dec hex publicKey of
        None \<Rightarrow> (d, Threw)
      | Some None \<Rightarrow> (d, invalid_key_reply)
      | Some (Some key) \<Rightarrow>
          (case db_call w 0 (\<lambda>d. (d, account_request_row key d)) d of
             (d1, None) \<Rightarrow> (d1, Threw)
           | (d1, Some None) \<Rightarrow> (d1, Reply 404 (JObj [(''error'', JStr ''Request not found'')]))
           | (d1, Some (Some r)) \<Rightarrow>
               if truthy (q_response r) then (d1, success_reply)
               else (case db_call w 1 (throwing (answer_account_request (q_reqId r) response userId now)) d1 of
                       (d2, Some (Some _)) \<Rightarrow> (d2, success_reply)
                     | (d2, _) \<Rightarrow> (d2, Threw))))"

section \<open>The cache is transparent\<close>

datatype token_call =
    CreateCall ident "json option"
  | VerifyCall string
  | InvalidateUserCall ident
  | InvalidateCall string

text \<open>The answer of a verification, \<open>None\<close> for the other calls.\<close>

fun token_step ::
  "(claims \<Rightarrow> string) \<Rightarrow> (string \<Rightarrow> claims option) \<Rightarrow> ts \<Rightarrow> token_call \<Rightarrow> auth_module \<Rightarrow> auth_module \<times> verification option" where
  "token_step gen ver now (CreateCall u x) m = (fst (createToken gen u x now m), None)"
| "token_step gen ver now (VerifyCall t) m = (case verifyToken ver t now m of (m1, v) \<Rightarrow> (m1, Some v))"
| "token_step gen ver now (InvalidateUserCall u) m = (invalidateUserTokens u m, None)"
| "token_step gen ver now (InvalidateCall t) m = (invalidateToken t m, None)"

fun token_run ::
  "(claims \<Rightarrow> string) \<Rightarrow> (string \<Rightarrow> claims option) \<Rightarrow> (ts \<times> token_call) list \<Rightarrow> auth_module \<Rightarrow> verification option list" where
  "token_run gen ver [] m = []"
| "token_run gen ver ((now, call) # calls) m =
     (case token_step gen ver now call m of (m1, v) \<Rightarrow> v # token_run gen ver calls m1)"

text \<open>Without the cache.\<close>

fun verdict :: "(string \<Rightarrow> claims option) \<Rightarrow> token_call \<Rightarrow> verification option" where
  "verdict ver (VerifyCall t) = Some (case ver t of None \<Rightarrow> Invalid | Some (u, x) \<Rightarrow> Verified u x)"
| "verdict ver _ = None"

definition cache_sound :: "(string \<Rightarrow> claims option) \<Rightarrow> auth_module \<Rightarrow> bool" where
  "cache_sound ver m =
     (initialized m \<and> distinct (map fst (tokenCache m))
    \<and> (\<forall>t e. map_of (tokenCache m) t = Some e \<longrightarrow> ver t = Some (tk_userId e, tk_extras e)))"

lemma filtered_entries:
  "distinct (map fst m) \<Longrightarrow> map_of (filter P m) k = Some e \<Longrightarrow> map_of m k = Some e"
  by (metis (no_types, lifting) distinct_map_filter filter_is_subset map_of_SomeD map_of_is_SomeI subsetD)

lemma token_step_sound:
  assumes "cache_sound ver m" and gen: "\<And>u x. call = CreateCall u x \<Longrightarrow> ver (gen (u, x)) = Some (u, x)"
    and "token_step gen ver now call m = (m', v)"
  shows "cache_sound ver m' \<and> v = verdict ver call"
  using assms
proof (cases call)
  case (CreateCall u x)
  then show ?thesis
    using assms by (auto simp: createToken_def cache_sound_def update_conv' distinct_update Let_def split: if_splits)
next
  case (VerifyCall t)
  then show ?thesis
    using assms
    by (auto simp: verifyToken_def cache_sound_def update_conv' distinct_update
        simp del: map_of_eq_Some_iff split: option.splits if_splits)
next
  case (InvalidateUserCall u)
  then show ?thesis
    using assms by (auto simp: invalidateUserTokens_def cache_sound_def distinct_map_filter
        simp del: map_of_eq_Some_iff dest: filtered_entries)
next
  case (InvalidateCall t)
  then show ?thesis
    using assms by (auto simp: invalidateToken_def cache_sound_def delete_conv' distinct_delete
        simp del: map_of_eq_Some_iff split: if_splits)
qed

lemma token_run_verdicts:
  assumes "cache_sound ver m"
    and "\<forall>now u x. (now, CreateCall u x) \<in> set calls \<longrightarrow> ver (gen (u, x)) = Some (u, x)"
  shows "token_run gen ver calls m = map (verdict ver \<circ> snd) calls"
  using assms
proof (induction calls arbitrary: m)
  case (Cons c calls)
  obtain now call where c: "c = (now, call)" by (cases c)
  obtain m1 v where step: "token_step gen ver now call m = (m1, v)" by fastforce
  show ?case
    using token_step_sound [OF Cons.prems(1) _ step] Cons.IH [of m1] Cons.prems(2) step c by auto
qed simp

text \<open>
  C33.  The token cache is transparent.  If the verifier accepts every token the generator made, with
  the claims it was made for, then in any sequence of created tokens, verifications and
  invalidations every verification answers exactly what the verifier alone would answer: a cached
  token never outlives or changes its claims, a forged one is never accepted, and invalidating a
  token or a user only drops cache entries and revokes nothing.
\<close>

theorem token_cache_transparent:
  assumes "\<forall>now u x. (now, CreateCall u x) \<in> set calls \<longrightarrow> ver (gen (u, x)) = Some (u, x)"
  shows "token_run gen ver calls (auth_init new_auth) = map (verdict ver \<circ> snd) calls"
  using assms by (intro token_run_verdicts) (auto simp: cache_sound_def auth_init_def new_auth_def)

definition demo_gen :: "claims \<Rightarrow> string" where
  "demo_gen c = CHR ''T'' # fst c"

definition demo_ver :: "string \<Rightarrow> claims option" where
  "demo_ver t = (case t of [] \<Rightarrow> None | c # u \<Rightarrow> if c = CHR ''T'' then Some (u, None) else None)"

definition demo_calls :: "(ts \<times> token_call) list" where
  "demo_calls = [(1, CreateCall ''ann'' None), (2, VerifyCall ''Tann''), (3, InvalidateUserCall ''ann''),
     (4, VerifyCall ''Tann''), (5, VerifyCall ''forged'')]"

theorem token_cache_transparent_witness:
  "token_run demo_gen demo_ver demo_calls (auth_init new_auth) =
     [None, Some (Verified ''ann'' None), None, Some (Verified ''ann'' None), Some Invalid]"
proof -
  have "\<forall>now u x. (now, CreateCall u x) \<in> set demo_calls \<longrightarrow> demo_ver (demo_gen (u, x)) = Some (u, x)"
    by (auto simp: demo_calls_def demo_ver_def demo_gen_def)
  moreover have "map (verdict demo_ver \<circ> snd) demo_calls =
      [None, Some (Verified ''ann'' None), None, Some (Verified ''ann'' None), Some Invalid]" by code_simp
  ultimately show ?thesis using token_cache_transparent [of demo_calls demo_ver demo_gen] by simp
qed

section \<open>Answers to a terminal, statement by statement\<close>

text \<open>
  \<^verbatim>\<open>POST /v1/auth/response\<close> reads the request row and then, when it holds no response, updates it: two
  statements, between which anything may run.  \<open>answer_begin\<close> is the part up to the read
  (\<open>Inl\<close>: the route answers; \<open>Inr rid\<close>: it goes on to update row \<open>rid\<close>), \<open>answer_end\<close> the update.
\<close>

definition answer_begin ::
  "(string \<Rightarrow> bytes option) \<Rightarrow> (bytes \<Rightarrow> string) \<Rightarrow> string \<Rightarrow> db \<Rightarrow> reply + ident" where
  "answer_begin dec hex publicKey d =
     (case key_of dec hex publicKey of
        None \<Rightarrow> Inl Threw
      | Some None \<Rightarrow> Inl invalid_key_reply
      | Some (Some key) \<Rightarrow>
          (case terminal_row key d of
             None \<Rightarrow> Inl (Reply 404 (JObj [(''error'', JStr ''Request not found'')]))
           | Some r \<Rightarrow> if truthy (t_response r) then Inl success_reply else Inr (t_id r)))"

definition answer_end :: "ident \<Rightarrow> string \<Rightarrow> ident \<Rightarrow> ts \<Rightarrow> db \<Rightarrow> db \<times> reply" where
  "answer_end rid response userId now d =
     (case throwing (answer_terminal rid response userId now) d of
        (d1, Some _) \<Rightarrow> (d1, success_reply)
      | (d1, None) \<Rightarrow> (d1, Threw))"

text \<open>The route is exactly these two parts, with whatever the scheduler runs in between.\<close>

lemma auth_response_route_parts:
  assumes "\<not> rejects w 0" and "\<not> rejects w 1"
  shows "auth_response_route dec hex w userId response publicKey now d =
     (case key_of dec hex publicKey of
        Some (Some key) \<Rightarrow>
          (case answer_begin dec hex publicKey (interfere w 0 d) of
             Inl rep \<Rightarrow> (interfere w 0 d, rep)
           | Inr rid \<Rightarrow> answer_end rid response userId now (interfere w 1 (interfere w 0 d)))
      | _ \<Rightarrow> (d, case answer_begin dec hex publicKey d of Inl rep \<Rightarrow> rep | Inr rid \<Rightarrow> Threw))"
  using assms
  by (auto simp: auth_response_route_def answer_begin_def answer_end_def db_call_def Let_def
      split: option.splits prod.splits)










lemma createToken_initialized [simp]: "initialized (fst (createToken gen u x now m)) = initialized m"
  by (simp add: createToken_def Let_def)











definition demo_key :: string where
  "demo_key = replicate 32 (CHR ''k'')"

definition demo_terminal :: db where
  "demo_terminal = empty_db\<lparr>accounts := [blank_account ''ann'' ''pk'' 0, blank_account ''eve'' ''pk2'' 0],
     terminalAuthRequests := [\<lparr>t_id = ''r1'', t_publicKey = demo_key, t_supportsV2 = False, t_response = Some ''yes'',
       t_responseAccountId = Some ''ann'', t_createdAt = 0, t_updatedAt = 0\<rparr>]\<rparr>"




text \<open>
  The check and the write of an answer are two statements: an answer that runs between them is
  reported as a success and then overwritten.
\<close>

definition racing_answer :: "db sched" where
  "racing_answer = \<lparr>interfere = (\<lambda>k d. if k = 1 then fst (auth_response_route Some id quiet ''ann'' ''first'' demo_key 4 d) else d),
     rejects = (\<lambda>_. False)\<rparr>"

definition demo_unanswered :: db where
  "demo_unanswered = demo_terminal\<lparr>terminalAuthRequests :=
     [(hd (terminalAuthRequests demo_terminal))\<lparr>t_response := None, t_responseAccountId := None\<rparr>]\<rparr>"

theorem answer_race:
  "snd (auth_response_route Some id racing_answer ''eve'' ''second'' demo_key 5 demo_unanswered) = success_reply
   \<and> snd (auth_response_route Some id quiet ''ann'' ''first'' demo_key 4 demo_unanswered) = success_reply
   \<and> map_option terminal_answered (terminal_row demo_key
         (fst (auth_response_route Some id racing_answer ''eve'' ''second'' demo_key 5 demo_unanswered)))
       = Some (Some (''second'', ''eve''))"
  by (intro conjI; code_simp)

end
