(* ===== verification/JsonText.thy ===== *)
theory JsonText
  imports Json Text
begin

text \<open>
  Two measures of JavaScript strings and values the server limits: \<^verbatim>\<open>s.length\<close>, which counts
  UTF-16 code units, and the text \<^verbatim>\<open>JSON.stringify\<close> prints, whose bytes \<^verbatim>\<open>Buffer.byteLength\<close> counts.
  Strings are their UTF-8 bytes: a character takes two code units exactly when its first byte is
  at least \<open>0xF0\<close>.
\<close>

definition byte_units :: "char \<Rightarrow> nat" where
  "byte_units c =
     (let n = (of_char c :: nat) in if n < 0x80 then 1 else if n < 0xC0 then 0 else if n < 0xF0 then 1 else 2)"

definition utf16_length :: "string \<Rightarrow> nat" where
  "utf16_length s = sum_list (map byte_units s)"

definition hex_digit :: "nat \<Rightarrow> char" where
  "hex_digit n = ''0123456789abcdef'' ! n"

definition escape_byte :: "char \<Rightarrow> string" where
  "escape_byte c =
     (if c = CHR 0x22 then [CHR 0x5C, CHR 0x22]
      else if c = CHR 0x5C then [CHR 0x5C, CHR 0x5C]
      else if c = CHR 0x08 then [CHR 0x5C, CHR ''b'']
      else if c = CHR 0x0C then [CHR 0x5C, CHR ''f'']
      else if c = CHR 0x0A then [CHR 0x5C, CHR ''n'']
      else if c = CHR 0x0D then [CHR 0x5C, CHR ''r'']
      else if c = CHR 0x09 then [CHR 0x5C, CHR ''t'']
      else let n = (of_char c :: nat)
           in if n < 32 then CHR 0x5C # ''u00'' @ [hex_digit (n div 16), hex_digit (n mod 16)] else [c])"

definition quote :: "string \<Rightarrow> string" where
  "quote s = CHR 0x22 # concat (map escape_byte s) @ [CHR 0x22]"

fun comma_separated :: "string list \<Rightarrow> string" where
  "comma_separated [] = []"
| "comma_separated [s] = s"
| "comma_separated (s # t # ss) = s @ '','' @ comma_separated (t # ss)"

fun stringify :: "json \<Rightarrow> string" where
  "stringify JNull = ''null''"
| "stringify (JBool b) = (if b then ''true'' else ''false'')"
| "stringify (JNum n) = show_int n"
| "stringify (JStr s) = quote s"
| "stringify (JArr vs) = ''['' @ comma_separated (map stringify vs) @ '']''"
| "stringify (JObj kvs) =
     ''{'' @ comma_separated (map (\<lambda>(k, v). quote k @ '':'' @ stringify v) kvs) @ ''}''"

lemma utf16_length_le: "utf16_length s \<le> 2 * length s"
  by (induction s) (auto simp: utf16_length_def byte_units_def Let_def)

end
