(* ===== verification/RpcRegistry.thy ===== *)
theory RpcRegistry
  imports SessionUpdate JsonText "HOL-Library.AList"
begin

text \<open>
  Where an RPC method of an account is served, \<^verbatim>\<open>api/socket/rpcRegistrationRegistry.ts\<close>: the
  registration targets in Redis with their expiry, the two Lua scripts, the hybrid logical clock
  that orders registrations, and the lifecycle of one socket's registrations.

  Redis is the map from keys to a value with its expiry; a stored text is represented by the
  document it encodes.  The hash of account and method (\<open>digest\<close>) and the random UUIDs are
  parameters.
\<close>

section \<open>Targets\<close>

record runtime_owner =
  ro_sessionId :: ident
  ro_sessionInstanceId :: "ident option"
  ro_leaseId :: "ident option"

record target =
  tg_socketId :: ident
  tg_generation :: string
  tg_runtimeOwner :: "runtime_owner option"

record registration =
  rg_key :: string
  rg_target :: target

definition owner_json :: "runtime_owner \<Rightarrow> json" where
  "owner_json o1 =
     JObj ([(''sessionId'', JStr (ro_sessionId o1))]
      @ opt_field ''sessionInstanceId'' (map_option JStr (ro_sessionInstanceId o1))
      @ opt_field ''leaseId'' (map_option JStr (ro_leaseId o1)))"

definition encodeTarget :: "target \<Rightarrow> json" where
  "encodeTarget t =
     JObj ([(''socketId'', JStr (tg_socketId t)), (''generation'', JStr (tg_generation t))]
      @ opt_field ''runtimeOwner'' (map_option owner_json (tg_runtimeOwner t)))"

definition parse_optional :: "jsval \<Rightarrow> ident option option" where
  "parse_optional v = (case v of None \<Rightarrow> Some None | Some (JStr s) \<Rightarrow> Some (Some s) | _ \<Rightarrow> None)"

fun parse_owner :: "json \<Rightarrow> runtime_owner option" where
  "parse_owner (JObj kvs) =
     (case (as_string (map_of kvs ''sessionId''), parse_optional (map_of kvs ''sessionInstanceId''),
            parse_optional (map_of kvs ''leaseId'')) of
        (Some sid, Some inst, Some lease) \<Rightarrow>
          if sid = [] \<or> (inst = None) \<noteq> (lease = None) then None
          else Some \<lparr>ro_sessionId = sid, ro_sessionInstanceId = inst, ro_leaseId = lease\<rparr>
      | _ \<Rightarrow> None)"
| "parse_owner _ = None"

subsection \<open>The generation pattern\<close>

definition is_hex :: "char \<Rightarrow> bool" where
  "is_hex c = (is_digit c \<or> c \<in> set ''abcdefABCDEF'')"

text \<open>A fixed-width pattern: one predicate per character.\<close>

definition matches :: "(char \<Rightarrow> bool) list \<Rightarrow> string \<Rightarrow> bool" where
  "matches ps s = (length s = length ps \<and> list_all (\<lambda>(p, c). p c) (zip ps s))"

definition UUID_PATTERN :: "(char \<Rightarrow> bool) list" where
  "UUID_PATTERN =
     replicate 8 is_hex @ [\<lambda>c. c = CHR ''-''] @ replicate 4 is_hex @ [\<lambda>c. c = CHR ''-'']
     @ [\<lambda>c. c \<in> set ''12345678''] @ replicate 3 is_hex @ [\<lambda>c. c = CHR ''-'']
     @ [\<lambda>c. c \<in> set ''89abAB''] @ replicate 3 is_hex @ [\<lambda>c. c = CHR ''-''] @ replicate 12 is_hex"

definition REGISTRATION_GENERATION_PATTERN :: "(char \<Rightarrow> bool) list" where
  "REGISTRATION_GENERATION_PATTERN =
     replicate 16 is_digit @ [\<lambda>c. c = CHR '':''] @ replicate 8 is_digit @ [\<lambda>c. c = CHR '':''] @ UUID_PATTERN"

definition valid_generation :: "string \<Rightarrow> bool" where
  "valid_generation s = matches REGISTRATION_GENERATION_PATTERN s"

fun parseTarget :: "json option \<Rightarrow> target option" where
  "parseTarget (Some (JObj kvs)) =
     (case (as_string (map_of kvs ''socketId''), as_string (map_of kvs ''generation'')) of
        (Some sock, Some gen) \<Rightarrow>
          if sock = [] \<or> utf16_length sock > 256 \<or> \<not> valid_generation gen then None
          else (case map_of kvs ''runtimeOwner'' of
                  None \<Rightarrow> Some \<lparr>tg_socketId = sock, tg_generation = gen, tg_runtimeOwner = None\<rparr>
                | Some v \<Rightarrow> map_option (\<lambda>ow. \<lparr>tg_socketId = sock, tg_generation = gen, tg_runtimeOwner = Some ow\<rparr>)
                              (parse_owner v))
      | _ \<Rightarrow> None)"
| "parseTarget _ = None"

section \<open>The hybrid logical clock\<close>

record hlc =
  lastRegistrationTimestampMs :: nat
  lastRegistrationSequence :: nat

definition advance_clock :: "nat \<Rightarrow> hlc \<Rightarrow> hlc" where
  "advance_clock observedAtMs h =
     (if observedAtMs > lastRegistrationTimestampMs h
      then \<lparr>lastRegistrationTimestampMs = observedAtMs, lastRegistrationSequence = 0\<rparr>
      else if lastRegistrationSequence h + 1 > 99999999
      then \<lparr>lastRegistrationTimestampMs = lastRegistrationTimestampMs h + 1, lastRegistrationSequence = 0\<rparr>
      else h\<lparr>lastRegistrationSequence := lastRegistrationSequence h + 1\<rparr>)"

definition createGeneration :: "nat \<Rightarrow> string \<Rightarrow> hlc \<Rightarrow> hlc \<times> string" where
  "createGeneration observedAtMs uuid h =
     (let h1 = advance_clock observedAtMs h
      in (h1, padStart 16 (CHR ''0'') (show_nat (lastRegistrationTimestampMs h1)) @ '':''
             @ padStart 8 (CHR ''0'') (show_nat (lastRegistrationSequence h1)) @ '':'' @ uuid))"

section \<open>Redis\<close>

type_synonym redis = "string \<Rightarrow> (json \<times> ts) option"

definition redis_get :: "ts \<Rightarrow> string \<Rightarrow> redis \<Rightarrow> json option" where
  "redis_get now key r =
     (case r key of None \<Rightarrow> None | Some (v, expiresAt) \<Rightarrow> if now < expiresAt then Some v else None)"

definition redis_set_px :: "ts \<Rightarrow> int \<Rightarrow> string \<Rightarrow> json \<Rightarrow> redis \<Rightarrow> redis" where
  "redis_set_px now ttl key v r = r(key \<mapsto> (v, now + ttl))"

definition redis_del :: "string \<Rightarrow> redis \<Rightarrow> redis" where
  "redis_del key r = r(key := None)"

text \<open>The generation of a stored document, when it has one.\<close>

definition stored_generation :: "json \<Rightarrow> string option" where
  "stored_generation v = as_string (get_prop (Some v) ''generation'')"

text \<open>One round of the loop of \<^verbatim>\<open>REFRESH_CURRENT_BATCH_SCRIPT\<close>.\<close>

definition refresh_key :: "ts \<Rightarrow> int \<Rightarrow> string \<Rightarrow> json \<Rightarrow> redis \<Rightarrow> redis \<times> bool" where
  "refresh_key now ttl key candidate r =
     (case redis_get now key r of
        None \<Rightarrow> (redis_set_px now ttl key candidate r, True)
      | Some current \<Rightarrow>
          if current = candidate then (redis_set_px now ttl key candidate r, True)
          else (case (stored_generation current, stored_generation candidate) of
                  (Some g, Some g') \<Rightarrow>
                    if g < g' then (redis_set_px now ttl key candidate r, True) else (r, False)
                | _ \<Rightarrow> (r, False)))"

definition delete_key :: "ts \<Rightarrow> string \<Rightarrow> json \<Rightarrow> redis \<Rightarrow> redis \<times> bool" where
  "delete_key now key candidate r =
     (if redis_get now key r = Some candidate then (redis_del key r, True) else (r, False))"

text \<open>The scripts run atomically over all their keys.\<close>

fun script :: "(string \<Rightarrow> json \<Rightarrow> redis \<Rightarrow> redis \<times> bool) \<Rightarrow> registration list \<Rightarrow> redis \<Rightarrow> redis \<times> bool list" where
  "script f [] r = (r, [])"
| "script f (x # xs) r =
     (case f (rg_key x) (encodeTarget (rg_target x)) r of
        (r1, b) \<Rightarrow> (case script f xs r1 of (r2, bs) \<Rightarrow> (r2, b # bs)))"

definition refreshMany :: "ts \<Rightarrow> int \<Rightarrow> registration list \<Rightarrow> redis \<Rightarrow> redis \<times> bool list" where
  "refreshMany now ttl xs r = script (refresh_key now ttl) xs r"

definition unregisterMany :: "ts \<Rightarrow> registration list \<Rightarrow> redis \<Rightarrow> redis \<times> bool list" where
  "unregisterMany now xs r = script (delete_key now) xs r"

definition getRpcRegistrationKey :: "(string \<Rightarrow> string) \<Rightarrow> ident \<Rightarrow> string \<Rightarrow> string" where
  "getRpcRegistrationKey digest userId method =
     ''happy:rpc-registration:v1:'' @ digest (userId @ CHR 0x00 # method)"

definition new_registration ::
  "(string \<Rightarrow> string) \<Rightarrow> ident \<Rightarrow> string \<Rightarrow> ident \<Rightarrow> runtime_owner option \<Rightarrow> string \<Rightarrow> registration" where
  "new_registration digest userId method socketId owner gen =
     \<lparr>rg_key = getRpcRegistrationKey digest userId method,
      rg_target = \<lparr>tg_socketId = socketId, tg_generation = gen, tg_runtimeOwner = owner\<rparr>\<rparr>"

definition registry_register :: "ts \<Rightarrow> int \<Rightarrow> registration \<Rightarrow> redis \<Rightarrow> redis" where
  "registry_register now ttl x r = redis_set_px now ttl (rg_key x) (encodeTarget (rg_target x)) r"

definition registry_resolve :: "(string \<Rightarrow> string) \<Rightarrow> ts \<Rightarrow> ident \<Rightarrow> string \<Rightarrow> redis \<Rightarrow> target option" where
  "registry_resolve digest now userId method r =
     parseTarget (redis_get now (getRpcRegistrationKey digest userId method) r)"

section \<open>The lifecycle of a socket's registrations\<close>

datatype lifecycle_op = OpRegister string | OpUnregister string | OpRefresh | OpClose

text \<open>How far the first operation of the queue has come.\<close>

datatype phase = NotStarted | AtGuard | Attempting

record lifecycle =
  lc_registrations :: "(string \<times> registration) list"
  lc_queue :: "lifecycle_op list"
  lc_phase :: phase
  lc_closing :: bool
  lc_cancelled :: "string set"
  lc_refreshTimer :: bool
  lc_refreshing :: bool
  lc_maxRegistrations :: nat

definition new_lifecycle :: "nat \<Rightarrow> lifecycle" where
  "new_lifecycle maxRegistrations =
     \<lparr>lc_registrations = [], lc_queue = [], lc_phase = NotStarted, lc_closing = False, lc_cancelled = {},
      lc_refreshTimer = False, lc_refreshing = False, lc_maxRegistrations = maxRegistrations\<rparr>"

text \<open>
  What the synchronous part of a call does: it records the intent and appends the operation to
  the tail (\<^verbatim>\<open>runExclusive\<close>).
\<close>

definition call_register :: "string \<Rightarrow> lifecycle \<Rightarrow> lifecycle" where
  "call_register m l = l\<lparr>lc_cancelled := lc_cancelled l - {m}, lc_queue := lc_queue l @ [OpRegister m]\<rparr>"

definition call_unregister :: "string \<Rightarrow> lifecycle \<Rightarrow> lifecycle" where
  "call_unregister m l = l\<lparr>lc_cancelled := insert m (lc_cancelled l), lc_queue := lc_queue l @ [OpUnregister m]\<rparr>"

definition call_refresh :: "lifecycle \<Rightarrow> lifecycle" where
  "call_refresh l =
     (if lc_refreshing l then l else l\<lparr>lc_refreshing := True, lc_queue := lc_queue l @ [OpRefresh]\<rparr>)"

text \<open>\<^verbatim>\<open>closePromise\<close> is set exactly when \<^verbatim>\<open>closing\<close> is.\<close>

definition call_close :: "lifecycle \<Rightarrow> lifecycle" where
  "call_close l =
     (if lc_closing l then l
      else l\<lparr>lc_closing := True, lc_refreshTimer := False, lc_queue := lc_queue l @ [OpClose]\<rparr>)"

definition stop_timer_if_idle :: "lifecycle \<Rightarrow> lifecycle" where
  "stop_timer_if_idle l = (if lc_registrations l = [] then l\<lparr>lc_refreshTimer := False\<rparr> else l)"

definition finish_op :: "lifecycle \<Rightarrow> lifecycle" where
  "finish_op l = l\<lparr>lc_queue := tl (lc_queue l), lc_phase := NotStarted\<rparr>"

text \<open>
  One attempt under the owner fence: it completed, the session lock was busy, the runtime lost the
  session, or it threw before Redis, after Redis but before the result was recorded, or after.
\<close>

datatype attempt = Completed1 | Busy1 | NotOwner1 | ThrewBefore | ThrewAtRedis | ThrewAfter

datatype op_result = Done | ClosedError | LimitError | CancelledError | OwnershipLost | RedisError

definition ensure_refresh_timer :: "lifecycle \<Rightarrow> lifecycle" where
  "ensure_refresh_timer l =
     (if lc_refreshTimer l \<or> lc_closing l then l else l\<lparr>lc_refreshTimer := True\<rparr>)"

text \<open>\<open>fresh\<close> is the registration this attempt would create.\<close>

definition record_registration :: "string \<Rightarrow> registration \<Rightarrow> lifecycle \<Rightarrow> lifecycle" where
  "record_registration m fresh l =
     ensure_refresh_timer (l\<lparr>lc_registrations := AList.update m fresh (lc_registrations l)\<rparr>)"

definition step_register ::
  "ts \<Rightarrow> int \<Rightarrow> registration \<Rightarrow> attempt \<Rightarrow> string \<Rightarrow> lifecycle \<times> redis \<Rightarrow> (lifecycle \<times> redis) \<times> op_result option" where
  "step_register now ttl fresh a m s =
     (case s of (l, r) \<Rightarrow>
      case lc_phase l of
        NotStarted \<Rightarrow>
          if lc_closing l then ((finish_op l, r), Some ClosedError)
          else if m \<notin> fst ` set (lc_registrations l) \<and> length (lc_registrations l) \<ge> lc_maxRegistrations l
          then ((finish_op l, r), Some LimitError)
          else ((l\<lparr>lc_phase := AtGuard\<rparr>, r), None)
      | AtGuard \<Rightarrow>
          if lc_closing l \<or> m \<in> lc_cancelled l
          then ((finish_op (l\<lparr>lc_cancelled := lc_cancelled l - {m}\<rparr>), r), Some CancelledError)
          else ((l\<lparr>lc_phase := Attempting\<rparr>, r), None)
      | Attempting \<Rightarrow>
          (let r1 = registry_register now ttl fresh r
           in case a of
                Completed1 \<Rightarrow> ((finish_op (record_registration m fresh l), r1), Some Done)
              | NotOwner1 \<Rightarrow> ((finish_op (l\<lparr>lc_cancelled := lc_cancelled l - {m}\<rparr>), r), Some OwnershipLost)
              | Busy1 \<Rightarrow> ((l\<lparr>lc_phase := AtGuard\<rparr>, r), None)
              | ThrewBefore \<Rightarrow> ((l\<lparr>lc_phase := AtGuard\<rparr>, r), None)
              | ThrewAtRedis \<Rightarrow> ((l\<lparr>lc_phase := AtGuard\<rparr>, r1), None)
              | ThrewAfter \<Rightarrow> (((record_registration m fresh l)\<lparr>lc_phase := AtGuard\<rparr>, r1), None)))"

text \<open>\<open>redisOk\<close>: Redis answered; otherwise the command may or may not have run (\<open>applied\<close>).\<close>

definition step_unregister ::
  "ts \<Rightarrow> bool \<Rightarrow> bool \<Rightarrow> string \<Rightarrow> lifecycle \<times> redis \<Rightarrow> (lifecycle \<times> redis) \<times> op_result option" where
  "step_unregister now redisOk applied m s =
     (case s of (l, r) \<Rightarrow>
      let l1 = l\<lparr>lc_cancelled := lc_cancelled l - {m}\<rparr>
      in case map_of (lc_registrations l) m of
           None \<Rightarrow> ((finish_op l1, r), Some Done)
         | Some x \<Rightarrow>
             ((finish_op (stop_timer_if_idle (l1\<lparr>lc_registrations := AList.delete m (lc_registrations l)\<rparr>)),
               if redisOk \<or> applied then fst (unregisterMany now [x] r) else r),
              Some (if redisOk then Done else RedisError)))"

definition drop_lost :: "(string \<times> registration) list \<Rightarrow> bool list \<Rightarrow> (string \<times> registration) list" where
  "drop_lost regs results = map fst (filter snd (zip regs results))"

definition step_refresh ::
  "ts \<Rightarrow> int \<Rightarrow> attempt \<Rightarrow> lifecycle \<times> redis \<Rightarrow> (lifecycle \<times> redis) \<times> op_result option" where
  "step_refresh now ttl a s =
     (case s of (l, r) \<Rightarrow>
      let fin = (\<lambda>l. finish_op ((stop_timer_if_idle l)\<lparr>lc_refreshing := False\<rparr>))
      in if lc_closing l \<or> lc_registrations l = [] then ((finish_op (l\<lparr>lc_refreshing := False\<rparr>), r), Some Done)
         else (case refreshMany now ttl (map snd (lc_registrations l)) r of
                 (r1, results) \<Rightarrow>
                   (case a of
                      Completed1 \<Rightarrow>
                        ((fin (l\<lparr>lc_registrations := drop_lost (lc_registrations l) results\<rparr>), r1), Some Done)
                    | NotOwner1 \<Rightarrow> ((fin (l\<lparr>lc_registrations := []\<rparr>), r), Some Done)
                    | Busy1 \<Rightarrow> ((fin l, r), Some Done)
                    | ThrewBefore \<Rightarrow> ((fin l, r), Some Done)
                    | ThrewAtRedis \<Rightarrow> ((fin l, r1), Some Done)
                    | ThrewAfter \<Rightarrow> ((fin l, r1), Some Done))))"

definition step_close ::
  "ts \<Rightarrow> bool \<Rightarrow> bool \<Rightarrow> lifecycle \<times> redis \<Rightarrow> (lifecycle \<times> redis) \<times> op_result option" where
  "step_close now redisOk applied s =
     (case s of (l, r) \<Rightarrow>
        ((finish_op (l\<lparr>lc_registrations := [], lc_cancelled := {}\<rparr>),
          if redisOk \<or> applied then fst (unregisterMany now (map snd (lc_registrations l)) r) else r),
         Some Done))"

section \<open>Runs\<close>

datatype lifecycle_event =
    CallRegister string
  | CallUnregister string
  | CallRefresh
  | CallClose
  | Run ts registration attempt bool bool
  | Elsewhere "redis \<Rightarrow> redis"

fun lifecycle_step :: "int \<Rightarrow> lifecycle_event \<Rightarrow> lifecycle \<times> redis \<Rightarrow> lifecycle \<times> redis" where
  "lifecycle_step ttl (CallRegister m) (l, r) = (call_register m l, r)"
| "lifecycle_step ttl (CallUnregister m) (l, r) = (call_unregister m l, r)"
| "lifecycle_step ttl CallRefresh (l, r) = (call_refresh l, r)"
| "lifecycle_step ttl CallClose (l, r) = (call_close l, r)"
| "lifecycle_step ttl (Run now fresh a redisOk applied) (l, r) =
     (case lc_queue l of
        [] \<Rightarrow> (l, r)
      | OpRegister m # _ \<Rightarrow> fst (step_register now ttl fresh a m (l, r))
      | OpUnregister m # _ \<Rightarrow> fst (step_unregister now redisOk applied m (l, r))
      | OpRefresh # _ \<Rightarrow> fst (step_refresh now ttl a (l, r))
      | OpClose # _ \<Rightarrow> fst (step_close now redisOk applied (l, r)))"
| "lifecycle_step ttl (Elsewhere f) (l, r) = (l, f r)"

definition lifecycle_run :: "int \<Rightarrow> lifecycle_event list \<Rightarrow> lifecycle \<times> redis \<Rightarrow> lifecycle \<times> redis" where
  "lifecycle_run ttl evs s = fold (lifecycle_step ttl) evs s"

section \<open>The lifecycle invariant\<close>

text \<open>The last request about a method, of the calls so far and of the queue.\<close>

definition asks :: "string \<Rightarrow> lifecycle_event \<Rightarrow> bool" where
  "asks m ev = (ev = CallRegister m \<or> ev = CallUnregister m)"

definition last_request :: "string \<Rightarrow> lifecycle_event list \<Rightarrow> lifecycle_event option" where
  "last_request m evs = find (asks m) (rev evs)"

definition last_op :: "string \<Rightarrow> lifecycle_op list \<Rightarrow> lifecycle_op option" where
  "last_op m q = find (\<lambda>p. p = OpRegister m \<or> p = OpUnregister m) (rev q)"

definition registered :: "(string \<times> registration) list \<Rightarrow> string set" where
  "registered regs = fst ` set regs"

definition requests_ok :: "lifecycle_event list \<Rightarrow> (string \<times> registration) list \<Rightarrow> lifecycle_op list \<Rightarrow> bool" where
  "requests_ok evs regs q =
     (\<forall>m. last_request m evs \<noteq> Some (CallRegister m) \<longrightarrow>
        last_op m q = Some (OpUnregister m) \<or> (last_op m q = None \<and> m \<notin> registered regs))"

text \<open>A register operation that has started has room for its method.\<close>

definition phase_ok :: "lifecycle \<Rightarrow> bool" where
  "phase_ok l =
     (lc_phase l = NotStarted
      \<or> (\<exists>m q. lc_queue l = OpRegister m # q
          \<and> (m \<in> registered (lc_registrations l) \<or> length (lc_registrations l) < lc_maxRegistrations l)))"

definition lifecycle_inv :: "lifecycle_event list \<Rightarrow> lifecycle \<Rightarrow> bool" where
  "lifecycle_inv evs l =
     (distinct (map fst (lc_registrations l))
      \<and> length (lc_registrations l) \<le> lc_maxRegistrations l
      \<and> phase_ok l
      \<and> (lc_refreshTimer l \<longleftrightarrow> lc_registrations l \<noteq> [] \<and> \<not> lc_closing l)
      \<and> (lc_closing l \<longleftrightarrow> CallClose \<in> set evs)
      \<and> (OpClose \<in> set (lc_queue l) \<longrightarrow> lc_closing l)
      \<and> (lc_closing l \<longrightarrow> OpClose \<in> set (lc_queue l) \<or> (lc_registrations l = [] \<and> lc_phase l = NotStarted))
      \<and> requests_ok evs (lc_registrations l) (lc_queue l))"

lemma last_request_snoc:
  "last_request m (evs @ [ev]) = (if asks m ev then Some ev else last_request m evs)"
  by (simp add: last_request_def)

lemma find_app: "find P (xs @ ys) = (case find P xs of None \<Rightarrow> find P ys | Some x \<Rightarrow> Some x)"
  by (induction xs) auto

lemma last_op_snoc:
  "last_op m (q @ [p]) = (if p = OpRegister m \<or> p = OpUnregister m then Some p else last_op m q)"
  by (simp add: last_op_def)

lemma last_op_Cons:
  "last_op m (p # q) =
     (case last_op m q of None \<Rightarrow> if p = OpRegister m \<or> p = OpUnregister m then Some p else None | Some x \<Rightarrow> Some x)"
  by (simp add: last_op_def find_app split: option.splits)

lemma registered_simps [simp]:
  "registered [] = {}"
  "registered (AList.update m x regs) = insert m (registered regs)"
  "registered (AList.delete m regs) = registered regs - {m}"
  unfolding registered_def dom_map_of_conv_image_fst [symmetric]
  by (auto simp: AList.update_conv' AList.delete_conv')

lemma length_update:
  "length (AList.update m x regs) = (if m \<in> registered regs then length regs else Suc (length regs))"
  by (induction regs) (auto simp: registered_def image_iff)

lemma drop_lost_sub: "set (drop_lost regs bs) \<subseteq> set regs"
  by (auto simp: drop_lost_def dest: set_zip_leftD)

lemma drop_lost_length: "length (drop_lost regs bs) \<le> length regs"
proof -
  have "length (filter snd (zip regs bs)) \<le> length (zip regs bs)" by (rule length_filter_le)
  then show ?thesis by (simp add: drop_lost_def)
qed

lemma drop_lost_keys: "distinct (map fst regs) \<Longrightarrow> distinct (map fst (drop_lost regs bs))"
proof -
  assume "distinct (map fst regs)"
  then have "distinct (map fst (map fst (zip regs bs)))"
    by (simp add: map_fst_zip_take distinct_take flip: take_map del: map_map)
  then have "distinct (map (fst \<circ> fst) (filter snd (zip regs bs)))"
    by (intro distinct_map_filter) simp
  then show ?thesis by (simp add: drop_lost_def)
qed

lemma requests_snoc:
  assumes "requests_ok evs regs q"
  shows "requests_ok (evs @ [CallRegister m]) regs (q @ [OpRegister m])"
    and "requests_ok (evs @ [CallUnregister m]) regs (q @ [OpUnregister m])"
  using assms by (simp_all add: requests_ok_def last_request_snoc last_op_snoc asks_def)

lemma requests_unasked:
  "requests_ok evs regs q \<Longrightarrow> \<forall>m. \<not> asks m ev \<Longrightarrow> requests_ok (evs @ [ev]) regs q"
  by (simp add: requests_ok_def last_request_snoc)

lemma requests_append:
  "requests_ok evs regs q \<Longrightarrow> p = OpRefresh \<or> p = OpClose \<Longrightarrow> requests_ok evs regs (q @ [p])"
  by (auto simp: requests_ok_def last_op_snoc)

lemma requests_head:
  assumes ok: "requests_ok evs regs (p # q)"
    and sub: "\<And>m. m \<in> registered regs' \<Longrightarrow> m \<in> registered regs \<or> p = OpRegister m"
    and gone: "\<And>m. p = OpUnregister m \<Longrightarrow> m \<notin> registered regs'"
  shows "requests_ok evs regs' q"
  unfolding requests_ok_def
proof (intro allI impI)
  fix m assume "last_request m evs \<noteq> Some (CallRegister m)"
  then have "last_op m (p # q) = Some (OpUnregister m) \<or> (last_op m (p # q) = None \<and> m \<notin> registered regs)"
    using ok by (simp add: requests_ok_def)
  then show "last_op m q = Some (OpUnregister m) \<or> (last_op m q = None \<and> m \<notin> registered regs')"
    using sub [of m] gone [of m] by (cases "last_op m q") (auto simp: last_op_Cons split: if_splits)
qed

lemma requests_same:
  assumes ok: "requests_ok evs regs (OpRegister n # q)" and "registered regs' \<subseteq> insert n (registered regs)"
  shows "requests_ok evs regs' (OpRegister n # q)"
  unfolding requests_ok_def
proof (intro allI impI)
  fix m assume "last_request m evs \<noteq> Some (CallRegister m)"
  then have "last_op m (OpRegister n # q) = Some (OpUnregister m)
      \<or> (last_op m (OpRegister n # q) = None \<and> m \<notin> registered regs)"
    using ok by (simp add: requests_ok_def)
  then show "last_op m (OpRegister n # q) = Some (OpUnregister m)
      \<or> (last_op m (OpRegister n # q) = None \<and> m \<notin> registered regs')"
    using assms(2) by (cases "last_op m q") (auto simp: last_op_Cons split: if_splits)
qed

lemma phase_ok_append:
  "phase_ok l \<Longrightarrow> phase_ok (l\<lparr>lc_queue := lc_queue l @ qs\<rparr>)"
  by (auto simp: phase_ok_def)

lemma call_inv:
  assumes "lifecycle_inv evs l"
  shows "lifecycle_inv (evs @ [CallRegister m]) (call_register m l)"
    and "lifecycle_inv (evs @ [CallUnregister m]) (call_unregister m l)"
    and "lifecycle_inv (evs @ [CallRefresh]) (call_refresh l)"
    and "lifecycle_inv (evs @ [CallClose]) (call_close l)"
  using assms requests_snoc [of evs "lc_registrations l" "lc_queue l"]
    requests_unasked [of evs "lc_registrations l"] requests_append [of evs "lc_registrations l" "lc_queue l"]
  by (auto simp: lifecycle_inv_def call_register_def call_unregister_def call_refresh_def call_close_def
      phase_ok_def asks_def)

text \<open>What an operation that ends does: the queue moves on, the registrations it may have changed fit.\<close>

lemma finished_inv:
  assumes "lifecycle_inv evs l" and "lc_queue l = p # q"
    and "lc_queue l' = q" "lc_phase l' = NotStarted" "lc_closing l' = lc_closing l"
      "lc_maxRegistrations l' = lc_maxRegistrations l"
    and "distinct (map fst (lc_registrations l'))" "length (lc_registrations l') \<le> lc_maxRegistrations l"
    and "lc_refreshTimer l' \<longleftrightarrow> lc_registrations l' \<noteq> [] \<and> \<not> lc_closing l"
    and "lc_closing l \<Longrightarrow> OpClose \<in> set q \<or> lc_registrations l' = []"
    and "\<And>m. m \<in> registered (lc_registrations l') \<Longrightarrow> m \<in> registered (lc_registrations l) \<or> p = OpRegister m"
    and "\<And>m. p = OpUnregister m \<Longrightarrow> m \<notin> registered (lc_registrations l')"
  shows "lifecycle_inv evs l'"
  using assms requests_head [of evs "lc_registrations l" p q "lc_registrations l'"]
  by (auto simp: lifecycle_inv_def phase_ok_def)

lemma other_event_inv:
  assumes "lifecycle_inv evs l" and "\<forall>m. \<not> asks m ev" and "ev \<noteq> CallClose"
  shows "lifecycle_inv (evs @ [ev]) l"
  using assms requests_unasked [OF _ assms(2)] by (auto simp: lifecycle_inv_def)

lemma closing_queue:
  "lifecycle_inv evs l \<Longrightarrow> lc_queue l = p # q \<Longrightarrow> p \<noteq> OpClose \<Longrightarrow> lc_closing l
   \<Longrightarrow> OpClose \<in> set q \<or> (lc_registrations l = [] \<and> lc_phase l = NotStarted)"
  by (auto simp: lifecycle_inv_def)

lemma step_register_cases:
  assumes "step_register now ttl fresh a m (l, r) = ((l', r'), res)"
  obtains (stop) c where "l' = finish_op (l\<lparr>lc_cancelled := c\<rparr>)"
    | (recorded) "lc_phase l = Attempting" "l' = finish_op (record_registration m fresh l)"
    | (again) "lc_phase l = Attempting" "l' = (record_registration m fresh l)\<lparr>lc_phase := AtGuard\<rparr>"
    | (advance) p where "l' = l\<lparr>lc_phase := p\<rparr>"
        "lc_phase l \<noteq> NotStarted \<or> \<not> lc_closing l
          \<and> (m \<in> registered (lc_registrations l) \<or> length (lc_registrations l) < lc_maxRegistrations l)"
proof (cases "lc_phase l")
  case NotStarted
  then show ?thesis using assms stop [of "lc_cancelled l"] advance
    by (auto simp: step_register_def registered_def not_le split: if_splits)
next
  case AtGuard
  then show ?thesis using assms stop advance by (auto simp: step_register_def split: if_splits)
next
  case Attempting
  then show ?thesis
    using assms stop [of "lc_cancelled l - {m}"] recorded again advance [of AtGuard]
    by (cases a) (auto simp: step_register_def Let_def)
qed

lemma record_simps [simp]:
  "lc_registrations (record_registration m x l) = AList.update m x (lc_registrations l)"
  "lc_queue (record_registration m x l) = lc_queue l"
  "lc_closing (record_registration m x l) = lc_closing l"
  "lc_phase (record_registration m x l) = lc_phase l"
  "lc_maxRegistrations (record_registration m x l) = lc_maxRegistrations l"
  "lc_refreshTimer (record_registration m x l) = (lc_refreshTimer l \<or> \<not> lc_closing l)"
  by (simp_all add: record_registration_def ensure_refresh_timer_def)

lemma finish_simps [simp]:
  "lc_registrations (finish_op l) = lc_registrations l" "lc_queue (finish_op l) = tl (lc_queue l)"
  "lc_closing (finish_op l) = lc_closing l" "lc_phase (finish_op l) = NotStarted"
  "lc_maxRegistrations (finish_op l) = lc_maxRegistrations l" "lc_refreshTimer (finish_op l) = lc_refreshTimer l"
  by (simp_all add: finish_op_def)

lemma stop_timer_simps [simp]:
  "lc_registrations (stop_timer_if_idle l) = lc_registrations l" "lc_queue (stop_timer_if_idle l) = lc_queue l"
  "lc_closing (stop_timer_if_idle l) = lc_closing l" "lc_phase (stop_timer_if_idle l) = lc_phase l"
  "lc_maxRegistrations (stop_timer_if_idle l) = lc_maxRegistrations l"
  "lc_refreshTimer (stop_timer_if_idle l) = (lc_refreshTimer l \<and> lc_registrations l \<noteq> [])"
  by (simp_all add: stop_timer_if_idle_def)

lemma update_not_Nil [simp]: "AList.update k v xs \<noteq> []"
  by (cases xs) auto

lemma step_register_inv:
  assumes inv: "lifecycle_inv evs l" and queue: "lc_queue l = OpRegister m # q"
    and step: "step_register now ttl fresh a m (l, r) = ((l', r'), res)"
  shows "lifecycle_inv evs l'"
  using step
proof (cases rule: step_register_cases)
  case (stop c)
  show ?thesis
    by (rule finished_inv [OF inv queue]) (use stop inv queue closing_queue [OF inv queue] in \<open>auto simp: lifecycle_inv_def\<close>)
next
  case recorded
  then have room: "length (AList.update m fresh (lc_registrations l)) \<le> lc_maxRegistrations l"
    using inv queue by (auto simp: lifecycle_inv_def phase_ok_def length_update)
  show ?thesis
    by (rule finished_inv [OF inv queue])
      (use recorded inv queue room closing_queue [OF inv queue] in \<open>auto simp: lifecycle_inv_def distinct_update\<close>)
next
  case again
  let ?regs = "AList.update m fresh (lc_registrations l)"
  have fields: "lc_registrations l' = ?regs" "lc_queue l' = OpRegister m # q" "lc_closing l' = lc_closing l"
    "lc_maxRegistrations l' = lc_maxRegistrations l" "lc_refreshTimer l' = (lc_refreshTimer l \<or> \<not> lc_closing l)"
    "phase_ok l'"
    using again(2) queue by (simp_all add: phase_ok_def)
  have "length ?regs \<le> lc_maxRegistrations l"
    using inv queue again(1) by (auto simp: lifecycle_inv_def phase_ok_def length_update)
  moreover have "requests_ok evs ?regs (OpRegister m # q)"
    using inv queue requests_same [of evs "lc_registrations l" m q ?regs] by (auto simp: lifecycle_inv_def)
  moreover have "lc_closing l \<longrightarrow> OpClose \<in> set q"
    using closing_queue [OF inv queue] again(1) by auto
  ultimately show ?thesis
    using inv fields queue by (auto simp: lifecycle_inv_def distinct_update)
next
  case (advance p)
  then show ?thesis
    using inv queue closing_queue [OF inv queue] by (auto simp: lifecycle_inv_def phase_ok_def)
qed

lemma step_unregister_inv:
  assumes inv: "lifecycle_inv evs l" and queue: "lc_queue l = OpUnregister m # q"
    and step: "step_unregister now redisOk applied m (l, r) = ((l', r'), res)"
  shows "lifecycle_inv evs l'"
proof (cases "map_of (lc_registrations l) m")
  case None
  then have "m \<notin> registered (lc_registrations l)" by (simp add: registered_def map_of_eq_None_iff)
  then show ?thesis
    by (intro finished_inv [OF inv queue])
      (use None step inv queue closing_queue [OF inv queue] in \<open>auto simp: step_unregister_def lifecycle_inv_def\<close>)
next
  case (Some x)
  have "length (AList.delete m (lc_registrations l)) \<le> length (lc_registrations l)"
    by (simp add: length_delete_le)
  then show ?thesis
    by (intro finished_inv [OF inv queue])
      (use Some step inv queue closing_queue [OF inv queue] in
        \<open>auto simp: step_unregister_def lifecycle_inv_def Let_def distinct_delete\<close>)
qed

lemma step_refresh_inv:
  assumes inv: "lifecycle_inv evs l" and queue: "lc_queue l = OpRefresh # q"
    and step: "step_refresh now ttl a (l, r) = ((l', r'), res)"
  shows "lifecycle_inv evs l'"
proof (rule finished_inv [OF inv queue])
  let ?regs = "lc_registrations l" and ?regs' = "lc_registrations l'"
  have kept: "?regs' = ?regs \<or> ?regs' = [] \<or> (\<exists>bs. ?regs' = drop_lost ?regs bs)"
    and fields: "lc_queue l' = q" "lc_phase l' = NotStarted" "lc_closing l' = lc_closing l"
      "lc_maxRegistrations l' = lc_maxRegistrations l"
      "lc_refreshTimer l' \<longleftrightarrow> ?regs' \<noteq> [] \<and> \<not> lc_closing l"
      "lc_closing l \<Longrightarrow> ?regs' = ?regs"
    using step inv queue
    by (auto simp: step_refresh_def lifecycle_inv_def drop_lost_def Let_def split: if_splits prod.splits attempt.splits)
  show "lc_queue l' = q" "lc_phase l' = NotStarted" "lc_closing l' = lc_closing l"
    "lc_maxRegistrations l' = lc_maxRegistrations l" "lc_refreshTimer l' \<longleftrightarrow> ?regs' \<noteq> [] \<and> \<not> lc_closing l"
    by (rule fields)+
  show "distinct (map fst ?regs')" using kept inv by (auto simp: lifecycle_inv_def drop_lost_keys)
  show "length ?regs' \<le> lc_maxRegistrations l"
  proof -
    have "length ?regs' \<le> length ?regs" using kept drop_lost_length by (elim disjE exE) simp_all
    then show ?thesis using inv by (simp add: lifecycle_inv_def)
  qed
  show "OpClose \<in> set q \<or> ?regs' = []" if "lc_closing l"
    using fields(6) closing_queue [OF inv queue] that by auto
  show "m \<in> registered ?regs \<or> OpRefresh = OpRegister m" if "m \<in> registered ?regs'" for m
    using kept that drop_lost_sub by (fastforce simp: registered_def)
qed simp

lemma step_close_inv:
  assumes inv: "lifecycle_inv evs l" and queue: "lc_queue l = OpClose # q"
    and step: "step_close now redisOk applied (l, r) = ((l', r'), res)"
  shows "lifecycle_inv evs l'"
  by (rule finished_inv [OF inv queue])
    (use step inv queue in \<open>auto simp: step_close_def lifecycle_inv_def\<close>)

lemma lifecycle_step_inv:
  assumes inv: "lifecycle_inv evs l" and step: "lifecycle_step ttl ev (l, r) = (l', r')"
  shows "lifecycle_inv (evs @ [ev]) l'"
proof (cases ev)
  case (Run now fresh a redisOk applied)
  have "lifecycle_inv evs l'"
  proof (cases "lc_queue l")
    case Nil
    then show ?thesis using inv step Run by simp
  next
    case (Cons p q)
    note queue = this
    show ?thesis
    proof (cases p)
      case (OpRegister m)
      then have "fst (step_register now ttl fresh a m (l, r)) = (l', r')" using step Run queue by simp
      then show ?thesis using step_register_inv [OF inv] queue OpRegister by (metis prod.collapse)
    next
      case (OpUnregister m)
      then have "fst (step_unregister now redisOk applied m (l, r)) = (l', r')" using step Run queue by simp
      then show ?thesis using step_unregister_inv [OF inv] queue OpUnregister by (metis prod.collapse)
    next
      case OpRefresh
      then have "fst (step_refresh now ttl a (l, r)) = (l', r')" using step Run queue by simp
      then show ?thesis using step_refresh_inv [OF inv] queue OpRefresh by (metis prod.collapse)
    next
      case OpClose
      then have "fst (step_close now redisOk applied (l, r)) = (l', r')" using step Run queue by simp
      then show ?thesis using step_close_inv [OF inv] queue OpClose by (metis prod.collapse)
    qed
  qed
  then show ?thesis using Run by (intro other_event_inv) (simp_all add: asks_def)
next
  case (Elsewhere f)
  then show ?thesis using inv step by (auto intro: other_event_inv simp: asks_def)
qed (use call_inv [OF inv] step in auto)

lemma lifecycle_step_max:
  assumes step: "lifecycle_step ttl ev (l, r) = (l', r')"
  shows "lc_maxRegistrations l' = lc_maxRegistrations l"
proof (cases ev)
  case (Run now fresh a redisOk applied)
  have reg: "lc_maxRegistrations (fst (fst (step_register now ttl fresh a m (l, r)))) = lc_maxRegistrations l" for m
    by (rule step_register_cases [of now ttl fresh a m l r
          "fst (fst (step_register now ttl fresh a m (l, r)))" "snd (fst (step_register now ttl fresh a m (l, r)))"
          "snd (step_register now ttl fresh a m (l, r))"]) simp_all
  have unreg: "lc_maxRegistrations (fst (fst (step_unregister now redisOk applied m (l, r)))) = lc_maxRegistrations l" for m
    by (simp add: step_unregister_def Let_def split: option.split)
  have refresh: "lc_maxRegistrations (fst (fst (step_refresh now ttl a (l, r)))) = lc_maxRegistrations l"
    by (simp add: step_refresh_def Let_def split: prod.split attempt.split)
  have close: "lc_maxRegistrations (fst (fst (step_close now redisOk applied (l, r)))) = lc_maxRegistrations l"
    by (simp add: step_close_def)
  have "lc_maxRegistrations (fst (lifecycle_step ttl ev (l, r))) = lc_maxRegistrations l"
    using Run reg unreg refresh close by (simp split: list.split lifecycle_op.split)
  then show ?thesis using step by simp
qed (use step in \<open>auto simp: call_register_def call_unregister_def call_refresh_def call_close_def\<close>)

lemma lifecycle_run_inv:
  "lifecycle_run ttl evs (new_lifecycle n, r0) = (l, r) \<Longrightarrow> lifecycle_inv evs l \<and> lc_maxRegistrations l = n"
proof (induction evs arbitrary: l r rule: rev_induct)
  case Nil
  then show ?case
    by (auto simp: lifecycle_run_def new_lifecycle_def lifecycle_inv_def phase_ok_def requests_ok_def last_op_def)
next
  case (snoc ev evs)
  obtain l1 r1 where before: "lifecycle_run ttl evs (new_lifecycle n, r0) = (l1, r1)"
    by (cases "lifecycle_run ttl evs (new_lifecycle n, r0)")
  then have "lifecycle_step ttl ev (l1, r1) = (l, r)" using snoc.prems by (simp add: lifecycle_run_def)
  then show ?case using snoc.IH [OF before] lifecycle_step_inv lifecycle_step_max by metis
qed

text \<open>
  C18.  The last request about a method decides.  Whatever calls, owner-fence answers, Redis failures
  and retries a socket goes through, once its queue is empty a method is registered only if the
  last request about it was \<^verbatim>\<open>register\<close> and the lifecycle was not closed; it never holds more than
  its maximum of methods, at most one registration per method, and its refresh timer runs exactly
  while it has registrations and is not closing.
\<close>

theorem last_request_wins:
  assumes "lifecycle_run ttl evs (new_lifecycle n, r0) = (l, r)"
  shows "length (lc_registrations l) \<le> n \<and> distinct (map fst (lc_registrations l))
     \<and> (lc_refreshTimer l \<longleftrightarrow> lc_registrations l \<noteq> [] \<and> \<not> lc_closing l)
     \<and> (lc_queue l = [] \<longrightarrow>
          (\<forall>(m, x) \<in> set (lc_registrations l). last_request m evs = Some (CallRegister m) \<and> CallClose \<notin> set evs))"
  using lifecycle_run_inv [OF assms]
  by (force simp: lifecycle_inv_def requests_ok_def last_op_def registered_def)

definition demo_registration :: "string \<Rightarrow> string \<Rightarrow> registration" where
  "demo_registration m gen =
     \<lparr>rg_key = m, rg_target = \<lparr>tg_socketId = ''sock'', tg_generation = gen, tg_runtimeOwner = None\<rparr>\<rparr>"

definition demo_events :: "lifecycle_event list" where
  "demo_events =
     [CallRegister ''read'', CallRegister ''write'', CallUnregister ''read'', CallRegister ''read'',
      Run 1 (demo_registration ''read'' ''g1'') Completed1 True True,
      Run 2 (demo_registration ''read'' ''g1'') Completed1 True True,
      Run 3 (demo_registration ''read'' ''g1'') Completed1 True True,
      Run 4 (demo_registration ''write'' ''g2'') Completed1 True True,
      Run 5 (demo_registration ''write'' ''g2'') Busy1 True True,
      CallUnregister ''write'',
      Run 6 (demo_registration ''write'' ''g2'') Completed1 True True,
      Run 7 (demo_registration ''write'' ''g2'') Busy1 True True,
      Run 8 (demo_registration ''read'' ''g3'') Completed1 True True,
      Run 9 (demo_registration ''read'' ''g3'') Completed1 True True,
      Run 10 (demo_registration ''read'' ''g3'') Completed1 True True,
      Run 11 (demo_registration ''read'' ''g3'') Completed1 True True,
      Run 12 (demo_registration ''read'' ''g4'') Completed1 True True]"

lemma demo_final:
  "(let l = fst (lifecycle_run 60000 demo_events (new_lifecycle 256, \<lambda>_. None))
    in lc_queue l = [] \<and> lc_registrations l = [(''read'', demo_registration ''read'' ''g3'')])"
  by code_simp

theorem last_request_wins_witness:
  "last_request ''read'' demo_events = Some (CallRegister ''read'')
   \<and> CallClose \<notin> set demo_events"
proof -
  define s where "s = lifecycle_run 60000 demo_events (new_lifecycle 256, \<lambda>_. None)"
  have "lifecycle_run 60000 demo_events (new_lifecycle 256, \<lambda>_. None) = (fst s, snd s)"
    by (simp add: s_def)
  from last_request_wins [OF this] show ?thesis
    using demo_final by (simp add: s_def Let_def)
qed

end
