(* ===== verification/RpcConvergence.thy ===== *)
theory RpcConvergence
  imports RpcRegistry
begin

text \<open>
  What the registration registry of \<^verbatim>\<open>rpcRegistrationRegistry.ts\<close> promises across servers: targets
  survive the store unchanged, the generations a server draws strictly increase, and after Redis
  lost a key the refreshes of the live registrations converge to the freshest of them.
\<close>

section \<open>Targets survive the store\<close>

definition valid_owner :: "runtime_owner \<Rightarrow> bool" where
  "valid_owner ow = (ro_sessionId ow \<noteq> [] \<and> (ro_sessionInstanceId ow = None \<longleftrightarrow> ro_leaseId ow = None))"

definition valid_target :: "target \<Rightarrow> bool" where
  "valid_target t =
     (tg_socketId t \<noteq> [] \<and> utf16_length (tg_socketId t) \<le> 256 \<and> valid_generation (tg_generation t)
      \<and> (case tg_runtimeOwner t of None \<Rightarrow> True | Some ow \<Rightarrow> valid_owner ow))"

lemma parse_owner_json: "valid_owner ow \<Longrightarrow> parse_owner (owner_json ow) = Some ow"
  by (cases "ro_sessionInstanceId ow"; cases "ro_leaseId ow")
    (auto simp: valid_owner_def owner_json_def opt_field_def parse_optional_def)

lemma parse_encodeTarget:
  assumes "valid_target t"
  shows "parseTarget (Some (encodeTarget t)) = Some t"
proof (cases "tg_runtimeOwner t")
  case None
  then show ?thesis using assms by (auto simp: valid_target_def encodeTarget_def opt_field_def)
next
  case (Some ow)
  then have "parse_owner (owner_json ow) = Some ow" using assms by (simp add: valid_target_def parse_owner_json)
  then show ?thesis using assms Some by (auto simp: valid_target_def encodeTarget_def opt_field_def)
qed

lemma encodeTarget_inj: "encodeTarget t = encodeTarget u \<Longrightarrow> t = u"
  by (cases "tg_runtimeOwner t"; cases "tg_runtimeOwner u")
    (auto simp: encodeTarget_def opt_field_def owner_json_def split: option.splits)

lemma stored_generation_encode [simp]: "stored_generation (encodeTarget t) = Some (tg_generation t)"
  by (simp add: stored_generation_def encodeTarget_def)

section \<open>Generations increase\<close>

lemma same_length_less:
  fixes xs ys us vs :: string
  shows "length xs = length ys \<Longrightarrow> xs @ us < ys @ vs \<longleftrightarrow> xs < ys \<or> xs = ys \<and> us < vs"
  by (induction xs ys rule: list_induct2) auto

lemma digit_less: "a < b \<Longrightarrow> b < 10 \<Longrightarrow> digit a < digit b"
  by (simp add: less_char_def of_char_digit)

fun fixed_width :: "nat \<Rightarrow> nat \<Rightarrow> string" where
  "fixed_width 0 n = []"
| "fixed_width (Suc w) n = fixed_width w (n div 10) @ [digit (n mod 10)]"

lemma length_fixed_width [simp]: "length (fixed_width w n) = w"
  by (induction w arbitrary: n) auto

lemma digit_0: "digit 0 = CHR ''0''"
  by code_simp

lemma fixed_width_0: "fixed_width w 0 = replicate w (CHR ''0'')"
  by (induction w) (simp_all add: digit_0 replicate_append_same)

lemma pad_show_nat:
  "n < 10 ^ w \<Longrightarrow> 0 < w \<Longrightarrow> padStart w (CHR ''0'') (show_nat n) = fixed_width w n"
proof (induction n arbitrary: w rule: show_nat.induct)
  case (1 n)
  then obtain v where w: "w = Suc v" by (cases w) auto
  show ?case
  proof (cases "n < 10")
    case True
    then show ?thesis by (simp add: w show_nat.simps padStart_def fixed_width_0)
  next
    case False
    then have "0 < v" using 1(2) w by (cases v) auto
    moreover have "n div 10 < 10 ^ v" using 1(2) w by (simp add: less_mult_imp_div_less mult.commute)
    ultimately have pad: "padStart v (CHR ''0'') (show_nat (n div 10)) = fixed_width v (n div 10)"
      using 1(1) False by simp
    have show_n: "show_nat n = show_nat (n div 10) @ [digit (n mod 10)]" using False by (subst show_nat.simps) simp
    have "padStart w (CHR ''0'') (show_nat n) = padStart v (CHR ''0'') (show_nat (n div 10)) @ [digit (n mod 10)]"
      by (simp only: w show_n padStart_def length_append list.size append.assoc) simp
    then show ?thesis by (simp add: w pad)
  qed
qed

lemma fixed_width_less: "a < b \<Longrightarrow> b < 10 ^ w \<Longrightarrow> fixed_width w a < fixed_width w b"
proof (induction w arbitrary: a b)
  case (Suc w)
  have "a div 10 \<le> b div 10" using Suc.prems(1) by (simp add: div_le_mono)
  moreover have "a = a div 10 * 10 + a mod 10" "b = b div 10 * 10 + b mod 10" by simp_all
  ultimately consider "a div 10 < b div 10" | "a div 10 = b div 10" "a mod 10 < b mod 10"
    using Suc.prems(1) by linarith
  then show ?case
  proof cases
    case 1
    have "b div 10 < 10 ^ w" using Suc.prems(2) by (simp add: less_mult_imp_div_less mult.commute)
    then have "fixed_width w (a div 10) < fixed_width w (b div 10)" using 1 Suc.IH by blast
    then show ?thesis by (simp add: same_length_less)
  next
    case 2
    have "b mod 10 < 10" by simp
    then have "digit (a mod 10) < digit (b mod 10)" using 2(2) digit_less by blast
    then show ?thesis using 2(1) by (simp add: same_length_less)
  qed
qed simp

text \<open>The clock stays below the latest observation plus the number of draws, its sequence below \<open>10\<^sup>8\<close>.\<close>

definition clock_ok :: "nat \<Rightarrow> hlc \<Rightarrow> bool" where
  "clock_ok B h = (lastRegistrationTimestampMs h \<le> B \<and> lastRegistrationSequence h < 10 ^ 8)"

definition clock_less :: "hlc \<Rightarrow> hlc \<Rightarrow> bool" where
  "clock_less h k =
     (lastRegistrationTimestampMs h < lastRegistrationTimestampMs k
      \<or> lastRegistrationTimestampMs h = lastRegistrationTimestampMs k
        \<and> lastRegistrationSequence h < lastRegistrationSequence k)"

lemma advance_clock_less: "clock_less h (advance_clock t h)"
  by (auto simp: clock_less_def advance_clock_def)

lemma advance_clock_ok: "clock_ok B h \<Longrightarrow> t \<le> B \<Longrightarrow> clock_ok (Suc B) (advance_clock t h)"
  by (auto simp: clock_ok_def advance_clock_def)

definition generation_of :: "hlc \<Rightarrow> string \<Rightarrow> string" where
  "generation_of h uuid =
     fixed_width 16 (lastRegistrationTimestampMs h) @ CHR '':'' # fixed_width 8 (lastRegistrationSequence h) @ CHR '':'' # uuid"

lemma createGeneration_alt:
  assumes "clock_ok B h" and "t \<le> B" and "Suc B < 10 ^ 16"
  shows "createGeneration t uuid h = (advance_clock t h, generation_of (advance_clock t h) uuid)"
proof -
  have "clock_ok (Suc B) (advance_clock t h)" using assms by (simp add: advance_clock_ok)
  then have "lastRegistrationTimestampMs (advance_clock t h) < 10 ^ 16" "lastRegistrationSequence (advance_clock t h) < 10 ^ 8"
    using assms(3) by (simp_all add: clock_ok_def)
  then show ?thesis by (simp add: createGeneration_def Let_def generation_of_def pad_show_nat)
qed

lemma generation_less:
  assumes "clock_less h k" and "clock_ok B k" and "B < 10 ^ 16"
  shows "generation_of h u < generation_of k v"
proof -
  have k: "lastRegistrationTimestampMs k < 10 ^ 16" "lastRegistrationSequence k < 10 ^ 8"
    using assms(2,3) by (simp_all add: clock_ok_def)
  show ?thesis
    using assms(1) fixed_width_less [OF _ k(1)] fixed_width_less [OF _ k(2)]
    by (auto simp: clock_less_def generation_of_def same_length_less)
qed

fun draw_all :: "(nat \<times> string) list \<Rightarrow> hlc \<Rightarrow> string list" where
  "draw_all [] h = []"
| "draw_all ((t, uuid) # cs) h = (case createGeneration t uuid h of (h1, g) \<Rightarrow> g # draw_all cs h1)"

lemma draw_all_increase:
  "clock_ok B h \<Longrightarrow> \<forall>(t, u) \<in> set cs. t \<le> B \<Longrightarrow> B + length cs < 10 ^ 16
   \<Longrightarrow> sorted_wrt (<) (draw_all cs h) \<and> (\<forall>g \<in> set (draw_all cs h). \<forall>v. generation_of h v < g)"
proof (induction cs arbitrary: B h)
  case (Cons c cs)
  obtain t u where c: "c = (t, u)" by (cases c)
  let ?h = "advance_clock t h"
  have ok: "clock_ok (Suc B) ?h" and bounds: "t \<le> B" "Suc B < 10 ^ 16"
    using Cons.prems c by (auto intro: advance_clock_ok)
  have step: "createGeneration t u h = (?h, generation_of ?h u)"
    using Cons.prems(1) bounds by (rule createGeneration_alt)
  have IH: "sorted_wrt (<) (draw_all cs ?h)" "\<forall>g \<in> set (draw_all cs ?h). \<forall>v. generation_of ?h v < g"
    using Cons.IH [OF ok] Cons.prems(2,3) by (auto intro: le_SucI)
  have up: "generation_of h v < generation_of ?h u" for v
    using advance_clock_less ok bounds(2) by (rule generation_less)
  show ?case using IH up by (auto simp: c step intro: less_trans)
qed simp

lemma matches_append:
  "length xs = length ps \<Longrightarrow> matches (ps @ qs) (xs @ ys) \<longleftrightarrow> matches ps xs \<and> matches qs ys"
  by (auto simp: matches_def)

lemma matches_replicate: "length s = n \<Longrightarrow> (\<forall>c \<in> set s. p c) \<Longrightarrow> matches (replicate n p) s"
  by (auto simp: matches_def list_all_iff dest: set_zip_leftD set_zip_rightD in_set_replicate [THEN iffD1])

lemma fixed_width_digits: "c \<in> set (fixed_width w n) \<Longrightarrow> is_digit c"
  by (induction w arbitrary: n) auto

lemma generation_of_valid: "matches UUID_PATTERN uuid \<Longrightarrow> valid_generation (generation_of h uuid)"
proof -
  assume uuid: "matches UUID_PATTERN uuid"
  have colon: "matches [\<lambda>c. c = CHR '':''] '':''" by (simp add: matches_def)
  have "generation_of h uuid =
      fixed_width 16 (lastRegistrationTimestampMs h) @ '':'' @ fixed_width 8 (lastRegistrationSequence h) @ '':'' @ uuid"
    by (simp add: generation_of_def)
  then show ?thesis
    unfolding valid_generation_def REGISTRATION_GENERATION_PATTERN_def
    using uuid colon by (simp only: matches_append length_fixed_width length_replicate list.size)
      (simp add: matches_replicate fixed_width_digits)
qed

lemma draw_all_valid:
  "clock_ok B h \<Longrightarrow> \<forall>(t, u) \<in> set cs. t \<le> B \<and> matches UUID_PATTERN u \<Longrightarrow> B + length cs < 10 ^ 16
   \<Longrightarrow> \<forall>g \<in> set (draw_all cs h). valid_generation g"
proof (induction cs arbitrary: B h)
  case (Cons c cs)
  obtain t u where c: "c = (t, u)" by (cases c)
  have "createGeneration t u h = (advance_clock t h, generation_of (advance_clock t h) u)"
    using Cons.prems c by (intro createGeneration_alt [of B]) auto
  moreover have "\<forall>g \<in> set (draw_all cs (advance_clock t h)). valid_generation g"
    using Cons.prems c by (intro Cons.IH [of "Suc B"]) (auto intro: advance_clock_ok)
  ultimately show ?case using Cons.prems(2) c by (auto simp: generation_of_valid)
qed simp

text \<open>
  C35.  Every registration a server draws is well formed and newer than all it drew before.  Whatever
  the wall clock does (stand still, step back, jump), for times within the sixteen digits of the
  format the generations a server draws strictly increase in the order the Redis script compares
  them, and each matches the pattern that readers of the registry insist on.
\<close>

theorem generations_increase:
  assumes "\<forall>(t, uuid) \<in> set calls. t + length calls < 10 ^ 16 \<and> matches UUID_PATTERN uuid"
  shows "sorted_wrt (<) (draw_all calls \<lparr>lastRegistrationTimestampMs = 0, lastRegistrationSequence = 0\<rparr>)
     \<and> (\<forall>g \<in> set (draw_all calls \<lparr>lastRegistrationTimestampMs = 0, lastRegistrationSequence = 0\<rparr>). valid_generation g)"
proof (cases "calls = []")
  case False
  define B where "B = Max (fst ` set calls)"
  have le: "\<forall>(t, u) \<in> set calls. t \<le> B" by (auto simp: B_def intro!: Max_ge rev_image_eqI)
  have "B \<in> fst ` set calls" unfolding B_def using False by (intro Max_in) auto
  then have B: "B + length calls < 10 ^ 16" using assms by auto
  have ok: "clock_ok B \<lparr>lastRegistrationTimestampMs = 0, lastRegistrationSequence = 0\<rparr>" by (simp add: clock_ok_def)
  show ?thesis using draw_all_increase [OF ok le B] draw_all_valid [OF ok _ B] le assms by fastforce
qed simp

theorem generations_increase_witness:
  "sorted_wrt (<) (draw_all [(1700000000000, ''123e4567-e89b-42d3-a456-426614174000''),
      (1600000000000, ''023e4567-e89b-42d3-a456-426614174000'')]
     \<lparr>lastRegistrationTimestampMs = 0, lastRegistrationSequence = 0\<rparr>)"
proof -
  have "matches UUID_PATTERN ''123e4567-e89b-42d3-a456-426614174000''"
    "matches UUID_PATTERN ''023e4567-e89b-42d3-a456-426614174000''" by code_simp+
  then show ?thesis
    using generations_increase [of "[(1700000000000, ''123e4567-e89b-42d3-a456-426614174000''),
      (1600000000000, ''023e4567-e89b-42d3-a456-426614174000'')]"] by simp
qed

section \<open>Refreshes converge\<close>

text \<open>Batches of refreshes by any sockets of any servers, each at its time.\<close>

definition refresh_run :: "int \<Rightarrow> (ts \<times> registration list) list \<Rightarrow> redis \<Rightarrow> redis" where
  "refresh_run ttl evs r = fold (\<lambda>(now, xs) r. fst (refreshMany now ttl xs r)) evs r"

definition refreshed_at :: "string \<Rightarrow> (ts \<times> registration list) list \<Rightarrow> target list" where
  "refreshed_at k evs = map rg_target (filter (\<lambda>x. rg_key x = k) (concat (map snd evs)))"

text \<open>What a key holds after some targets were refreshed at it, all before \<open>until\<close>.\<close>

definition freshest :: "ts \<Rightarrow> target list \<Rightarrow> (json \<times> ts) option \<Rightarrow> bool" where
  "freshest until ts cell =
     (case cell of
        None \<Rightarrow> ts = []
      | Some (v, e) \<Rightarrow> until \<le> e
          \<and> (\<exists>t \<in> set ts. v = encodeTarget t \<and> (\<forall>u \<in> set ts. tg_generation u \<le> tg_generation t)))"

lemma refresh_key_other: "k \<noteq> k' \<Longrightarrow> fst (refresh_key now ttl k' c r) k = r k"
  by (auto simp: refresh_key_def redis_set_px_def split: option.splits if_splits)

lemma refresh_key_freshest:
  assumes "freshest until ts (r k)" and "now < until" and "until \<le> now + ttl"
  shows "freshest until (ts @ [t]) (fst (refresh_key now ttl k (encodeTarget t) r) k)"
proof (cases "r k")
  case None
  then show ?thesis using assms by (simp add: freshest_def refresh_key_def redis_get_def redis_set_px_def)
next
  case (Some cell)
  obtain v e where cell: "cell = (v, e)" by (cases cell)
  obtain u where u: "until \<le> e" "u \<in> set ts" "v = encodeTarget u" "\<forall>w \<in> set ts. tg_generation w \<le> tg_generation u"
    using assms(1) Some cell by (auto simp: freshest_def)
  have get: "redis_get now k r = Some (encodeTarget u)"
    using Some cell u assms(2) by (simp add: redis_get_def)
  consider "u = t" | "u \<noteq> t" "tg_generation u < tg_generation t" | "u \<noteq> t" "\<not> tg_generation u < tg_generation t" by blast
  then show ?thesis
  proof cases
    case 1
    then show ?thesis using get u assms(3) by (auto simp: freshest_def refresh_key_def redis_set_px_def)
  next
    case 2
    then have "encodeTarget u \<noteq> encodeTarget t" using encodeTarget_inj by blast
    then show ?thesis using get u assms(3) 2
      by (auto simp: freshest_def refresh_key_def redis_set_px_def intro: order.trans less_imp_le)
  next
    case 3
    then have "encodeTarget u \<noteq> encodeTarget t" using encodeTarget_inj by blast
    then show ?thesis using get u assms(3) 3 Some cell
      by (auto simp: freshest_def refresh_key_def not_less)
  qed
qed

lemma script_freshest:
  "freshest until ts (r k) \<Longrightarrow> now < until \<Longrightarrow> until \<le> now + ttl
   \<Longrightarrow> freshest until (ts @ map rg_target (filter (\<lambda>x. rg_key x = k) xs)) (fst (script (refresh_key now ttl) xs r) k)"
proof (induction xs arbitrary: r ts)
  case (Cons x xs)
  obtain r1 b where one: "refresh_key now ttl (rg_key x) (encodeTarget (rg_target x)) r = (r1, b)" by fastforce
  have "freshest until (ts @ (if rg_key x = k then [rg_target x] else [])) (r1 k)"
    using refresh_key_freshest [of until ts r k, OF Cons.prems, of "rg_target x"] Cons.prems(1)
      refresh_key_other [of k "rg_key x" now ttl "encodeTarget (rg_target x)" r] one by auto
  then show ?case
    using one Cons.IH [of "ts @ (if rg_key x = k then [rg_target x] else [])" r1] Cons.prems(2,3)
    by (auto split: prod.split)
qed simp

lemma refresh_run_freshest:
  "freshest until ts (r k) \<Longrightarrow> \<forall>(now, xs) \<in> set evs. now < until \<and> until \<le> now + ttl
   \<Longrightarrow> freshest until (ts @ refreshed_at k evs) (refresh_run ttl evs r k)"
proof (induction evs arbitrary: r ts)
  case (Cons ev evs)
  obtain now xs where ev: "ev = (now, xs)" by (cases ev)
  have "freshest until (ts @ map rg_target (filter (\<lambda>x. rg_key x = k) xs)) (fst (refreshMany now ttl xs r) k)"
    using Cons.prems ev by (auto simp: refreshMany_def intro: script_freshest)
  then show ?case
    using Cons.prems(2) Cons.IH [of "ts @ map rg_target (filter (\<lambda>x. rg_key x = k) xs)" "fst (refreshMany now ttl xs r)"] by (simp add: ev refresh_run_def refreshed_at_def)
qed (simp add: refresh_run_def refreshed_at_def)

text \<open>
  C19.  After Redis loses a registration, refreshing converges to the freshest one.  Once a key is
  gone, let the live registrations of all servers be refreshed in batches, in any order and as
  often as they like, within one lifetime of each other.  Then a caller resolves the method to a
  refreshed target of the greatest generation, and removing any other registration of the method
  (its socket closed, say) leaves that answer in place.
\<close>

theorem refresh_converges:
  assumes "k = getRpcRegistrationKey digest userId meth" and "r k = None"
    and "\<forall>(now, xs) \<in> set evs. now < until \<and> until \<le> now + ttl" and "now < until"
    and "refreshed_at k evs \<noteq> []" and "\<forall>t \<in> set (refreshed_at k evs). valid_target t"
  shows "\<exists>t \<in> set (refreshed_at k evs). (\<forall>u \<in> set (refreshed_at k evs). tg_generation u \<le> tg_generation t)
     \<and> registry_resolve digest now userId meth (refresh_run ttl evs r) = Some t
     \<and> (\<forall>x. x \<noteq> \<lparr>rg_key = k, rg_target = t\<rparr> \<longrightarrow>
          registry_resolve digest now userId meth (fst (unregisterMany now [x] (refresh_run ttl evs r))) = Some t)"
proof -
  let ?r = "refresh_run ttl evs r"
  have "freshest until ([] @ refreshed_at k evs) (?r k)"
    using assms(2,3) by (intro refresh_run_freshest) (simp_all add: freshest_def)
  then obtain t e where t: "?r k = Some (encodeTarget t, e)" "until \<le> e" "t \<in> set (refreshed_at k evs)"
      "\<forall>u \<in> set (refreshed_at k evs). tg_generation u \<le> tg_generation t"
    using assms(5) by (auto simp: freshest_def split: option.splits)
  have get: "redis_get now k ?r = Some (encodeTarget t)" using t assms(4) by (simp add: redis_get_def)
  have parse: "parseTarget (Some (encodeTarget t)) = Some t" using t(3) assms(6) by (simp add: parse_encodeTarget)
  have kept: "redis_get now k (fst (unregisterMany now [x] ?r)) = Some (encodeTarget t)"
    if "x \<noteq> \<lparr>rg_key = k, rg_target = t\<rparr>" for x
  proof (cases "rg_key x = k")
    case True
    then have "rg_target x \<noteq> t" using that by (cases x) auto
    then have "encodeTarget t \<noteq> encodeTarget (rg_target x)" using encodeTarget_inj by blast
    then show ?thesis using get True by (simp add: unregisterMany_def delete_key_def)
  next
    case False
    then show ?thesis using get
      by (simp add: unregisterMany_def delete_key_def redis_del_def redis_get_def)
  qed
  show ?thesis
    using t(3,4) get kept parse assms(1) by (intro bexI [of _ t]) (simp_all add: registry_resolve_def)
qed

definition demo_digest :: "string \<Rightarrow> string" where
  "demo_digest s = filter (\<lambda>c. c \<noteq> CHR 0x00) s"

definition demo_target :: "string \<Rightarrow> string \<Rightarrow> target" where
  "demo_target sock n =
     \<lparr>tg_socketId = sock,
      tg_generation = ''0001700000000000:0000000'' @ n @ '':123e4567-e89b-42d3-a456-426614174000'',
      tg_runtimeOwner = None\<rparr>"

definition demo_refreshes :: "(ts \<times> registration list) list" where
  "demo_refreshes =
     (let k = getRpcRegistrationKey demo_digest ''ann'' ''read''
      in [(10, [\<lparr>rg_key = k, rg_target = demo_target ''old'' ''1''\<rparr>]),
          (20, [\<lparr>rg_key = k, rg_target = demo_target ''new'' ''2''\<rparr>]),
          (30, [\<lparr>rg_key = k, rg_target = demo_target ''old'' ''1''\<rparr>])])"

theorem refresh_converges_witness:
  "registry_resolve demo_digest 40 ''ann'' ''read'' (refresh_run 60000 demo_refreshes (\<lambda>_. None))
     = Some (demo_target ''new'' ''2'')"
proof -
  let ?k = "getRpcRegistrationKey demo_digest ''ann'' ''read''"
  have live: "refreshed_at ?k demo_refreshes = [demo_target ''old'' ''1'', demo_target ''new'' ''2'', demo_target ''old'' ''1'']"
    by (simp add: refreshed_at_def demo_refreshes_def Let_def)
  have valid: "valid_target (demo_target ''old'' ''1'')" "valid_target (demo_target ''new'' ''2'')" by code_simp+
  have later: "\<not> tg_generation (demo_target ''new'' ''2'') \<le> tg_generation (demo_target ''old'' ''1'')" by code_simp
  have times: "\<forall>(now, xs) \<in> set demo_refreshes. now < 100 \<and> 100 \<le> now + 60000"
    by (simp add: demo_refreshes_def Let_def)
  show ?thesis
    using refresh_converges [OF refl _ times, where r = "\<lambda>_. None" and digest = demo_digest and userId = "''ann''"
        and meth = "''read''" and now = 40] valid later
    by (auto simp: live)
qed

end
