(* ===== verification/RpcHandler.thy ===== *)
theory RpcHandler
  imports RpcConvergence
begin

text \<open>
  Remote procedure calls between the sockets of an account, \<^verbatim>\<open>api/socket/rpcHandler.ts\<close>: the three
  packet handlers on top of the registration lifecycle (\<open>RpcRegistry\<close>) and the owner lock
  (\<open>RuntimeLease\<close>).

  The package \<^verbatim>\<open>uuid\<close>'s validator and the hash of the registry keys are parameters.  The effects
  of a handler are, in order: packets to the calling socket, the answer to its callback (absent
  when it passed none), its disconnection, and requests sent to other sockets.
\<close>

datatype rpc_effect =
    RpcEmit string json \<comment> \<open>\<^verbatim>\<open>socket.emit(event, payload)\<close>\<close>
  | RpcAck json
  | RpcDisconnect
  | Dispatch ident json \<comment> \<open>\<^verbatim>\<open>rpc-request\<close> to a socket\<close>

definition MAX_RPC_METHOD_LENGTH :: nat where "MAX_RPC_METHOD_LENGTH = 512"
definition MAX_RPC_PARAMS_BYTES :: nat where "MAX_RPC_PARAMS_BYTES = 4 * 1024 * 1024"

definition isValidMethod :: "jsval \<Rightarrow> string option" where
  "isValidMethod v =
     (case as_string v of
        None \<Rightarrow> None
      | Some m \<Rightarrow> if m \<noteq> [] \<and> utf16_length m \<le> MAX_RPC_METHOD_LENGTH then Some m else None)"

text \<open>\<open>None\<close>: not valid; \<open>Some None\<close>: no call id.\<close>

definition isValidCallId :: "(string \<Rightarrow> bool) \<Rightarrow> jsval \<Rightarrow> string option option" where
  "isValidCallId uuid_valid v =
     (case v of
        None \<Rightarrow> Some None
      | Some (JStr s) \<Rightarrow> if utf16_length s = 36 \<and> uuid_valid s then Some (Some s) else None
      | _ \<Rightarrow> None)"

fun rpcParamsByteLength :: "jsval \<Rightarrow> nat" where
  "rpcParamsByteLength None = 0"
| "rpcParamsByteLength (Some (JStr s)) = length s"
| "rpcParamsByteLength (Some v) = length (stringify v)"

definition withCallId :: "(string \<times> json) list \<Rightarrow> string option \<Rightarrow> json" where
  "withCallId response callId = JObj (response @ opt_field ''callId'' (map_option JStr callId))"

definition failed :: "string \<Rightarrow> (string \<times> json) list" where
  "failed msg = [(''ok'', JBool False), (''error'', JStr msg)]"

definition not_started :: "string \<Rightarrow> (string \<times> json) list" where
  "not_started msg =
     [(''ok'', JBool False), (''outcome'', JStr ''not_started''), (''retryable'', JBool True), (''error'', JStr msg)]"

definition unknownOutcome :: "string option \<Rightarrow> json" where
  "unknownOutcome callId =
     withCallId [(''ok'', JBool False), (''outcome'', JStr ''unknown''), (''error'', JStr ''RPC outcome unknown'')] callId"

section \<open>Registration\<close>

text \<open>The lifecycle of a socket belongs to its runtime when the socket is a live session runtime.\<close>

fun connection_owner :: "connection option \<Rightarrow> runtime_owner option" where
  "connection_owner (Some (SessionScoped c)) =
     (if sc_replayOnly c then None
      else Some \<lparr>ro_sessionId = sc_sessionId c,
             ro_sessionInstanceId = (if truthy (sc_sessionInstanceId c) then sc_sessionInstanceId c else None),
             ro_leaseId = (if truthy (sc_runtimeConnectionLeaseId c) then sc_runtimeConnectionLeaseId c else None)\<rparr>)"
| "connection_owner _ = None"

definition rpc_error :: "string \<Rightarrow> string \<Rightarrow> rpc_effect" where
  "rpc_error what msg = RpcEmit ''rpc-error'' (JObj [(''type'', JStr what), (''error'', JStr msg)])"

fun reject_connection :: "connection option \<Rightarrow> connection option \<times> rpc_effect list" where
  "reject_connection (Some (SessionScoped c)) =
     (case rejectRuntimeConnection c of
        (c1, disconnected) \<Rightarrow> (Some (SessionScoped c1), if disconnected then [RpcDisconnect] else []))"
| "reject_connection conn = (conn, [])"

definition session_scoped :: "connection option \<Rightarrow> bool" where
  "session_scoped conn = (case conn of Some c \<Rightarrow> is_session_scoped c | None \<Rightarrow> False)"

text \<open>The part of each handler before its \<^verbatim>\<open>await\<close>, then the part after it.\<close>

definition handle_rpc_register :: "jsval \<Rightarrow> lifecycle \<Rightarrow> lifecycle \<times> rpc_effect list" where
  "handle_rpc_register data l =
     (case isValidMethod (get_prop data ''method'') of
        None \<Rightarrow> (l, [rpc_error ''register'' ''Invalid method name''])
      | Some m \<Rightarrow> (call_register m l, []))"

definition settle_rpc_register ::
  "connection option \<Rightarrow> string \<Rightarrow> op_result \<Rightarrow> connection option \<times> rpc_effect list" where
  "settle_rpc_register conn m res =
     (case res of
        Done \<Rightarrow> (conn, [RpcEmit ''rpc-registered'' (JObj [(''method'', JStr m)])])
      | CancelledError \<Rightarrow> (conn, [])
      | OwnershipLost \<Rightarrow>
          if session_scoped conn
          then (case reject_connection conn of
                  (conn1, effs) \<Rightarrow> (conn1, effs @ [rpc_error ''register'' ''Runtime connection is stale'']))
          else (conn, [rpc_error ''register'' ''Internal error''])
      | _ \<Rightarrow> (conn, [rpc_error ''register'' ''Internal error'']))"

definition handle_rpc_unregister :: "jsval \<Rightarrow> lifecycle \<Rightarrow> lifecycle \<times> rpc_effect list" where
  "handle_rpc_unregister data l =
     (case isValidMethod (get_prop data ''method'') of
        None \<Rightarrow> (l, [rpc_error ''unregister'' ''Invalid method name''])
      | Some m \<Rightarrow> (call_unregister m l, []))"

definition settle_rpc_unregister :: "string \<Rightarrow> op_result \<Rightarrow> rpc_effect list" where
  "settle_rpc_unregister m res =
     (if res = Done then [RpcEmit ''rpc-unregistered'' (JObj [(''method'', JStr m)])]
      else [rpc_error ''unregister'' ''Internal error''])"

section \<open>Calls\<close>

text \<open>
  What the world answers during a call: the registry (\<open>None\<close> when Redis fails), whether the owner's
  advisory lock was free, the database clock, whether the transaction around it failed before or
  after its operation, the sockets connected to this server, and the answers of the target (\<open>None\<close>:
  timed out, disconnected or not published).
\<close>

record rpc_world =
  rw_redis :: "redis option"
  rw_redisNow :: ts
  rw_lockAcquired :: bool
  rw_dbNow :: ts
  rw_txFailsBefore :: bool
  rw_txFailsAfter :: bool
  rw_localSockets :: "ident list"
  rw_responses :: "jsval list option"

datatype dispatch_result = NotDispatched | Dispatched jsval | DispatchThrew

text \<open>\<^verbatim>\<open>emitToSelectedTarget\<close>: the answers of all sockets in the target's room.\<close>

definition emitToSelectedTarget :: "rpc_world \<Rightarrow> target \<Rightarrow> json \<Rightarrow> rpc_effect list \<times> dispatch_result" where
  "emitToSelectedTarget w t request =
     ([Dispatch (tg_socketId t) request],
      (case rw_responses w of Some [v] \<Rightarrow> Dispatched v | _ \<Rightarrow> DispatchThrew))"

text \<open>\<^verbatim>\<open>emitToLocalRuntimeTarget\<close>: one socket of this server, one answer.\<close>

definition emitToLocalRuntimeTarget :: "rpc_world \<Rightarrow> target \<Rightarrow> json \<Rightarrow> rpc_effect list \<times> dispatch_result" where
  "emitToLocalRuntimeTarget w t request =
     (if tg_socketId t \<notin> set (rw_localSockets w) then ([], NotDispatched)
      else ([Dispatch (tg_socketId t) request],
            (case rw_responses w of Some (v # _) \<Rightarrow> Dispatched v | _ \<Rightarrow> DispatchThrew)))"

definition rpc_success :: "jsval \<Rightarrow> string option \<Rightarrow> json" where
  "rpc_success response callId = withCallId ([(''ok'', JBool True)] @ opt_field ''result'' response) callId"

text \<open>The call of a runtime: its target is emitted to while the owner lock is held.\<close>

definition call_runtime ::
  "rpc_world \<Rightarrow> ident \<Rightarrow> target \<Rightarrow> runtime_owner \<Rightarrow> json \<Rightarrow> string option \<Rightarrow> db \<Rightarrow> rpc_effect list" where
  "call_runtime w userId t ow request callId d =
     (if rw_txFailsBefore w then [RpcAck (unknownOutcome callId)]
      else let local_emit = emitToLocalRuntimeTarget w t request;
               outcome = snd (runWithRuntimeConnectionOwnerLock (rw_lockAcquired w) userId (ro_sessionId ow)
                   (ro_sessionInstanceId ow) (ro_leaseId ow) (rw_dbNow w)
                   (\<lambda>d. case snd local_emit of DispatchThrew \<Rightarrow> None | res \<Rightarrow> Some (d, res)) d)
           in case outcome of
                Busy \<Rightarrow> (if rw_txFailsAfter w then [RpcAck (unknownOutcome callId)]
                         else [RpcAck (withCallId (not_started ''RPC target is busy'') callId)])
              | NotOwner \<Rightarrow> (if rw_txFailsAfter w then [RpcAck (unknownOutcome callId)]
                             else [RpcAck (withCallId (failed ''RPC method not available'') callId)])
              | OperationThrew \<Rightarrow> fst local_emit @ [RpcAck (unknownOutcome callId)]
              | Completed res \<Rightarrow>
                  fst local_emit @
                    [RpcAck (if rw_txFailsAfter w then unknownOutcome callId
                             else case res of
                                    Dispatched v \<Rightarrow> rpc_success v callId
                                  | _ \<Rightarrow> withCallId (not_started ''RPC method not available'') callId)])"

definition call_selected :: "rpc_world \<Rightarrow> target \<Rightarrow> json \<Rightarrow> string option \<Rightarrow> rpc_effect list" where
  "call_selected w t request callId =
     (case emitToSelectedTarget w t request of
        (effs, Dispatched v) \<Rightarrow> effs @ [RpcAck (rpc_success v callId)]
      | (effs, _) \<Rightarrow> effs @ [RpcAck (unknownOutcome callId)])"

definition forwarded_request :: "string \<Rightarrow> jsval \<Rightarrow> string option \<Rightarrow> json" where
  "forwarded_request m params callId =
     JObj ([(''method'', JStr m)] @ opt_field ''params'' params @ opt_field ''callId'' (map_option JStr callId))"

definition handle_rpc_call ::
  "(string \<Rightarrow> bool) \<Rightarrow> (string \<Rightarrow> string) \<Rightarrow> rpc_world \<Rightarrow> ident \<Rightarrow> ident \<Rightarrow> connection option \<Rightarrow> jsval \<Rightarrow> db
   \<Rightarrow> connection option \<times> rpc_effect list" where
  "handle_rpc_call uuid_valid digest w userId socketId conn data d =
     (if session_scoped conn
      then (case reject_connection conn of
              (conn1, effs) \<Rightarrow> (conn1, effs @ [RpcAck (JObj (failed ''Session runtimes cannot initiate RPC calls''))]))
      else (conn,
        case (isValidMethod (get_prop data ''method''), isValidCallId uuid_valid (get_prop data ''callId'')) of
          (Some m, Some callId) \<Rightarrow>
            if rpcParamsByteLength (get_prop data ''params'') > MAX_RPC_PARAMS_BYTES
            then [RpcAck (withCallId (failed ''RPC parameters exceed the size limit'') callId)]
            else (case rw_redis w of
                    None \<Rightarrow> [RpcAck (withCallId (failed ''RPC registry unavailable'') callId)]
                  | Some r \<Rightarrow>
                      (case registry_resolve digest (rw_redisNow w) userId m r of
                         None \<Rightarrow> [RpcAck (withCallId (failed ''RPC method not available'') callId)]
                       | Some t \<Rightarrow>
                           if tg_socketId t = socketId
                           then [RpcAck (withCallId (failed ''Cannot call RPC on the same socket'') callId)]
                           else let request = forwarded_request m (get_prop data ''params'') callId
                                in (case tg_runtimeOwner t of
                                      Some ow \<Rightarrow> call_runtime w userId t ow request callId d
                                    | None \<Rightarrow> call_selected w t request callId)))
        | (_, callId) \<Rightarrow>
            [RpcAck (withCallId (failed ''Invalid parameters: method is required and callId must be a UUID'')
               (case callId of Some (Some c) \<Rightarrow> Some c | _ \<Rightarrow> None))]))"

section \<open>One attempt, under the owner's lock\<close>

fun is_dispatch :: "rpc_effect \<Rightarrow> bool" where
  "is_dispatch (Dispatch _ _) = True"
| "is_dispatch _ = False"

definition answered_ok :: "json \<Rightarrow> bool" where
  "answered_ok a = (get_prop (Some a) ''ok'' = Some (JBool True))"

definition answered_unknown :: "json \<Rightarrow> bool" where
  "answered_unknown a = (get_prop (Some a) ''outcome'' = Some (JStr ''unknown''))"

lemma answers [simp]:
  "answered_ok (rpc_success v c)" "\<not> answered_ok (unknownOutcome c)" "answered_unknown (unknownOutcome c)"
  "\<not> answered_ok (withCallId (failed msg) c)" "\<not> answered_ok (withCallId (not_started msg) c)"
  "\<not> answered_ok (JObj (failed msg))" "get_prop (Some (rpc_success v c)) ''result'' = v"
  by (auto simp: answered_ok_def answered_unknown_def rpc_success_def unknownOutcome_def withCallId_def
      failed_def not_started_def opt_field_def split: option.splits)

text \<open>
  When a request is sent: the request is valid, the registry resolved its target \<open>t\<close>, another
  socket, and a session runtime is reached on this server, while the owner lock is held and it
  owns its session.
\<close>

definition runtime_reachable :: "rpc_world \<Rightarrow> ident \<Rightarrow> target \<Rightarrow> runtime_owner \<Rightarrow> db \<Rightarrow> bool" where
  "runtime_reachable w userId t ow d =
     (\<not> rw_txFailsBefore w \<and> rw_lockAcquired w \<and> tg_socketId t \<in> set (rw_localSockets w)
      \<and> isRuntimeConnectionOwner userId (ro_sessionId ow) (ro_sessionInstanceId ow) (ro_leaseId ow) (rw_dbNow w) d)"

definition call_sends ::
  "(string \<Rightarrow> bool) \<Rightarrow> (string \<Rightarrow> string) \<Rightarrow> rpc_world \<Rightarrow> ident \<Rightarrow> ident \<Rightarrow> jsval \<Rightarrow> db
   \<Rightarrow> string \<Rightarrow> string option \<Rightarrow> target \<Rightarrow> bool" where
  "call_sends uuid_valid digest w userId socketId data d m callId t =
     (isValidMethod (get_prop data ''method'') = Some m
    \<and> isValidCallId uuid_valid (get_prop data ''callId'') = Some callId
    \<and> rpcParamsByteLength (get_prop data ''params'') \<le> MAX_RPC_PARAMS_BYTES
    \<and> (\<exists>r. rw_redis w = Some r \<and> registry_resolve digest (rw_redisNow w) userId m r = Some t)
    \<and> tg_socketId t \<noteq> socketId
    \<and> (\<forall>ow. tg_runtimeOwner t = Some ow \<longrightarrow> runtime_reachable w userId t ow d))"

text \<open>
  The acknowledgement of the target, when there is a valid one: exactly one answer from the room
  of an ordinary socket; from a runtime an answer before the time-out, with the transaction
  that held the lock committed.
\<close>

definition acknowledgement :: "rpc_world \<Rightarrow> target \<Rightarrow> jsval option" where
  "acknowledgement w t =
     (case tg_runtimeOwner t of
        None \<Rightarrow> (case rw_responses w of Some [v] \<Rightarrow> Some v | _ \<Rightarrow> None)
      | Some ow \<Rightarrow> (case rw_responses w of Some (v # _) \<Rightarrow> if rw_txFailsAfter w then None else Some v | _ \<Rightarrow> None))"

definition attempt_answer :: "rpc_world \<Rightarrow> target \<Rightarrow> string option \<Rightarrow> json" where
  "attempt_answer w t callId =
     (case acknowledgement w t of Some v \<Rightarrow> rpc_success v callId | None \<Rightarrow> unknownOutcome callId)"

definition refused :: "rpc_effect list \<Rightarrow> bool" where
  "refused effs = (\<exists>ans. effs = [RpcAck ans] \<and> \<not> answered_ok ans)"

lemma refusedI [simp]: "\<not> answered_ok ans \<Longrightarrow> refused [RpcAck ans]"
  by (simp add: refused_def)

lemma call_selected_attempt:
  assumes "tg_runtimeOwner t = None"
  shows "call_selected w t req c = [Dispatch (tg_socketId t) req, RpcAck (attempt_answer w t c)]"
  using assms
  by (auto simp: call_selected_def emitToSelectedTarget_def attempt_answer_def acknowledgement_def
      split: option.split list.split)

lemma owner_lock_outcome:
  "snd (runWithRuntimeConnectionOwnerLock locked acct sid inst lease now operation d) =
     (if \<not> locked then Busy else if \<not> isRuntimeConnectionOwner acct sid inst lease now d then NotOwner
      else case operation d of None \<Rightarrow> OperationThrew | Some (d', x) \<Rightarrow> Completed x)"
  by (auto simp: runWithRuntimeConnectionOwnerLock_def lock_owned_iff Let_def split: option.split)

lemma call_runtime_attempt:
  assumes "tg_runtimeOwner t = Some ow" and "runtime_reachable w userId t ow d"
  shows "call_runtime w userId t ow req c d = [Dispatch (tg_socketId t) req, RpcAck (attempt_answer w t c)]"
  using assms
  by (auto simp: call_runtime_def runtime_reachable_def owner_lock_outcome emitToLocalRuntimeTarget_def
      attempt_answer_def acknowledgement_def Let_def split: option.split list.split)

lemma call_runtime_refused:
  assumes "\<not> runtime_reachable w userId t ow d"
  shows "refused (call_runtime w userId t ow req c d)"
  using assms
  by (auto simp: call_runtime_def runtime_reachable_def owner_lock_outcome emitToLocalRuntimeTarget_def Let_def)

lemma call_attempt:
  assumes "\<not> session_scoped conn" and "call_sends uuid_valid digest w userId socketId data d m callId t"
  shows "handle_rpc_call uuid_valid digest w userId socketId conn data d =
     (conn, [Dispatch (tg_socketId t) (forwarded_request m (get_prop data ''params'') callId),
             RpcAck (attempt_answer w t callId)])"
proof -
  obtain r where r: "rw_redis w = Some r" "registry_resolve digest (rw_redisNow w) userId m r = Some t"
    using assms(2) by (auto simp: call_sends_def)
  show ?thesis
  proof (cases "tg_runtimeOwner t")
    case None
    then show ?thesis using assms r by (simp add: handle_rpc_call_def call_sends_def call_selected_attempt Let_def)
  next
    case (Some ow)
    then show ?thesis using assms r by (simp add: handle_rpc_call_def call_sends_def call_runtime_attempt Let_def)
  qed
qed

lemma call_refused:
  assumes "\<not> session_scoped conn"
    and "\<And>m callId t. \<not> call_sends uuid_valid digest w userId socketId data d m callId t"
    and "handle_rpc_call uuid_valid digest w userId socketId conn data d = (conn', effs)"
  shows "conn' = conn \<and> refused effs"
  using assms
  by (auto simp: handle_rpc_call_def call_sends_def Let_def not_less split: option.splits if_splits)
    (fastforce intro: call_runtime_refused)+

text \<open>
  C13.  A remote call reaches at most one socket, at most once, and its answer is honest.  Whatever
  the registry, the locks, the database and the target do: when the call is valid, the registry
  resolved a target other than the caller, and (for a session runtime) the owner lock is held
  and the runtime owns its session, exactly one request is sent, to that target, and then one
  answer is given: success with the target's response exactly when there is a valid
  acknowledgement (one answer, in time, with the surrounding transaction committed), and
  \<^verbatim>\<open>outcome: "unknown"\<close> in every other case, a time-out, a malformed set of answers or a failed
  transaction.  Otherwise nothing is sent and the one answer is no success.  So a caller that
  retries after an answer that is neither success nor unknown repeats nothing.  A session
  runtime itself never calls: it is refused.
\<close>

theorem rpc_call_at_most_once:
  assumes "handle_rpc_call uuid_valid digest w userId socketId conn data d = (conn', effs)"
  shows "if session_scoped conn
     then filter is_dispatch effs = [] \<and> (\<exists>ans. last effs = RpcAck ans \<and> effs \<noteq> [] \<and> \<not> answered_ok ans)
     else conn' = conn
       \<and> (\<forall>m callId t. call_sends uuid_valid digest w userId socketId data d m callId t \<longrightarrow>
            (\<exists>ans. effs = [Dispatch (tg_socketId t) (forwarded_request m (get_prop data ''params'') callId), RpcAck ans]
               \<and> (answered_ok ans \<longleftrightarrow> acknowledgement w t \<noteq> None)
               \<and> (\<forall>v. acknowledgement w t = Some v \<longrightarrow> get_prop (Some ans) ''result'' = v)
               \<and> (acknowledgement w t = None \<longrightarrow> answered_unknown ans)))
       \<and> ((\<forall>m callId t. \<not> call_sends uuid_valid digest w userId socketId data d m callId t) \<longrightarrow>
            (\<exists>ans. effs = [RpcAck ans] \<and> \<not> answered_ok ans))"
proof (cases "session_scoped conn")
  case True
  then obtain c where "conn = Some (SessionScoped c)"
    by (auto simp: session_scoped_def split: option.splits elim: is_session_scoped.elims)
  then show ?thesis
    using assms True by (auto simp: handle_rpc_call_def split: prod.splits if_splits)
next
  case False
  have conn: "conn' = conn" using assms False by (auto simp: handle_rpc_call_def)
  have honest: "answered_ok (attempt_answer w t c) \<longleftrightarrow> acknowledgement w t \<noteq> None"
    "acknowledgement w t = Some v \<Longrightarrow> get_prop (Some (attempt_answer w t c)) ''result'' = v"
    "acknowledgement w t = None \<Longrightarrow> answered_unknown (attempt_answer w t c)" for t c v
    by (auto simp: attempt_answer_def split: option.splits)
  have sent: "effs = [Dispatch (tg_socketId t) (forwarded_request m (get_prop data ''params'') callId),
      RpcAck (attempt_answer w t callId)]"
    if "call_sends uuid_valid digest w userId socketId data d m callId t" for m callId t
    using call_attempt [OF False that] assms by simp
  have "refused effs" if "\<forall>m callId t. \<not> call_sends uuid_valid digest w userId socketId data d m callId t"
    using call_refused [OF False _ assms] that by blast
  then show ?thesis using False conn sent honest by (auto simp: refused_def)
qed

definition demo_owner :: runtime_owner where
  "demo_owner = \<lparr>ro_sessionId = ''s1'', ro_sessionInstanceId = Some ''i1'', ro_leaseId = Some ''L1''\<rparr>"

definition demo_runtime :: target where
  "demo_runtime = (demo_target ''runtime'' ''2'')\<lparr>tg_runtimeOwner := Some demo_owner\<rparr>"

definition demo_owner_db :: db where
  "demo_owner_db = empty_db\<lparr>sessions :=
     [\<lparr>s_id = ''s1'', s_tag = ''t'', s_accountId = ''ann'', s_metadata = [], s_metadataVersion = 0,
       s_agentState = None, s_agentStateVersion = 0, s_dataEncryptionKey = None, s_seq = 0, s_active = True,
       s_activeInstanceId = Some ''i1'', s_runtimeConnectionLeaseId = Some ''L1'',
       s_runtimeConnectionLeaseInstanceId = Some ''i1'', s_runtimeConnectionLeaseExpiresAt = Some 1000,
       s_lastActiveAt = 0, s_createdAt = 0, s_updatedAt = 0\<rparr>]\<rparr>"

definition demo_world :: rpc_world where
  "demo_world = \<lparr>rw_redis = Some ((\<lambda>_. None)(getRpcRegistrationKey demo_digest ''ann'' ''read''
       \<mapsto> (encodeTarget demo_runtime, 100))), rw_redisNow = 40, rw_lockAcquired = True, rw_dbNow = 500,
     rw_txFailsBefore = False, rw_txFailsAfter = False, rw_localSockets = [''runtime'', ''caller''],
     rw_responses = Some [Some (JStr ''file'')]\<rparr>"

definition demo_call :: jsval where
  "demo_call = Some (JObj [(''method'', JStr ''read''), (''params'', JStr ''a.txt'')])"

lemma demo_call_resolves:
  "registry_resolve demo_digest 40 ''ann'' ''read'' (the (rw_redis demo_world)) = Some demo_runtime"
  by code_simp

lemma demo_call_owner:
  "isRuntimeConnectionOwner ''ann'' ''s1'' (Some ''i1'') (Some ''L1'') 500 demo_owner_db"
  by code_simp

lemma demo_call_fields:
  "get_prop demo_call ''method'' = Some (JStr ''read'')" "get_prop demo_call ''callId'' = None"
  "get_prop demo_call ''params'' = Some (JStr ''a.txt'')"
  by (simp_all add: demo_call_def)

lemma demo_call_method: "isValidMethod (Some (JStr ''read'')) = Some ''read''"
proof -
  have "utf16_length ''read'' = 4" by code_simp
  then show ?thesis by (simp add: isValidMethod_def MAX_RPC_METHOD_LENGTH_def)
qed

lemma demo_call_effects:
  "handle_rpc_call (\<lambda>_. True) demo_digest demo_world ''ann'' ''caller'' (Some (UserScoped ''caller'' ''ann'')) demo_call demo_owner_db
     = (Some (UserScoped ''caller'' ''ann''),
        [Dispatch ''runtime'' (forwarded_request ''read'' (Some (JStr ''a.txt'')) None), RpcAck (rpc_success (Some (JStr ''file'')) None)])"
proof -
  define r where "r = the (rw_redis demo_world)"
  have world: "rw_redis demo_world = Some r" "rw_redisNow demo_world = 40"
    by (simp_all add: demo_world_def r_def)
  have target: "tg_socketId demo_runtime = ''runtime''" "tg_runtimeOwner demo_runtime = Some demo_owner"
    by (simp_all add: demo_runtime_def demo_target_def)
  have call: "call_runtime demo_world ''ann'' demo_runtime demo_owner req None demo_owner_db =
      [Dispatch ''runtime'' req, RpcAck (rpc_success (Some (JStr ''file'')) None)]" for req
    using demo_call_owner
    by (simp add: call_runtime_def owner_lock_outcome emitToLocalRuntimeTarget_def target demo_world_def demo_owner_def)
  show ?thesis
    using demo_call_resolves [folded r_def]
    by (simp add: handle_rpc_call_def session_scoped_def demo_call_fields demo_call_method isValidCallId_def
        MAX_RPC_PARAMS_BYTES_def call target world Let_def)
qed

lemma demo_call_sends:
  "call_sends (\<lambda>_. True) demo_digest demo_world ''ann'' ''caller'' demo_call demo_owner_db ''read'' None demo_runtime"
proof -
  have world: "rw_redis demo_world \<noteq> None" "rw_redisNow demo_world = 40" "rw_lockAcquired demo_world"
    "\<not> rw_txFailsBefore demo_world" "rw_localSockets demo_world = [''runtime'', ''caller'']" "rw_dbNow demo_world = 500"
    by (simp_all add: demo_world_def)
  moreover have "tg_socketId demo_runtime = ''runtime''" "tg_runtimeOwner demo_runtime = Some demo_owner"
    by (simp_all add: demo_runtime_def demo_target_def)
  ultimately show ?thesis
    using demo_call_resolves demo_call_owner
    by (auto simp: call_sends_def demo_call_fields demo_call_method isValidCallId_def MAX_RPC_PARAMS_BYTES_def
        runtime_reachable_def demo_owner_def)
qed

theorem rpc_call_at_most_once_witness:
  "acknowledgement demo_world demo_runtime = Some (Some (JStr ''file''))
   \<and> (\<exists>ans. snd (handle_rpc_call (\<lambda>_. True) demo_digest demo_world ''ann'' ''caller'' (Some (UserScoped ''caller'' ''ann''))
              demo_call demo_owner_db)
          = [Dispatch ''runtime'' (forwarded_request ''read'' (Some (JStr ''a.txt'')) None), RpcAck ans]
        \<and> answered_ok ans \<and> get_prop (Some ans) ''result'' = Some (JStr ''file''))"
proof -
  have "acknowledgement demo_world demo_runtime = Some (Some (JStr ''file''))"
    by (simp add: acknowledgement_def demo_world_def demo_runtime_def)
  moreover have "\<not> session_scoped (Some (UserScoped ''caller'' ''ann''))" by (simp add: session_scoped_def)
  moreover have "tg_socketId demo_runtime = ''runtime''" by (simp add: demo_runtime_def demo_target_def)
  ultimately show ?thesis
    using rpc_call_at_most_once [OF demo_call_effects] demo_call_sends
    unfolding demo_call_effects demo_call_fields(3) snd_conv by (simp only: if_False) blast
qed

end
