(* ===== verification/Usage.thy ===== *)
theory Usage
  imports Machines JsonText "HOL-Library.AList" "HOL-Library.Multiset" "HOL-Library.Log_Nat"
begin

text \<open>
  Usage reports: the socket handler that stores them (\<^verbatim>\<open>api/socket/usageHandler.ts\<close>) and the query
  that sums them up by hour or day (\<^verbatim>\<open>POST /v1/usage/query\<close> of \<^verbatim>\<open>api/routes/accountRoutes.ts\<close>).

  Costs and token counts are IEEE doubles, added with rounding as JavaScript adds them.  Every
  finite double is a whole multiple of 2 to the power -1074, the smallest subnormal, so in a usage
  document \<open>JNum n\<close> is the number n times that unit: a token count c is \<open>JNum (c * 2 ^ 1074)\<close>.  (The
  handler only looks at whether \<^verbatim>\<open>total\<close> is a number.)  Keys that name a member of
  \<^verbatim>\<open>Object.prototype\<close>, such as \<^verbatim>\<open>constructor\<close>, are outside the model: \<^verbatim>\<open>agg.tokens[key] || 0\<close> finds the inherited
  member there.  The handler runs one packet at a time per socket (\<^verbatim>\<open>AsyncLock\<close>, theory \<open>AsyncLock\<close>).  What Prisma does with \<^verbatim>\<open>null\<close> in the
  compound key of an upsert is a parameter (\<open>acceptsNull\<close>: it matches a NULL column, otherwise the
  call throws), and so are the server's time zone, as the local time of an instant and the
  instant of a local time.
\<close>

section \<open>Storing a report\<close>

definition usage_row :: "ident \<Rightarrow> ident option \<Rightarrow> string \<Rightarrow> db \<Rightarrow> usage_report option" where
  "usage_row userId sid key d =
     find_row (\<lambda>u. u_accountId u = userId \<and> u_sessionId u = sid \<and> u_key u = key) (usageReports d)"

definition new_usage :: "ident \<Rightarrow> ident \<Rightarrow> ident option \<Rightarrow> string \<Rightarrow> json \<Rightarrow> ts \<Rightarrow> usage_report" where
  "new_usage newId userId sid key usage now =
     \<lparr>u_id = newId, u_key = key, u_accountId = userId, u_sessionId = sid, u_data = usage,
      u_createdAt = now, u_updatedAt = now\<rparr>"

text \<open>\<open>None\<close>: it threw, on a null key or on a missing account or session.\<close>

definition upsert_usage ::
  "bool \<Rightarrow> ident \<Rightarrow> ident option \<Rightarrow> string \<Rightarrow> json \<Rightarrow> ident \<Rightarrow> ts \<Rightarrow> db \<Rightarrow> (db \<times> usage_report) option" where
  "upsert_usage acceptsNull userId sid key usage newId now d =
     (if sid = None \<and> \<not> acceptsNull then None
      else case usage_row userId sid key d of
        Some u \<Rightarrow>
          (let u' = u\<lparr>u_data := usage, u_updatedAt := now\<rparr>
           in Some (d\<lparr>usageReports := update_rows (\<lambda>v. u_id v = u_id u) (\<lambda>_. u') (usageReports d)\<rparr>, u'))
      | None \<Rightarrow>
          if account_row userId d = None \<or> (\<exists>s. sid = Some s \<and> session_row s d = None) then None
          else (let u = new_usage newId userId sid key usage now
                in Some (d\<lparr>usageReports := usageReports d @ [u]\<rparr>, u)))"

definition usage_failed :: "string \<Rightarrow> json" where
  "usage_failed msg = JObj [(''success'', JBool False), (''error'', JStr msg)]"

definition usage_saved :: "usage_report \<Rightarrow> json" where
  "usage_saved u = JObj [(''success'', JBool True), (''reportId'', JStr (u_id u)),
     (''createdAt'', JNum (u_createdAt u)), (''updatedAt'', JNum (u_updatedAt u))]"

text \<open>An object with a numeric \<^verbatim>\<open>total\<close>.\<close>

definition with_total :: "jsval \<Rightarrow> json option" where
  "with_total v =
     (case v of
        None \<Rightarrow> None
      | Some x \<Rightarrow> if js_truthy v \<and> is_object v \<and> as_number (get_prop v ''total'') \<noteq> None then Some x else None)"

definition publish_usage ::
  "ident \<Rightarrow> ident option \<Rightarrow> string \<Rightarrow> json \<Rightarrow> json \<Rightarrow> ts \<Rightarrow> usage_report \<Rightarrow> effect list" where
  "publish_usage userId sid key tokens cost jsnow u =
     (case sid of
        None \<Rightarrow> []
      | Some s \<Rightarrow> [Emit (EmitEphemeral userId (buildUsageEphemeral s key tokens cost jsnow) UserScopedOnly)])
     @ [Ack (usage_saved u)]"

text \<open>The write of a session runtime runs in the transaction that holds the owner lock.\<close>

definition save_as_runtime ::
  "db sched \<Rightarrow> bool \<Rightarrow> ts \<Rightarrow> ident \<Rightarrow> session_connection \<Rightarrow> (db \<Rightarrow> (db \<times> usage_report) option)
   \<Rightarrow> db \<Rightarrow> db \<times> usage_report owner_outcome option" where
  "save_as_runtime w lockAcquired now userId c save d =
     db_call w 0 (\<lambda>d. runWithRuntimeConnectionOwnerLock lockAcquired userId (sc_sessionId c)
         (sc_sessionInstanceId c) (sc_runtimeConnectionLeaseId c) now save d) d"

definition save_as_client ::
  "db sched \<Rightarrow> ident \<Rightarrow> ident option \<Rightarrow> (db \<Rightarrow> (db \<times> usage_report) option) \<Rightarrow> db \<Rightarrow> db \<times> usage_report option option" where
  "save_as_client w userId sid save d =
     (case sid of
        None \<Rightarrow> (case db_call w 1 (throwing save) d of (d1, Some (Some u)) \<Rightarrow> (d1, Some (Some u)) | (d1, _) \<Rightarrow> (d1, None))
      | Some s \<Rightarrow>
          (case db_call w 0 (\<lambda>d. (d, find_session s userId d)) d of
             (d1, None) \<Rightarrow> (d1, None)
           | (d1, Some None) \<Rightarrow> (d1, Some None)
           | (d1, Some (Some _)) \<Rightarrow>
               (case db_call w 1 (throwing save) d1 of (d2, Some (Some u)) \<Rightarrow> (d2, Some (Some u)) | (d2, _) \<Rightarrow> (d2, None))))"

definition handle_usage_valid ::
  "bool \<Rightarrow> db sched \<Rightarrow> bool \<Rightarrow> ts \<Rightarrow> ts \<Rightarrow> ident \<Rightarrow> ident \<Rightarrow> connection \<Rightarrow> ident option \<Rightarrow> string \<Rightarrow> json \<Rightarrow> json
   \<Rightarrow> db \<Rightarrow> db \<times> effect list" where
  "handle_usage_valid acceptsNull w lockAcquired dbNow jsnow newId userId conn sid key tokens cost d =
     (let save = upsert_usage acceptsNull userId sid key (JObj [(''tokens'', tokens), (''cost'', cost)]) newId jsnow;
          failed = [Ack (usage_failed ''Failed to save usage report'')]
      in case conn of
           SessionScoped c \<Rightarrow>
             (case save_as_runtime w lockAcquired dbNow userId c save d of
                (d1, Some (Completed u)) \<Rightarrow> (d1, publish_usage userId sid key tokens cost jsnow u)
              | (d1, Some Busy) \<Rightarrow>
                  (d1, [Ack (JObj [(''success'', JBool False), (''outcome'', JStr ''not_started''),
                          (''retryable'', JBool True), (''error'', JStr ''Runtime connection is busy'')])])
              | (d1, Some NotOwner) \<Rightarrow> (d1, [RejectConnection, Ack (usage_failed ''Runtime connection is stale'')])
              | (d1, _) \<Rightarrow> (d1, failed))
         | _ \<Rightarrow>
             (case save_as_client w userId sid save d of
                (d1, Some (Some u)) \<Rightarrow> (d1, publish_usage userId sid key tokens cost jsnow u)
              | (d1, Some None) \<Rightarrow> (d1, [Ack (usage_failed ''Session not found'')])
              | (d1, None) \<Rightarrow> (d1, failed)))"

definition handle_usage_report ::
  "bool \<Rightarrow> db sched \<Rightarrow> bool \<Rightarrow> ts \<Rightarrow> ts \<Rightarrow> ident \<Rightarrow> ident \<Rightarrow> connection \<Rightarrow> jsval \<Rightarrow> db \<Rightarrow> db \<times> effect list" where
  "handle_usage_report acceptsNull w lockAcquired dbNow jsnow newId userId conn data d =
     (if nullish data then (d, [Ack (usage_failed ''Internal error'')])
      else case as_string (get_prop data ''key'') of
        None \<Rightarrow> (d, [Ack (usage_failed ''Invalid key'')])
      | Some key \<Rightarrow>
          if key = [] then (d, [Ack (usage_failed ''Invalid key'')])
          else (case with_total (get_prop data ''tokens'') of
             None \<Rightarrow> (d, [Ack (usage_failed ''Invalid tokens object - must include total'')])
           | Some tokens \<Rightarrow>
               (case with_total (get_prop data ''cost'') of
                  None \<Rightarrow> (d, [Ack (usage_failed ''Invalid cost object - must include total'')])
                | Some cost \<Rightarrow>
                    let sid = get_prop data ''sessionId''
                    in if \<not> nullish sid \<and> (as_string sid = None \<or> as_string sid = Some [])
                       then (d, [Ack (usage_failed ''Invalid sessionId'')])
                       else if is_session_scoped conn
                           \<and> (nullish sid \<or> (\<exists>c. conn = SessionScoped c \<and> sid \<noteq> Some (JStr (sc_sessionId c))))
                       then (d, [RejectConnection, Ack (usage_failed ''Invalid sessionId'')])
                       else handle_usage_valid acceptsNull w lockAcquired dbNow jsnow newId userId conn
                              (if nullish sid then None else as_string sid) key tokens cost d)))"

section \<open>Summing reports up\<close>

text \<open>A JavaScript number: a finite double, in units of 2 to the power -1074, an infinity (negative?) or \<^verbatim>\<open>NaN\<close>.\<close>

datatype number = Fin int | Inf bool | NaN

text \<open>
  The nearest double: 53 significant bits, ties to even, and an infinity from 2 to the power 1024 on.
  Below 53 bits nothing is rounded, which covers the subnormals.
\<close>

definition infinite_from :: int where
  "infinite_from = 2 ^ 2098"

definition to_double :: "int \<Rightarrow> number" where
  "to_double n =
     (let a = \<bar>n\<bar>; q = 2 ^ (nat (bitlen a) - 53); m = a div q; r = a mod q;
          k = (if q < 2 * r \<or> (2 * r = q \<and> odd m) then m + 1 else m) * q
      in if infinite_from \<le> k then Inf (n < 0) else Fin (if n < 0 then - k else k))"

fun js_add :: "number \<Rightarrow> number \<Rightarrow> number" where
  "js_add (Fin a) (Fin b) = to_double (a + b)"
| "js_add (Fin _) y = y"
| "js_add (Inf s) (Inf t) = (if s = t then Inf s else NaN)"
| "js_add (Inf s) (Fin _) = Inf s"
| "js_add _ _ = NaN"

text \<open>\<^verbatim>\<open>x || 0\<close>: an absent figure and \<^verbatim>\<open>NaN\<close> count as 0.\<close>

definition or_zero :: "number option \<Rightarrow> number" where
  "or_zero x = (case x of None \<Rightarrow> Fin 0 | Some NaN \<Rightarrow> Fin 0 | Some n \<Rightarrow> n)"

type_synonym key_sums = "(string \<times> number) list"

record usage_agg =
  ag_tokens :: key_sums
  ag_cost :: key_sums
  ag_count :: nat

text \<open>
  The entries of \<^verbatim>\<open>Object.entries\<close> whose value is a number; \<open>None\<close> when it throws.  The indexed entries of
  a string are strings.
\<close>

definition numbers_of :: "(string \<times> json) list \<Rightarrow> key_sums" where
  "numbers_of kvs = concat (map (\<lambda>(k, v). case v of JNum n \<Rightarrow> [(k, to_double n)] | _ \<Rightarrow> []) kvs)"

fun numeric_entries :: "jsval \<Rightarrow> key_sums option" where
  "numeric_entries None = None"
| "numeric_entries (Some JNull) = None"
| "numeric_entries (Some (JObj kvs)) = Some (numbers_of kvs)"
| "numeric_entries (Some (JArr vs)) = Some (numbers_of (zip (map show_nat [0..<length vs]) vs))"
| "numeric_entries (Some v) = Some []"

definition add_sums :: "key_sums \<Rightarrow> key_sums \<Rightarrow> key_sums" where
  "add_sums kvs m = fold (\<lambda>(k, n) m. AList.update k (js_add (or_zero (map_of m k)) n) m) kvs m"

text \<open>The start of the hour or day, in seconds.\<close>

definition usage_bucket :: "(ts \<Rightarrow> ts) \<Rightarrow> (ts \<Rightarrow> ts) \<Rightarrow> bool \<Rightarrow> ts \<Rightarrow> int" where
  "usage_bucket local instant by_hour t =
     (let unit = (if by_hour then 3600000 else 86400000)
      in instant (local t div unit * unit) div 1000)"

definition add_report ::
  "(ts \<Rightarrow> ts) \<Rightarrow> (ts \<Rightarrow> ts) \<Rightarrow> bool \<Rightarrow> usage_report \<Rightarrow> (int \<times> usage_agg) list \<Rightarrow> (int \<times> usage_agg) list option" where
  "add_report local instant by_hour u aggs =
     (let b = usage_bucket local instant by_hour (u_createdAt u);
          agg = (case map_of aggs b of None \<Rightarrow> \<lparr>ag_tokens = [], ag_cost = [], ag_count = 0\<rparr> | Some a \<Rightarrow> a);
          data = Some (u_data u)
      in case (numeric_entries (get_prop data ''tokens''), numeric_entries (get_prop data ''cost'')) of
           (Some tokens, Some costs) \<Rightarrow>
             Some (AList.update b
               \<lparr>ag_tokens = add_sums tokens (ag_tokens agg), ag_cost = add_sums costs (ag_cost agg),
                ag_count = Suc (ag_count agg)\<rparr> aggs)
         | _ \<Rightarrow> None)"

fun add_reports ::
  "(ts \<Rightarrow> ts) \<Rightarrow> (ts \<Rightarrow> ts) \<Rightarrow> bool \<Rightarrow> usage_report list \<Rightarrow> (int \<times> usage_agg) list \<Rightarrow> (int \<times> usage_agg) list option" where
  "add_reports local instant by_hour [] aggs = Some aggs"
| "add_reports local instant by_hour (u # us) aggs =
     (case add_report local instant by_hour u aggs of
        None \<Rightarrow> None
      | Some aggs1 \<Rightarrow> add_reports local instant by_hour us aggs1)"

record usage_query =
  uq_sessionId :: "string option"
  uq_startTime :: "int option"
  uq_endTime :: "int option"
  uq_byHour :: bool

definition matching_reports :: "ident \<Rightarrow> usage_query \<Rightarrow> db \<Rightarrow> usage_report list" where
  "matching_reports userId q d =
     filter (\<lambda>u. u_accountId u = userId
        \<and> (truthy (uq_sessionId q) \<longrightarrow> u_sessionId u = uq_sessionId q)
        \<and> (case uq_startTime q of None \<Rightarrow> True | Some s \<Rightarrow> s * 1000 \<le> u_createdAt u)
        \<and> (case uq_endTime q of None \<Rightarrow> True | Some e \<Rightarrow> u_createdAt u \<le> e * 1000))
       (usageReports d)"

definition newest_reports :: "ident \<Rightarrow> usage_query \<Rightarrow> db \<Rightarrow> usage_report list" where
  "newest_reports userId q d = sort_key (\<lambda>u. - u_createdAt u) (matching_reports userId q d)"

text \<open>\<^verbatim>\<open>JSON.stringify\<close> writes the numbers that are not finite as \<^verbatim>\<open>null\<close>.\<close>

definition number_json :: "number \<Rightarrow> json" where
  "number_json x = (case x of Fin n \<Rightarrow> JNum n | _ \<Rightarrow> JNull)"

definition sums_json :: "key_sums \<Rightarrow> json" where
  "sums_json m = JObj (map (\<lambda>(k, n). (k, number_json n)) m)"

definition usage_reply :: "bool \<Rightarrow> nat \<Rightarrow> (int \<times> usage_agg) list \<Rightarrow> reply" where
  "usage_reply by_hour reports aggs =
     Reply 200 (JObj
       [(''usage'', JArr (map (\<lambda>(b, a). JObj [(''timestamp'', JNum b), (''tokens'', sums_json (ag_tokens a)),
            (''cost'', sums_json (ag_cost a)), (''reportCount'', JNum (int (ag_count a)))]) aggs)),
        (''groupBy'', JStr (if by_hour then ''hour'' else ''day'')), (''totalReports'', JNum (int reports))])"

text \<open>The body has passed the schema: positive times, and no \<^verbatim>\<open>groupBy\<close> groups by day.\<close>

definition query_usage ::
  "(ts \<Rightarrow> ts) \<Rightarrow> (ts \<Rightarrow> ts) \<Rightarrow> db sched \<Rightarrow> ident \<Rightarrow> usage_query \<Rightarrow> db \<Rightarrow> db \<times> reply" where
  "query_usage local instant w userId q d =
     (let failed = Reply 500 (JObj [(''error'', JStr ''Failed to query usage reports'')]);
          collect = (\<lambda>d. case db_call w 1 (\<lambda>d. (d, newest_reports userId q d)) d of
             (d1, None) \<Rightarrow> (d1, failed)
           | (d1, Some us) \<Rightarrow>
               (case add_reports local instant (uq_byHour q) us [] of
                  None \<Rightarrow> (d1, failed)
                | Some aggs \<Rightarrow> (d1, usage_reply (uq_byHour q) (length us) (sort_key fst aggs))))
      in if truthy (uq_sessionId q)
         then (case db_call w 0 (\<lambda>d. (d, find_session (the (uq_sessionId q)) userId d)) d of
                 (d1, None) \<Rightarrow> (d1, failed)
               | (d1, Some None) \<Rightarrow> (d1, Reply 404 (JObj [(''error'', JStr ''Session not found'')]))
               | (d1, Some (Some _)) \<Rightarrow> collect d1)
         else collect d)"

section \<open>The sums are right\<close>

subsection \<open>Double addition\<close>

text \<open>Nothing is rounded off a number of at most 53 significant bits.\<close>

lemma to_double_exact:
  assumes "2 ^ j dvd n" and "\<bar>n\<bar> < 2 ^ (53 + j)" and "j \<le> 2045"
  shows "to_double n = Fin n"
proof -
  define q :: int where "q = 2 ^ (nat (bitlen \<bar>n\<bar>) - 53)"
  have "nat (bitlen \<bar>n\<bar>) \<le> 53 + j"
    using bitlen_le_iff_power [of "\<bar>n\<bar>" "53 + j"] assms(2) by (simp add: nat_le_iff nat_add_distrib)
  then have "q dvd 2 ^ j" unfolding q_def by (intro le_imp_power_dvd) simp
  then have "q dvd \<bar>n\<bar>" using assms(1) dvd_trans by simp
  then have whole: "\<bar>n\<bar> mod q = 0" "\<bar>n\<bar> div q * q = \<bar>n\<bar>" by simp_all
  have "q > 0" by (simp add: q_def)
  have "(2::int) ^ (53 + j) \<le> infinite_from"
    unfolding infinite_from_def using assms(3) by (intro power_increasing) simp_all
  then have small: "\<not> infinite_from \<le> \<bar>n\<bar>" using assms(2) by linarith
  define a where "a = \<bar>n\<bar>"
  have "(if q < 2 * (a mod q) \<or> (2 * (a mod q) = q \<and> odd (a div q)) then a div q + 1 else a div q) * q = a"
    using whole \<open>q > 0\<close> unfolding a_def [symmetric] by simp
  then have "to_double n = (if infinite_from \<le> a then Inf (n < 0) else Fin (if n < 0 then - a else a))"
    unfolding to_double_def Let_def a_def [symmetric] using q_def [folded a_def] by (simp only:)
  then show ?thesis using small by (simp add: a_def)
qed

definition js_sum :: "number \<Rightarrow> number list \<Rightarrow> number" where
  "js_sum s ns = foldl (\<lambda>s n. js_add (or_zero (Some s)) n) s ns"

lemma js_sum_append: "js_sum s (ns @ ms) = js_sum (js_sum s ns) ms"
  by (simp add: js_sum_def)

text \<open>The sum of whole multiples of a power of two is exact while 53 bits suffice.\<close>

lemma js_sum_exact:
  "\<forall>n \<in> set (s # ns). 2 ^ j dvd n \<Longrightarrow> \<bar>s\<bar> + (\<Sum>n \<leftarrow> ns. \<bar>n\<bar>) < 2 ^ (53 + j) \<Longrightarrow> j \<le> 2045
   \<Longrightarrow> js_sum (Fin s) (map Fin ns) = Fin (s + sum_list ns)"
proof (induction ns arbitrary: s)
  case (Cons n ns)
  have "0 \<le> (\<Sum>n \<leftarrow> ns. \<bar>n\<bar>)" by (intro sum_list_nonneg) auto
  then have "\<bar>s + n\<bar> < 2 ^ (53 + j)" using Cons.prems(2) by simp
  then have "to_double (s + n) = Fin (s + n)" using Cons.prems by (intro to_double_exact) auto
  then have "js_sum (Fin s) (map Fin (n # ns)) = js_sum (Fin (s + n)) (map Fin ns)"
    by (simp add: js_sum_def or_zero_def)
  also have "\<dots> = Fin (s + n + sum_list ns)"
    using Cons.prems by (intro Cons.IH) auto
  finally show ?case by (simp add: add.assoc)
qed (simp add: js_sum_def)

subsection \<open>The aggregates\<close>

definition sum_at :: "string \<Rightarrow> key_sums \<Rightarrow> number" where
  "sum_at k m = (case map_of m k of None \<Rightarrow> Fin 0 | Some n \<Rightarrow> n)"

text \<open>The reference: the numbers a list of reports holds under key \<open>k\<close>, directly from the documents.\<close>

definition figures_in :: "string \<Rightarrow> key_sums \<Rightarrow> number list" where
  "figures_in k kvs = map snd (filter (\<lambda>(k', n). k' = k) kvs)"

definition figures :: "string \<Rightarrow> string \<Rightarrow> usage_report list \<Rightarrow> number list" where
  "figures field k us =
     concat (map (\<lambda>u. figures_in k (the (numeric_entries (get_prop (Some (u_data u)) field)))) us)"

lemma sum_at_update: "sum_at k (AList.update k' n m) = (if k = k' then n else sum_at k m)"
  by (simp add: sum_at_def AList.update_conv')

lemma or_zero_sum_at: "or_zero (map_of m k) = or_zero (Some (sum_at k m))"
  by (simp add: sum_at_def or_zero_def split: option.splits)

lemma sum_at_add: "sum_at k (add_sums kvs m) = js_sum (sum_at k m) (figures_in k kvs)"
proof (induction kvs arbitrary: m)
  case (Cons kv kvs)
  obtain k' n where kv: "kv = (k', n)" by (cases kv)
  have "add_sums (kv # kvs) m = add_sums kvs (AList.update k' (js_add (or_zero (Some (sum_at k' m))) n) m)"
    by (simp add: add_sums_def kv or_zero_sum_at)
  then show ?case by (auto simp: Cons.IH kv sum_at_update js_sum_def figures_in_def)
qed (simp add: add_sums_def js_sum_def figures_in_def)

text \<open>What the aggregates hold of the reports added so far.\<close>

definition in_bucket :: "(ts \<Rightarrow> ts) \<Rightarrow> (ts \<Rightarrow> ts) \<Rightarrow> bool \<Rightarrow> int \<Rightarrow> usage_report list \<Rightarrow> usage_report list" where
  "in_bucket local instant by_hour b us =
     filter (\<lambda>u. usage_bucket local instant by_hour (u_createdAt u) = b) us"

definition sums_up :: "usage_report list \<Rightarrow> usage_agg \<Rightarrow> bool" where
  "sums_up us a =
     (ag_count a = length us
      \<and> (\<forall>k. sum_at k (ag_tokens a) = js_sum (Fin 0) (figures ''tokens'' k us)
           \<and> sum_at k (ag_cost a) = js_sum (Fin 0) (figures ''cost'' k us)))"

definition aggregates :: "(usage_report \<Rightarrow> int) \<Rightarrow> usage_report list \<Rightarrow> (int \<times> usage_agg) list \<Rightarrow> bool" where
  "aggregates bucket us aggs =
     (distinct (map fst aggs)
      \<and> (\<forall>b. case map_of aggs b of
               None \<Rightarrow> filter (\<lambda>u. bucket u = b) us = []
             | Some a \<Rightarrow> filter (\<lambda>u. bucket u = b) us \<noteq> [] \<and> sums_up (filter (\<lambda>u. bucket u = b) us) a))"

lemma sums_up_snoc:
  assumes "sums_up us a"
    and "numeric_entries (get_prop (Some (u_data u)) ''tokens'') = Some tokens"
    and "numeric_entries (get_prop (Some (u_data u)) ''cost'') = Some costs"
  shows "sums_up (us @ [u]) \<lparr>ag_tokens = add_sums tokens (ag_tokens a), ag_cost = add_sums costs (ag_cost a),
           ag_count = Suc (ag_count a)\<rparr>"
  using assms by (simp add: sums_up_def sum_at_add figures_def js_sum_append)

lemma sums_up_start: "sums_up [] \<lparr>ag_tokens = [], ag_cost = [], ag_count = 0\<rparr>"
  by (simp add: sums_up_def sum_at_def figures_def js_sum_def)

lemma add_report_aggregates:
  assumes ok: "aggregates (\<lambda>u. usage_bucket local instant h (u_createdAt u)) us aggs"
    and add: "add_report local instant h u aggs = Some aggs'"
  shows "aggregates (\<lambda>u. usage_bucket local instant h (u_createdAt u)) (us @ [u]) aggs'"
proof -
  define bucket where "bucket = (\<lambda>u :: usage_report. usage_bucket local instant h (u_createdAt u))"
  define a0 where "a0 = (case map_of aggs (bucket u) of None \<Rightarrow> \<lparr>ag_tokens = [], ag_cost = [], ag_count = 0\<rparr> | Some a \<Rightarrow> a)"
  obtain tokens costs where entries:
      "numeric_entries (get_prop (Some (u_data u)) ''tokens'') = Some tokens"
      "numeric_entries (get_prop (Some (u_data u)) ''cost'') = Some costs"
      "aggs' = AList.update (bucket u) \<lparr>ag_tokens = add_sums tokens (ag_tokens a0), ag_cost = add_sums costs (ag_cost a0),
         ag_count = Suc (ag_count a0)\<rparr> aggs"
    using add by (auto simp: add_report_def Let_def bucket_def a0_def split: option.splits)
  have old: "case map_of aggs b of None \<Rightarrow> filter (\<lambda>v. bucket v = b) us = []
      | Some a \<Rightarrow> filter (\<lambda>v. bucket v = b) us \<noteq> [] \<and> sums_up (filter (\<lambda>v. bucket v = b) us) a" for b
    using ok unfolding aggregates_def bucket_def by (elim conjE) (rule spec)
  have "sums_up (filter (\<lambda>v. bucket v = bucket u) us) a0"
    using old [of "bucket u"] sums_up_start by (simp add: a0_def split: option.splits)
  then have new: "sums_up (filter (\<lambda>v. bucket v = bucket u) us @ [u]) \<lparr>ag_tokens = add_sums tokens (ag_tokens a0),
      ag_cost = add_sums costs (ag_cost a0), ag_count = Suc (ag_count a0)\<rparr>"
    using entries(1,2) by (rule sums_up_snoc)
  have "case map_of aggs' b of None \<Rightarrow> filter (\<lambda>v. bucket v = b) (us @ [u]) = []
      | Some a \<Rightarrow> filter (\<lambda>v. bucket v = b) (us @ [u]) \<noteq> [] \<and> sums_up (filter (\<lambda>v. bucket v = b) (us @ [u])) a" for b
    using old [of b] new by (auto simp: entries(3) AList.update_conv' split: option.splits)
  moreover have "distinct (map fst aggs')"
    using ok by (simp add: entries(3) aggregates_def distinct_update)
  ultimately have "aggregates bucket (us @ [u]) aggs'" unfolding aggregates_def by blast
  then show ?thesis by (simp only: bucket_def)
qed

lemma add_reports_aggregates:
  "aggregates (\<lambda>u. usage_bucket local instant h (u_createdAt u)) us0 aggs
   \<Longrightarrow> add_reports local instant h us aggs = Some aggs'
   \<Longrightarrow> aggregates (\<lambda>u. usage_bucket local instant h (u_createdAt u)) (us0 @ us) aggs'"
proof (induction us arbitrary: us0 aggs)
  case (Cons u us)
  then obtain aggs1 where step: "add_report local instant h u aggs = Some aggs1"
      "add_reports local instant h us aggs1 = Some aggs'"
    by (auto split: option.splits)
  then show ?case using Cons.IH [OF add_report_aggregates [OF Cons.prems(1)]] by simp
qed simp

lemma sorted_aggregates:
  assumes "aggregates bucket us aggs"
  shows "sorted_wrt (<) (map fst (sort_key fst aggs))
     \<and> (\<forall>u \<in> set us. bucket u \<in> fst ` set aggs)
     \<and> (\<forall>(b, a) \<in> set (sort_key fst aggs). filter (\<lambda>u. bucket u = b) us \<noteq> [] \<and> sums_up (filter (\<lambda>u. bucket u = b) us) a)"
proof -
  have d: "distinct (map fst aggs)" using assms by (simp add: aggregates_def)
  have "distinct (map fst (sort_key fst aggs))"
    using d mset_eq_imp_distinct_iff [of "map fst (sort_key fst aggs)" "map fst aggs"] by simp
  then have "sorted_wrt (<) (map fst (sort_key fst aggs))" by (simp add: strict_sorted_iff)
  moreover have "bucket u \<in> fst ` set aggs" if "u \<in> set us" for u
  proof (rule ccontr)
    assume "bucket u \<notin> fst ` set aggs"
    then have "map_of aggs (bucket u) = None" by (simp add: map_of_eq_None_iff)
    then have "filter (\<lambda>v. bucket v = bucket u) us = []" using assms by (auto simp: aggregates_def dest: spec [of _ "bucket u"])
    then show False using that by (auto simp: filter_empty_conv)
  qed
  moreover have "filter (\<lambda>u. bucket u = b) us \<noteq> [] \<and> sums_up (filter (\<lambda>u. bucket u = b) us) a"
    if "(b, a) \<in> set aggs" for b a
  proof -
    have "map_of aggs b = Some a" using d that by simp
    then show ?thesis using assms by (auto simp: aggregates_def split: option.splits)
  qed
  ultimately show ?thesis by auto
qed

lemma sums_up_exact:
  assumes "sums_up us a"
  shows "ag_count a = length us
    \<and> (\<forall>k. sum_at k (ag_tokens a) = js_sum (Fin 0) (figures ''tokens'' k us)
         \<and> sum_at k (ag_cost a) = js_sum (Fin 0) (figures ''cost'' k us))
    \<and> (\<forall>k ns j. j \<le> 2045 \<and> (\<forall>n \<in> set ns. 2 ^ j dvd n) \<and> (\<Sum>n \<leftarrow> ns. \<bar>n\<bar>) < 2 ^ (53 + j) \<longrightarrow>
          (figures ''tokens'' k us = map Fin ns \<longrightarrow> sum_at k (ag_tokens a) = Fin (sum_list ns))
          \<and> (figures ''cost'' k us = map Fin ns \<longrightarrow> sum_at k (ag_cost a) = Fin (sum_list ns)))"
proof -
  have "js_sum (Fin 0) (map Fin ns) = Fin (sum_list ns)"
    if "j \<le> 2045" "\<forall>n \<in> set ns. 2 ^ j dvd n" "(\<Sum>n \<leftarrow> ns. \<bar>n\<bar>) < 2 ^ (53 + j)" for ns j
    using js_sum_exact [of 0 ns j] that by simp
  then show ?thesis using assms by (auto simp: sums_up_def)
qed

text \<open>
  C36.  A usage query sums up exactly the matching reports.  In every interleaving, a 200 answer
  lists strictly increasing time buckets; each has at least one report, its count is the number of
  matching reports of the account created in that bucket, and for every key its token and cost
  figures are the double sums, with rounding, of all numbers those reports hold under the key, from
  the newest report to the oldest; no matching report is left out.  Where those numbers are whole
  multiples of one power of two (token counts are whole numbers: j = 1074) and their sizes add up
  to less than 53 bits of it, the figure is their exact sum.
\<close>

theorem usage_query_exact:
  assumes "query_usage local instant w userId q d = (d', Reply 200 body)"
  shows "\<exists>aggs. Reply 200 body = usage_reply (uq_byHour q) (length (matching_reports userId q d')) aggs
     \<and> sorted_wrt (<) (map fst aggs)
     \<and> (\<forall>u \<in> set (matching_reports userId q d').
          usage_bucket local instant (uq_byHour q) (u_createdAt u) \<in> fst ` set aggs)
     \<and> (\<forall>(b, a) \<in> set aggs.
          let us = in_bucket local instant (uq_byHour q) b (newest_reports userId q d')
          in us \<noteq> [] \<and> ag_count a = length us
           \<and> (\<forall>k. sum_at k (ag_tokens a) = js_sum (Fin 0) (figures ''tokens'' k us)
                \<and> sum_at k (ag_cost a) = js_sum (Fin 0) (figures ''cost'' k us))
           \<and> (\<forall>k ns j. j \<le> 2045 \<and> (\<forall>n \<in> set ns. 2 ^ j dvd n) \<and> (\<Sum>n \<leftarrow> ns. \<bar>n\<bar>) < 2 ^ (53 + j) \<longrightarrow>
                (figures ''tokens'' k us = map Fin ns \<longrightarrow> sum_at k (ag_tokens a) = Fin (sum_list ns))
                \<and> (figures ''cost'' k us = map Fin ns \<longrightarrow> sum_at k (ag_cost a) = Fin (sum_list ns))))"
proof -
  let ?bucket = "\<lambda>u :: usage_report. usage_bucket local instant (uq_byHour q) (u_createdAt u)"
  obtain aggs where aggs: "add_reports local instant (uq_byHour q) (newest_reports userId q d') [] = Some aggs"
      "Reply 200 body = usage_reply (uq_byHour q) (length (newest_reports userId q d')) (sort_key fst aggs)"
    using assms
    by (auto simp: query_usage_def Let_def db_call_def split: option.splits if_splits prod.splits)
  have "aggregates ?bucket ([] @ newest_reports userId q d') aggs"
    using aggs(1) by (intro add_reports_aggregates [OF _ aggs(1)]) (simp add: aggregates_def)
  then have spec: "aggregates ?bucket (newest_reports userId q d') aggs" by simp
  have len: "length (newest_reports userId q d') = length (matching_reports userId q d')"
    and members: "set (newest_reports userId q d') = set (matching_reports userId q d')"
    by (simp_all add: newest_reports_def)
  note s = sorted_aggregates [OF spec]
  have each: "in_bucket local instant (uq_byHour q) (fst ba) (newest_reports userId q d') \<noteq> []
      \<and> sums_up (in_bucket local instant (uq_byHour q) (fst ba) (newest_reports userId q d')) (snd ba)"
    if "ba \<in> set (sort_key fst aggs)" for ba
    using s that unfolding in_bucket_def by (auto dest: bspec)
  have "case ba of (b, a) \<Rightarrow>
          let us = in_bucket local instant (uq_byHour q) b (newest_reports userId q d')
          in us \<noteq> [] \<and> ag_count a = length us
           \<and> (\<forall>k. sum_at k (ag_tokens a) = js_sum (Fin 0) (figures ''tokens'' k us)
                \<and> sum_at k (ag_cost a) = js_sum (Fin 0) (figures ''cost'' k us))
           \<and> (\<forall>k ns j. j \<le> 2045 \<and> (\<forall>n \<in> set ns. 2 ^ j dvd n) \<and> (\<Sum>n \<leftarrow> ns. \<bar>n\<bar>) < 2 ^ (53 + j) \<longrightarrow>
                (figures ''tokens'' k us = map Fin ns \<longrightarrow> sum_at k (ag_tokens a) = Fin (sum_list ns))
                \<and> (figures ''cost'' k us = map Fin ns \<longrightarrow> sum_at k (ag_cost a) = Fin (sum_list ns)))"
    if "ba \<in> set (sort_key fst aggs)" for ba
    unfolding case_prod_beta Let_def
    using each [OF that] sums_up_exact [OF conjunct2 [OF each [OF that]]] by blast
  moreover have "\<forall>u \<in> set (matching_reports userId q d'). ?bucket u \<in> fst ` set (sort_key fst aggs)"
    using s unfolding members by simp
  ultimately show ?thesis using s aggs(2) unfolding len by blast
qed

text \<open>The sum of the costs of the first day needs 54 bits, so it is rounded.\<close>

definition demo_usage :: "ident \<Rightarrow> ts \<Rightarrow> int \<Rightarrow> int \<Rightarrow> usage_report" where
  "demo_usage i created n c = new_usage i ''ann'' None i
     (JObj [(''tokens'', JObj [(''total'', JNum n)]), (''cost'', JObj [(''total'', JNum c)])]) created"

definition demo_usage_db :: db where
  "demo_usage_db = empty_db\<lparr>usageReports :=
     [demo_usage ''r1'' 1000 5 9007199254740992, demo_usage ''r2'' 90000000 7 1, demo_usage ''r3'' 2000 6 1]\<rparr>"

definition demo_query :: usage_query where
  "demo_query = \<lparr>uq_sessionId = None, uq_startTime = None, uq_endTime = None, uq_byHour = False\<rparr>"

lemma demo_query_answer:
  "query_usage id id quiet ''ann'' demo_query demo_usage_db =
     (demo_usage_db, usage_reply False 3
        [(0, \<lparr>ag_tokens = [(''total'', Fin 11)], ag_cost = [(''total'', Fin 9007199254740992)], ag_count = 2\<rparr>),
         (86400, \<lparr>ag_tokens = [(''total'', Fin 7)], ag_cost = [(''total'', Fin 1)], ag_count = 1\<rparr>)])"
  by code_simp

theorem usage_query_exact_witness:
  "length (matching_reports ''ann'' demo_query demo_usage_db) = 3"
proof -
  obtain aggs where "usage_reply False 3
        [(0, \<lparr>ag_tokens = [(''total'', Fin 11)], ag_cost = [(''total'', Fin 9007199254740992)], ag_count = 2\<rparr>),
         (86400, \<lparr>ag_tokens = [(''total'', Fin 7)], ag_cost = [(''total'', Fin 1)], ag_count = 1\<rparr>)]
      = usage_reply (uq_byHour demo_query) (length (matching_reports ''ann'' demo_query demo_usage_db)) aggs"
    using usage_query_exact [OF demo_query_answer [unfolded usage_reply_def]]
    by (elim exE conjE) (rule that, simp only: usage_reply_def)
  then show ?thesis by (simp add: usage_reply_def)
qed

end
