(* ===== verification/SocketServer.thy ===== *)
theory SocketServer
  imports Auth LeaseProtocol SessionUpdate
begin

text \<open>
  The life of a Socket.IO connection, \<^verbatim>\<open>api/socket.ts\<close>: the handshake middleware that authenticates
  a client and claims the runtime lease before CONNECT, the connection it builds, the rooms and
  registry it joins, and its disconnection.

  The order in which the server starts (Redis clients, adapter, bus and dispatcher) is in \<open>Startup\<close>; the
  packet handlers a connection installs are the theories of the components.
\<close>

section \<open>The handshake\<close>

text \<open>\<^verbatim>\<open>socket.data\<close> after the middleware; absent fields are \<open>None\<close>.\<close>

record socket_data =
  sd_userId :: ident
  sd_sessionInstanceId :: "ident option"
  sd_runtimeConnectionLeaseId :: "ident option"
  sd_replayOnly :: bool
  sd_replayRequestedSessionInstanceId :: "ident option"

datatype admission = Refuse string | Admit socket_data

definition nonempty_string :: "jsval \<Rightarrow> string option" where
  "nonempty_string v = (case as_string v of Some s \<Rightarrow> if s \<noteq> [] then Some s else None | None \<Rightarrow> None)"

definition client_is :: "string \<Rightarrow> jsval \<Rightarrow> bool" where
  "client_is kind auth = (get_prop auth ''clientType'' = Some (JStr kind))"

text \<open>The checks before the token is verified: the error, or the parsed instance id.\<close>

definition check_handshake :: "(string \<Rightarrow> bool) \<Rightarrow> jsval \<Rightarrow> string + ident option" where
  "check_handshake uuid_valid auth =
     (if nonempty_string (get_prop auth ''token'') = None then Inl ''Missing authentication token''
      else if client_is ''session-scoped'' auth \<and> nonempty_string (get_prop auth ''sessionId'') = None
      then Inl ''Session ID required for session-scoped clients''
      else if client_is ''machine-scoped'' auth \<and> nonempty_string (get_prop auth ''machineId'') = None
      then Inl ''Machine ID required for machine-scoped clients''
      else case parseSessionMessageLocalId uuid_valid (get_prop auth ''sessionInstanceId'') of
             None \<Rightarrow> Inl ''Invalid session instance ID''
           | Some localId \<Rightarrow> Inr localId)"

definition replay_only :: "jsval \<Rightarrow> bool" where
  "replay_only auth = (get_prop auth ''replayOnly'' = Some (JBool True))"

definition socket_data_of :: "ident \<Rightarrow> ident option \<Rightarrow> bool \<Rightarrow> claim_result option \<Rightarrow> socket_data" where
  "socket_data_of userId localId replay claim =
     \<lparr>sd_userId = userId,
      sd_sessionInstanceId =
        (case Option.bind claim ownedSessionInstanceId of Some i \<Rightarrow> Some i | None \<Rightarrow> localId),
      sd_runtimeConnectionLeaseId = Option.bind claim ownedLeaseId,
      sd_replayOnly = replay,
      sd_replayRequestedSessionInstanceId = (if replay then localId else None)\<rparr>"

definition evicted_rooms :: "ident \<Rightarrow> ident \<Rightarrow> claim_result \<Rightarrow> string list" where
  "evicted_rooms userId sid claim =
     (case displacedLeaseId claim of
        None \<Rightarrow> []
      | Some l \<Rightarrow>
          if l \<noteq> [] \<and> displacedLeaseId claim \<noteq> ownedLeaseId claim
          then [getRuntimeConnectionLeaseRoom userId sid l] else [])"

text \<open>
  The middleware: the state afterwards, the rooms whose sockets are disconnected, and the verdict.
  \<open>newLease\<close> and \<open>newTombstone\<close> are the UUIDs a claim draws, \<open>recoveredUser\<close> the account of a recovered socket.
\<close>

definition authorize_socket ::
  "(string \<Rightarrow> bool) \<Rightarrow> (string \<Rightarrow> claims option) \<Rightarrow> db sched \<Rightarrow> ts \<Rightarrow> ts \<Rightarrow> ident \<Rightarrow> ident \<Rightarrow> ident option \<Rightarrow> jsval
   \<Rightarrow> auth_state \<Rightarrow> auth_state \<times> string list \<times> admission" where
  "authorize_socket uuid_valid ver w jsnow dbNow newLease newTombstone recoveredUser auth s =
     (case s of (m, d) \<Rightarrow>
      if nullish auth then (s, [], Refuse ''Authentication failed'')
      else case check_handshake uuid_valid auth of
        Inl msg \<Rightarrow> (s, [], Refuse msg)
      | Inr localId \<Rightarrow>
          (case verifyToken ver (the (nonempty_string (get_prop auth ''token''))) jsnow m of
             (m1, VerifyThrew) \<Rightarrow> ((m1, d), [], Refuse ''Authentication failed'')
           | (m1, Invalid) \<Rightarrow> ((m1, d), [], Refuse ''Invalid authentication token'')
           | (m1, Verified userId _) \<Rightarrow>
               if truthy recoveredUser \<and> recoveredUser \<noteq> Some userId
               then ((m1, d), [], Refuse ''Recovered session account mismatch'')
               else if client_is ''session-scoped'' auth \<and> (localId \<noteq> None \<or> replay_only auth)
               then (let sid = the (nonempty_string (get_prop auth ''sessionId''));
                         inp = \<lparr>ci_accountId = userId, ci_sessionId = sid, ci_sessionInstanceId = localId,
                                ci_replayOnly = replay_only auth, ci_leaseId = newLease\<rparr>
                     in case db_call w 0 (claimRuntimeConnectionLease inp newTombstone dbNow) d of
                          (d1, None) \<Rightarrow> ((m1, d1), [], Refuse ''Authentication failed'')
                        | (d1, Some claim) \<Rightarrow>
                            if \<not> replay_only auth \<and> \<not> claimed claim
                            then ((m1, d1), [], Refuse ''Session not found'')
                            else ((m1, d1), evicted_rooms userId sid claim,
                                  Admit (socket_data_of userId localId (replay_only auth) (Some claim))))
               else ((m1, d), [], Admit (socket_data_of userId localId (replay_only auth) None))))"

section \<open>The connection\<close>

definition build_connection :: "ident \<Rightarrow> jsval \<Rightarrow> socket_data \<Rightarrow> connection" where
  "build_connection socketId auth sd =
     (case nonempty_string (get_prop auth ''sessionId'') of
        Some sid \<Rightarrow>
          if client_is ''session-scoped'' auth
          then SessionScoped \<lparr>sc_socketId = socketId, sc_userId = sd_userId sd, sc_sessionId = sid,
                 sc_sessionInstanceId = sd_sessionInstanceId sd,
                 sc_runtimeConnectionLeaseId = sd_runtimeConnectionLeaseId sd,
                 sc_runtimeConnectionLeaseRejected = False, sc_replayOnly = sd_replayOnly sd,
                 sc_replayRequestedSessionInstanceId = sd_replayRequestedSessionInstanceId sd\<rparr>
          else (case nonempty_string (get_prop auth ''machineId'') of
                  Some mid \<Rightarrow>
                    if client_is ''machine-scoped'' auth then MachineScoped socketId (sd_userId sd) mid
                    else UserScoped socketId (sd_userId sd)
                | None \<Rightarrow> UserScoped socketId (sd_userId sd))
      | None \<Rightarrow>
          (case nonempty_string (get_prop auth ''machineId'') of
             Some mid \<Rightarrow>
               if client_is ''machine-scoped'' auth then MachineScoped socketId (sd_userId sd) mid
               else UserScoped socketId (sd_userId sd)
           | None \<Rightarrow> UserScoped socketId (sd_userId sd)))"

definition machine_presence :: "connection \<Rightarrow> bool \<Rightarrow> ts \<Rightarrow> emission list" where
  "machine_presence conn online jsnow =
     (case conn of
        MachineScoped sock u mid \<Rightarrow>
          [EmitEphemeral u (buildMachineActivityEphemeral mid online jsnow) UserScopedOnly]
      | _ \<Rightarrow> [])"

text \<open>Joining: the rooms of the socket, the registry, and the daemon's presence.\<close>

definition on_connection ::
  "connection \<Rightarrow> ts \<Rightarrow> registry \<Rightarrow> registry \<times> string list \<times> emission list" where
  "on_connection conn jsnow reg =
     (addConnection (conn_userId conn) conn reg, getConnectionRooms conn, machine_presence conn True jsnow)"

text \<open>Leaving; an expiry that fails is only logged.\<close>

definition on_disconnect ::
  "db sched \<Rightarrow> ts \<Rightarrow> ts \<Rightarrow> ident \<Rightarrow> connection \<Rightarrow> registry \<times> db \<Rightarrow> (registry \<times> db) \<times> emission list" where
  "on_disconnect w jsnow dbNow tombstone conn s =
     (case s of (reg, d) \<Rightarrow>
      ((removeConnection (conn_userId conn) conn reg,
        (case conn of
           SessionScoped c \<Rightarrow>
             if truthy (sc_sessionInstanceId c) \<and> truthy (sc_runtimeConnectionLeaseId c)
             then fst (db_call w 0 (expireRuntimeConnectionLease (sc_userId c) (sc_sessionId c)
                         (the (sc_sessionInstanceId c)) (the (sc_runtimeConnectionLeaseId c)) tombstone dbNow) d)
             else d
         | _ \<Rightarrow> d)),
       machine_presence conn False jsnow))"

section \<open>A live claim\<close>

lemma claim_live_found:
  assumes "claim_live acct sid iid lease now d = (d', res)" and "claimed res"
  obtains c where "c \<in> set (sessions d)" "s_id c = sid" "s_accountId c = acct" "\<not> retired sid iid d"
    "d' = d\<lparr>retirements := retire_superseded sid (s_activeInstanceId c) iid now (retirements d),
        sessions := update_rows (\<lambda>r. s_id r = sid) (claim_live_row iid lease now) (sessions d)\<rparr>"
    "res = claim_success lease iid (s_runtimeConnectionLeaseId c)"
proof (cases "find_row (\<lambda>r. holds (live_candidate iid acct sid now d r)) (sessions d)")
  case None
  then show ?thesis using assms by (auto simp: claim_live_def not_claimed_def)
next
  case (Some c)
  then have c: "c \<in> set (sessions d)" "holds (live_candidate iid acct sid now d c)"
    using find_row_SomeD by fastforce+
  then have "s_id c = sid" "s_accountId c = acct" "\<not> retired sid iid d"
    by (auto simp: holds_live_candidate retired_def retired_in_def)
  then show ?thesis using assms Some c that by (auto simp: claim_live_def)
qed

lemma claimed_owner:
  assumes "keys_ok d" and "iid \<noteq> []" and "claim_live acct sid iid lease now d = (d', res)" and "claimed res"
  shows "isRuntimeConnectionOwner acct sid (Some iid) (Some lease) now d'"
proof -
  obtain c where c: "c \<in> set (sessions d)" "s_id c = sid" "s_accountId c = acct" "\<not> retired sid iid d"
    "d' = d\<lparr>retirements := retire_superseded sid (s_activeInstanceId c) iid now (retirements d),
        sessions := update_rows (\<lambda>r. s_id r = sid) (claim_live_row iid lease now) (sessions d)\<rparr>"
    using claim_live_found [OF assms(3,4)] by metis
  let ?r = "claim_live_row iid lease now c"
  have "?r \<in> set (sessions d')" using c(1,2) by (force simp: c(5) set_update_rows)
  moreover have "\<not> retired sid iid d'"
    using c(4) by (simp add: c(5) retired_def retired_in_superseded)
  moreover have "now < now + RUNTIME_CONNECTION_LEASE_DURATION_MS"
    by (simp add: RUNTIME_CONNECTION_LEASE_DURATION_MS_def)
  ultimately show ?thesis
    using c(2,3) by (auto simp: owner_live_iff [OF assms(2)] claim_live_row_def intro!: bexI [of _ ?r])
qed

lemma claim_live_row_cols [simp]:
  "s_id (claim_live_row iid lease now r) = s_id r"
  "s_runtimeConnectionLeaseId (claim_live_row iid lease now r) = Some lease"
  by (simp_all add: claim_live_row_def)

lemma session_lease_after_claim:
  assumes "r' \<in> set (update_rows (\<lambda>r. s_id r = sid) (claim_live_row iid lease now) rs)" and "s_id r' = sid"
  shows "s_runtimeConnectionLeaseId r' = Some lease"
proof -
  obtain r where "r' = (if s_id r = sid then claim_live_row iid lease now r else r)"
    using assms(1) unfolding set_update_rows by blast
  then show ?thesis using assms(2) by (cases "s_id r = sid") simp_all
qed

text \<open>A generation whose lease is off the row neither owns the session nor clears it by a late disconnect.\<close>

lemma displaced_off_row:
  assumes "\<forall>r \<in> set (sessions d). s_id r = sid \<longrightarrow> s_runtimeConnectionLeaseId r \<noteq> Some l" and "i \<noteq> []"
  shows "\<not> isRuntimeConnectionOwner acct sid (Some i) (Some l) now d"
    and "fst (expireRuntimeConnectionLease acct sid i l tombstone now d) = d"
proof -
  show "\<not> isRuntimeConnectionOwner acct sid (Some i) (Some l) now d"
    unfolding owner_live_iff [OF assms(2)] using assms(1) by blast
  have "\<not> holds (generation_cond acct sid i l d r)" if "r \<in> set (sessions d)" for r
    using assms(1) that by (auto simp: holds_generation_cond)
  then show "fst (expireRuntimeConnectionLease acct sid i l tombstone now d) = d"
    by (simp add: expireRuntimeConnectionLease_def update_rows_noop)
qed

lemma authorize_live:
  assumes "authorize_socket uuid_valid ver w jsnow dbNow newLease tomb rec auth (m, d) = ((m', d'), evicted, Admit sd)"
    and "client_is ''session-scoped'' auth" and "\<not> replay_only auth"
    and "get_prop auth ''sessionInstanceId'' = Some (JStr iid)"
  obtains userId sid res where "nonempty_string (get_prop auth ''sessionId'') = Some sid" "iid \<noteq> []"
    "claim_live userId sid iid newLease dbNow (interfere w 0 d) = (d', res)" "claimed res"
    "evicted = evicted_rooms userId sid res" "sd = socket_data_of userId (Some iid) False (Some res)"
proof -
  have parsed: "check_handshake uuid_valid auth = Inr x \<Longrightarrow> x = Some iid \<and> iid \<noteq> []
      \<and> (\<exists>sid. nonempty_string (get_prop auth ''sessionId'') = Some sid)" for x
    using assms(2,4) by (auto simp: check_handshake_def parseSessionMessageLocalId_def nullish_def split: if_splits)
  obtain x where x: "check_handshake uuid_valid auth = Inr x"
    using assms(1) by (cases "check_handshake uuid_valid auth") (auto simp: authorize_socket_def split: if_splits)
  with parsed obtain sid where sid: "x = Some iid" "iid \<noteq> []" "nonempty_string (get_prop auth ''sessionId'') = Some sid"
    by blast
  obtain m1 v where v: "verifyToken ver (the (nonempty_string (get_prop auth ''token''))) jsnow m = (m1, v)" by fastforce
  have nn: "\<not> nullish auth" using assms(1) by (auto simp: authorize_socket_def)
  obtain userId extras where user: "v = Verified userId extras"
    using assms(1) x nn v by (cases v) (auto simp: authorize_socket_def)
  have rec: "\<not> (truthy rec \<and> rec \<noteq> Some userId)"
    using assms(1) x nn v user by (auto simp: authorize_socket_def split: if_splits)
  define inp where "inp = \<lparr>ci_accountId = userId, ci_sessionId = sid, ci_sessionInstanceId = Some iid,
      ci_replayOnly = False, ci_leaseId = newLease\<rparr>"
  have claim: "claimRuntimeConnectionLease inp tomb dbNow = claim_live userId sid iid newLease dbNow"
    using sid(2) by (auto simp: claimRuntimeConnectionLease_def inp_def)
  obtain d1 r where call: "db_call w 0 (claimRuntimeConnectionLease inp tomb dbNow) d = (d1, r)" by fastforce
  then obtain res where r: "r = Some res"
    using assms(1-3) x nn v user rec sid by (cases r) (auto simp: authorize_socket_def inp_def Let_def)
  have "claim_live userId sid iid newLease dbNow (interfere w 0 d) = (d1, res)"
    using call r claim db_call_SomeD by metis
  moreover have "claimed res" "d' = d1" "evicted = evicted_rooms userId sid res"
      "sd = socket_data_of userId (Some iid) False (Some res)"
    using assms(1-3) x nn v user rec sid call r
    by (simp_all add: authorize_socket_def inp_def Let_def split: if_splits)
  ultimately show ?thesis using sid that by blast
qed

text \<open>
  C4.  A runtime that is let in owns its session from its first packet.  When the handshake of a
  live session runtime succeeds, whatever ran before its claim, its connection carries its instance and
  the drawn lease, joins the room of that lease, and is the owner of the session right after the
  claim; the sockets evicted are exactly those of the generation whose lease the claim replaced,
  never its own; and a replaced generation neither owns the session afterwards nor clears the new
  lease when its own disconnect arrives late.
\<close>

theorem handshake_installs_owner:
  assumes "authorize_socket uuid_valid ver w jsnow dbNow newLease tomb rec auth (m, d) = ((m', d'), evicted, Admit sd)"
    and "client_is ''session-scoped'' auth" and "\<not> replay_only auth"
    and "get_prop auth ''sessionInstanceId'' = Some (JStr iid)"
    and "keys_ok (interfere w 0 d)" and "newLease \<noteq> []"
    and "\<forall>r \<in> set (sessions (interfere w 0 d)). s_runtimeConnectionLeaseId r \<noteq> Some newLease"
  shows "\<exists>c r. build_connection sock auth sd = SessionScoped c
     \<and> sc_sessionInstanceId c = Some iid \<and> sc_runtimeConnectionLeaseId c = Some newLease
     \<and> getRuntimeConnectionLeaseRoom (sc_userId c) (sc_sessionId c) newLease \<in> set (getConnectionRooms (SessionScoped c))
     \<and> isRuntimeConnectionOwner (sc_userId c) (sc_sessionId c) (Some iid) (Some newLease) dbNow d'
     \<and> session_row (sc_sessionId c) (interfere w 0 d) = Some r
     \<and> evicted = (if truthy (s_runtimeConnectionLeaseId r)
          then [getRuntimeConnectionLeaseRoom (sc_userId c) (sc_sessionId c) (the (s_runtimeConnectionLeaseId r))] else [])
     \<and> getRuntimeConnectionLeaseRoom (sc_userId c) (sc_sessionId c) newLease \<notin> set evicted
     \<and> (\<forall>i l t. s_runtimeConnectionLeaseId r = Some l \<and> i \<noteq> [] \<longrightarrow>
          \<not> isRuntimeConnectionOwner (sc_userId c) (sc_sessionId c) (Some i) (Some l) t d'
        \<and> fst (expireRuntimeConnectionLease (sc_userId c) (sc_sessionId c) i l tomb' t d') = d')"
proof -
  let ?d = "interfere w 0 d"
  obtain userId sid res where h: "nonempty_string (get_prop auth ''sessionId'') = Some sid" "iid \<noteq> []"
    "claim_live userId sid iid newLease dbNow ?d = (d', res)" "claimed res"
    "evicted = evicted_rooms userId sid res" "sd = socket_data_of userId (Some iid) False (Some res)"
    using authorize_live [OF assms(1-4)] .
  obtain r where r: "r \<in> set (sessions ?d)" "s_id r = sid"
    "d' = ?d\<lparr>retirements := retire_superseded sid (s_activeInstanceId r) iid dbNow (retirements ?d),
        sessions := update_rows (\<lambda>r. s_id r = sid) (claim_live_row iid newLease dbNow) (sessions ?d)\<rparr>"
    "res = claim_success newLease iid (s_runtimeConnectionLeaseId r)"
    by (rule claim_live_found [OF h(3,4)]) (rule that; assumption)
  define c where "c = \<lparr>sc_socketId = sock, sc_userId = userId, sc_sessionId = sid, sc_sessionInstanceId = Some iid,
      sc_runtimeConnectionLeaseId = Some newLease, sc_runtimeConnectionLeaseRejected = False, sc_replayOnly = False,
      sc_replayRequestedSessionInstanceId = None\<rparr>"
  have c: "build_connection sock auth sd = SessionScoped c" "sc_userId c = userId" "sc_sessionId c = sid"
    "sc_sessionInstanceId c = Some iid" "sc_runtimeConnectionLeaseId c = Some newLease" "\<not> sc_replayOnly c"
    using h(1) assms(2)
    by (simp_all add: build_connection_def h(6) r(4) socket_data_of_def claim_success_def c_def)
  have row: "session_row sid ?d = Some r" using session_row_unique [OF assms(5) r(1)] r(2) by simp
  have owner: "isRuntimeConnectionOwner userId sid (Some iid) (Some newLease) dbNow d'"
    using claimed_owner [OF assms(5) h(2-4)] .
  have evicted: "evicted = (if truthy (s_runtimeConnectionLeaseId r)
      then [getRuntimeConnectionLeaseRoom userId sid (the (s_runtimeConnectionLeaseId r))] else [])"
    using assms(7) r(1) by (auto simp: h(5) r(4) evicted_rooms_def claim_success_def truthy_def split: option.splits)
  have off: "\<forall>r' \<in> set (sessions d'). s_id r' = sid \<longrightarrow> s_runtimeConnectionLeaseId r' \<noteq> Some l"
    if "s_runtimeConnectionLeaseId r = Some l" for l
  proof (intro ballI impI)
    fix r' assume "r' \<in> set (sessions d')" "s_id r' = sid"
    then have "s_runtimeConnectionLeaseId r' = Some newLease"
      using session_lease_after_claim [of r' sid iid newLease dbNow "sessions ?d"] by (simp add: r(3))
    then show "s_runtimeConnectionLeaseId r' \<noteq> Some l" using that assms(7) r(1) by auto
  qed
  have joins: "getRuntimeConnectionLeaseRoom userId sid newLease \<in> set (getConnectionRooms (SessionScoped c))"
    using c assms(6) by simp
  have own_room: "getRuntimeConnectionLeaseRoom userId sid newLease \<notin> set evicted"
    using assms(7) r(1) unfolding evicted
    by (cases "s_runtimeConnectionLeaseId r") (auto simp: getRuntimeConnectionLeaseRoom_def accountRoom_def)
  have gone: "\<not> isRuntimeConnectionOwner userId sid (Some i) (Some l) t d'
      \<and> fst (expireRuntimeConnectionLease userId sid i l tomb' t d') = d'"
    if "s_runtimeConnectionLeaseId r = Some l \<and> i \<noteq> []" for i l t
    using that displaced_off_row [OF off] by blast
  show ?thesis
    using c(1,4,5) row owner evicted joins own_room gone unfolding c(2,3) [symmetric] by blast
qed

definition demo_instance :: string where
  "demo_instance = ''123e4567-e89b-42d3-a456-426614174000''"

definition demo_handshake :: jsval where
  "demo_handshake = Some (JObj [(''token'', JStr ''Tann''), (''clientType'', JStr ''session-scoped''),
     (''sessionId'', JStr ''s1''), (''sessionInstanceId'', JStr demo_instance)])"

definition demo_left_db :: db where
  "demo_left_db = empty_db\<lparr>sessions :=
     [\<lparr>s_id = ''s1'', s_tag = ''t'', s_accountId = ''ann'', s_metadata = [], s_metadataVersion = 0,
       s_agentState = None, s_agentStateVersion = 0, s_dataEncryptionKey = None, s_seq = 0, s_active = True,
       s_activeInstanceId = Some ''i0'', s_runtimeConnectionLeaseId = Some ''L0'',
       s_runtimeConnectionLeaseInstanceId = Some ''i0'', s_runtimeConnectionLeaseExpiresAt = Some 400,
       s_lastActiveAt = 0, s_createdAt = 0, s_updatedAt = 0\<rparr>]\<rparr>"

definition demo_data :: socket_data where
  "demo_data = \<lparr>sd_userId = ''ann'', sd_sessionInstanceId = Some demo_instance,
     sd_runtimeConnectionLeaseId = Some ''L1'', sd_replayOnly = False, sd_replayRequestedSessionInstanceId = None\<rparr>"

definition demo_admitted :: "auth_state \<times> string list \<times> admission" where
  "demo_admitted = authorize_socket (\<lambda>_. True) demo_ver quiet 1 500 ''L1'' ''T1'' None demo_handshake
     (auth_init new_auth, demo_left_db)"

lemma demo_admission: "snd demo_admitted = ([getRuntimeConnectionLeaseRoom ''ann'' ''s1'' ''L0''], Admit demo_data)"
  by code_simp

lemma demo_left_ok: "keys_ok demo_left_db" "map s_runtimeConnectionLeaseId (sessions demo_left_db) = [Some ''L0'']"
  by code_simp+

theorem handshake_installs_owner_witness:
  "isRuntimeConnectionOwner ''ann'' ''s1'' (Some demo_instance) (Some ''L1'') 500 (snd (fst demo_admitted))"
proof -
  have run: "authorize_socket (\<lambda>_. True) demo_ver quiet 1 500 ''L1'' ''T1'' None demo_handshake
      (auth_init new_auth, demo_left_db)
    = ((fst (fst demo_admitted), snd (fst demo_admitted)), [getRuntimeConnectionLeaseRoom ''ann'' ''s1'' ''L0''], Admit demo_data)"
    using demo_admission unfolding demo_admitted_def [symmetric] by (metis prod.collapse)
  have built: "build_connection ''sock'' demo_handshake demo_data = SessionScoped c \<Longrightarrow>
      sc_userId c = ''ann'' \<and> sc_sessionId c = ''s1''" for c
    by (auto simp: build_connection_def demo_handshake_def nonempty_string_def client_is_def demo_data_def)
  have "\<forall>r \<in> set (sessions demo_left_db). s_runtimeConnectionLeaseId r \<noteq> Some ''L1''"
    using demo_left_ok(2) by (auto simp: demo_left_db_def)
  from handshake_installs_owner [OF run, where sock = "''sock''" and iid = demo_instance] this demo_left_ok(1) built
  show ?thesis
    by (fastforce simp: client_is_def replay_only_def demo_handshake_def)
qed

end
