(* ===== verification/Transactions.thy ===== *)
theory Transactions
  imports Prelude
begin

text \<open>
  Serializable transactions with callbacks, \<^verbatim>\<open>storage/inTx.ts\<close>.

  A transaction body maps the database it sees to the new database, its result and the callbacks it
  registered with \<^verbatim>\<open>afterTx\<close>; it is \<open>None\<close> when it throws.  What the database makes of an attempt is the
  choice of a \<open>tx_world\<close>: the other requests run first (\<open>tw_before\<close>), then the attempt is
  serialized as one step, or rolled back.  \<^verbatim>\<open>P2034\<close> is Prisma's code for a write conflict or deadlock, after
  which nothing of the attempt is stored; any other failure may be reported after a commit.
\<close>

datatype tx_verdict = Commits | Conflicts | Fails | CommitsUnseen

record 'd tx_world =
  tw_before :: "nat \<Rightarrow> 'd \<Rightarrow> 'd"
  tw_verdict :: "nat \<Rightarrow> tx_verdict"

type_synonym ('d, 'r, 'cb) tx_body = "'d \<Rightarrow> ('d \<times> 'r \<times> 'cb list) option"

datatype ('r, 'cb) tx_attempt = Committed 'r "'cb list" | Conflict | Failed

text \<open>\<^verbatim>\<open>afterTx\<close> appends to the list that \<^verbatim>\<open>wrapped\<close> reset when the attempt began.\<close>

definition afterTx :: "'cb \<Rightarrow> 'cb list \<Rightarrow> 'cb list" where
  "afterTx callback callbacks = callbacks @ [callback]"

definition transaction_attempt ::
  "'d tx_world \<Rightarrow> nat \<Rightarrow> ('d, 'r, 'cb) tx_body \<Rightarrow> 'd \<Rightarrow> 'd \<times> ('r, 'cb) tx_attempt" where
  "transaction_attempt w k fn d =
     (let d0 = tw_before w k d
      in case (tw_verdict w k, fn d0) of
           (Conflicts, _) \<Rightarrow> (d0, Conflict)
         | (_, None) \<Rightarrow> (d0, Failed)
         | (Commits, Some (d1, r, cbs)) \<Rightarrow> (d1, Committed r cbs)
         | (CommitsUnseen, Some (d1, r, cbs)) \<Rightarrow> (d1, Failed)
         | (Fails, Some _) \<Rightarrow> (d0, Failed))"

text \<open>
  How the call ended: the returned value (\<open>None\<close> when it throws), the callbacks that were run, in
  order, and the delays waited before the retries.  An error of a callback is swallowed, so the next
  one still runs.
\<close>

record ('r, 'cb) tx_outcome =
  tx_result :: "'r option"
  tx_callbacks :: "'cb list"
  tx_waits :: "int list"

text \<open>The loop; the first argument is what is left of the three retries (3 minus \<^verbatim>\<open>counter\<close>).\<close>

fun inTx_loop ::
  "nat \<Rightarrow> 'd tx_world \<Rightarrow> nat \<Rightarrow> int list \<Rightarrow> ('d, 'r, 'cb) tx_body \<Rightarrow> 'd \<Rightarrow> 'd \<times> ('r, 'cb) tx_outcome" where
  "inTx_loop left w counter waits fn d =
     (case transaction_attempt w counter fn d of
        (d1, Committed r cbs) \<Rightarrow> (d1, \<lparr>tx_result = Some r, tx_callbacks = cbs, tx_waits = waits\<rparr>)
      | (d1, Failed) \<Rightarrow> (d1, \<lparr>tx_result = None, tx_callbacks = [], tx_waits = waits\<rparr>)
      | (d1, Conflict) \<Rightarrow>
          (case left of
             0 \<Rightarrow> (d1, \<lparr>tx_result = None, tx_callbacks = [], tx_waits = waits\<rparr>)
           | Suc left' \<Rightarrow> inTx_loop left' w (counter + 1) (waits @ [int (counter + 1) * 100]) fn d1))"

declare inTx_loop.simps [simp del]

definition inTx :: "'d tx_world \<Rightarrow> ('d, 'r, 'cb) tx_body \<Rightarrow> 'd \<Rightarrow> 'd \<times> ('r, 'cb) tx_outcome" where
  "inTx w fn d = inTx_loop 3 w 0 [] fn d"

section \<open>The states the attempts see\<close>

text \<open>The database the \<open>k\<close>-th attempt sees when every earlier one was rolled back.\<close>

fun seen_by :: "'d tx_world \<Rightarrow> nat \<Rightarrow> 'd \<Rightarrow> 'd" where
  "seen_by w 0 d = tw_before w 0 d"
| "seen_by w (Suc k) d = tw_before w (Suc k) (seen_by w k d)"

definition waits_upto :: "nat \<Rightarrow> int list" where
  "waits_upto k = map (\<lambda>i. int (i + 1) * 100) [0..<k]"

lemma waits_upto_Suc [simp]: "waits_upto (Suc k) = waits_upto k @ [int (k + 1) * 100]" "waits_upto 0 = []"
  by (simp_all add: waits_upto_def)

text \<open>What one loop from the \<open>k\<close>-th attempt on amounts to.\<close>

definition tx_ended ::
  "'d tx_world \<Rightarrow> ('d, 'r, 'cb) tx_body \<Rightarrow> nat \<Rightarrow> 'd \<Rightarrow> 'd \<Rightarrow> ('r, 'cb) tx_outcome \<Rightarrow> bool" where
  "tx_ended w fn k d d' out =
     ((\<forall>j < k. tw_verdict w j = Conflicts) \<and> tx_waits out = waits_upto k \<and>
      (case fn (seen_by w k d) of
         Some (d1, r, cbs) \<Rightarrow>
           (case tw_verdict w k of
              Commits \<Rightarrow> d' = d1 \<and> tx_result out = Some r \<and> tx_callbacks out = cbs
            | CommitsUnseen \<Rightarrow> d' = d1 \<and> tx_result out = None \<and> tx_callbacks out = []
            | Fails \<Rightarrow> d' = seen_by w k d \<and> tx_result out = None \<and> tx_callbacks out = []
            | Conflicts \<Rightarrow> k = 3 \<and> d' = seen_by w k d \<and> tx_result out = None \<and> tx_callbacks out = [])
       | None \<Rightarrow> (tw_verdict w k = Conflicts \<longrightarrow> k = 3)
           \<and> d' = seen_by w k d \<and> tx_result out = None \<and> tx_callbacks out = []))"

lemma inTx_loop_ends:
  assumes "inTx_loop left w k (waits_upto k) fn d0 = (d', out)" and "left + k = 3"
    and "tw_before w k d0 = seen_by w k d" and "\<forall>j < k. tw_verdict w j = Conflicts"
  shows "\<exists>n \<le> 3. tx_ended w fn n d d' out"
  using assms
proof (induction left arbitrary: k d0)
  case 0
  then have "tx_ended w fn k d d' out"
    by (auto simp: inTx_loop.simps [of 0] transaction_attempt_def tx_ended_def Let_def
        split: tx_verdict.splits option.splits)
  with 0 show ?case by auto
next
  case (Suc left)
  show ?case
  proof (cases "tw_verdict w k = Conflicts")
    case True
    then have "inTx_loop left w (Suc k) (waits_upto (Suc k)) fn (seen_by w k d) = (d', out)"
      using Suc.prems(1,3) by (simp add: inTx_loop.simps [of "Suc left"] transaction_attempt_def Let_def)
    moreover have "left + Suc k = 3" "tw_before w (Suc k) (seen_by w k d) = seen_by w (Suc k) d"
      "\<forall>j < Suc k. tw_verdict w j = Conflicts"
      using Suc.prems(2,4) True by (simp_all add: less_Suc_eq)
    ultimately show ?thesis by (rule Suc.IH)
  next
    case False
    with Suc.prems have "tx_ended w fn k d d' out"
      by (auto simp: inTx_loop.simps [of "Suc left"] transaction_attempt_def tx_ended_def Let_def
          split: tx_verdict.splits option.splits)
    with Suc.prems(2) show ?thesis by (intro exI [of _ k]) simp
  qed
qed

lemma inTx_ends: "inTx w fn d = (d', out) \<Longrightarrow> \<exists>n \<le> 3. tx_ended w fn n d d' out"
  unfolding inTx_def using inTx_loop_ends [of 3 w 0 fn d d' out d] by simp

lemma tx_ended_result:
  assumes "tx_ended w fn k d d' out"
  shows "case tx_result out of
           Some r \<Rightarrow> fn (seen_by w k d) = Some (d', r, tx_callbacks out) \<and> tw_verdict w k = Commits
         | None \<Rightarrow> tx_callbacks out = [] \<and>
             (d' = seen_by w k d \<or> (tw_verdict w k = CommitsUnseen \<and> map_option fst (fn (seen_by w k d)) = Some d'))"
proof (cases "fn (seen_by w k d)")
  case None
  then show ?thesis using assms by (simp add: tx_ended_def)
next
  case (Some x)
  obtain d1 r cbs where x: "x = (d1, r, cbs)" by (cases x)
  show ?thesis using assms Some x by (cases "tw_verdict w k") (simp_all add: tx_ended_def)
qed

text \<open>A call returns when at most the first three attempts conflict and the body does not throw.\<close>

lemma tx_ended_unique:
  assumes "tx_ended w fn k d d' out" and "tw_verdict w n \<noteq> Conflicts" and "\<forall>j < n. tw_verdict w j = Conflicts"
    and "n \<le> 3" and "k \<le> 3"
  shows "k = n"
proof (rule ccontr)
  assume "k \<noteq> n"
  then consider "n < k" | "k < n" by linarith
  then show False
  proof cases
    case 1
    then show False using assms(1,2) by (auto simp: tx_ended_def)
  next
    case 2
    then have "tw_verdict w k = Conflicts" using assms(3) by simp
    then show False using assms(1,4) 2 by (auto simp: tx_ended_def split: option.splits)
  qed
qed

text \<open>
  C15.  A transaction takes effect once and its callbacks with it.  \<^verbatim>\<open>inTx\<close> makes at most four attempts,
  waits 100, 200 and 300 milliseconds before the retries, and only after write conflicts.  If it
  returns, exactly its last attempt is stored, the value returned and the callbacks run are those
  that attempt registered; the earlier attempts left neither data nor callbacks.  If it throws, no callback runs, and
  nothing is stored unless the database committed without its answer arriving.  It does return when
  the database conflicts at most three times and then commits a body that does not throw.
\<close>

theorem transaction_effects_once:
  assumes "inTx w fn d = (d', out)"
  shows "\<exists>k \<le> 3. tx_waits out = waits_upto k \<and> (\<forall>j < k. tw_verdict w j = Conflicts)
      \<and> (case tx_result out of
           Some r \<Rightarrow> fn (seen_by w k d) = Some (d', r, tx_callbacks out) \<and> tw_verdict w k = Commits
         | None \<Rightarrow> tx_callbacks out = [] \<and>
             (d' = seen_by w k d \<or> (tw_verdict w k = CommitsUnseen \<and> map_option fst (fn (seen_by w k d)) = Some d')))
      \<and> (\<forall>n \<le> 3. (\<forall>j < n. tw_verdict w j = Conflicts) \<and> tw_verdict w n = Commits \<and> fn (seen_by w n d) \<noteq> None
           \<longrightarrow> k = n \<and> tx_result out \<noteq> None)"
proof -
  obtain k where k: "k \<le> 3" and ended: "tx_ended w fn k d d' out" using inTx_ends [OF assms] by blast
  have "k = n \<and> tx_result out \<noteq> None"
    if n: "n \<le> 3" "\<forall>j < n. tw_verdict w j = Conflicts" "tw_verdict w n = Commits" "fn (seen_by w n d) \<noteq> None" for n
  proof -
    have "k = n" using tx_ended_unique [OF ended _ n(2,1) k] n(3) by simp
    then show ?thesis using ended n by (auto simp: tx_ended_def)
  qed
  moreover have "tx_waits out = waits_upto k" "\<forall>j < k. tw_verdict w j = Conflicts"
    using ended by (simp_all add: tx_ended_def)
  ultimately show ?thesis using k tx_ended_result [OF ended] by blast
qed

definition demo_tx_world :: "int tx_world" where
  "demo_tx_world = \<lparr>tw_before = (\<lambda>k d. d + 10), tw_verdict = (\<lambda>k. if k < 2 then Conflicts else Commits)\<rparr>"

lemma demo_tx_world_simps [simp]:
  "tw_before demo_tx_world k d = d + 10" "tw_verdict demo_tx_world k = (if k < 2 then Conflicts else Commits)"
  by (simp_all add: demo_tx_world_def)

theorem transaction_effects_once_witness:
  "\<exists>d' out. inTx demo_tx_world (\<lambda>d. Some (d + 1, ''ok'', [d])) 0 = (d', out)
     \<and> tx_result out = Some ''ok'' \<and> d' = 31 \<and> tx_callbacks out = [30] \<and> tx_waits out = [100, 200]"
proof -
  let ?fn = "\<lambda>d. Some (d + 1, ''ok'', [d]) :: (int \<times> string \<times> int list) option"
  obtain d' out where run: "inTx demo_tx_world ?fn 0 = (d', out)" by fastforce
  have third: "(2::nat) \<le> 3" "\<forall>j < (2::nat). tw_verdict demo_tx_world j = Conflicts" "tw_verdict demo_tx_world 2 = Commits"
    "?fn (seen_by demo_tx_world 2 0) \<noteq> None"
    by simp_all
  obtain k where k: "tx_waits out = waits_upto k" "k = 2" "tx_result out \<noteq> None"
    "case tx_result out of Some r \<Rightarrow> ?fn (seen_by demo_tx_world k 0) = Some (d', r, tx_callbacks out) \<and> tw_verdict demo_tx_world k = Commits
       | None \<Rightarrow> tx_callbacks out = [] \<and> (d' = seen_by demo_tx_world k 0 \<or> (tw_verdict demo_tx_world k = CommitsUnseen \<and> map_option fst (?fn (seen_by demo_tx_world k 0)) = Some d'))"
    using transaction_effects_once [OF run] third by blast
  then obtain r where "tx_result out = Some r" by blast
  with k run show ?thesis by (simp add: numeral_2_eq_2)
qed

end
