(* ===== verification/KvRoutes.thy ===== *)
theory KvRoutes
  imports KeyValue Transactions
begin

text \<open>
  The key-value routes, \<^verbatim>\<open>api/routes/kvRoutes.ts\<close>, over the operations of \<open>KeyValue\<close>, with the batch
  run by \<^verbatim>\<open>inTx\<close> and its notification as the callback registered with \<^verbatim>\<open>afterTx\<close>.  Request validation (the
  bounds on limits and batch sizes) is done before a handler runs.
\<close>

definition kv_error_reply :: "string \<Rightarrow> reply" where
  "kv_error_reply msg = Reply 500 (JObj [(''error'', JStr msg)])"

definition kv_item_json :: "kv_item \<Rightarrow> json" where
  "kv_item_json i = JObj [(''key'', JStr (ki_key i)), (''value'', JStr (ki_value i)), (''version'', JNum (ki_version i))]"

section \<open>Reads\<close>

definition kv_get_route :: "(bytes \<Rightarrow> string) \<Rightarrow> db sched \<Rightarrow> ident \<Rightarrow> string \<Rightarrow> db \<Rightarrow> db \<times> reply" where
  "kv_get_route enc w userId key d =
     (case db_call w 0 (\<lambda>d. (d, kvGet enc userId key d)) d of
        (d1, None) \<Rightarrow> (d1, kv_error_reply ''Failed to get value'')
      | (d1, Some None) \<Rightarrow> (d1, Reply 404 (JObj [(''error'', JStr ''Key not found'')]))
      | (d1, Some (Some i)) \<Rightarrow> (d1, Reply 200 (kv_item_json i)))"

text \<open>\<open>limit\<close> has its default of 100 when the query has none.\<close>

definition kv_list_route ::
  "(bytes \<Rightarrow> string) \<Rightarrow> db sched \<Rightarrow> ident \<Rightarrow> string option \<Rightarrow> nat option \<Rightarrow> db \<Rightarrow> db \<times> reply" where
  "kv_list_route enc w userId prefix queryLimit d =
     (let limit = (case queryLimit of None \<Rightarrow> 100 | Some n \<Rightarrow> n)
      in case db_call w 0 (\<lambda>d. (d, kvList enc userId prefix (Some limit) d)) d of
           (d1, None) \<Rightarrow> (d1, kv_error_reply ''Failed to list items'')
         | (d1, Some items) \<Rightarrow> (d1, Reply 200 (JObj [(''items'', JArr (map kv_item_json items))])))"

definition kv_bulk_route :: "(bytes \<Rightarrow> string) \<Rightarrow> db sched \<Rightarrow> ident \<Rightarrow> string list \<Rightarrow> db \<Rightarrow> db \<times> reply" where
  "kv_bulk_route enc w userId keys d =
     (case db_call w 0 (\<lambda>d. (d, kvBulkGet enc userId keys d)) d of
        (d1, None) \<Rightarrow> (d1, kv_error_reply ''Failed to get values'')
      | (d1, Some items) \<Rightarrow> (d1, Reply 200 (JObj [(''values'', JArr (map kv_item_json items))])))"

section \<open>The batch\<close>

text \<open>The body \<^verbatim>\<open>kvMutate\<close> hands to \<^verbatim>\<open>inTx\<close>: only a successful batch registers its notification.\<close>

definition kv_body ::
  "(bytes \<Rightarrow> string) \<Rightarrow> (string \<Rightarrow> bytes) \<Rightarrow> (string \<Rightarrow> bytes) \<Rightarrow> ident \<Rightarrow> kv_mutation list
   \<Rightarrow> (db, kv_result, kv_changes) tx_body" where
  "kv_body enc dec_new dec_upd uid ms d =
     map_option (\<lambda>(d', res, changes).
        (d', res, case res of KvSuccess _ \<Rightarrow> afterTx changes [] | KvFailure _ \<Rightarrow> []))
       (kvMutate enc dec_new dec_upd uid ms d)"

text \<open>
  The callbacks are not awaited; the one at position \<open>k\<close> runs its statement whenever it is its turn.  The
  callback is an asynchronous function, so \<^verbatim>\<open>inTx\<close> cannot catch its error: a rejected sequence
  allocation is an unhandled rejection, on which \<^verbatim>\<open>main.ts\<close> exits the process.
\<close>

datatype notified = Notified emission | UnhandledRejection

definition kv_notify ::
  "db sched \<Rightarrow> nat \<Rightarrow> ts \<Rightarrow> ident \<Rightarrow> ident \<Rightarrow> kv_changes \<Rightarrow> db \<Rightarrow> db \<times> notified" where
  "kv_notify w k now updId uid changes d =
     (case db_call w k (throwing (allocateUserSeq uid now)) d of
        (d1, Some (Some updateSeq)) \<Rightarrow>
          (d1, Notified (EmitUpdate uid (buildKVBatchUpdateUpdate changes updateSeq updId now) UserScopedOnly))
      | (d1, _) \<Rightarrow> (d1, UnhandledRejection))"

fun kv_notifications ::
  "db sched \<Rightarrow> nat \<Rightarrow> (nat \<Rightarrow> ts) \<Rightarrow> (nat \<Rightarrow> ident) \<Rightarrow> ident \<Rightarrow> kv_changes list \<Rightarrow> db \<Rightarrow> db \<times> notified list" where
  "kv_notifications w k clk updId uid [] d = (d, [])"
| "kv_notifications w k clk updId uid (c # cs) d =
     (case kv_notify w k (clk k) (updId k) uid c d of
        (d1, n) \<Rightarrow> (case kv_notifications w (k + 1) clk updId uid cs d1 of (d2, ns) \<Rightarrow> (d2, n # ns)))"

definition kv_error_json :: "kv_error \<Rightarrow> json" where
  "kv_error_json e =
     JObj [(''key'', JStr (ke_key e)), (''error'', JStr ''version-mismatch''),
       (''version'', JNum (ke_version e)), (''value'', nullable (ke_value e))]"

definition kv_result_json :: "string \<times> int \<Rightarrow> json" where
  "kv_result_json r = JObj [(''key'', JStr (fst r)), (''version'', JNum (snd r))]"

definition kv_mutate_reply :: "kv_result option \<Rightarrow> reply" where
  "kv_mutate_reply res =
     (case res of
        None \<Rightarrow> kv_error_reply ''Failed to mutate values''
      | Some (KvFailure errors) \<Rightarrow>
          Reply 409 (JObj [(''success'', JBool False), (''errors'', JArr (map kv_error_json errors))])
      | Some (KvSuccess results) \<Rightarrow>
          Reply 200 (JObj [(''success'', JBool True), (''results'', JArr (map kv_result_json results))]))"

definition kv_mutate_route ::
  "(bytes \<Rightarrow> string) \<Rightarrow> (string \<Rightarrow> bytes) \<Rightarrow> (string \<Rightarrow> bytes) \<Rightarrow> db tx_world \<Rightarrow> db sched \<Rightarrow> (nat \<Rightarrow> ts) \<Rightarrow> (nat \<Rightarrow> ident)
   \<Rightarrow> ident \<Rightarrow> kv_mutation list \<Rightarrow> db \<Rightarrow> db \<times> reply \<times> notified list" where
  "kv_mutate_route enc dec_new dec_upd tw w clk updId userId ms d =
     (case inTx tw (kv_body enc dec_new dec_upd userId ms) d of
        (d1, out) \<Rightarrow>
          (case kv_notifications w 0 clk updId userId (tx_callbacks out) d1 of
             (d2, ems) \<Rightarrow> (d2, kv_mutate_reply (tx_result out), ems)))"

section \<open>What the answer of a batch means\<close>

lemma kv_notifications_one:
  "snd (kv_notifications w k clk updId uid [c] d) = [UnhandledRejection]
   \<or> (\<exists>n. snd (kv_notifications w k clk updId uid [c] d)
        = [Notified (EmitUpdate uid (buildKVBatchUpdateUpdate c n (updId k) (clk k)) UserScopedOnly)])"
proof (cases "kv_notify w k (clk k) (updId k) uid c d")
  case (Pair d1 n)
  then show ?thesis by (cases n) (auto simp: kv_notify_def split: option.splits prod.splits)
qed

lemma kvMutate_cases:
  assumes "kvMutate enc dec_new dec_upd uid ms d = Some (d', res, changes)"
  obtains (Failure) "res = KvFailure (kv_errors enc uid ms d)" "kv_errors enc uid ms d \<noteq> []" "d' = d" "changes = []"
  | (Success) "res = KvSuccess (map (\<lambda>m. (mu_key m, new_version m)) ms)" "kv_errors enc uid ms d = []"
      "kv_apply dec_new dec_upd uid ms d = Some d'" "changes = map (\<lambda>m. (mu_key m, mu_value m, new_version m)) ms"
proof (cases "kv_errors enc uid ms d = []")
  case True
  then obtain d1 where "kv_apply dec_new dec_upd uid ms d = Some d1" "d' = d1"
    "res = KvSuccess (map (\<lambda>m. (mu_key m, new_version m)) ms)" "changes = map (\<lambda>m. (mu_key m, mu_value m, new_version m)) ms"
    using assms by (fastforce simp: kvMutate_def)
  with True show ?thesis by (intro Success) simp_all
next
  case False
  then show ?thesis using assms by (intro Failure) (auto simp: kvMutate_def)
qed

text \<open>The versions a store holds after a batch.\<close>

lemma kv_apply_versions:
  assumes "kv_apply dec_new dec_upd uid ms d = Some d'" and "distinct (map mu_key ms)"
  shows "(\<forall>m \<in> set ms. current_version uid (mu_key m) d' = new_version m)
       \<and> (\<forall>u k. u \<noteq> uid \<or> k \<notin> set (map mu_key ms) \<longrightarrow> kv_lookup u k d' = kv_lookup u k d)"
  using kv_apply_lookup [OF assms] by (auto simp: current_version_def)

text \<open>
  C16.  The answer to a batch tells what is stored, also under conflicts and retries.  When the
  route answers 200, one attempt saw every mutation name the current version, that attempt alone is
  stored (every key at its next version, other keys and accounts as that attempt saw them), and one
  notification is emitted with exactly these changes, unless allocating its sequence number fails,
  which is an unhandled rejection.  When it answers 409, nothing is stored, some
  mutation named a stale version, and nothing is emitted; when it answers 500, nothing is emitted.  The
  state before the notification is \<open>d1\<close>, the one the attempt saw \<open>d0\<close>.
\<close>

theorem kv_mutation_answer:
  assumes "distinct (map mu_key ms)"
    and "kv_mutate_route enc dec_new dec_upd tw w clk updId uid ms d = (d', Reply status body, ems)"
  shows "status \<in> {200, 409, 500} \<and> (status = 500 \<longrightarrow> ems = [])
    \<and> (\<exists>k \<le> 3. let d0 = seen_by tw k d; d1 = fst (inTx tw (kv_body enc dec_new dec_upd uid ms) d) in
        (status = 409 \<longrightarrow> d1 = d0 \<and> d' = d0 \<and> ems = []
           \<and> (\<exists>m \<in> set ms. current_version uid (mu_key m) d0 \<noteq> mu_version m))
      \<and> (status = 200 \<longrightarrow> (\<forall>m \<in> set ms. current_version uid (mu_key m) d0 = mu_version m
              \<and> current_version uid (mu_key m) d1 = new_version m)
           \<and> (\<forall>u j. u \<noteq> uid \<or> j \<notin> set (map mu_key ms) \<longrightarrow> kv_lookup u j d1 = kv_lookup u j d0)
           \<and> (ems = [UnhandledRejection] \<or> (\<exists>n. ems = [Notified (EmitUpdate uid (buildKVBatchUpdateUpdate
                 (map (\<lambda>m. (mu_key m, mu_value m, new_version m)) ms) n (updId 0) (clk 0)) UserScopedOnly)]))))"
proof -
  let ?body = "kv_body enc dec_new dec_upd uid ms"
  obtain d1 out where tx: "inTx tw ?body d = (d1, out)" by fastforce
  obtain d2 es where notify: "kv_notifications w 0 clk updId uid (tx_callbacks out) d1 = (d2, es)" by fastforce
  have route: "d' = d2" "ems = es" "kv_mutate_reply (tx_result out) = Reply status body"
    using assms(2) tx notify by (simp_all add: kv_mutate_route_def)
  obtain k where k: "k \<le> 3" and ended: "tx_ended tw ?body k d d1 out" using inTx_ends [OF tx] by blast
  note result = tx_ended_result [OF ended]
  show ?thesis
  proof (cases "tx_result out")
    case None
    then have "status = 500" "ems = []" using route result notify by (auto simp: kv_mutate_reply_def kv_error_reply_def)
    then show ?thesis using k by auto
  next
    case (Some res)
    then obtain changes where run: "kvMutate enc dec_new dec_upd uid ms (seen_by tw k d) = Some (d1, res, changes)"
      and cbs: "tx_callbacks out = (case res of KvSuccess _ \<Rightarrow> [changes] | KvFailure _ \<Rightarrow> [])"
      using result by (cases res) (auto simp: kv_body_def afterTx_def)
    from run show ?thesis
    proof (cases rule: kvMutate_cases)
      case Failure
      then have "status = 409" "ems = []" "d' = d1" using route Some cbs notify by (auto simp: kv_mutate_reply_def)
      then show ?thesis using k Failure tx
        by (intro conjI exI [of _ k]) (auto simp: kv_errors_def filter_empty_conv)
    next
      case Success
      then have "status = 200" using route(3) Some by (auto simp: kv_mutate_reply_def)
      moreover have "ems = [UnhandledRejection] \<or>
          (\<exists>n. ems = [Notified (EmitUpdate uid (buildKVBatchUpdateUpdate changes n (updId 0) (clk 0)) UserScopedOnly)])"
        using kv_notifications_one [of w 0 clk updId uid changes d1] notify route(2) cbs Success(1) by simp
      moreover have "\<forall>m \<in> set ms. current_version uid (mu_key m) (seen_by tw k d) = mu_version m"
        using Success(2) by (simp add: kv_errors_def filter_empty_conv)
      ultimately show ?thesis
        using k tx kv_apply_versions [OF Success(3) assms(1)] unfolding Success(4)
        by (intro conjI exI [of _ k]) (simp_all add: Let_def)
    qed
  qed
qed

definition demo_retry :: "db tx_world" where
  "demo_retry = \<lparr>tw_before = (\<lambda>_ d. d), tw_verdict = (\<lambda>k. if k = 0 then Conflicts else Commits)\<rparr>"

definition demo_kv_answer :: "db \<times> reply \<times> notified list" where
  "demo_kv_answer = kv_mutate_route id id id demo_retry quiet (\<lambda>_. 7) (\<lambda>_. ''upd'') ''u1'' demo_batch demo_kv"

lemma demo_kv_status: "(case fst (snd demo_kv_answer) of Reply s _ \<Rightarrow> s = 200 | Threw \<Rightarrow> False)"
  by code_simp

theorem kv_mutation_answer_witness:
  "\<exists>k \<le> 3. \<forall>m \<in> set demo_batch. current_version ''u1'' (mu_key m) (seen_by demo_retry k demo_kv) = mu_version m"
proof -
  obtain body where "fst (snd demo_kv_answer) = Reply 200 body"
    using demo_kv_status by (cases "fst (snd demo_kv_answer)") simp_all
  then have run: "kv_mutate_route id id id demo_retry quiet (\<lambda>_. 7) (\<lambda>_. ''upd'') ''u1'' demo_batch demo_kv = (fst demo_kv_answer, Reply 200 body, snd (snd demo_kv_answer))"
    unfolding demo_kv_answer_def [symmetric] by (metis prod.collapse)
  have "distinct (map mu_key demo_batch)" by code_simp
  from kv_mutation_answer [OF this run, unfolded Let_def]
  show ?thesis
    apply (elim conjE exE)
    apply (drule mp, rule refl)
    apply (elim conjE)
    apply (rule exI, rule conjI, assumption)
    apply (rule ballI)
    apply (drule bspec, assumption)
    apply (erule conjunct1)
    done
qed

text \<open>
  A batch that is stored and answered with 200, whose notification then ends as an unhandled rejection:
  the database commits and drops the connection before the sequence number is allocated.
\<close>

lemma kv_stored_then_unhandled:
  "case kv_mutate_route id id id demo_retry (quiet\<lparr>rejects := \<lambda>_. True\<rparr>) (\<lambda>_. 7) (\<lambda>_. ''upd'') ''u1'' demo_batch demo_kv of
     (d', rep, ns) \<Rightarrow> current_version ''u1'' ''a'' d' = 5 \<and> (case rep of Reply s _ \<Rightarrow> s = 200 | Threw \<Rightarrow> False)
       \<and> ns = [UnhandledRejection]"
  by code_simp

end
