(* ===== verification/AsyncLocks.thy ===== *)
theory AsyncLocks
  imports Main
begin

text \<open>
  The asynchronous lock under which a socket handles its messages and its usage reports one at a
  time, \<^verbatim>\<open>utils/lock.ts\<close>.

  \<^verbatim>\<open>inLock\<close> calls are numbered in the order they are made.  A call that may go on (\<^verbatim>\<open>lock()\<close>
  returned, \<^verbatim>\<open>func\<close> not settled) is \<open>lk_running\<close>; one whose resolver \<^verbatim>\<open>unlock\<close> handed to
  \<^verbatim>\<open>setTimeout\<close> is \<open>lk_resuming\<close>.  The lock allows any number of both; that there is at most one is the
  theorem.
\<close>

record lock_state =
  lk_permits :: nat
  lk_promiseResolverQueue :: "nat list"
  lk_running :: "nat list"
  lk_resuming :: "nat list"
  lk_finished :: "nat list"
  lk_calls :: nat
  lk_threw :: bool

definition new_lock :: lock_state where
  "new_lock = \<lparr>lk_permits = 1, lk_promiseResolverQueue = [], lk_running = [], lk_resuming = [],
     lk_finished = [], lk_calls = 0, lk_threw = False\<rparr>"

text \<open>\<^verbatim>\<open>lock()\<close> by the call \<open>t\<close>: it takes the permit or waits.\<close>

definition lock_acquire :: "nat \<Rightarrow> lock_state \<Rightarrow> lock_state" where
  "lock_acquire t l =
     (if 0 < lk_permits l
      then l\<lparr>lk_permits := lk_permits l - 1, lk_running := lk_running l @ [t]\<rparr>
      else l\<lparr>lk_promiseResolverQueue := lk_promiseResolverQueue l @ [t]\<rparr>)"

text \<open>\<^verbatim>\<open>unlock()\<close>; the flag records the error it may throw.\<close>

definition unlock :: "lock_state \<Rightarrow> lock_state" where
  "unlock l =
     (let l1 = l\<lparr>lk_permits := lk_permits l + 1\<rparr>
      in case lk_promiseResolverQueue l1 of
           [] \<Rightarrow> l1
         | t # waiting \<Rightarrow>
             if 1 < lk_permits l1 then l1\<lparr>lk_threw := True\<rparr>
             else if lk_permits l1 = 1
             then l1\<lparr>lk_permits := lk_permits l1 - 1, lk_promiseResolverQueue := waiting,
                     lk_resuming := lk_resuming l1 @ [t]\<rparr>
             else l1)"

text \<open>
  What the event loop does next: a new \<^verbatim>\<open>inLock\<close> call, the timer of a resumed call, or a running
  \<^verbatim>\<open>func\<close> that settles (with a value or an error: \<^verbatim>\<open>finally\<close> unlocks in both cases).
\<close>

datatype lock_event = CallInLock | FireTimer | Settle nat

inductive lock_step :: "lock_state \<Rightarrow> lock_event \<Rightarrow> lock_state \<Rightarrow> bool" where
  call: "lock_step l CallInLock (lock_acquire (lk_calls l) (l\<lparr>lk_calls := lk_calls l + 1\<rparr>))"
| fire: "lk_resuming l = t # ts \<Longrightarrow>
    lock_step l FireTimer (l\<lparr>lk_resuming := ts, lk_running := lk_running l @ [t]\<rparr>)"
| settle: "t \<in> set (lk_running l) \<Longrightarrow>
    lock_step l (Settle t) (unlock (l\<lparr>lk_running := remove1 t (lk_running l), lk_finished := lk_finished l @ [t]\<rparr>))"

code_pred lock_step .

inductive_cases lock_stepE: "lock_step l ev l'"

inductive lock_reachable :: "lock_state \<Rightarrow> bool" where
  start: "lock_reachable new_lock"
| step: "lock_reachable l \<Longrightarrow> lock_step l ev l' \<Longrightarrow> lock_reachable l'"

section \<open>One at a time, in order\<close>

definition lock_inv :: "lock_state \<Rightarrow> bool" where
  "lock_inv l =
     (lk_permits l + length (lk_resuming l) + length (lk_running l) = 1
      \<and> (lk_promiseResolverQueue l \<noteq> [] \<longrightarrow> lk_permits l = 0)
      \<and> lk_finished l @ lk_running l @ lk_resuming l @ lk_promiseResolverQueue l = [0..<lk_calls l]
      \<and> \<not> lk_threw l)"

lemma free_lock:
  assumes "lock_inv l" and "0 < lk_permits l"
  shows "lk_permits l = 1" "lk_running l = []" "lk_resuming l = []" "lk_promiseResolverQueue l = []"
  using assms by (cases "lk_running l"; cases "lk_resuming l"; auto simp: lock_inv_def)+

lemma acquire_inv:
  assumes "lock_inv l"
  shows "lock_inv (lock_acquire (lk_calls l) (l\<lparr>lk_calls := Suc (lk_calls l)\<rparr>))"
proof (cases "0 < lk_permits l")
  case True
  then show ?thesis using assms free_lock [OF assms True] by (auto simp: lock_inv_def lock_acquire_def)
next
  case False
  have "(lk_finished l @ lk_running l @ lk_resuming l @ lk_promiseResolverQueue l) @ [lk_calls l] = [0..<lk_calls l] @ [lk_calls l]"
    using assms by (simp add: lock_inv_def)
  with False show ?thesis using assms by (auto simp: lock_inv_def lock_acquire_def)
qed

lemma fire_inv:
  "lock_inv l \<Longrightarrow> lk_resuming l = t # ts \<Longrightarrow> lock_inv (l\<lparr>lk_resuming := ts, lk_running := lk_running l @ [t]\<rparr>)"
  by (auto simp: lock_inv_def)

lemma settle_inv:
  assumes "lock_inv l" and "t \<in> set (lk_running l)"
  shows "lock_inv (unlock (l\<lparr>lk_running := remove1 t (lk_running l), lk_finished := lk_finished l @ [t]\<rparr>))"
proof -
  have "lk_running l = [t]" "lk_resuming l = []" "lk_permits l = 0"
    using assms by (cases "lk_running l"; auto simp: lock_inv_def)+
  then show ?thesis using assms by (auto simp: lock_inv_def unlock_def Let_def split: list.splits)
qed

lemma lock_step_inv: "lock_step l ev l' \<Longrightarrow> lock_inv l \<Longrightarrow> lock_inv l'"
  by (erule lock_stepE) (simp_all add: acquire_inv settle_inv fire_inv)

lemma lock_reachable_inv: "lock_reachable l \<Longrightarrow> lock_inv l"
proof (induction rule: lock_reachable.induct)
  case start
  then show ?case by (simp add: lock_inv_def new_lock_def)
qed (rule lock_step_inv)

text \<open>Settling the running call and firing the timer bring every waiting call to its turn.\<close>

fun drain_lock :: "nat \<Rightarrow> lock_state \<Rightarrow> lock_state" where
  "drain_lock 0 l = l"
| "drain_lock (Suc n) l =
     (case lk_running l of
        t # _ \<Rightarrow> drain_lock n (unlock (l\<lparr>lk_running := remove1 t (lk_running l), lk_finished := lk_finished l @ [t]\<rparr>))
      | [] \<Rightarrow> (case lk_resuming l of
                t # ts \<Rightarrow> drain_lock n (l\<lparr>lk_resuming := ts, lk_running := [t]\<rparr>)
              | [] \<Rightarrow> l))"

lemma drain_lock_reachable: "lock_reachable l \<Longrightarrow> lock_reachable (drain_lock n l)"
proof (induction n arbitrary: l)
  case (Suc n)
  show ?case
  proof (cases "lk_running l")
    case (Cons t ts)
    then have "lock_step l (Settle t) (unlock (l\<lparr>lk_running := remove1 t (lk_running l), lk_finished := lk_finished l @ [t]\<rparr>))"
      by (intro lock_step.settle) simp
    then show ?thesis using Suc.IH Suc.prems Cons lock_reachable.step by simp
  next
    case Nil
    show ?thesis
    proof (cases "lk_resuming l")
      case (Cons t ts)
      then have "lock_step l FireTimer (l\<lparr>lk_resuming := ts, lk_running := lk_running l @ [t]\<rparr>)" by (rule lock_step.fire)
      then show ?thesis using Suc.IH Suc.prems Nil Cons lock_reachable.step by force
    qed (use Suc.prems Nil in simp)
  qed
qed simp

definition lock_work :: "lock_state \<Rightarrow> nat" where
  "lock_work l = length (lk_running l) + 2 * length (lk_resuming l) + 2 * length (lk_promiseResolverQueue l)"

lemma drain_lock_idle:
  assumes "lock_inv l" and "lock_work l \<le> n"
  shows "lk_finished (drain_lock n l) = [0..<lk_calls l] \<and> lk_permits (drain_lock n l) = 1"
  using assms
proof (induction n arbitrary: l)
  case 0
  then show ?case by (auto simp: lock_work_def lock_inv_def)
next
  case (Suc n)
  show ?case
  proof (cases "lk_running l")
    case (Cons t ts)
    let ?l = "unlock (l\<lparr>lk_running := remove1 t (lk_running l), lk_finished := lk_finished l @ [t]\<rparr>)"
    have "lock_inv ?l" using settle_inv [OF Suc.prems(1), of t] Cons by simp
    moreover have "lock_work ?l \<le> n" "lk_calls ?l = lk_calls l"
      using Suc.prems Cons by (auto simp: lock_work_def unlock_def Let_def lock_inv_def split: list.splits)
    ultimately show ?thesis using Suc.IH [of ?l] Cons by simp
  next
    case Nil
    show ?thesis
    proof (cases "lk_resuming l")
      case (Cons t ts)
      let ?l = "l\<lparr>lk_resuming := ts, lk_running := [t]\<rparr>"
      have "lock_inv ?l" "lock_work ?l \<le> n" "lk_calls ?l = lk_calls l"
        using Suc.prems Nil Cons by (auto simp: lock_work_def lock_inv_def)
      then show ?thesis using Suc.IH [of ?l] Nil Cons by simp
    next
      case none: Nil
      then have "lk_permits l = 1" "lk_promiseResolverQueue l = []"
        using Suc.prems(1) Nil by (auto simp: lock_inv_def)
      then show ?thesis using Suc.prems(1) Nil none by (simp add: lock_inv_def)
    qed
  qed
qed

text \<open>
  C37.  The asynchronous lock is exclusive, fair and never stuck.  In every order in which calls are
  made, timers fire and functions settle (with a value or an error), at most one function runs, the calls
  enter in the order they were made, and \<^verbatim>\<open>unlock\<close> never throws; a call waits only while another holds
  the lock, and once the functions settle and the timers fire, every call made so far has finished
  and the lock is free.
\<close>

theorem async_lock_fair:
  assumes "lock_reachable l"
  shows "length (lk_running l) + length (lk_resuming l) \<le> 1 \<and> \<not> lk_threw l
    \<and> lk_finished l @ lk_running l @ lk_resuming l @ lk_promiseResolverQueue l = [0..<lk_calls l]
    \<and> (lk_promiseResolverQueue l \<noteq> [] \<longrightarrow> lk_running l \<noteq> [] \<or> lk_resuming l \<noteq> [])
    \<and> (\<exists>n. lock_reachable (drain_lock n l) \<and> lk_permits (drain_lock n l) = 1
         \<and> lk_finished (drain_lock n l) = [0..<lk_calls l])"
proof -
  have inv: "lock_inv l" using assms by (rule lock_reachable_inv)
  then show ?thesis
    using drain_lock_reachable [OF assms] drain_lock_idle [OF inv order_refl]
    by (auto simp: lock_inv_def)
qed

theorem async_lock_fair_witness:
  "\<exists>l n. lk_running l = [0] \<and> lk_promiseResolverQueue l = [1] \<and> lk_finished (drain_lock n l) = [0, 1]"
proof -
  define l where "l = lock_acquire 1 (lock_acquire 0 (new_lock\<lparr>lk_calls := 1\<rparr>)\<lparr>lk_calls := 2\<rparr>)"
  have "lock_reachable (lock_acquire 0 (new_lock\<lparr>lk_calls := 1\<rparr>))"
    using lock_reachable.step [OF lock_reachable.start lock_step.call] by (simp add: new_lock_def)
  from lock_reachable.step [OF this lock_step.call] have reach: "lock_reachable l"
    by (simp add: l_def lock_acquire_def new_lock_def numeral_2_eq_2)
  have l: "lk_running l = [0]" "lk_promiseResolverQueue l = [1]" "lk_calls l = 2"
    by (simp_all add: l_def lock_acquire_def new_lock_def)
  obtain n where "lk_finished (drain_lock n l) = [0..<lk_calls l]" using async_lock_fair [OF reach] by blast
  then have "lk_finished (drain_lock n l) = [0, 1]" using l(3) by (simp add: numeral_2_eq_2)
  with l(1,2) show ?thesis by blast
qed

end
