(* ===== verification/Lru.thy ===== *)
theory Lru
  imports Main "HOL-Library.AList"
begin

text \<open>
  A bounded set that forgets the least recently used value, \<^verbatim>\<open>utils/lru.ts\<close>: a doubly linked list of
  nodes in a heap and a map from values to nodes, refined to a list of values, most recent first.

  Nodes are addresses; \<open>lr_heap\<close> gives their fields and \<open>lr_fresh\<close> the next \<^verbatim>\<open>new Node\<close>.  \<^verbatim>\<open>this.map\<close> is
  an association list, so that \<^verbatim>\<open>map.size\<close> is its length.
\<close>

section \<open>Nodes and their fields\<close>

record 'a node =
  nd_value :: 'a
  nd_prev :: "nat option"
  nd_next :: "nat option"

record 'a lru =
  lr_maxSize :: int
  lr_map :: "('a \<times> nat) list"
  lr_heap :: "nat \<Rightarrow> 'a node"
  lr_fresh :: nat
  lr_head :: "nat option"
  lr_tail :: "nat option"

definition set_prev :: "nat \<Rightarrow> nat option \<Rightarrow> (nat \<Rightarrow> 'a node) \<Rightarrow> nat \<Rightarrow> 'a node" where
  "set_prev a p h = h(a := (h a)\<lparr>nd_prev := p\<rparr>)"

definition set_next :: "nat \<Rightarrow> nat option \<Rightarrow> (nat \<Rightarrow> 'a node) \<Rightarrow> nat \<Rightarrow> 'a node" where
  "set_next a n h = h(a := (h a)\<lparr>nd_next := n\<rparr>)"

text \<open>\<^verbatim>\<open>if (node.prev) node.prev.next = node.next; if (node.next) node.next.prev = node.prev\<close>\<close>

definition bypass_node :: "nat \<Rightarrow> (nat \<Rightarrow> 'a node) \<Rightarrow> nat \<Rightarrow> 'a node" where
  "bypass_node a h =
     (let h1 = (case nd_prev (h a) of Some p \<Rightarrow> set_next p (nd_next (h a)) h | None \<Rightarrow> h)
      in case nd_next (h1 a) of Some n \<Rightarrow> set_prev n (nd_prev (h1 a)) h1 | None \<Rightarrow> h1)"

text \<open>Add to front: link before the head, then become the head, and the tail of an empty list.\<close>

definition add_to_front :: "nat \<Rightarrow> 'a lru \<Rightarrow> 'a lru" where
  "add_to_front a l =
     (let h1 = set_next a (lr_head l) (lr_heap l);
          h2 = (case lr_head l of Some b \<Rightarrow> set_prev b (Some a) h1 | None \<Rightarrow> h1)
      in l\<lparr>lr_heap := h2, lr_head := Some a, lr_tail := (if lr_tail l = None then Some a else lr_tail l)\<rparr>)"

section \<open>Operations\<close>

text \<open>The constructor throws for a maximum that is not positive.\<close>

definition new_LRUSet :: "'a node \<Rightarrow> int \<Rightarrow> 'a lru option" where
  "new_LRUSet blank maxSize =
     (if maxSize \<le> 0 then None
      else Some \<lparr>lr_maxSize = maxSize, lr_map = [], lr_heap = (\<lambda>_. blank), lr_fresh = 0,
                 lr_head = None, lr_tail = None\<rparr>)"

definition moveToFront :: "nat \<Rightarrow> 'a lru \<Rightarrow> 'a lru" where
  "moveToFront a l =
     (if lr_head l = Some a then l
      else let l1 = l\<lparr>lr_heap := bypass_node a (lr_heap l)\<rparr>;
               l2 = (if lr_tail l1 = Some a then l1\<lparr>lr_tail := nd_prev (lr_heap l1 a)\<rparr> else l1)
           in add_to_front a (l2\<lparr>lr_heap := set_prev a None (lr_heap l2)\<rparr>))"

definition remove_lru :: "'a lru \<Rightarrow> 'a lru" where
  "remove_lru l =
     (if lr_maxSize l < int (length (lr_map l))
      then (case lr_tail l of
              None \<Rightarrow> l
            | Some t \<Rightarrow>
                let l1 = l\<lparr>lr_map := AList.delete (nd_value (lr_heap l t)) (lr_map l),
                           lr_tail := nd_prev (lr_heap l t)\<rparr>
                in (case lr_tail l1 of
                      Some t' \<Rightarrow> l1\<lparr>lr_heap := set_next t' None (lr_heap l1)\<rparr>
                    | None \<Rightarrow> l1))
      else l)"

definition lru_add :: "'a \<Rightarrow> 'a lru \<Rightarrow> 'a lru" where
  "lru_add v l =
     (case map_of (lr_map l) v of
        Some a \<Rightarrow> moveToFront a l
      | None \<Rightarrow>
          let a = lr_fresh l;
              l1 = l\<lparr>lr_fresh := a + 1,
                     lr_heap := (lr_heap l)(a := \<lparr>nd_value = v, nd_prev = None, nd_next = None\<rparr>),
                     lr_map := AList.update v a (lr_map l)\<rparr>
          in remove_lru (add_to_front a l1))"

definition lru_has :: "'a \<Rightarrow> 'a lru \<Rightarrow> 'a lru \<times> bool" where
  "lru_has v l =
     (case map_of (lr_map l) v of Some a \<Rightarrow> (moveToFront a l, True) | None \<Rightarrow> (l, False))"

definition lru_delete :: "'a \<Rightarrow> 'a lru \<Rightarrow> 'a lru \<times> bool" where
  "lru_delete v l =
     (case map_of (lr_map l) v of
        None \<Rightarrow> (l, False)
      | Some a \<Rightarrow>
          let l1 = l\<lparr>lr_heap := bypass_node a (lr_heap l)\<rparr>;
              l2 = (if lr_head l1 = Some a then l1\<lparr>lr_head := nd_next (lr_heap l1 a)\<rparr> else l1);
              l3 = (if lr_tail l2 = Some a then l2\<lparr>lr_tail := nd_prev (lr_heap l2 a)\<rparr> else l2)
          in (l3\<lparr>lr_map := AList.delete v (lr_map l3)\<rparr>, v \<in> fst ` set (lr_map l3)))"

definition lru_clear :: "'a lru \<Rightarrow> 'a lru" where
  "lru_clear l = l\<lparr>lr_map := [], lr_head := None, lr_tail := None\<rparr>"

definition lru_size :: "'a lru \<Rightarrow> nat" where
  "lru_size l = length (lr_map l)"

text \<open>The generator \<^verbatim>\<open>values()\<close> read to its end; \<open>None\<close> if it never ends.\<close>

partial_function (option) lru_walk :: "(nat \<Rightarrow> 'a node) \<Rightarrow> nat option \<Rightarrow> 'a list option" where
  "lru_walk h current =
     (case current of
        None \<Rightarrow> Some []
      | Some a \<Rightarrow> Option.bind (lru_walk h (nd_next (h a))) (\<lambda>rest. Some (nd_value (h a) # rest)))"

definition toArray :: "'a lru \<Rightarrow> 'a list option" where
  "toArray l = lru_walk (lr_heap l) (lr_head l)"

section \<open>Linked lists\<close>

definition first_of :: "nat list \<Rightarrow> nat option \<Rightarrow> nat option" where
  "first_of as n = (case as of [] \<Rightarrow> n | a # _ \<Rightarrow> Some a)"

definition last_of :: "nat option \<Rightarrow> nat list \<Rightarrow> nat option" where
  "last_of p as = (if as = [] then p else Some (last as))"

text \<open>The nodes of the list from \<open>p\<close> to \<open>n\<close>, both exclusive.\<close>

fun linked :: "(nat \<Rightarrow> 'a node) \<Rightarrow> nat option \<Rightarrow> nat list \<Rightarrow> nat option \<Rightarrow> bool" where
  "linked h p [] n = True"
| "linked h p (a # as) n =
     (nd_prev (h a) = p \<and> nd_next (h a) = first_of as n \<and> linked h (Some a) as n)"

lemma ends_simps [simp]:
  "first_of [] n = n" "first_of (a # as) n = Some a" "last_of p [] = p" "last_of p (a # as) = Some (last (a # as))"
  "first_of (as @ bs) n = first_of as (first_of bs n)" "last_of p (as @ bs) = last_of (last_of p as) bs"
  by (auto simp: first_of_def last_of_def split: list.splits)

lemma linked_append [simp]:
  "linked h p (as @ bs) n = (linked h p as (first_of bs n) \<and> linked h (last_of p as) bs n)"
  by (induction as arbitrary: p) (auto simp: last_of_def)

lemma linked_cong: "(\<And>a. a \<in> set as \<Longrightarrow> h a = h' a) \<Longrightarrow> linked h p as n = linked h' p as n"
  by (induction as arbitrary: p) auto

lemma set_fields_other [simp]:
  "b \<noteq> a \<Longrightarrow> set_prev a p h b = h b" "b \<noteq> a \<Longrightarrow> set_next a n h b = h b"
  by (simp_all add: set_prev_def set_next_def)

lemma set_fields_at [simp]:
  "nd_prev (set_prev a p h a) = p" "nd_next (set_prev a p h a) = nd_next (h a)"
  "nd_next (set_next a n h a) = n" "nd_prev (set_next a n h a) = nd_prev (h a)"
  by (simp_all add: set_prev_def set_next_def)

lemma set_fields_value [simp]:
  "nd_value (set_prev a p h b) = nd_value (h b)" "nd_value (set_next a n h b) = nd_value (h b)"
  by (simp_all add: set_prev_def set_next_def)

lemma linked_untouched [simp]:
  "a \<notin> set as \<Longrightarrow> linked (set_prev a p' h) p as n = linked h p as n"
  "a \<notin> set as \<Longrightarrow> linked (set_next a n' h) p as n = linked h p as n"
  by (induction as arbitrary: p) simp_all

text \<open>Redirecting the last and the first node of a segment.\<close>

lemma linked_set_next:
  assumes "linked h p (as @ [a]) n" and "a \<notin> set as"
  shows "linked (set_next a n' h) p (as @ [a]) n'"
  using assms by simp

lemma linked_set_prev:
  assumes "linked h p (a # as) n" and "a \<notin> set as"
  shows "linked (set_prev a p' h) p' (a # as) n"
  using assms by simp

lemma bypass_value [simp]: "nd_value (bypass_node a h b) = nd_value (h b)"
  by (simp add: bypass_node_def Let_def split: option.splits)

lemma bypass_linked:
  assumes "linked h None (as @ a # bs) None" and "distinct (as @ a # bs)"
  shows "linked (bypass_node a h) None (as @ bs) None" and "bypass_node a h a = h a"
proof -
  have "linked (bypass_node a h) None (as @ bs) None \<and> bypass_node a h a = h a"
  proof (cases as rule: rev_cases)
    case Nil
    show ?thesis using assms Nil by (cases bs) (auto simp: bypass_node_def)
  next
    case (snoc cs c)
    show ?thesis
    proof (cases bs)
      case Nil
      then show ?thesis using assms snoc by (auto simp: bypass_node_def last_of_def)
    next
      case (Cons b ds)
      have "c \<noteq> b" "c \<noteq> a" "b \<noteq> a" "c \<notin> set cs" "c \<notin> set ds" "b \<notin> set cs" "b \<notin> set ds"
        using assms(2) snoc Cons by auto
      then show ?thesis using assms(1) snoc Cons by (auto simp: bypass_node_def Let_def)
    qed
  qed
  then show "linked (bypass_node a h) None (as @ bs) None" and "bypass_node a h a = h a" by simp_all
qed

section \<open>The list behind the pointers\<close>

definition chain :: "'a lru \<Rightarrow> nat list \<Rightarrow> bool" where
  "chain l as = (distinct as \<and> linked (lr_heap l) None as None
     \<and> lr_head l = first_of as None \<and> lr_tail l = last_of None as)"

definition values_of :: "'a lru \<Rightarrow> nat list \<Rightarrow> 'a list" where
  "values_of l as = map (\<lambda>a. nd_value (lr_heap l a)) as"

definition indexed :: "'a lru \<Rightarrow> nat list \<Rightarrow> bool" where
  "indexed l as = (distinct (map fst (lr_map l)) \<and> distinct (values_of l as)
     \<and> set (lr_map l) = (\<lambda>a. (nd_value (lr_heap l a), a)) ` set as \<and> (\<forall>a \<in> set as. a < lr_fresh l))"

definition lru_rep :: "'a lru \<Rightarrow> nat list \<Rightarrow> bool" where
  "lru_rep l as = (chain l as \<and> indexed l as \<and> int (length as) \<le> lr_maxSize l \<and> 0 < lr_maxSize l)"

lemma front_fields [simp]:
  "lr_map (add_to_front a l) = lr_map l" "lr_maxSize (add_to_front a l) = lr_maxSize l"
  "lr_fresh (add_to_front a l) = lr_fresh l" "nd_value (lr_heap (add_to_front a l) b) = nd_value (lr_heap l b)"
  by (simp_all add: add_to_front_def Let_def split: option.splits)

lemma add_to_front_chain:
  assumes "chain l as" and "a \<notin> set as" and "nd_prev (lr_heap l a) = None"
  shows "chain (add_to_front a l) (a # as)"
proof (cases as)
  case Nil
  then show ?thesis using assms by (simp add: chain_def add_to_front_def Let_def)
next
  case (Cons b bs)
  then show ?thesis using assms by (auto simp: chain_def add_to_front_def Let_def)
qed

lemma move_fields [simp]:
  "lr_map (moveToFront a l) = lr_map l" "lr_maxSize (moveToFront a l) = lr_maxSize l"
  "lr_fresh (moveToFront a l) = lr_fresh l" "nd_value (lr_heap (moveToFront a l) b) = nd_value (lr_heap l b)"
  by (simp_all add: moveToFront_def Let_def)

lemma bypass_ends:
  assumes "chain l (xs @ a # ys)"
  shows "(if lr_tail l = Some a then nd_prev (lr_heap l a) else lr_tail l) = last_of None (xs @ ys)"
    and "(if lr_head l = Some a then nd_next (lr_heap l a) else lr_head l) = first_of (xs @ ys) None"
  using assms by (cases ys rule: rev_cases; cases xs; auto simp: chain_def last_of_def)+

lemma moveToFront_chain:
  assumes "chain l (xs @ a # ys)"
  shows "chain (moveToFront a l) (a # xs @ ys)"
proof (cases "lr_head l = Some a")
  case True
  then have "xs = []" using assms by (cases xs) (auto simp: chain_def)
  then show ?thesis using assms True by (simp add: moveToFront_def)
next
  case False
  let ?h = "bypass_node a (lr_heap l)"
  define l2 where "l2 = (if lr_tail l = Some a then l\<lparr>lr_heap := ?h, lr_tail := nd_prev (?h a)\<rparr> else l\<lparr>lr_heap := ?h\<rparr>)"
  have d: "distinct (xs @ a # ys)" "linked (lr_heap l) None (xs @ a # ys) None"
    using assms by (simp_all add: chain_def)
  note bp = bypass_linked [OF d(2,1)]
  have "lr_head l2 = first_of (xs @ ys) None" "lr_tail l2 = last_of None (xs @ ys)"
    using bypass_ends [OF assms] False by (auto simp: l2_def bp(2))
  moreover have "lr_heap l2 = ?h" by (simp add: l2_def)
  ultimately have "chain (l2\<lparr>lr_heap := set_prev a None (lr_heap l2)\<rparr>) (xs @ ys)"
    using bp(1) d(1) by (simp add: chain_def)
  moreover have "moveToFront a l = add_to_front a (l2\<lparr>lr_heap := set_prev a None (lr_heap l2)\<rparr>)"
    using False by (simp add: moveToFront_def l2_def Let_def)
  moreover have "a \<notin> set (xs @ ys)" using d(1) by simp
  ultimately show ?thesis by (simp only: ) (rule add_to_front_chain; simp)
qed

lemma indexed_lookup:
  assumes "indexed l as"
  shows "map_of (lr_map l) v = Some a \<longleftrightarrow> a \<in> set as \<and> nd_value (lr_heap l a) = v"
  using assms by (auto simp: indexed_def)

lemma indexed_none: "indexed l as \<Longrightarrow> map_of (lr_map l) v = None \<longleftrightarrow> v \<notin> set (values_of l as)"
  by (auto simp: map_of_eq_None_iff indexed_def values_of_def image_iff)

lemma indexed_size:
  assumes "indexed l as" and "distinct as"
  shows "length (lr_map l) = length as"
proof -
  have "distinct (lr_map l)" using assms(1) by (auto simp: indexed_def distinct_map)
  then have "length (lr_map l) = card ((\<lambda>a. (nd_value (lr_heap l a), a)) ` set as)"
    using assms(1) by (metis distinct_card indexed_def)
  also have "\<dots> = card (set as)" by (rule card_image) (auto simp: inj_on_def)
  finally show ?thesis using assms(2) by (simp add: distinct_card)
qed

lemma split_at_value:
  assumes "indexed l as" and "a \<in> set as" and "nd_value (lr_heap l a) = v"
  obtains xs ys where "as = xs @ a # ys" "remove1 v (values_of l as) = values_of l (xs @ ys)"
proof -
  obtain xs ys where s: "as = xs @ a # ys" using split_list [OF assms(2)] by blast
  then have "v \<notin> set (values_of l xs)" using assms by (auto simp: indexed_def values_of_def)
  then have "remove1 v (values_of l as) = values_of l (xs @ ys)"
    using s assms(3) by (simp add: values_of_def remove1_append)
  with s that show ?thesis by blast
qed

section \<open>Operations on the list\<close>

definition touch :: "'a \<Rightarrow> 'a list \<Rightarrow> 'a list" where
  "touch v xs = (if v \<in> set xs then v # remove1 v xs else xs)"

lemma moveToFront_rep:
  assumes "lru_rep l as" and "map_of (lr_map l) v = Some a"
  obtains as' where "lru_rep (moveToFront a l) as'" "values_of (moveToFront a l) as' = touch v (values_of l as)"
proof -
  have a: "a \<in> set as" "nd_value (lr_heap l a) = v"
    using assms indexed_lookup [of l as v a] by (auto simp: lru_rep_def)
  obtain xs ys where s: "as = xs @ a # ys" "remove1 v (values_of l as) = values_of l (xs @ ys)"
    using split_at_value a assms(1) unfolding lru_rep_def by metis
  have "lru_rep (moveToFront a l) (a # xs @ ys)"
    using assms(1) moveToFront_chain [of l xs a ys]
    by (auto simp: lru_rep_def s(1) indexed_def values_of_def)
  moreover have "values_of (moveToFront a l) (a # xs @ ys) = touch v (values_of l as)"
    using s a by (auto simp: touch_def values_of_def)
  ultimately show ?thesis by (rule that)
qed

lemma indexed_delete:
  assumes "indexed l (xs @ a # ys)" and "nd_value (lr_heap l a) = v"
    and "lr_map l' = AList.delete v (lr_map l)" and "\<And>b. nd_value (lr_heap l' b) = nd_value (lr_heap l b)"
    and "lr_fresh l' = lr_fresh l"
  shows "indexed l' (xs @ ys)"
proof -
  have "distinct (values_of l xs @ v # values_of l ys)"
    using assms(1,2) by (simp add: indexed_def values_of_def)
  then have "v \<notin> set (values_of l (xs @ ys))" by (simp add: values_of_def)
  then have "\<forall>b \<in> set (xs @ ys). nd_value (lr_heap l b) \<noteq> v" unfolding values_of_def set_map by blast
  moreover have "set (lr_map l') = {p \<in> set (lr_map l). fst p \<noteq> v}" by (auto simp: assms(3) AList.delete_eq)
  ultimately have "set (lr_map l') = (\<lambda>b. (nd_value (lr_heap l' b), b)) ` set (xs @ ys)"
    using assms(1,2,4) by (auto simp: indexed_def)
  then show ?thesis
    using assms(1) by (auto simp: indexed_def values_of_def assms(3-5) distinct_delete)
qed

lemma remove_lru_rep:
  assumes "chain l as" and "indexed l as" and "int (length as) \<le> lr_maxSize l + 1" and "0 < lr_maxSize l"
  shows "\<exists>as'. lru_rep (remove_lru l) as' \<and> values_of (remove_lru l) as' = take (nat (lr_maxSize l)) (values_of l as)
     \<and> lr_maxSize (remove_lru l) = lr_maxSize l"
proof -
  have size: "length (lr_map l) = length as" using indexed_size [OF assms(2)] assms(1) by (simp add: chain_def)
  show ?thesis
  proof (cases "lr_maxSize l < int (length as)")
    case False
    then show ?thesis using assms size by (intro exI [of _ as]) (simp add: remove_lru_def lru_rep_def values_of_def)
  next
    case True
    then have len: "length as = nat (lr_maxSize l) + 1" using assms(3,4) by linarith
    then obtain bs t where as: "as = bs @ [t]" by (cases as rule: rev_cases) auto
    then have "bs \<noteq> []" using len assms(4) by auto
    then obtain cs u where bs: "bs = cs @ [u]" by (cases bs rule: rev_cases) auto
    define l' where "l' = l\<lparr>lr_map := AList.delete (nd_value (lr_heap l t)) (lr_map l), lr_tail := Some u,
        lr_heap := set_next u None (lr_heap l)\<rparr>"
    have tail: "lr_tail l = Some t" "nd_prev (lr_heap l t) = Some u"
      using assms(1) as bs by (simp_all add: chain_def last_of_def)
    then have remove: "remove_lru l = l'" using True size by (simp add: remove_lru_def Let_def l'_def)
    have "chain l' bs" using assms(1) as bs by (auto simp: chain_def l'_def last_of_def)
    moreover have "indexed l' (bs @ [])"
      using assms(2) as by (intro indexed_delete [of l bs t "[]"]) (simp_all add: l'_def)
    ultimately have "lru_rep l' bs" using len as assms(4) by (simp add: lru_rep_def l'_def)
    moreover have "values_of l' bs = take (nat (lr_maxSize l)) (values_of l as)"
      using len as by (simp add: values_of_def l'_def)
    ultimately show ?thesis using remove by (intro exI [of _ bs]) (simp add: l'_def)
  qed
qed

definition lru_spec_add :: "int \<Rightarrow> 'a \<Rightarrow> 'a list \<Rightarrow> 'a list" where
  "lru_spec_add maxSize v xs = (if v \<in> set xs then touch v xs else take (nat maxSize) (v # xs))"

lemma update_new: "k \<notin> fst ` set al \<Longrightarrow> AList.update k x al = al @ [(k, x)]"
  by (induction al) auto

lemma lru_add_rep:
  assumes "lru_rep l as"
  obtains as' where "lru_rep (lru_add v l) as'" "lr_maxSize (lru_add v l) = lr_maxSize l"
    "values_of (lru_add v l) as' = lru_spec_add (lr_maxSize l) v (values_of l as)"
proof (cases "map_of (lr_map l) v")
  case (Some a)
  then have "v \<in> set (values_of l as)" using assms indexed_none [of l as v] by (auto simp: lru_rep_def)
  then show ?thesis using moveToFront_rep [OF assms Some] that Some
    by (simp add: lru_add_def lru_spec_add_def) metis
next
  case None
  let ?a = "lr_fresh l"
  define l1 where "l1 = l\<lparr>lr_fresh := ?a + 1,
      lr_heap := (lr_heap l)(?a := \<lparr>nd_value = v, nd_prev = None, nd_next = None\<rparr>),
      lr_map := AList.update v ?a (lr_map l)\<rparr>"
  define l2 where "l2 = add_to_front ?a l1"
  have new: "v \<notin> set (values_of l as)" using assms None indexed_none [of l as v] by (auto simp: lru_rep_def)
  have fresh: "?a \<notin> set as" using assms by (auto simp: lru_rep_def indexed_def)
  have heap: "lr_heap l1 b = lr_heap l b" if "b \<in> set as" for b using that fresh by (auto simp: l1_def)
  have "linked (lr_heap l1) None as None"
    using assms linked_cong [of as "lr_heap l1" "lr_heap l"] heap by (simp add: lru_rep_def chain_def)
  then have chain1: "chain l1 as" using assms by (simp add: lru_rep_def chain_def l1_def)
  have chain2: "chain l2 (?a # as)"
    unfolding l2_def using chain1 fresh by (intro add_to_front_chain) (simp_all add: l1_def)
  have vals: "values_of l2 (?a # as) = v # values_of l as"
    using heap by (simp add: values_of_def l2_def) (simp add: l1_def)
  have keys: "v \<notin> fst ` set (lr_map l)" using None by (simp add: map_of_eq_None_iff)
  then have map: "lr_map l2 = lr_map l @ [(v, ?a)]" by (simp add: l2_def l1_def update_new)
  have "distinct (values_of l2 (?a # as))" using vals new assms by (simp add: lru_rep_def indexed_def)
  moreover have "nd_value (lr_heap l2 b) = (if b = ?a then v else nd_value (lr_heap l b))" for b
    by (simp add: l2_def) (simp add: l1_def)
  then have "set (lr_map l2) = (\<lambda>b. (nd_value (lr_heap l2 b), b)) ` set (?a # as)"
    unfolding map using assms fresh by (auto simp: lru_rep_def indexed_def image_def)
  moreover have "distinct (map fst (lr_map l2))"
    unfolding map using assms keys by (simp add: lru_rep_def indexed_def)
  moreover have "\<forall>b \<in> set (?a # as). b < lr_fresh l2"
    using assms by (auto simp: lru_rep_def indexed_def l2_def l1_def less_SucI)
  ultimately have "indexed l2 (?a # as)" by (simp add: indexed_def)
  moreover have "int (length (?a # as)) \<le> lr_maxSize l2 + 1" "0 < lr_maxSize l2" "lr_maxSize l2 = lr_maxSize l"
    using assms by (simp_all add: lru_rep_def l2_def l1_def)
  ultimately obtain as' where "lru_rep (remove_lru l2) as'" "lr_maxSize (remove_lru l2) = lr_maxSize l"
    "values_of (remove_lru l2) as' = take (nat (lr_maxSize l)) (v # values_of l as)"
    using remove_lru_rep [OF chain2] vals by metis
  moreover have "lru_add v l = remove_lru l2" using None by (simp add: lru_add_def l2_def l1_def Let_def)
  ultimately show ?thesis using new that by (simp add: lru_spec_add_def)
qed

lemma lru_has_rep:
  assumes "lru_rep l as"
  obtains as' where "lru_rep (fst (lru_has v l)) as'" "lr_maxSize (fst (lru_has v l)) = lr_maxSize l"
    "values_of (fst (lru_has v l)) as' = touch v (values_of l as)" "snd (lru_has v l) = (v \<in> set (values_of l as))"
proof (cases "map_of (lr_map l) v")
  case (Some a)
  moreover have "v \<in> set (values_of l as)" using assms Some indexed_none [of l as v] by (auto simp: lru_rep_def)
  ultimately show ?thesis using moveToFront_rep [OF assms Some] that by (simp add: lru_has_def) metis
next
  case None
  moreover have "v \<notin> set (values_of l as)" using assms None indexed_none [of l as v] by (auto simp: lru_rep_def)
  ultimately show ?thesis using assms that by (simp add: lru_has_def touch_def)
qed

lemma lru_delete_rep:
  assumes "lru_rep l as"
  obtains as' where "lru_rep (fst (lru_delete v l)) as'" "lr_maxSize (fst (lru_delete v l)) = lr_maxSize l"
    "values_of (fst (lru_delete v l)) as' = remove1 v (values_of l as)"
    "snd (lru_delete v l) = (v \<in> set (values_of l as))"
proof (cases "map_of (lr_map l) v")
  case None
  moreover have "v \<notin> set (values_of l as)" using assms None indexed_none [of l as v] by (auto simp: lru_rep_def)
  ultimately show ?thesis using assms that by (simp add: lru_delete_def remove1_idem)
next
  case (Some a)
  have ix: "chain l as" "indexed l as" "int (length as) \<le> lr_maxSize l" "0 < lr_maxSize l"
    using assms by (simp_all add: lru_rep_def)
  have a: "a \<in> set as" "nd_value (lr_heap l a) = v" using Some indexed_lookup [OF ix(2), of v a] by auto
  obtain xs ys where s: "as = xs @ a # ys" "remove1 v (values_of l as) = values_of l (xs @ ys)"
    using split_at_value [OF ix(2) a] .
  let ?h = "bypass_node a (lr_heap l)"
  have d: "distinct (xs @ a # ys)" "linked (lr_heap l) None (xs @ a # ys) None" "chain l (xs @ a # ys)"
    using ix(1) s(1) by (simp_all add: chain_def)
  note bp = bypass_linked [OF d(2,1)] and ends = bypass_ends [OF d(3)]
  define l' where "l' = fst (lru_delete v l)"
  have fields: "lr_heap l' = ?h" "lr_map l' = AList.delete v (lr_map l)" "lr_maxSize l' = lr_maxSize l"
    "lr_fresh l' = lr_fresh l" "lr_head l' = first_of (xs @ ys) None" "lr_tail l' = last_of None (xs @ ys)"
    using ends Some by (auto simp: l'_def lru_delete_def Let_def bp(2))
  have "chain l' (xs @ ys)" using bp(1) d(1) by (simp add: chain_def fields)
  moreover have "indexed l' (xs @ ys)"
    using ix(2) s(1) a(2) by (intro indexed_delete [of l xs a ys v]) (simp_all add: fields)
  ultimately have "lru_rep l' (xs @ ys)" using ix s(1) by (simp add: lru_rep_def fields)
  moreover have "values_of l' (xs @ ys) = values_of l (xs @ ys)" by (simp add: values_of_def fields)
  then have "values_of l' (xs @ ys) = remove1 v (values_of l as)" using s(2) by simp
  moreover have "v \<in> set (values_of l as)" "snd (lru_delete v l)"
    using a Some map_of_SomeD [OF Some, THEN imageI, of fst] by (auto simp: values_of_def lru_delete_def Let_def)
  ultimately show ?thesis using that fields(3) unfolding l'_def by simp
qed

lemma lru_walk_linked: "linked h p as None \<Longrightarrow> lru_walk h (first_of as None) = Some (map (\<lambda>a. nd_value (h a)) as)"
proof (induction as arbitrary: p)
  case Nil
  show ?case by (subst lru_walk.simps) simp
next
  case (Cons a as)
  then have "lru_walk h (first_of as None) = Some (map (\<lambda>a. nd_value (h a)) as)" "nd_next (h a) = first_of as None"
    by (auto intro: Cons.IH)
  then show ?case by (subst lru_walk.simps) simp
qed

section \<open>Refinement of the list\<close>

text \<open>The operations with their answers, on the pointers and on a list.\<close>

datatype 'a lru_op = LAdd 'a | LHas 'a | LDelete 'a | LClear

fun lru_apply :: "'a lru_op \<Rightarrow> 'a lru \<Rightarrow> 'a lru \<times> bool option" where
  "lru_apply (LAdd v) l = (lru_add v l, None)"
| "lru_apply (LHas v) l = (case lru_has v l of (l', b) \<Rightarrow> (l', Some b))"
| "lru_apply (LDelete v) l = (case lru_delete v l of (l', b) \<Rightarrow> (l', Some b))"
| "lru_apply LClear l = (lru_clear l, None)"

fun lru_spec :: "int \<Rightarrow> 'a lru_op \<Rightarrow> 'a list \<Rightarrow> 'a list \<times> bool option" where
  "lru_spec n (LAdd v) xs = (lru_spec_add n v xs, None)"
| "lru_spec n (LHas v) xs = (touch v xs, Some (v \<in> set xs))"
| "lru_spec n (LDelete v) xs = (remove1 v xs, Some (v \<in> set xs))"
| "lru_spec n LClear xs = ([], None)"

fun run_ops :: "('o \<Rightarrow> 's \<Rightarrow> 's \<times> 'b) \<Rightarrow> 'o list \<Rightarrow> 's \<Rightarrow> 's \<times> 'b list" where
  "run_ops step [] s = (s, [])"
| "run_ops step (x # xs) s =
     (case step x s of (s1, b) \<Rightarrow> (case run_ops step xs s1 of (s2, bs) \<Rightarrow> (s2, b # bs)))"

lemma lru_apply_rep:
  assumes "lru_rep l as"
  obtains as' where "lru_rep (fst (lru_apply x l)) as'" "lr_maxSize (fst (lru_apply x l)) = lr_maxSize l"
    "lru_spec (lr_maxSize l) x (values_of l as) = (values_of (fst (lru_apply x l)) as', snd (lru_apply x l))"
proof (cases x)
  case (LAdd v)
  obtain as' where "lru_rep (lru_add v l) as'" "lr_maxSize (lru_add v l) = lr_maxSize l"
    "values_of (lru_add v l) as' = lru_spec_add (lr_maxSize l) v (values_of l as)"
    using lru_add_rep [OF assms, of v] .
  with LAdd that [of as'] show ?thesis by simp
next
  case (LHas v)
  obtain as' where "lru_rep (fst (lru_has v l)) as'" "lr_maxSize (fst (lru_has v l)) = lr_maxSize l"
    "values_of (fst (lru_has v l)) as' = touch v (values_of l as)" "snd (lru_has v l) = (v \<in> set (values_of l as))"
    using lru_has_rep [OF assms, of v] .
  with LHas that [of as'] show ?thesis by (simp add: case_prod_beta)
next
  case (LDelete v)
  obtain as' where "lru_rep (fst (lru_delete v l)) as'" "lr_maxSize (fst (lru_delete v l)) = lr_maxSize l"
    "values_of (fst (lru_delete v l)) as' = remove1 v (values_of l as)"
    "snd (lru_delete v l) = (v \<in> set (values_of l as))"
    using lru_delete_rep [OF assms, of v] .
  with LDelete that [of as'] show ?thesis by (simp add: case_prod_beta)
next
  case LClear
  have "lru_rep (lru_clear l) []"
    using assms by (simp add: lru_rep_def chain_def indexed_def lru_clear_def values_of_def)
  then show ?thesis using LClear that [of "[]"] by (simp add: values_of_def lru_clear_def)
qed

lemma run_ops_rep:
  assumes "lru_rep l as"
  shows "\<exists>as'. lru_rep (fst (run_ops lru_apply xs l)) as' \<and> lr_maxSize (fst (run_ops lru_apply xs l)) = lr_maxSize l
    \<and> run_ops (lru_spec (lr_maxSize l)) xs (values_of l as)
      = (values_of (fst (run_ops lru_apply xs l)) as', snd (run_ops lru_apply xs l))"
  using assms
proof (induction xs arbitrary: l as)
  case Nil
  then show ?case by auto
next
  case (Cons x xs)
  obtain l1 b where step: "lru_apply x l = (l1, b)" by fastforce
  then obtain as1 where as1: "lru_rep l1 as1" "lr_maxSize l1 = lr_maxSize l"
    "lru_spec (lr_maxSize l) x (values_of l as) = (values_of l1 as1, b)"
    using lru_apply_rep [OF Cons.prems, of x] by (metis fst_conv snd_conv)
  obtain l2 bs where rest: "run_ops lru_apply xs l1 = (l2, bs)" by fastforce
  show ?case using Cons.IH [OF as1(1)] as1(2,3) step rest by auto
qed

lemma lru_rep_reads:
  assumes "lru_rep l as"
  shows "toArray l = Some (values_of l as)" "lru_size l = length (values_of l as)"
    "distinct (values_of l as)" "int (length (values_of l as)) \<le> lr_maxSize l"
  using assms lru_walk_linked [of "lr_heap l" None as] indexed_size [of l as]
  by (simp_all add: lru_rep_def chain_def indexed_def toArray_def lru_size_def values_of_def)

text \<open>
  C38.  The pointer structure of \<^verbatim>\<open>LRUSet\<close> implements a bounded most-recent-first list.  After any
  sequence of operations on a new set, reading \<^verbatim>\<open>values()\<close> ends and gives the list the abstract
  operations give (move to the front on use, drop the last when the maximum is exceeded), every
  \<^verbatim>\<open>has\<close> and \<^verbatim>\<open>delete\<close> answered as the list does, the size is the list's length, no value occurs twice and the maximum
  is never exceeded.
\<close>

theorem lru_refines_list:
  assumes "new_LRUSet blank n = Some l0" and "run_ops lru_apply xs l0 = (l, answers)"
  shows "\<exists>vs. run_ops (lru_spec n) xs [] = (vs, answers) \<and> toArray l = Some vs
     \<and> lru_size l = length vs \<and> distinct vs \<and> int (length vs) \<le> n"
proof -
  have "lru_rep l0 []" "values_of l0 [] = []" "lr_maxSize l0 = n"
    using assms(1) by (auto simp: new_LRUSet_def lru_rep_def chain_def indexed_def values_of_def split: if_splits)
  with run_ops_rep [of l0 "[]" xs] assms(2) obtain as' where "lru_rep l as'" "lr_maxSize l = n"
    "run_ops (lru_spec n) xs [] = (values_of l as', answers)"
    by auto
  with lru_rep_reads [of l as'] show ?thesis by auto
qed

definition demo_ops :: "nat lru_op list" where
  "demo_ops = [LAdd 1, LAdd 2, LHas 1, LAdd 3, LHas 2, LDelete 1]"

theorem lru_refines_list_witness:
  "\<exists>l0 l. new_LRUSet \<lparr>nd_value = 0, nd_prev = None, nd_next = None\<rparr> 2 = Some l0
     \<and> run_ops lru_apply demo_ops l0 = (l, [None, None, Some True, None, Some False, Some True])
     \<and> toArray l = Some [3]"
proof -
  let ?blank = "\<lparr>nd_value = 0 :: nat, nd_prev = None, nd_next = None\<rparr>"
  obtain l0 where l0: "new_LRUSet ?blank 2 = Some l0" by (simp add: new_LRUSet_def)
  obtain l answers where run: "run_ops lru_apply demo_ops l0 = (l, answers)" by fastforce
  have "run_ops (lru_spec 2) demo_ops [] = ([3], [None, None, Some True, None, Some False, Some True])"
    by code_simp
  with lru_refines_list [OF l0 run] l0 run show ?thesis by auto
qed

end
