(* ===== verification/Shutdown.thy ===== *)
theory Shutdown
  imports Text
begin

text \<open>
  Stopping the server: the bounded shutdown of the socket runtime
  (\<^verbatim>\<open>api/socket/shutdownSocketRuntime.ts\<close>) and the registry of shutdown handlers
  (\<^verbatim>\<open>utils/shutdown.ts\<close>).

  What an external operation does is an \<open>outcome\<close>: it settles or rejects after some milliseconds, or
  never settles.  A synchronous throw is a rejection after 0.  An operation that takes exactly the
  time-out counts as too late.  The callers pass no time-outs, so the defaults apply; one that is
  given is taken as it is (Node's timers take 1 to 2147483647 milliseconds).
\<close>

section \<open>Bounded waits\<close>

datatype outcome = Settles nat | Rejects nat string | Hangs

definition DEFAULT_PHASE_TIMEOUT_MS :: nat where
  "DEFAULT_PHASE_TIMEOUT_MS = 6000"

definition DEFAULT_REDIS_QUIT_TIMEOUT_MS :: nat where
  "DEFAULT_REDIS_QUIT_TIMEOUT_MS = 2000"

text \<open>The result, the failures pushed and the time taken.\<close>

definition runBounded :: "string \<Rightarrow> outcome \<Rightarrow> nat \<Rightarrow> bool \<times> string list \<times> nat" where
  "runBounded label operation timeoutMs =
     (let timed_out = (False, [label @ '': timed out after '' @ show_int (int timeoutMs) @ ''ms''], timeoutMs)
      in case operation of
           Settles t \<Rightarrow> if t < timeoutMs then (True, [], t) else timed_out
         | Rejects t msg \<Rightarrow> if t < timeoutMs then (False, [label @ '': '' @ msg], t) else timed_out
         | Hangs \<Rightarrow> timed_out)"

text \<open>\<^verbatim>\<open>Promise.all\<close>: the first rejection, or the last to settle.\<close>

definition settle_time :: "outcome \<Rightarrow> nat" where
  "settle_time out = (case out of Settles t \<Rightarrow> t | Rejects t _ \<Rightarrow> t | Hangs \<Rightarrow> 0)"

definition is_rejection :: "outcome \<Rightarrow> bool" where
  "is_rejection out = (case out of Rejects _ _ \<Rightarrow> True | _ \<Rightarrow> False)"

definition promise_all :: "outcome list \<Rightarrow> outcome" where
  "promise_all outs =
     (case sort_key settle_time (filter is_rejection outs) of
        first # _ \<Rightarrow> first
      | [] \<Rightarrow> if Hangs \<in> set outs then Hangs else Settles (foldr max (map settle_time outs) 0))"

section \<open>The phases\<close>

text \<open>A Redis client: its \<^verbatim>\<open>quit\<close> and, if it has one, its \<^verbatim>\<open>disconnect\<close>, which may throw.\<close>

record redis_client =
  rc_quit :: outcome
  rc_disconnect :: "string option option"

record shutdown_input =
  si_io :: outcome
  si_rpcLifecycles :: "outcome list"
  si_notificationDispatcher :: outcome
  si_notificationBus :: outcome
  si_redisClients :: "redis_client list"
  si_phaseTimeoutMs :: "nat option"
  si_redisQuitTimeoutMs :: "nat option"

datatype runtime_call =
    CloseIo | CloseLifecycle nat | StopDispatcher | StopBus | QuitRedis nat | DisconnectRedis nat

text \<open>The calls made so far with their times, the failures in the order they are pushed, and the clock.\<close>

record shutdown_run =
  sr_calls :: "(nat \<times> runtime_call) list"
  sr_failures :: "string list"
  sr_clock :: nat

definition run_phase :: "string \<Rightarrow> runtime_call list \<Rightarrow> outcome \<Rightarrow> nat \<Rightarrow> shutdown_run \<Rightarrow> shutdown_run" where
  "run_phase label calls operation timeoutMs r =
     (case runBounded label operation timeoutMs of
        (_, failed, t) \<Rightarrow>
          r\<lparr>sr_calls := sr_calls r @ map (Pair (sr_clock r)) calls,
            sr_failures := sr_failures r @ failed, sr_clock := sr_clock r + t\<rparr>)"

definition redis_label :: "nat \<Rightarrow> string \<Rightarrow> string" where
  "redis_label i what = ''Redis client '' @ show_int (int (i + 1)) @ '' '' @ what"

text \<open>One client: the time its task ends, the failures it pushes then, and whether it is disconnected.\<close>

definition quit_client :: "nat \<Rightarrow> nat \<Rightarrow> redis_client \<Rightarrow> nat \<times> string list \<times> bool" where
  "quit_client timeoutMs i c =
     (case runBounded (redis_label i ''quit'') (rc_quit c) timeoutMs of
        (quitCleanly, failed, t) \<Rightarrow>
          if quitCleanly then (t, failed, False)
          else (case rc_disconnect c of
                  None \<Rightarrow> (t, failed, False)
                | Some None \<Rightarrow> (t, failed, True)
                | Some (Some msg) \<Rightarrow> (t, failed @ [redis_label i ''disconnect'' @ '': '' @ msg], True)))"

text \<open>The clients are closed at once; their failures are pushed in the order the tasks end.\<close>

definition quit_clients :: "nat \<Rightarrow> redis_client list \<Rightarrow> shutdown_run \<Rightarrow> shutdown_run" where
  "quit_clients timeoutMs clients r =
     (let tasks = map (\<lambda>(i, c). (i, quit_client timeoutMs i c)) (enumerate 0 clients);
          ended = sort_key (\<lambda>(i, t, _). t) tasks
      in r\<lparr>sr_calls := sr_calls r @ map (\<lambda>i. (sr_clock r, QuitRedis i)) [0..<length clients]
             @ List.map_filter (\<lambda>(i, t, _, dropped). if dropped then Some (sr_clock r + t, DisconnectRedis i) else None) ended,
           sr_failures := sr_failures r @ concat (map (\<lambda>(i, t, failed, _). failed) ended),
           sr_clock := sr_clock r + foldr max (map (\<lambda>(i, t, _). t) tasks) 0\<rparr>)"

definition shutdown_phases :: "shutdown_input \<Rightarrow> shutdown_run" where
  "shutdown_phases inp =
     (let phase = (case si_phaseTimeoutMs inp of None \<Rightarrow> DEFAULT_PHASE_TIMEOUT_MS | Some n \<Rightarrow> n);
          redis = (case si_redisQuitTimeoutMs inp of None \<Rightarrow> DEFAULT_REDIS_QUIT_TIMEOUT_MS | Some n \<Rightarrow> n);
          r0 = \<lparr>sr_calls = [], sr_failures = [], sr_clock = 0\<rparr>;
          r1 = run_phase ''Socket.IO close'' [CloseIo] (si_io inp) phase r0;
          r2 = run_phase ''RPC registration cleanup'' (map CloseLifecycle [0..<length (si_rpcLifecycles inp)])
                 (promise_all (si_rpcLifecycles inp)) phase r1;
          r3 = run_phase ''notification dispatcher stop'' [StopDispatcher] (si_notificationDispatcher inp) phase r2;
          r4 = run_phase ''notification bus stop'' [StopBus] (si_notificationBus inp) phase r3
      in quit_clients redis (si_redisClients inp) r4)"

fun join_failures :: "string list \<Rightarrow> string" where
  "join_failures [] = []"
| "join_failures [x] = x"
| "join_failures (x # y # xs) = x @ ''; '' @ join_failures (y # xs)"

text \<open>The error that is thrown, \<open>None\<close> when the shutdown is complete.\<close>

definition shutdownSocketRuntime :: "shutdown_input \<Rightarrow> shutdown_run \<times> string option" where
  "shutdownSocketRuntime inp =
     (let r = shutdown_phases inp
      in (r, if sr_failures r \<noteq> [] then Some (''Socket runtime shutdown incomplete: '' @ join_failures (sr_failures r))
             else None))"

section \<open>Order and bounds\<close>

definition in_time :: "nat \<Rightarrow> outcome \<Rightarrow> bool" where
  "in_time timeoutMs out = (case out of Settles t \<Rightarrow> t < timeoutMs | _ \<Rightarrow> False)"

lemma runBounded_spec:
  "runBounded label out n = (ok, failed, t) \<Longrightarrow> t \<le> n \<and> (ok \<longleftrightarrow> in_time n out) \<and> (failed = [] \<longleftrightarrow> ok)"
  by (auto simp: runBounded_def Let_def in_time_def split: outcome.splits if_splits)

text \<open>The reference: what one bounded wait reports, and when it is over.\<close>

definition expected_failure :: "string \<Rightarrow> nat \<Rightarrow> outcome \<Rightarrow> string list" where
  "expected_failure label n out =
     (if in_time n out then []
      else [label @ '': '' @ (case out of
               Rejects t msg \<Rightarrow> if t < n then msg else ''timed out after '' @ show_int (int n) @ ''ms''
             | _ \<Rightarrow> ''timed out after '' @ show_int (int n) @ ''ms'')])"

definition over_at :: "nat \<Rightarrow> outcome \<Rightarrow> nat" where
  "over_at n out = (if out = Hangs then n else min n (settle_time out))"

lemma runBounded_reports:
  "runBounded label out n = (in_time n out, expected_failure label n out, over_at n out)"
  by (auto simp: runBounded_def Let_def in_time_def expected_failure_def over_at_def settle_time_def split: outcome.splits)

text \<open>What client number \<open>i\<close> adds: its \<^verbatim>\<open>quit\<close> failure and, when it is forced, that of its \<^verbatim>\<open>disconnect\<close>.\<close>

definition client_failures :: "nat \<Rightarrow> nat \<Rightarrow> redis_client \<Rightarrow> string list" where
  "client_failures m i c =
     expected_failure (redis_label i ''quit'') m (rc_quit c)
     @ (case rc_disconnect c of
          Some (Some msg) \<Rightarrow> if in_time m (rc_quit c) then [] else [redis_label i ''disconnect'' @ '': '' @ msg]
        | _ \<Rightarrow> [])"

definition expected_failures :: "nat \<Rightarrow> nat \<Rightarrow> shutdown_input \<Rightarrow> string list" where
  "expected_failures n m inp =
     expected_failure ''Socket.IO close'' n (si_io inp)
     @ expected_failure ''RPC registration cleanup'' n (promise_all (si_rpcLifecycles inp))
     @ expected_failure ''notification dispatcher stop'' n (si_notificationDispatcher inp)
     @ expected_failure ''notification bus stop'' n (si_notificationBus inp)
     @ concat (map (\<lambda>i. client_failures m i (si_redisClients inp ! i))
         (sort_key (\<lambda>i. over_at m (rc_quit (si_redisClients inp ! i))) [0..<length (si_redisClients inp)]))"

lemma run_phase_failures:
  "sr_failures (run_phase label calls out n r) = sr_failures r @ expected_failure label n out"
  "sr_clock (run_phase label calls out n r) = sr_clock r + over_at n out"
  by (simp_all add: run_phase_def runBounded_reports)

lemma quit_client_reports:
  "\<exists>dropped. quit_client m i c = (over_at m (rc_quit c), client_failures m i c, dropped)"
  by (auto simp: quit_client_def runBounded_reports client_failures_def expected_failure_def split: option.splits)

lemma sort_key_map: "sort_key f (map g xs) = map g (sort_key (\<lambda>x. f (g x)) xs)"
proof (induction xs)
  case (Cons x xs)
  have "insort_key f (g x) (map g ys) = map g (insort_key (\<lambda>x. f (g x)) x ys)" for ys
    by (induction ys) auto
  then show ?case by (simp add: Cons.IH)
qed simp

lemma quit_clients_failures:
  fixes r :: shutdown_run
  shows "sr_failures (quit_clients m cs r) = sr_failures r
     @ concat (map (\<lambda>i. client_failures m i (cs ! i)) (sort_key (\<lambda>i. over_at m (rc_quit (cs ! i))) [0..<length cs]))"
proof -
  let ?task = "\<lambda>i. (i, quit_client m i (cs ! i))"
  have enum: "enumerate 0 cs = map (\<lambda>i. (i, cs ! i)) [0..<length cs]"
    by (intro nth_equalityI) (simp_all add: nth_enumerate_eq)
  have tasks: "map (\<lambda>(i, c). (i, quit_client m i c)) (enumerate 0 cs) = map ?task [0..<length cs]"
    by (simp add: enum)
  have time: "(case ?task i of (i, t, _) \<Rightarrow> t) = over_at m (rc_quit (cs ! i))"
    and failed: "(case ?task i of (i, t, failed, _) \<Rightarrow> failed) = client_failures m i (cs ! i)" for i
    using quit_client_reports [of m i "cs ! i"] by auto
  show ?thesis
    unfolding quit_clients_def Let_def tasks sort_key_map time
    by (simp only: map_map comp_def failed) simp
qed

lemma run_phase_spec:
  fixes r :: shutdown_run
  shows "sr_clock r \<le> sr_clock (run_phase label calls out n r) \<and> sr_clock (run_phase label calls out n r) \<le> sr_clock r + n
   \<and> sr_calls (run_phase label calls out n r) = sr_calls r @ map (Pair (sr_clock r)) calls
   \<and> (sr_failures (run_phase label calls out n r) = [] \<longleftrightarrow> sr_failures r = [] \<and> in_time n out)"
proof (cases "runBounded label out n")
  case (fields ok failed t)
  show ?thesis using runBounded_spec [OF fields] fields by (auto simp: run_phase_def)
qed

lemma quit_client_spec:
  assumes "quit_client n i c = (t, failed, dropped)"
  shows "t \<le> n \<and> (failed = [] \<longleftrightarrow> in_time n (rc_quit c)) \<and> (dropped \<longleftrightarrow> \<not> in_time n (rc_quit c) \<and> rc_disconnect c \<noteq> None)"
proof (cases "runBounded (redis_label i ''quit'') (rc_quit c) n")
  case (fields ok fs u)
  show ?thesis
    using runBounded_spec [OF fields] fields assms
    by (auto simp: quit_client_def split: if_splits option.splits)
qed

lemma foldr_max_le: "(\<forall>x \<in> set xs. x \<le> n) \<Longrightarrow> foldr max xs (0::nat) \<le> n"
  by (induction xs) auto

lemma promise_all_in_time:
  assumes "0 < n"
  shows "in_time n (promise_all outs) \<longleftrightarrow> (\<forall>out \<in> set outs. in_time n out)"
proof (cases "\<exists>out \<in> set outs. is_rejection out")
  case True
  then obtain out where out: "out \<in> set outs" "is_rejection out" by blast
  then have "filter is_rejection outs \<noteq> []" by (auto simp: filter_empty_conv)
  then have "sort_key settle_time (filter is_rejection outs) \<noteq> []" by (metis length_0_conv length_sort)
  then obtain first rest where first: "sort_key settle_time (filter is_rejection outs) = first # rest"
    by (meson neq_Nil_conv)
  then have "first \<in> set (sort_key settle_time (filter is_rejection outs))" by simp
  then have "is_rejection first" by simp
  then show ?thesis using first out
    by (auto simp: promise_all_def is_rejection_def in_time_def split: outcome.splits)
next
  case False
  then have none: "filter is_rejection outs = []" by (simp add: filter_empty_conv)
  show ?thesis
  proof (cases "Hangs \<in> set outs")
    case True
    then have "\<not> (\<forall>out \<in> set outs. in_time n out)" by (force simp: in_time_def)
    then show ?thesis using True by (simp add: promise_all_def none) (simp add: in_time_def)
  next
    case no_hang: False
    then have settled: "\<forall>out \<in> set outs. in_time n out \<longleftrightarrow> settle_time out < n"
      using False by (auto simp: is_rejection_def in_time_def settle_time_def split: outcome.splits)
    have "foldr max (map settle_time outs) 0 < n \<longleftrightarrow> (\<forall>out \<in> set outs. settle_time out < n)"
      using assms by (induction outs) auto
    then show ?thesis using no_hang settled by (simp add: promise_all_def none in_time_def)
  qed
qed

lemma in_enumerate: "(i, c) \<in> set (enumerate 0 cs) \<longleftrightarrow> i < length cs \<and> c = cs ! i"
  by (auto simp: in_set_enumerate_eq)

lemma quit_clients_spec:
  fixes r :: shutdown_run and cs :: "redis_client list" and n :: nat
  defines "r' \<equiv> quit_clients n cs r"
  shows "sr_clock r' \<le> sr_clock r + n"
    and "sr_failures r' = [] \<longleftrightarrow> sr_failures r = [] \<and> (\<forall>c \<in> set cs. in_time n (rc_quit c))"
    and "\<exists>drops. sr_calls r' = sr_calls r @ map (\<lambda>i. (sr_clock r, QuitRedis i)) [0..<length cs] @ drops
      \<and> (\<forall>t x. (t, x) \<in> set drops \<longrightarrow> sr_clock r \<le> t \<and> t \<le> sr_clock r + n)
      \<and> (\<forall>i. DisconnectRedis i \<in> snd ` set drops \<longleftrightarrow>
           i < length cs \<and> \<not> in_time n (rc_quit (cs ! i)) \<and> rc_disconnect (cs ! i) \<noteq> None)"
proof -
  define tasks where "tasks = map (\<lambda>(i, c). (i, quit_client n i c)) (enumerate 0 cs)"
  define ended where "ended = sort_key (\<lambda>(i, t, _). t) tasks"
  define drops where "drops = List.map_filter (\<lambda>(i, t, _, dropped). if dropped then Some (sr_clock r + t, DisconnectRedis i) else None) ended"
  have task: "(i, t, failed, dropped) \<in> set tasks \<longleftrightarrow> i < length cs \<and> quit_client n i (cs ! i) = (t, failed, dropped)" for i t failed dropped
  proof -
    have "(i, t, failed, dropped) \<in> set tasks \<longleftrightarrow> (\<exists>c. (i, c) \<in> set (enumerate 0 cs) \<and> quit_client n i c = (t, failed, dropped))"
      unfolding tasks_def by force
    then show ?thesis by (simp add: in_enumerate)
  qed
  have end_set: "set ended = set tasks" by (simp add: ended_def)
  have r': "r' = r\<lparr>sr_calls := sr_calls r @ map (\<lambda>i. (sr_clock r, QuitRedis i)) [0..<length cs] @ drops,
       sr_failures := sr_failures r @ concat (map (\<lambda>(i, t, failed, _). failed) ended),
       sr_clock := sr_clock r + foldr max (map (\<lambda>(i, t, _). t) tasks) 0\<rparr>"
    by (simp add: r'_def quit_clients_def Let_def drops_def ended_def tasks_def)
  have times: "t \<le> n" if "(i, t, failed, dropped) \<in> set tasks" for i t failed dropped
    using that quit_client_spec unfolding task by blast
  then have "\<forall>x \<in> set (map (\<lambda>(i, t, _). t) tasks). x \<le> n" by auto
  then show "sr_clock r' \<le> sr_clock r + n" by (simp add: r' foldr_max_le)
  have failures: "failed = [] \<longleftrightarrow> in_time n (rc_quit (cs ! i))" if "(i, t, failed, dropped) \<in> set tasks" for i t failed dropped
    using that quit_client_spec unfolding task by blast
  have some_task: "\<exists>t failed dropped. (i, t, failed, dropped) \<in> set tasks" if "i < length cs" for i
    using that unfolding task by (metis prod_cases3)
  have "(\<forall>(i, t, failed, _) \<in> set tasks. failed = []) \<longleftrightarrow> (\<forall>i < length cs. in_time n (rc_quit (cs ! i)))"
  proof (intro iffI allI impI)
    fix i assume all: "\<forall>(i, t, failed, _) \<in> set tasks. failed = []" and "i < length cs"
    then obtain t failed dropped where "(i, t, failed, dropped) \<in> set tasks" using some_task by blast
    with all failures show "in_time n (rc_quit (cs ! i))" by fastforce
  next
    assume "\<forall>i < length cs. in_time n (rc_quit (cs ! i))"
    then show "\<forall>(i, t, failed, _) \<in> set tasks. failed = []" using failures task by blast
  qed
  then show "sr_failures r' = [] \<longleftrightarrow> sr_failures r = [] \<and> (\<forall>c \<in> set cs. in_time n (rc_quit c))"
    unfolding r' by (auto simp: end_set all_set_conv_all_nth [of cs] case_prod_beta)
  have drop: "(t, x) \<in> set drops \<longleftrightarrow> (\<exists>i u failed. (i, u, failed, True) \<in> set tasks \<and> t = sr_clock r + u \<and> x = DisconnectRedis i)" for t x
    by (force simp: drops_def end_set [symmetric] map_filter_def image_iff split: if_splits)
  have "DisconnectRedis i \<in> snd ` set drops \<longleftrightarrow>
      i < length cs \<and> \<not> in_time n (rc_quit (cs ! i)) \<and> rc_disconnect (cs ! i) \<noteq> None" for i
  proof -
    obtain u failed dropped where q: "quit_client n i (cs ! i) = (u, failed, dropped)" by (metis prod_cases3)
    have "DisconnectRedis i \<in> snd ` set drops \<longleftrightarrow> (\<exists>t. (t, DisconnectRedis i) \<in> set drops)" by force
    also have "\<dots> \<longleftrightarrow> (\<exists>u failed. (i, u, failed, True) \<in> set tasks)" unfolding drop by blast
    also have "\<dots> \<longleftrightarrow> i < length cs \<and> dropped" using q by (auto simp: task)
    finally show ?thesis using quit_client_spec [OF q] by simp
  qed
  moreover have "sr_clock r \<le> t \<and> t \<le> sr_clock r + n" if "(t, x) \<in> set drops" for t x
    using that times unfolding drop by fastforce
  ultimately show "\<exists>drops. sr_calls r' = sr_calls r @ map (\<lambda>i. (sr_clock r, QuitRedis i)) [0..<length cs] @ drops
      \<and> (\<forall>t x. (t, x) \<in> set drops \<longrightarrow> sr_clock r \<le> t \<and> t \<le> sr_clock r + n)
      \<and> (\<forall>i. DisconnectRedis i \<in> snd ` set drops \<longleftrightarrow>
           i < length cs \<and> \<not> in_time n (rc_quit (cs ! i)) \<and> rc_disconnect (cs ! i) \<noteq> None)"
    by (intro exI [of _ drops]) (simp add: r')
qed

lemma shutdown_reports:
  assumes "shutdownSocketRuntime inp = (r, err)"
  defines "fs \<equiv> expected_failures (case si_phaseTimeoutMs inp of None \<Rightarrow> 6000 | Some n \<Rightarrow> n)
      (case si_redisQuitTimeoutMs inp of None \<Rightarrow> 2000 | Some m \<Rightarrow> m) inp"
  shows "sr_failures r = fs"
    and "\<forall>msg. err = Some msg \<longleftrightarrow> fs \<noteq> [] \<and> msg = ''Socket runtime shutdown incomplete: '' @ join_failures fs"
proof -
  have r: "r = shutdown_phases inp" using assms(1) by (auto simp: shutdownSocketRuntime_def Let_def)
  show fs: "sr_failures r = fs"
    unfolding r fs_def expected_failures_def shutdown_phases_def Let_def quit_clients_failures run_phase_failures
      DEFAULT_PHASE_TIMEOUT_MS_def DEFAULT_REDIS_QUIT_TIMEOUT_MS_def by simp
  then show "\<forall>msg. err = Some msg \<longleftrightarrow> fs \<noteq> [] \<and> msg = ''Socket runtime shutdown incomplete: '' @ join_failures fs"
    using assms(1) r by (auto simp: shutdownSocketRuntime_def Let_def split: if_splits)
qed

text \<open>
  C39.  Shutting down is ordered, bounded and reports every failure.  Whatever the components do (settle,
  reject, never settle), Socket.IO is closed first, then the RPC lifecycles, the dispatcher, the bus and
  last the Redis clients, each phase starting when the one before it has ended or timed out, so
  no live socket is left behind a stopped bus; the whole takes at most four phase time-outs and one Redis
  time-out (6 and 2 seconds unless given); \<^verbatim>\<open>disconnect\<close> is forced exactly on the clients whose \<^verbatim>\<open>quit\<close> did not
  succeed in time; no error is thrown exactly if everything settled in time, and an error lists
  exactly the failures: of each phase its rejection or time-out, in the order of the phases, then those of the
  clients in the order in which they end, each \<^verbatim>\<open>quit\<close> before its forced \<^verbatim>\<open>disconnect\<close>.
\<close>

theorem socket_shutdown_ordered:
  assumes "shutdownSocketRuntime inp = (r, err)"
    and "si_phaseTimeoutMs inp \<noteq> Some 0"
  shows "\<exists>n m t1 t2 t3 t4 drops.
      n = (case si_phaseTimeoutMs inp of None \<Rightarrow> 6000 | Some n \<Rightarrow> n)
      \<and> m = (case si_redisQuitTimeoutMs inp of None \<Rightarrow> 2000 | Some m \<Rightarrow> m)
      \<and> t1 = over_at n (si_io inp) \<and> t2 = t1 + over_at n (promise_all (si_rpcLifecycles inp))
      \<and> t3 = t2 + over_at n (si_notificationDispatcher inp) \<and> t4 = t3 + over_at n (si_notificationBus inp)
      \<and> t1 \<le> t2 \<and> t2 \<le> t3 \<and> t3 \<le> t4 \<and> t4 \<le> 4 * n \<and> sr_clock r \<le> 4 * n + m
      \<and> sr_calls r = [(0, CloseIo)] @ map (\<lambda>i. (t1, CloseLifecycle i)) [0..<length (si_rpcLifecycles inp)]
          @ [(t2, StopDispatcher), (t3, StopBus)]
          @ map (\<lambda>i. (t4, QuitRedis i)) [0..<length (si_redisClients inp)] @ drops
      \<and> (\<forall>t x. (t, x) \<in> set drops \<longrightarrow> t4 \<le> t \<and> t \<le> t4 + m)
      \<and> (\<forall>i. DisconnectRedis i \<in> snd ` set drops \<longleftrightarrow> i < length (si_redisClients inp)
            \<and> \<not> in_time m (rc_quit (si_redisClients inp ! i)) \<and> rc_disconnect (si_redisClients inp ! i) \<noteq> None)
      \<and> (err = None \<longleftrightarrow> (\<forall>out \<in> {si_io inp, si_notificationDispatcher inp, si_notificationBus inp}
                               \<union> set (si_rpcLifecycles inp). in_time n out)
            \<and> (\<forall>c \<in> set (si_redisClients inp). in_time m (rc_quit c)))
      \<and> sr_failures r = expected_failures n m inp
      \<and> (\<forall>msg. err = Some msg \<longleftrightarrow> expected_failures n m inp \<noteq> []
            \<and> msg = ''Socket runtime shutdown incomplete: '' @ join_failures (expected_failures n m inp))"
proof -
  define n where "n = (case si_phaseTimeoutMs inp of None \<Rightarrow> 6000 | Some n \<Rightarrow> n)"
  define m where "m = (case si_redisQuitTimeoutMs inp of None \<Rightarrow> 2000 | Some m \<Rightarrow> m)"
  have pos: "0 < n" using assms(2) by (cases "si_phaseTimeoutMs inp") (simp_all add: n_def)
  define r1 where "r1 = run_phase ''Socket.IO close'' [CloseIo] (si_io inp) n \<lparr>sr_calls = [], sr_failures = [], sr_clock = 0\<rparr>"
  define r2 where "r2 = run_phase ''RPC registration cleanup'' (map CloseLifecycle [0..<length (si_rpcLifecycles inp)])
      (promise_all (si_rpcLifecycles inp)) n r1"
  define r3 where "r3 = run_phase ''notification dispatcher stop'' [StopDispatcher] (si_notificationDispatcher inp) n r2"
  define r4 where "r4 = run_phase ''notification bus stop'' [StopBus] (si_notificationBus inp) n r3"
  note p1 = run_phase_spec [of "\<lparr>sr_calls = [], sr_failures = [], sr_clock = 0\<rparr>" "''Socket.IO close''" "[CloseIo]" "si_io inp" n, folded r1_def]
    and p2 = run_phase_spec [of r1 "''RPC registration cleanup''" "map CloseLifecycle [0..<length (si_rpcLifecycles inp)]"
      "promise_all (si_rpcLifecycles inp)" n, folded r2_def]
    and p3 = run_phase_spec [of r2 "''notification dispatcher stop''" "[StopDispatcher]" "si_notificationDispatcher inp" n, folded r3_def]
    and p4 = run_phase_spec [of r3 "''notification bus stop''" "[StopBus]" "si_notificationBus inp" n, folded r4_def]
  have phases: "r = shutdown_phases inp" and err: "err = None \<longleftrightarrow> sr_failures r = []"
    using assms(1) by (auto simp: shutdownSocketRuntime_def Let_def split: if_splits)
  have defaults: "(case si_phaseTimeoutMs inp of None \<Rightarrow> DEFAULT_PHASE_TIMEOUT_MS | Some n \<Rightarrow> n) = n"
      "(case si_redisQuitTimeoutMs inp of None \<Rightarrow> DEFAULT_REDIS_QUIT_TIMEOUT_MS | Some n \<Rightarrow> n) = m"
    by (simp_all add: n_def m_def DEFAULT_PHASE_TIMEOUT_MS_def DEFAULT_REDIS_QUIT_TIMEOUT_MS_def split: option.split)
  have r: "r = quit_clients m (si_redisClients inp) r4"
    unfolding phases shutdown_phases_def Let_def defaults r1_def r2_def r3_def r4_def by (rule refl)
  note q = quit_clients_spec [of m "si_redisClients inp" r4, folded r]
  obtain drops where drops: "sr_calls r = sr_calls r4 @ map (\<lambda>i. (sr_clock r4, QuitRedis i)) [0..<length (si_redisClients inp)] @ drops"
    "\<forall>t x. (t, x) \<in> set drops \<longrightarrow> sr_clock r4 \<le> t \<and> t \<le> sr_clock r4 + m"
    "\<forall>i. DisconnectRedis i \<in> snd ` set drops \<longleftrightarrow> i < length (si_redisClients inp)
        \<and> \<not> in_time m (rc_quit (si_redisClients inp ! i)) \<and> rc_disconnect (si_redisClients inp ! i) \<noteq> None"
    using q(3) by blast
  have calls: "sr_calls r4 = [(0, CloseIo)] @ map (\<lambda>i. (sr_clock r1, CloseLifecycle i)) [0..<length (si_rpcLifecycles inp)]
      @ [(sr_clock r2, StopDispatcher), (sr_clock r3, StopBus)]"
    using p1 p2 p3 p4 by (simp add: comp_def)
  have "err = None \<longleftrightarrow> in_time n (si_io inp) \<and> (\<forall>out \<in> set (si_rpcLifecycles inp). in_time n out)
      \<and> in_time n (si_notificationDispatcher inp) \<and> in_time n (si_notificationBus inp)
      \<and> (\<forall>c \<in> set (si_redisClients inp). in_time m (rc_quit c))"
    unfolding err q(2) using p1 p2 p3 p4 promise_all_in_time [OF pos, of "si_rpcLifecycles inp"] by auto
  then have complete: "err = None \<longleftrightarrow> (\<forall>out \<in> {si_io inp, si_notificationDispatcher inp, si_notificationBus inp}
        \<union> set (si_rpcLifecycles inp). in_time n out) \<and> (\<forall>c \<in> set (si_redisClients inp). in_time m (rc_quit c))"
    by blast
  have clocks: "sr_clock r1 \<le> sr_clock r2" "sr_clock r2 \<le> sr_clock r3" "sr_clock r3 \<le> sr_clock r4" "sr_clock r4 \<le> 4 * n"
      "sr_clock r \<le> 4 * n + m"
    using p1 p2 p3 p4 q(1) by simp_all
  have whole: "sr_calls r = [(0, CloseIo)] @ map (\<lambda>i. (sr_clock r1, CloseLifecycle i)) [0..<length (si_rpcLifecycles inp)]
      @ [(sr_clock r2, StopDispatcher), (sr_clock r3, StopBus)]
      @ map (\<lambda>i. (sr_clock r4, QuitRedis i)) [0..<length (si_redisClients inp)] @ drops"
    unfolding drops(1) calls by simp
  have starts: "sr_clock r1 = over_at n (si_io inp)"
      "sr_clock r2 = sr_clock r1 + over_at n (promise_all (si_rpcLifecycles inp))"
      "sr_clock r3 = sr_clock r2 + over_at n (si_notificationDispatcher inp)"
      "sr_clock r4 = sr_clock r3 + over_at n (si_notificationBus inp)"
    by (simp_all add: r4_def r3_def r2_def r1_def run_phase_failures)
  note reported = shutdown_reports [OF assms(1), folded n_def m_def]
  show ?thesis
    by (rule exI [of _ n], rule exI [of _ m], rule exI [of _ "sr_clock r1"], rule exI [of _ "sr_clock r2"],
        rule exI [of _ "sr_clock r3"], rule exI [of _ "sr_clock r4"], rule exI [of _ drops])
      (intro conjI n_def m_def starts clocks whole drops(2,3) complete reported)
qed

text \<open>As the server calls it, with no time-outs; Socket.IO hangs, the bus rejects, a client hangs and cannot be dropped.\<close>

definition demo_shutdown :: shutdown_input where
  "demo_shutdown = \<lparr>si_io = Hangs, si_rpcLifecycles = [Settles 5], si_notificationDispatcher = Settles 1,
     si_notificationBus = Rejects 2 ''gone'', si_redisClients = [\<lparr>rc_quit = Hangs, rc_disconnect = Some (Some ''stuck'')\<rparr>],
     si_phaseTimeoutMs = None, si_redisQuitTimeoutMs = None\<rparr>"

lemma demo_failures: "length (expected_failures 6000 2000 demo_shutdown) = 4"
  by (simp add: expected_failures_def expected_failure_def client_failures_def promise_all_def is_rejection_def
      settle_time_def in_time_def demo_shutdown_def)

theorem socket_shutdown_ordered_witness:
  "\<exists>r msg. shutdownSocketRuntime demo_shutdown = (r, Some msg) \<and> sr_clock r \<le> 26000 \<and> length (sr_failures r) = 4"
proof -
  obtain r err where run: "shutdownSocketRuntime demo_shutdown = (r, err)" by fastforce
  have inp: "si_phaseTimeoutMs demo_shutdown = None" "si_redisQuitTimeoutMs demo_shutdown = None"
    by (simp_all add: demo_shutdown_def)
  have "sr_clock r \<le> 4 * 6000 + 2000 \<and> sr_failures r = expected_failures 6000 2000 demo_shutdown
      \<and> (\<forall>msg. err = Some msg \<longleftrightarrow> expected_failures 6000 2000 demo_shutdown \<noteq> []
            \<and> msg = ''Socket runtime shutdown incomplete: '' @ join_failures (expected_failures 6000 2000 demo_shutdown))"
    using socket_shutdown_ordered [OF run] unfolding inp option.case by blast
  moreover have "expected_failures 6000 2000 demo_shutdown \<noteq> []" using demo_failures by force
  ultimately show ?thesis using run demo_failures by (intro exI [of _ r]) simp
qed

section \<open>Shutdown handlers\<close>

text \<open>
  The registry: \<^verbatim>\<open>shutdownHandlers\<close> maps a name to its array of handlers, in insertion order; arrays are
  shared with the functions that unsubscribe, so they are objects in a store.
\<close>

record shutdown_registry =
  sh_handlers :: "(string \<times> nat) list"
  sh_arrays :: "nat \<Rightarrow> nat list"
  sh_fresh :: nat
  sh_aborted :: bool

definition new_shutdown_registry :: shutdown_registry where
  "new_shutdown_registry = \<lparr>sh_handlers = [], sh_arrays = (\<lambda>_. []), sh_fresh = 0, sh_aborted = False\<rparr>"

text \<open>
  What \<^verbatim>\<open>onShutdown\<close> does: during a shutdown the handler runs at once; otherwise it is pushed and the
  returned function holds its name, its array and itself.
\<close>

datatype subscription = RanAtOnce nat | Subscribed string nat nat

definition onShutdown :: "string \<Rightarrow> nat \<Rightarrow> shutdown_registry \<Rightarrow> shutdown_registry \<times> subscription" where
  "onShutdown name cb s =
     (if sh_aborted s then (s, RanAtOnce cb)
      else let (s1, arr) =
             (case map_of (sh_handlers s) name of
                Some arr \<Rightarrow> (s, arr)
              | None \<Rightarrow> (s\<lparr>sh_handlers := sh_handlers s @ [(name, sh_fresh s)],
                           sh_arrays := (sh_arrays s)(sh_fresh s := []), sh_fresh := sh_fresh s + 1\<rparr>, sh_fresh s))
           in (s1\<lparr>sh_arrays := (sh_arrays s1)(arr := sh_arrays s1 arr @ [cb])\<rparr>, Subscribed name arr cb))"

definition unsubscribe :: "subscription \<Rightarrow> shutdown_registry \<Rightarrow> shutdown_registry" where
  "unsubscribe sub s =
     (case sub of
        RanAtOnce _ \<Rightarrow> s
      | Subscribed name arr cb \<Rightarrow>
          if cb \<in> set (sh_arrays s arr)
          then let left = remove1 cb (sh_arrays s arr); s1 = s\<lparr>sh_arrays := (sh_arrays s)(arr := left)\<rparr>
               in if left = [] then s1\<lparr>sh_handlers := filter (\<lambda>(n, _). n \<noteq> name) (sh_handlers s1)\<rparr> else s1
          else s)"

text \<open>After a signal: the handlers of the snapshot, all started before any is awaited.\<close>

definition awaitShutdown :: "shutdown_registry \<Rightarrow> shutdown_registry \<times> (string \<times> nat) list" where
  "awaitShutdown s =
     (s\<lparr>sh_aborted := True\<rparr>,
      concat (map (\<lambda>(name, arr). map (Pair name) (sh_arrays s arr)) (sh_handlers s)))"

text \<open>
  \<^verbatim>\<open>keepAlive\<close> registers a handler that waits for its operation and unsubscribes when the operation
  settles.
\<close>

definition keepAlive_begin :: "string \<Rightarrow> nat \<Rightarrow> shutdown_registry \<Rightarrow> shutdown_registry \<times> subscription" where
  "keepAlive_begin name cb s = onShutdown (''keepAlive:'' @ name) cb s"

definition keepAlive_settled :: "subscription \<Rightarrow> shutdown_registry \<Rightarrow> shutdown_registry" where
  "keepAlive_settled sub s = unsubscribe sub s"

subsection \<open>Which handlers a shutdown runs\<close>

definition registry_ok :: "shutdown_registry \<Rightarrow> bool" where
  "registry_ok s = (distinct (map fst (sh_handlers s)) \<and> distinct (map snd (sh_handlers s))
     \<and> (\<forall>(n, arr) \<in> set (sh_handlers s). arr < sh_fresh s \<and> sh_arrays s arr \<noteq> []))"

definition handlers_of :: "string \<Rightarrow> shutdown_registry \<Rightarrow> nat list" where
  "handlers_of name s = (case map_of (sh_handlers s) name of None \<Rightarrow> [] | Some arr \<Rightarrow> sh_arrays s arr)"

lemma new_registry_ok: "registry_ok new_shutdown_registry"
  by (simp add: registry_ok_def new_shutdown_registry_def)

lemma onShutdown_registers:
  assumes "registry_ok s" and "\<not> sh_aborted s" and "onShutdown name cb s = (s', sub)"
  shows "registry_ok s' \<and> handlers_of name s' = handlers_of name s @ [cb]
     \<and> (\<forall>n. n \<noteq> name \<longrightarrow> handlers_of n s' = handlers_of n s)"
proof (cases "map_of (sh_handlers s) name")
  case None
  have "\<forall>(n, arr) \<in> set (sh_handlers s). arr < sh_fresh s" using assms(1) by (auto simp: registry_ok_def)
  then have fresh: "map_of (sh_handlers s) n = Some arr \<Longrightarrow> arr \<noteq> sh_fresh s" for n arr
    by (fastforce dest: map_of_SomeD)
  have notin: "sh_fresh s \<notin> snd ` set (sh_handlers s)" using assms(1) by (auto simp: registry_ok_def)
  have s': "s' = s\<lparr>sh_handlers := sh_handlers s @ [(name, sh_fresh s)],
      sh_arrays := (sh_arrays s)(sh_fresh s := [cb]), sh_fresh := sh_fresh s + 1\<rparr>"
    using assms(2,3) None by (auto simp: onShutdown_def)
  have "name \<notin> fst ` set (sh_handlers s)" using None by (simp add: map_of_eq_None_iff)
  then have "registry_ok s'" using assms(1) notin by (auto simp: s' registry_ok_def less_SucI)
  moreover have "handlers_of n s' = (if n = name then [cb] else handlers_of n s)" for n
    using None fresh [of n] by (cases "map_of (sh_handlers s) n") (auto simp: s' handlers_of_def map_add_def)
  moreover have "handlers_of name s = []" using None by (simp add: handlers_of_def)
  ultimately show ?thesis by simp
next
  case (Some arr)
  have s': "s' = s\<lparr>sh_arrays := (sh_arrays s)(arr := sh_arrays s arr @ [cb])\<rparr>"
    using assms(2,3) Some by (auto simp: onShutdown_def)
  have other: "n = name" if "map_of (sh_handlers s) n = Some arr" for n
    using assms(1) map_of_SomeD [OF that] map_of_SomeD [OF Some]
    inj_onD [of snd "set (sh_handlers s)" "(n, arr)" "(name, arr)"]
    by (auto simp: registry_ok_def distinct_map)
  have "registry_ok s'" using assms(1) by (auto simp: s' registry_ok_def)
  moreover have "handlers_of name s' = handlers_of name s @ [cb]" using Some by (simp add: s' handlers_of_def)
  moreover have "handlers_of n s' = handlers_of n s" if "n \<noteq> name" for n
    using other [of n] that by (cases "map_of (sh_handlers s) n") (auto simp: s' handlers_of_def)
  ultimately show ?thesis by simp
qed

end
