(* ===== verification/GithubRoutes.thy ===== *)
theory GithubRoutes
  imports Account Auth
begin

text \<open>
  Connecting a GitHub account: the body parser and the GitHub routes of
  \<^verbatim>\<open>api/routes/connectRoutes.ts\<close> and the initialization of \<^verbatim>\<open>modules/github.ts\<close>.

  GitHub itself is behind parameters: what its two HTTP endpoints answer (\<open>github_api\<close>), and the
  webhook library's verification of a payload.  Strings are bytes, so percent-encoding works on them
  directly.
\<close>

section \<open>Encoding URLs\<close>

definition upper_hex_digit :: "nat \<Rightarrow> char" where
  "upper_hex_digit n = (if n < 10 then digit n else char_of (55 + n))"

definition percent :: "char \<Rightarrow> string" where
  "percent c = (let n = of_char c in [CHR ''%'', upper_hex_digit (n div 16), upper_hex_digit (n mod 16)])"

definition is_alnum :: "char \<Rightarrow> bool" where
  "is_alnum c = (let n = of_char c :: nat in is_digit c \<or> (65 \<le> n \<and> n \<le> 90) \<or> (97 \<le> n \<and> n \<le> 122))"

definition encodeURIComponent :: "string \<Rightarrow> string" where
  "encodeURIComponent s =
     concat (map (\<lambda>c. if is_alnum c \<or> c \<in> set ''-_.!~*'' \<or> c = CHR 0x27 \<or> c \<in> set ''()'' then [c] else percent c) s)"

text \<open>\<^verbatim>\<open>URLSearchParams\<close> serializes as a form.\<close>

definition form_encode :: "string \<Rightarrow> string" where
  "form_encode s =
     concat (map (\<lambda>c. if is_alnum c \<or> c \<in> set ''*-._'' then [c] else if c = CHR '' '' then ''+'' else percent c) s)"

fun search_params :: "(string \<times> string) list \<Rightarrow> string" where
  "search_params [] = []"
| "search_params [(k, v)] = form_encode k @ ''='' @ form_encode v"
| "search_params ((k, v) # p # ps) = form_encode k @ ''='' @ form_encode v @ ''&'' @ search_params (p # ps)"

section \<open>The body parser\<close>

text \<open>The raw body it keeps (\<open>None\<close> if it fails first) and the parsed body, or an error of status 400.\<close>

datatype parsed_body = NoBody | Body json | BadRequest

definition parse_content :: "(string \<Rightarrow> json option) \<Rightarrow> string \<Rightarrow> string \<Rightarrow> string option \<times> parsed_body" where
  "parse_content json_parse httpMethod body =
     (if body = [] \<or> trim body = []
      then (Some body, if httpMethod = ''DELETE'' \<or> httpMethod = ''GET'' then NoBody else Body (JObj []))
      else (case json_parse body of
              None \<Rightarrow> (None, BadRequest)
            | Some j \<Rightarrow> (Some body, Body j)))"

section \<open>OAuth\<close>

record github_env =
  ge_appId :: "string option"
  ge_privateKey :: "string option"
  ge_clientId :: "string option"
  ge_clientSecret :: "string option"
  ge_redirectUri :: "string option"
  ge_redirectUrl :: "string option"
  ge_webhookSecret :: "string option"

text \<open>Whether \<^verbatim>\<open>initGithub\<close> creates the app and the webhook handler (whose handlers only log).\<close>

definition initGithub :: "github_env \<Rightarrow> bool" where
  "initGithub env =
     (truthy (ge_appId env) \<and> truthy (ge_privateKey env) \<and> truthy (ge_clientId env)
      \<and> truthy (ge_clientSecret env) \<and> truthy (ge_redirectUri env) \<and> truthy (ge_webhookSecret env))"

definition github_params ::
  "(ident \<times> string \<Rightarrow> string) \<Rightarrow> github_env \<Rightarrow> ident \<Rightarrow> auth_module \<Rightarrow> reply" where
  "github_params gen env userId m =
     (if \<not> truthy (ge_clientId env) \<or> \<not> truthy (ge_redirectUrl env)
      then Reply 400 (JObj [(''error'', JStr ''GitHub OAuth not configured'')])
      else (case createGithubToken gen userId m of
              None \<Rightarrow> Threw
            | Some state \<Rightarrow>
                Reply 200 (JObj [(''url'', JStr (''https://github.com/login/oauth/authorize?'' @
                  search_params [(''client_id'', the (ge_clientId env)), (''redirect_uri'', the (ge_redirectUrl env)),
                    (''scope'', ''read:user,user:email,read:org,codespace''), (''state'', state)]))])))"

text \<open>
  The answers of GitHub: the token endpoint grants a token, names an error, or the call throws; the
  user endpoint answers a profile with its status, or the call throws.
\<close>

datatype token_answer = TokenGranted string | TokenRefused string | TokenThrew

record github_api =
  ga_token :: token_answer
  ga_user :: "(github_profile \<times> bool) option"

datatype route_answer = Redirect string | Rejected

definition app_url :: "string \<Rightarrow> string" where
  "app_url query = ''https://app.happy.engineering?'' @ query"

definition connect_with ::
  "(string \<Rightarrow> string) \<Rightarrow> (string list \<Rightarrow> string \<Rightarrow> bytes) \<Rightarrow> db sched \<Rightarrow> (nat \<Rightarrow> ts) \<Rightarrow> ident \<Rightarrow> ident \<Rightarrow> github_api
   \<Rightarrow> image_ref option \<Rightarrow> ident \<Rightarrow> db \<Rightarrow> db \<times> route_answer \<times> emission list" where
  "connect_with public_url encrypt w clk updId updId' api uploaded userId d =
     (case ga_token api of
        TokenThrew \<Rightarrow> (d, Redirect (app_url ''error=server_error''), [])
      | TokenRefused e \<Rightarrow> (d, Redirect (app_url (''error='' @ encodeURIComponent e)), [])
      | TokenGranted accessToken \<Rightarrow>
          (case ga_user api of
             None \<Rightarrow> (d, Redirect (app_url ''error=server_error''), [])
           | Some (profile, ok) \<Rightarrow>
               if \<not> ok then (d, Redirect (app_url ''error=github_user_fetch_failed''), [])
               else (case githubConnect public_url encrypt w clk updId updId' userId profile accessToken uploaded d of
                       (d1, True, ems) \<Rightarrow>
                         (d1, Redirect (app_url (''github=connected&user='' @ encodeURIComponent (gp_login profile))), ems)
                     | (d1, False, ems) \<Rightarrow> (d1, Redirect (app_url ''error=server_error''), ems))))"

definition github_callback ::
  "(string \<Rightarrow> string) \<Rightarrow> (string list \<Rightarrow> string \<Rightarrow> bytes) \<Rightarrow> (string \<Rightarrow> ident option) \<Rightarrow> db sched \<Rightarrow> (nat \<Rightarrow> ts)
   \<Rightarrow> ident \<Rightarrow> ident \<Rightarrow> github_env \<Rightarrow> github_api \<Rightarrow> image_ref option \<Rightarrow> string \<Rightarrow> auth_module \<Rightarrow> db
   \<Rightarrow> db \<times> route_answer \<times> emission list" where
  "github_callback public_url encrypt ver w clk updId updId' env api uploaded state m d =
     (case verifyGithubToken ver state m of
        None \<Rightarrow> (d, Rejected, [])
      | Some None \<Rightarrow> (d, Redirect (app_url ''error=invalid_state''), [])
      | Some (Some userId) \<Rightarrow>
          if \<not> truthy (ge_clientId env) \<or> \<not> truthy (ge_clientSecret env)
          then (d, Redirect (app_url ''error=server_config''), [])
          else connect_with public_url encrypt w clk updId updId' api uploaded userId d)"

definition github_disconnect_route ::
  "(string \<Rightarrow> string) \<Rightarrow> db sched \<Rightarrow> (nat \<Rightarrow> ts) \<Rightarrow> ident \<Rightarrow> ident \<Rightarrow> db \<Rightarrow> db \<times> reply \<times> emission list" where
  "github_disconnect_route public_url w clk updId userId d =
     (case githubDisconnect public_url w 0 clk updId userId d of
        (d1, True, ems) \<Rightarrow> (d1, Reply 200 (JObj [(''success'', JBool True)]), ems)
      | (d1, False, ems) \<Rightarrow> (d1, Reply 500 (JObj [(''error'', JStr ''Failed to disconnect GitHub account'')]), ems))"

section \<open>Webhooks\<close>

text \<open>\<open>receive\<close> is \<^verbatim>\<open>webhooks.verifyAndReceive\<close> on delivery id, event, payload and signature; \<open>False\<close> when it throws.\<close>

definition github_webhook ::
  "(string \<Rightarrow> string \<Rightarrow> string \<Rightarrow> string \<Rightarrow> bool) \<Rightarrow> github_env \<Rightarrow> string option \<Rightarrow> string \<Rightarrow> string \<Rightarrow> string option \<Rightarrow> reply" where
  "github_webhook receive env rawBody signature eventName deliveryId =
     (if \<not> truthy rawBody then Reply 500 (JObj [(''error'', JStr ''Server configuration error'')])
      else if \<not> initGithub env then Reply 500 (JObj [(''error'', JStr ''Webhooks not configured'')])
      else if receive (if truthy deliveryId then the deliveryId else ''unknown'') eventName (the rawBody) signature
      then Reply 200 (JObj [(''received'', JBool True)])
      else Reply 500 (JObj [(''error'', JStr ''Internal server error'')]))"

section \<open>What a successful callback means\<close>

definition links :: "db \<Rightarrow> (ident \<times> ident option) list" where
  "links d = map (\<lambda>a. (a_id a, a_githubUserId a)) (accounts d)"

definition linked_to :: "ident \<Rightarrow> ident \<Rightarrow> db \<Rightarrow> bool" where
  "linked_to gid uid d = ((uid, Some gid) \<in> set (links d))"

lemma map_update_rows_same: "(\<And>r. f (g r) = f r) \<Longrightarrow> map f (update_rows P g rs) = map f rs"
  by (induction rs) auto

lemma allocateUserSeq_links:
  assumes "allocateUserSeq uid now d = Some (d', n)"
  shows "linked_to gid u d' = linked_to gid u d"
proof -
  have "links d' = links d"
    using assms by (auto simp: allocateUserSeq_def links_def map_update_rows_same split: option.splits)
  then show ?thesis by (simp add: linked_to_def)
qed

lemma link_github_links:
  assumes "link_github userId gid profile token name avatar now d = Some (d', x)"
  shows "linked_to gid u d' \<longleftrightarrow> u = userId"
proof -
  have d': "links d' = map (\<lambda>a. if a_id a = userId then (userId, Some gid) else (a_id a, a_githubUserId a)) (accounts d)"
    and free: "\<forall>a \<in> set (accounts d). a_id a \<noteq> userId \<longrightarrow> a_githubUserId a \<noteq> Some gid"
    and ex: "account_row userId d \<noteq> None"
    using assms by (auto simp: link_github_def taken_by_other_def links_def update_rows_def split: if_splits)
  obtain a where "a \<in> set (accounts d)" "a_id a = userId"
    using ex find_row_SomeD [of "\<lambda>a. a_id a = userId" "accounts d"] by (auto simp: account_row_def)
  then show ?thesis using free by (auto simp: linked_to_def d' split: if_splits)
qed

lemma finish_connect_links:
  assumes "finish_connect public_url encrypt quiet clk updId userId gid profile tok uploaded d = (d', True, ems)"
  shows "linked_to gid u d' \<longleftrightarrow> u = userId"
proof -
  obtain avatar d1 updSeq where
    "link_github userId gid profile (encrypt [''user'', userId, ''github'', ''token''] tok) (separateName (gp_name profile)) avatar (clk 5) d
       = Some (d1, ())"
    "allocateUserSeq userId (clk 6) d1 = Some (d', updSeq)"
    using assms by (auto simp: finish_connect_def throwing_def Let_def split: option.splits prod.splits)
  then show ?thesis using link_github_links allocateUserSeq_links by metis
qed

definition github_links_unique :: "db \<Rightarrow> bool" where
  "github_links_unique d = (\<forall>a \<in> set (accounts d). \<forall>b \<in> set (accounts d).
     a_githubUserId a \<noteq> None \<and> a_githubUserId a = a_githubUserId b \<longrightarrow> a_id a = a_id b)"

lemma githubConnect_links:
  assumes "githubConnect public_url encrypt quiet clk updId updId' userId profile tok uploaded d = (d', True, ems)"
    and "github_links_unique d"
  shows "linked_to (show_int (gp_id profile)) u d' \<longleftrightarrow> u = userId"
proof -
  let ?gid = "show_int (gp_id profile)"
  obtain a where a: "account_row userId d = Some a"
    using assms(1) by (cases "account_row userId d") (auto simp: githubConnect_def Let_def)
  then have acc: "a \<in> set (accounts d)" "a_id a = userId" using find_row_SomeD unfolding account_row_def by fastforce+
  show ?thesis
  proof (cases "a_githubUserId a = Some ?gid")
    case True
    then have "d' = d" using assms(1) a by (simp add: githubConnect_def Let_def)
    moreover have "(userId, Some ?gid) \<in> set (links d)" using True acc by (force simp: links_def)
    moreover have "u = userId" if linked: "(u, Some ?gid) \<in> set (links d)"
    proof -
      obtain b where "b \<in> set (accounts d)" "a_id b = u" "a_githubUserId b = Some ?gid" using linked by (auto simp: links_def)
      then show ?thesis using True acc assms(2) unfolding github_links_unique_def by (metis option.distinct(1))
    qed
    ultimately show ?thesis unfolding linked_to_def by blast
  next
    case False
    have "\<exists>d2 ems'. finish_connect public_url encrypt quiet clk updId userId ?gid profile tok uploaded d2 = (d', True, ems')"
    proof (cases "find_row (\<lambda>b. a_githubUserId b = Some ?gid \<and> a_id b \<noteq> userId) (accounts d)")
      case None
      then show ?thesis using assms(1) a False by (auto simp: githubConnect_def Let_def)
    next
      case (Some b)
      obtain d3 ok ems1 where dis: "githubDisconnect public_url quiet 2 clk updId' (a_id b) d = (d3, ok, ems1)"
        by (metis prod_cases3)
      obtain d4 ok' ems2 where fin: "finish_connect public_url encrypt quiet clk updId userId ?gid profile tok uploaded d3 = (d4, ok', ems2)"
        by (metis prod_cases3)
      have "(if ok then (d4, ok', ems1 @ ems2) else (d3, False, ems1)) = (d', True, ems)"
        using assms(1) a False Some dis fin unfolding githubConnect_def Let_def by (cases ok) simp_all
      then have "d4 = d'" "ok'" by (simp_all split: if_splits)
      then show ?thesis using fin by auto
    qed
    then obtain d2 ems' where "finish_connect public_url encrypt quiet clk updId userId ?gid profile tok uploaded d2 = (d', True, ems')"
      by blast
    then show ?thesis by (rule finish_connect_links)
  qed
qed

text \<open>
  C40.  The GitHub callback links the account that asked for it and no other.  If a state was issued by
  \<^verbatim>\<open>/v1/connect/github/params\<close> for an account and the verifier accepts what the generator signs, a callback
  with it that redirects to success leaves exactly that account linked to the GitHub user, whoever held the link
  before.  A state the verifier rejects, or a missing configuration, changes nothing and notifies
  nobody.
\<close>

theorem github_callback_links:
  assumes "\<forall>u. ver (gen (u, ''github-oauth'')) = Some u" and "createGithubToken gen userId m = Some state"
    and "github_links_unique d"
    and "github_callback public_url encrypt ver quiet clk updId updId' env api uploaded state' m d = (d', ans, ems)"
  shows "(state' = state \<and> ans = Redirect (app_url (''github=connected&user='' @ x)) \<longrightarrow>
           (\<exists>profile. ga_user api = Some (profile, True)
              \<and> (\<forall>u. linked_to (show_int (gp_id profile)) u d' \<longleftrightarrow> u = userId)))
       \<and> (ver state' = None \<or> \<not> truthy (ge_clientId env) \<or> \<not> truthy (ge_clientSecret env) \<longrightarrow> d' = d \<and> ems = [])"
proof (intro conjI impI)
  assume ok: "state' = state \<and> ans = Redirect (app_url (''github=connected&user='' @ x))"
  have m: "initialized m" "state = gen (userId, ''github-oauth'')"
    using assms(2) by (auto simp: createGithubToken_def split: if_splits)
  then have "verifyGithubToken ver state m = Some (Some userId)" using assms(1) by (simp add: verifyGithubToken_def)
  then have "connect_with public_url encrypt quiet clk updId updId' api uploaded userId d = (d', ans, ems)"
    using assms(4) ok by (auto simp: github_callback_def app_url_def split: if_splits)
  then obtain tok profile where user: "ga_user api = Some (profile, True)"
    and "githubConnect public_url encrypt quiet clk updId updId' userId profile tok uploaded d = (d', True, ems)"
    using ok by (auto simp: connect_with_def app_url_def split: token_answer.splits option.splits prod.splits bool.splits if_splits)
  then show "\<exists>profile. ga_user api = Some (profile, True)
      \<and> (\<forall>u. linked_to (show_int (gp_id profile)) u d' \<longleftrightarrow> u = userId)"
    using githubConnect_links [OF _ assms(3)] by blast
next
  assume "ver state' = None \<or> \<not> truthy (ge_clientId env) \<or> \<not> truthy (ge_clientSecret env)"
  then show "d' = d" and "ems = []"
    using assms(4) by (auto simp: github_callback_def verifyGithubToken_def split: if_splits option.splits)
qed

definition demo_github_db :: db where
  "demo_github_db = empty_db\<lparr>
     accounts := [blank_account ''u1'' ''pk1'' 0, (blank_account ''u2'' ''pk2'' 0)\<lparr>a_githubUserId := Some ''7''\<rparr>],
     githubUsers := [\<lparr>g_id = ''7'', g_profile = \<lparr>gp_id = 7, gp_login = ''octo'', gp_name = None, gp_avatar_url = [], gp_bio = None\<rparr>,
       g_token = []\<rparr>]\<rparr>"

definition demo_github_env :: github_env where
  "demo_github_env = \<lparr>ge_appId = None, ge_privateKey = None, ge_clientId = Some ''c'', ge_clientSecret = Some ''s'',
     ge_redirectUri = None, ge_redirectUrl = Some ''r'', ge_webhookSecret = None\<rparr>"

definition demo_github_api :: github_api where
  "demo_github_api = \<lparr>ga_token = TokenGranted ''t'',
     ga_user = Some (\<lparr>gp_id = 7, gp_login = ''octo'', gp_name = None, gp_avatar_url = [], gp_bio = None\<rparr>, True)\<rparr>"

definition demo_callback :: "db \<times> route_answer \<times> emission list" where
  "demo_callback = github_callback id (\<lambda>_ _. []) (\<lambda>t. Some t) quiet (\<lambda>_. 9) ''e1'' ''e2'' demo_github_env demo_github_api
     (Some \<lparr>im_path = [], im_width = 1, im_height = 1, im_thumbhash = []\<rparr>) ''u1'' (auth_init new_auth) demo_github_db"

lemma demo_callback_answer: "fst (snd demo_callback) = Redirect (app_url (''github=connected&user='' @ ''octo''))"
  by code_simp

theorem github_callback_links_witness:
  "linked_to ''7'' ''u1'' (fst demo_callback) \<and> \<not> linked_to ''7'' ''u2'' (fst demo_callback)"
proof -
  have run: "github_callback id (\<lambda>_ _. []) (\<lambda>t. Some t) quiet (\<lambda>_. 9) ''e1'' ''e2'' demo_github_env demo_github_api
      (Some \<lparr>im_path = [], im_width = 1, im_height = 1, im_thumbhash = []\<rparr>) ''u1'' (auth_init new_auth) demo_github_db
    = (fst demo_callback, Redirect (app_url (''github=connected&user='' @ ''octo'')), snd (snd demo_callback))"
    unfolding demo_callback_answer [symmetric] demo_callback_def [symmetric] by simp
  have hyp: "\<forall>u. (\<lambda>t. Some t) (fst (u, ''github-oauth'')) = Some u"
    "createGithubToken fst ''u1'' (auth_init new_auth) = Some ''u1''" "github_links_unique demo_github_db"
    by (simp, code_simp, simp add: github_links_unique_def demo_github_db_def blank_account_def)
  obtain profile where p: "ga_user demo_github_api = Some (profile, True)"
    "\<forall>u. linked_to (show_int (gp_id profile)) u (fst demo_callback) \<longleftrightarrow> u = ''u1''"
    using github_callback_links [OF hyp run, THEN conjunct1] by blast
  have "gp_id profile = 7" using p(1) by (auto simp: demo_github_api_def)
  moreover have "show_int 7 = ''7''" by code_simp
  ultimately have "linked_to ''7'' u (fst demo_callback) \<longleftrightarrow> u = ''u1''" for u using p(2) by metis
  then show ?thesis by simp
qed

end
