(* ===== verification/CellUpdates.thy ===== *)
theory CellUpdates
  imports Artifacts AccessKeys Account Auth Server
begin

text \<open>
  The versioned cells beside a session's metadata and state: machine metadata, daemon state,
  artifact header and body, access keys and account settings.  Their tables are written by the
  statements listed in \<open>store_op\<close>; each of them leaves every cell alone but the ones it names, so
  the contract \<open>versioned_cell\<close> gives that no update is lost between them.  The one write without a
  version is the update of \<^verbatim>\<open>POST /v1/artifacts/:id\<close> (\<open>StoreArtifactById\<close>), which
  overwrites the parts it carries.
\<close>

section \<open>The statements on the four tables\<close>

text \<open>
  Every statement of the program that writes the tables of machines, artifacts, access keys or
  accounts, by itself or in a transaction; \<open>StoreLog\<close> is a statement of the session protocol and
  \<open>StoreElsewhere\<close> one that writes none of the four tables and may do anything to the others.
\<close>

datatype store_op =
    StoreMachineMetadata ident ident int string
  | StoreDaemonState ident ident int string
  | StoreCreateMachine machine
  | StoreMachineTimeout ident
  | StoreMachineHeartbeat "ts update_item"
  | StoreArtifact ident ident "(bytes \<times> int) option" "(bytes \<times> int) option" int
  | StoreArtifactById ident "(bytes \<times> int) option" "(bytes \<times> int) option" int
  | StoreCreateArtifact artifact
  | StoreDeleteArtifact ident
  | StoreAccessKey ident ident ident int string
  | StoreCreateAccessKey ident ident ident string
  | StoreSettings ident int "string option"
  | StoreUserSeq ident
  | StoreFeedSeq ident
  | StoreUsername ident string
  | StoreClearGithub ident ident
  | StoreLinkGithub ident ident github_profile bytes "string option \<times> string option" image_ref
  | StoreAccount string ident
  | StoreLog server_op
  | StoreElsewhere db

text \<open>A drawn account id that is taken makes the insert throw: nothing is stored.\<close>

definition store_account :: "string \<Rightarrow> ident \<Rightarrow> ts \<Rightarrow> db \<Rightarrow> db" where
  "store_account publicKey newId now d =
     (if find_row (\<lambda>a. a_publicKey a = publicKey) (accounts d) = None \<and> account_row newId d \<noteq> None then d
      else fst (upsert_account publicKey newId now d))"

definition keep_store :: "db \<Rightarrow> db \<Rightarrow> db" where
  "keep_store d e =
     e\<lparr>accounts := accounts d, machines := machines d, artifacts := artifacts d, accessKeys := accessKeys d\<rparr>"

fun apply_store :: "store_op \<Rightarrow> ts \<Rightarrow> db \<Rightarrow> db" where
  "apply_store (StoreMachineMetadata u mid e m) = (\<lambda>now d. fst (update_machine_metadata u mid e m now d))"
| "apply_store (StoreDaemonState u mid e m) = (\<lambda>now d. fst (update_machine_state u mid e m now d))"
| "apply_store (StoreCreateMachine c) = (\<lambda>now d. fst (throwing (create_machine c) d))"
| "apply_store (StoreMachineTimeout mid) = (\<lambda>now d. fst (timeout_machine_cas mid now d))"
| "apply_store (StoreMachineHeartbeat u) = (\<lambda>now d. fst (throwing (persist_machine_row u now) d))"
| "apply_store (StoreArtifact aid u hdr body seq) = (\<lambda>now d. fst (update_artifact_cas aid u hdr body seq now d))"
| "apply_store (StoreArtifactById aid hdr body seq) =
     (\<lambda>now d. fst (throwing (update_artifact_by_id aid hdr body seq now) d))"
| "apply_store (StoreCreateArtifact a) = (\<lambda>now d. fst (throwing (create_artifact a) d))"
| "apply_store (StoreDeleteArtifact aid) = (\<lambda>now d. fst (throwing (delete_artifact aid) d))"
| "apply_store (StoreAccessKey u mid sid e v) = (\<lambda>now d. fst (update_access_key u mid sid e v now d))"
| "apply_store (StoreCreateAccessKey u mid sid v) =
     (\<lambda>now d. fst (throwing (create_access_key u mid sid v now) d))"
| "apply_store (StoreSettings u e v) = (\<lambda>now d. fst (write_settings u e v now d))"
| "apply_store (StoreUserSeq u) = (\<lambda>now d. fst (throwing (allocateUserSeq u now) d))"
| "apply_store (StoreFeedSeq u) = (\<lambda>now d. fst (throwing (allocateFeedSeq u now) d))"
| "apply_store (StoreUsername u name) = (\<lambda>now d. fst (throwing (set_username u name now) d))"
| "apply_store (StoreClearGithub u gid) = (\<lambda>now d. fst (throwing (clear_github u gid now) d))"
| "apply_store (StoreLinkGithub u gid p token name avatar) =
     (\<lambda>now d. fst (throwing (link_github u gid p token name avatar now) d))"
| "apply_store (StoreAccount publicKey newId) = (\<lambda>now d. store_account publicKey newId now d)"
| "apply_store (StoreLog op) = (\<lambda>now d. apply_op op now d)"
| "apply_store (StoreElsewhere e) = (\<lambda>now d. keep_store d e)"

section \<open>What the statements of the session protocol do to the four tables\<close>

fun log_op :: "server_op \<Rightarrow> bool" where
  "log_op (OpOther e) = False"
| "log_op _ = True"

definition settings_columns :: "account \<Rightarrow> ident \<times> string option \<times> int" where
  "settings_columns a = (a_id a, (a_settings a, a_settingsVersion a))"

definition same_store :: "db \<Rightarrow> db \<Rightarrow> bool" where
  "same_store d d' =
     (machines d' = machines d \<and> artifacts d' = artifacts d
    \<and> map settings_columns (accounts d') = map settings_columns (accounts d))"

lemma columns_update:
  "(\<And>a. settings_columns (f a) = settings_columns a) \<Longrightarrow> map settings_columns (update_rows P f rs) = map settings_columns rs"
  by (induction rs) auto

lemma same_store_refl [simp]: "same_store d d"
  by (simp add: same_store_def)

lemma claim_store:
  "same_store d (fst (claimRuntimeConnectionLease inp synthetic now d))
   \<and> accessKeys (fst (claimRuntimeConnectionLease inp synthetic now d)) = accessKeys d"
  by (cases rule: claim_dispatch [of inp synthetic now d])
    (auto simp: claim_replay_def claim_live_def Let_def same_store_def split: option.splits prod.splits)

lemma end_store:
  "same_store d (fst (endRuntimeConnectionLease acct sid iid tombstone now d))
   \<and> accessKeys (fst (endRuntimeConnectionLease acct sid iid tombstone now d)) = accessKeys d"
  by (cases rule: end_cases [of acct sid iid tombstone now d]) (auto simp: same_store_def)

lemma persist_store:
  "same_store d (fst (persistSessionMessage inp msgId outboxId now d))
   \<and> accessKeys (fst (persistSessionMessage inp msgId outboxId now d)) = accessKeys d"
proof (cases "persistSessionMessageInTx inp msgId outboxId now d")
  case (Some p)
  obtain d' res where p: "p = (d', res)" by (cases p)
  have "same_store d d' \<and> accessKeys d' = accessKeys d"
    using Some [unfolded p]
  proof (cases rule: persist_cases)
    case (Inserted r)
    then show ?thesis
      by (auto simp: insert_message_def allocateSessionSeq_def create_message_def allocateUserSeq_def
          create_outbox_row_def same_store_def settings_columns_def Let_def
          split: option.splits if_splits intro!: columns_update)
  qed simp
  with Some p show ?thesis by (simp add: persistSessionMessage_def throwing_def)
qed (simp add: persistSessionMessage_def throwing_def)

lemma delete_store:
  "same_store d (fst (sessionDelete uid sid d))
   \<and> (accessKeys (fst (sessionDelete uid sid d)) = accessKeys d
      \<or> accessKeys (fst (sessionDelete uid sid d)) = delete_rows (\<lambda>k. k_sessionId k = sid) (accessKeys d))"
  by (auto simp: sessionDelete_def Let_def delete_session_row_def delete_messages_def same_store_def split: option.splits)

lemma log_op_store:
  assumes "log_op op"
  shows "same_store d (apply_op op now d)"
  using assms
  by (cases op)
    (simp_all add: claim_store [unfolded same_store_def] end_store [unfolded same_store_def]
      persist_store [unfolded same_store_def] delete_store [unfolded same_store_def] expireRuntimeConnectionLease_def
      renewRuntimeConnectionLease_def renewLegacyRuntimeConnection_def legacy_session_end_def
      updateRuntimeSessionMetadata_def updateRuntimeSessionState_def user_update_metadata_def
      user_update_state_def create_session_def timeout_session_cas_def throwing_def allocateUserSeq_def
      claim_row_def markDelivered_def markFailed_def cleanupDelivered_def Let_def same_store_def
      settings_columns_def columns_update split: option.splits)

lemma log_op_keys:
  assumes "log_op op" and "\<And>uid. op \<noteq> OpDeleteSession uid sid"
  shows "accessKeys (apply_op op now d) = accessKeys d
    \<or> (\<exists>s. s \<noteq> sid \<and> accessKeys (apply_op op now d) = delete_rows (\<lambda>k. k_sessionId k = s) (accessKeys d))"
proof (cases op)
  case (OpDeleteSession uid s)
  then show ?thesis using assms(2) delete_store [of d uid s] by auto
qed (use assms in \<open>simp_all add: claim_store end_store persist_store expireRuntimeConnectionLease_def
      renewRuntimeConnectionLease_def renewLegacyRuntimeConnection_def legacy_session_end_def
      updateRuntimeSessionMetadata_def updateRuntimeSessionState_def user_update_metadata_def
      user_update_state_def create_session_def timeout_session_cas_def throwing_def allocateUserSeq_def
      claim_row_def markDelivered_def markFailed_def cleanupDelivered_def Let_def split: option.splits\<close>)

section \<open>Which statements may run beside the writes of a cell\<close>

text \<open>
  Each predicate excludes the writes of the cell itself (they are the \<open>StoreWrite\<close> events of the
  history) and what removes its row; the two for artifacts also exclude the unversioned update of
  \<^verbatim>\<open>POST /v1/artifacts/:id\<close> when it carries that part.
\<close>

fun beside_machine_metadata :: "ident \<Rightarrow> store_op \<Rightarrow> bool" where
  "beside_machine_metadata mid (StoreMachineMetadata u m e v) = (m \<noteq> mid)"
| "beside_machine_metadata mid (StoreLog op) = log_op op"
| "beside_machine_metadata mid _ = True"

fun beside_daemon_state :: "ident \<Rightarrow> store_op \<Rightarrow> bool" where
  "beside_daemon_state mid (StoreDaemonState u m e v) = (m \<noteq> mid)"
| "beside_daemon_state mid (StoreLog op) = log_op op"
| "beside_daemon_state mid _ = True"

fun beside_header :: "ident \<Rightarrow> store_op \<Rightarrow> bool" where
  "beside_header aid (StoreArtifact a u hdr body seq) = (a \<noteq> aid \<or> hdr = None)"
| "beside_header aid (StoreArtifactById a hdr body seq) = (a \<noteq> aid \<or> hdr = None)"
| "beside_header aid (StoreDeleteArtifact a) = (a \<noteq> aid)"
| "beside_header aid (StoreLog op) = log_op op"
| "beside_header aid _ = True"

fun beside_body :: "ident \<Rightarrow> store_op \<Rightarrow> bool" where
  "beside_body aid (StoreArtifact a u hdr body seq) = (a \<noteq> aid \<or> body = None)"
| "beside_body aid (StoreArtifactById a hdr body seq) = (a \<noteq> aid \<or> body = None)"
| "beside_body aid (StoreDeleteArtifact a) = (a \<noteq> aid)"
| "beside_body aid (StoreLog op) = log_op op"
| "beside_body aid _ = True"

fun beside_access_key :: "key_id \<Rightarrow> store_op \<Rightarrow> bool" where
  "beside_access_key i (StoreAccessKey u mid sid e v) = ((u, mid, sid) \<noteq> i)"
| "beside_access_key i (StoreLog (OpDeleteSession u sid)) = (sid \<noteq> snd (snd i))"
| "beside_access_key i (StoreLog op) = log_op op"
| "beside_access_key i _ = True"

fun beside_settings :: "ident \<Rightarrow> store_op \<Rightarrow> bool" where
  "beside_settings uid (StoreSettings u e v) = (u \<noteq> uid)"
| "beside_settings uid (StoreLog op) = log_op op"
| "beside_settings uid _ = True"

text \<open>Every statement of the list keeps a cell it may run beside.\<close>

lemma set_parts_keep:
  "f_header (set_parts None body seq now r) = f_header r"
  "f_headerVersion (set_parts None body seq now r) = f_headerVersion r"
  "f_body (set_parts hdr None seq now r) = f_body r"
  "f_bodyVersion (set_parts hdr None seq now r) = f_bodyVersion r"
  by (auto simp: set_parts_def Let_def split: option.splits)

lemmas store_statements =
  update_machine_metadata_def update_machine_state_def create_machine_def timeout_machine_cas_def
  persist_machine_row_def update_artifact_cas_def update_artifact_by_id_def create_artifact_def
  delete_artifact_def update_access_key_def create_access_key_def write_settings_def allocateUserSeq_def
  allocateFeedSeq_def set_username_def clear_github_def link_github_def keep_store_def throwing_def Let_def

lemma machine_metadata_kept:
  assumes "machine_ids_unique d" and "machine_metadata_cell mid d \<noteq> None" and "beside_machine_metadata mid op"
  shows "machine_ids_unique (apply_store op now d) \<and> machine_metadata_cell mid (apply_store op now d) = machine_metadata_cell mid d"
proof -
  have row: "find_row (\<lambda>r. c_id r = mid) (machines d) \<noteq> None" and uniq: "unique_by c_id (machines d)"
    using assms(1,2) by (simp_all add: machine_ids_unique_def machine_metadata_cell_def machine_row_def)
  have "cell_kept c_id mid (\<lambda>r. (c_metadata r, c_metadataVersion r)) (machines d) (machines (apply_store op now d))"
  proof (cases op)
    case (StoreLog x)
    then show ?thesis using assms(3) log_op_store [of x d now] uniq by (simp add: same_store_def cell_kept_same)
  qed (use uniq row assms(3) in \<open>auto simp: store_statements store_account_def upsert_account_def
    intro!: cell_kept_rules split: option.splits\<close>)
  then show ?thesis
    by (simp add: cell_kept_def machine_ids_unique_def machine_metadata_cell_def machine_row_def)
qed

lemma daemon_state_kept:
  assumes "machine_ids_unique d" and "daemon_state_cell mid d \<noteq> None" and "beside_daemon_state mid op"
  shows "machine_ids_unique (apply_store op now d) \<and> daemon_state_cell mid (apply_store op now d) = daemon_state_cell mid d"
proof -
  have row: "find_row (\<lambda>r. c_id r = mid) (machines d) \<noteq> None" and uniq: "unique_by c_id (machines d)"
    using assms(1,2) by (simp_all add: machine_ids_unique_def daemon_state_cell_def machine_row_def)
  have "cell_kept c_id mid (\<lambda>r. (c_daemonState r, c_daemonStateVersion r)) (machines d) (machines (apply_store op now d))"
  proof (cases op)
    case (StoreLog x)
    then show ?thesis using assms(3) log_op_store [of x d now] uniq by (simp add: same_store_def cell_kept_same)
  qed (use uniq row assms(3) in \<open>auto simp: store_statements store_account_def upsert_account_def
    intro!: cell_kept_rules split: option.splits\<close>)
  then show ?thesis
    by (simp add: cell_kept_def machine_ids_unique_def daemon_state_cell_def machine_row_def)
qed

lemma artifact_header_kept:
  assumes "artifact_ids_unique d" and "artifact_header_cell aid d \<noteq> None" and "beside_header aid op"
  shows "artifact_ids_unique (apply_store op now d) \<and> artifact_header_cell aid (apply_store op now d) = artifact_header_cell aid d"
proof -
  have row: "find_row (\<lambda>r. f_id r = aid) (artifacts d) \<noteq> None" and uniq: "unique_by f_id (artifacts d)"
    using assms(1,2) by (simp_all add: artifact_ids_unique_def artifact_header_cell_def artifact_row_def)
  have "cell_kept f_id aid (\<lambda>r. (f_header r, f_headerVersion r)) (artifacts d) (artifacts (apply_store op now d))"
  proof (cases op)
    case (StoreLog x)
    then show ?thesis using assms(3) log_op_store [of x d now] uniq by (simp add: same_store_def cell_kept_same)
  qed (use uniq row assms(3) in \<open>auto simp: store_statements store_account_def upsert_account_def set_parts_columns
    set_parts_keep intro!: cell_kept_rules split: option.splits\<close>)
  then show ?thesis
    by (simp add: cell_kept_def artifact_ids_unique_def artifact_header_cell_def artifact_row_def)
qed

lemma artifact_body_kept:
  assumes "artifact_ids_unique d" and "artifact_body_cell aid d \<noteq> None" and "beside_body aid op"
  shows "artifact_ids_unique (apply_store op now d) \<and> artifact_body_cell aid (apply_store op now d) = artifact_body_cell aid d"
proof -
  have row: "find_row (\<lambda>r. f_id r = aid) (artifacts d) \<noteq> None" and uniq: "unique_by f_id (artifacts d)"
    using assms(1,2) by (simp_all add: artifact_ids_unique_def artifact_body_cell_def artifact_row_def)
  have "cell_kept f_id aid (\<lambda>r. (f_body r, f_bodyVersion r)) (artifacts d) (artifacts (apply_store op now d))"
  proof (cases op)
    case (StoreLog x)
    then show ?thesis using assms(3) log_op_store [of x d now] uniq by (simp add: same_store_def cell_kept_same)
  qed (use uniq row assms(3) in \<open>auto simp: store_statements store_account_def upsert_account_def set_parts_columns
    set_parts_keep intro!: cell_kept_rules split: option.splits\<close>)
  then show ?thesis
    by (simp add: cell_kept_def artifact_ids_unique_def artifact_body_cell_def artifact_row_def)
qed

lemma new_key_columns:
  "find_access_key u mid sid d = None \<Longrightarrow> \<forall>k \<in> set (accessKeys d). key_columns k \<noteq> (u, mid, sid)"
  by (auto simp: find_access_key_def find_row_None_iff key_columns_def)

lemma access_key_kept:
  assumes "access_keys_unique d" and "access_key_cell i d \<noteq> None" and "beside_access_key i op"
  shows "access_keys_unique (apply_store op now d) \<and> access_key_cell i (apply_store op now d) = access_key_cell i d"
proof -
  have row: "find_row (\<lambda>k. key_columns k = i) (accessKeys d) \<noteq> None" and uniq: "unique_by key_columns (accessKeys d)"
    using assms(1,2) by (simp_all add: access_keys_unique_def access_key_cell_def)
  have "cell_kept key_columns i (\<lambda>k. (k_data k, k_dataVersion k)) (accessKeys d) (accessKeys (apply_store op now d))"
  proof (cases op)
    case (StoreLog x)
    have "log_op x" "\<And>uid. x \<noteq> OpDeleteSession uid (snd (snd i))"
      using assms(3) StoreLog by (cases x; simp)+
    from log_op_keys [OF this, of now d] show ?thesis
      using uniq StoreLog by (auto intro!: cell_kept_same cell_kept_delete simp: key_columns_def)
  next
    case (StoreCreateAccessKey u mid sid v)
    then show ?thesis
      using uniq row new_key_columns [of u mid sid d]
      by (auto simp: create_access_key_def throwing_def Let_def
          intro!: cell_kept_same cell_kept_insert split: option.splits) (auto simp: key_columns_def)
  qed (use uniq row assms(3) in \<open>auto simp: store_statements store_account_def upsert_account_def key_columns_def
    intro!: cell_kept_rules split: option.splits\<close>)
  then show ?thesis
    by (simp add: cell_kept_def access_keys_unique_def access_key_cell_def)
qed

lemma settings_kept:
  assumes "account_ids_unique d" and "settings_cell uid d \<noteq> None" and "beside_settings uid op"
  shows "account_ids_unique (apply_store op now d) \<and> settings_cell uid (apply_store op now d) = settings_cell uid d"
proof -
  have row: "find_row (\<lambda>a. a_id a = uid) (accounts d) \<noteq> None" and uniq: "unique_by a_id (accounts d)"
    using assms(1,2) by (simp_all add: account_ids_unique_def settings_cell_def account_row_def)
  have "cell_kept a_id uid (\<lambda>a. (a_settings a, a_settingsVersion a)) (accounts d) (accounts (apply_store op now d))"
  proof (cases op)
    case (StoreLog x)
    then show ?thesis using assms(3) log_op_store [of x d now] uniq
      by (intro cell_kept_columns) (simp_all add: same_store_def settings_columns_def [abs_def])
  next
    case (StoreAccount publicKey newId)
    have fresh: "\<forall>a \<in> set (accounts d). a_id a \<noteq> newId" if "account_row newId d = None"
      using that by (simp add: account_row_def find_row_None_iff)
    have "cell_kept a_id uid (\<lambda>a. (a_settings a, a_settingsVersion a)) (accounts d)
        (accounts (store_account publicKey newId now d))"
    proof (cases "find_row (\<lambda>a. a_publicKey a = publicKey) (accounts d)")
      case None
      then show ?thesis using uniq row fresh
        by (auto simp: store_account_def upsert_account_def Let_def blank_account_def intro!: cell_kept_same cell_kept_insert)
    qed (use uniq in \<open>auto simp: store_account_def upsert_account_def intro!: cell_kept_update\<close>)
    then show ?thesis using StoreAccount by simp
  qed (use uniq row assms(3) in \<open>auto simp: store_statements account_row_def intro!: cell_kept_rules split: option.splits\<close>)
  then show ?thesis
    by (simp add: cell_kept_def account_ids_unique_def settings_cell_def account_row_def)
qed

section \<open>No lost update\<close>

text \<open>A history of a cell: its own writes, and any of the other statements between them.\<close>

datatype 'w store_event = StoreWrite int 'w | StoreStep store_op ts

fun store_steps :: "'w store_event list \<Rightarrow> (db, 'w) cell_step list" where
  "store_steps [] = []"
| "store_steps (StoreWrite e x # hs) = Write e x # store_steps hs"
| "store_steps (StoreStep op now # hs) = Other (apply_store op now) # store_steps hs"

fun steps_beside :: "(store_op \<Rightarrow> bool) \<Rightarrow> 'w store_event list \<Rightarrow> bool" where
  "steps_beside K [] = True"
| "steps_beside K (StoreWrite e x # hs) = steps_beside K hs"
| "steps_beside K (StoreStep op now # hs) = (K op \<and> steps_beside K hs)"

lemma steps_beside_keep:
  assumes "\<And>d op now. ok d \<Longrightarrow> cell d \<noteq> None \<Longrightarrow> K op \<Longrightarrow>
      ok (apply_store op now d) \<and> cell (apply_store op now d) = cell d"
    and "steps_beside K hs"
  shows "other_steps_keep ok cell (store_steps hs)"
  using assms(2) by (induction hs rule: store_steps.induct) (use assms(1) in auto)

text \<open>
  Every history of a cell grants the versions \<open>n\<close>, \<open>n + 1\<close>, .. once each and ends with the value
  of the last granted write.
\<close>

definition keeps_every_write ::
  "(int \<Rightarrow> 'w \<Rightarrow> db \<Rightarrow> db \<times> bool) \<Rightarrow> ('w \<Rightarrow> 'v) \<Rightarrow> (db \<Rightarrow> ('v \<times> int) option) \<Rightarrow> (db \<Rightarrow> bool)
   \<Rightarrow> (store_op \<Rightarrow> bool) \<Rightarrow> db \<Rightarrow> bool" where
  "keeps_every_write cas payload cell ok beside d =
     (\<forall>hs v n. ok d \<and> cell d = Some (v, n) \<and> steps_beside beside hs \<longrightarrow>
        (case cell_run cas (store_steps hs) d of
           (d', wins) \<Rightarrow> map fst wins = map (\<lambda>i. n + int i) [0..<length wins]
             \<and> cell d' = Some (last (v # map (payload \<circ> snd) wins), n + int (length wins))))"

lemma versioned_keeps_every_write:
  fixes cas :: "int \<Rightarrow> 'w \<Rightarrow> db \<Rightarrow> db \<times> bool"
  assumes "\<And>v n hs d' wins. ok d \<Longrightarrow> cell d = Some (v, n) \<Longrightarrow> other_steps_keep ok cell hs \<Longrightarrow> cell_run cas hs d = (d', wins) \<Longrightarrow>
      map fst wins = map (\<lambda>i. n + int i) [0..<length wins]
      \<and> cell d' = Some (last (v # map (payload \<circ> snd) wins), n + int (length wins))"
    and "\<And>d op now. ok d \<Longrightarrow> cell d \<noteq> None \<Longrightarrow> beside op \<Longrightarrow>
      ok (apply_store op now d) \<and> cell (apply_store op now d) = cell d"
  shows "keeps_every_write cas payload cell ok beside d"
  unfolding keeps_every_write_def
proof (intro allI impI, elim conjE)
  fix hs :: "'w store_event list" and v n
  assume "ok d" "cell d = Some (v, n)" and hs: "steps_beside beside hs"
  have "other_steps_keep ok cell (store_steps hs)" by (rule steps_beside_keep [OF assms(2) hs])
  from assms(1) [OF \<open>ok d\<close> \<open>cell d = Some (v, n)\<close> this]
  show "case cell_run cas (store_steps hs) d of
      (d', wins) \<Rightarrow> map fst wins = map (\<lambda>i. n + int i) [0..<length wins]
        \<and> cell d' = Some (last (v # map (payload \<circ> snd) wins), n + int (length wins))"
    by (cases "cell_run cas (store_steps hs) d") simp
qed

text \<open>
  C11.  No versioned write is lost.  Take any interleaving of writes to one of the six cells (the
  metadata or the daemon state of a machine, the header or the body of an artifact, an access key,
  the settings of an account) with any statements of the program on the four tables, the whole
  session protocol and arbitrary changes elsewhere, the row itself not being deleted: the writes
  that report success are granted consecutive versions, each once, and the cell ends with the last
  of them.  For a part of an artifact the history holds no \<^verbatim>\<open>POST /v1/artifacts/:id\<close> that carries
  this part: the update of that route checks no version, and does overwrite a granted write.
\<close>

theorem no_lost_cell_update:
  "keeps_every_write (machine_metadata_cas mid) machine_write_value (machine_metadata_cell mid) machine_ids_unique
     (beside_machine_metadata mid) d
   \<and> keeps_every_write (daemon_state_cas mid) (Some \<circ> machine_write_value) (daemon_state_cell mid) machine_ids_unique
     (beside_daemon_state mid) d
   \<and> keeps_every_write (artifact_header_cas aid) artifact_write_value (artifact_header_cell aid) artifact_ids_unique
     (beside_header aid) d
   \<and> keeps_every_write (artifact_body_cas aid) artifact_write_value (artifact_body_cell aid) artifact_ids_unique
     (beside_body aid) d
   \<and> keeps_every_write (access_key_cas k) fst (access_key_cell k) access_keys_unique (beside_access_key k) d
   \<and> keeps_every_write (settings_cas uid) fst (settings_cell uid) account_ids_unique (beside_settings uid) d"
proof (intro conjI)
  show "keeps_every_write (machine_metadata_cas mid) machine_write_value (machine_metadata_cell mid) machine_ids_unique (beside_machine_metadata mid) d"
    by (rule versioned_keeps_every_write)
      (erule (3) machine_metadata_versions.no_lost_update, erule (2) machine_metadata_kept)
  show "keeps_every_write (daemon_state_cas mid) (Some \<circ> machine_write_value) (daemon_state_cell mid) machine_ids_unique (beside_daemon_state mid) d"
    by (rule versioned_keeps_every_write)
      (erule (3) daemon_state_versions.no_lost_update, erule (2) daemon_state_kept)
  show "keeps_every_write (artifact_header_cas aid) artifact_write_value (artifact_header_cell aid) artifact_ids_unique (beside_header aid) d"
    by (rule versioned_keeps_every_write)
      (erule (3) artifact_header_versions.no_lost_update, erule (2) artifact_header_kept)
  show "keeps_every_write (artifact_body_cas aid) artifact_write_value (artifact_body_cell aid) artifact_ids_unique (beside_body aid) d"
    by (rule versioned_keeps_every_write)
      (erule (3) artifact_body_versions.no_lost_update, erule (2) artifact_body_kept)
  show "keeps_every_write (access_key_cas k) fst (access_key_cell k) access_keys_unique (beside_access_key k) d"
    by (rule versioned_keeps_every_write)
      (erule (3) access_key_versions.no_lost_update, erule (2) access_key_kept)
  show "keeps_every_write (settings_cas uid) fst (settings_cell uid) account_ids_unique (beside_settings uid) d"
    by (rule versioned_keeps_every_write)
      (erule (3) settings_versions.no_lost_update, erule (2) settings_kept)
qed

text \<open>
  Two clients write the settings of an account, one of them late, while the account's counter
  advances and its user name is set.
\<close>

definition demo_settings_db :: db where
  "demo_settings_db = empty_db\<lparr>accounts := [blank_account ''u1'' ''pk1'' 0]\<rparr>"

definition demo_settings_writes :: "(string option \<times> ts) store_event list" where
  "demo_settings_writes =
     [StoreWrite 0 (Some ''a'', 1), StoreStep (StoreUserSeq ''u1'') 1, StoreWrite 0 (Some ''b'', 2),
      StoreStep (StoreUsername ''u1'' ''ann'') 2, StoreWrite 1 (Some ''c'', 3)]"

theorem no_lost_cell_update_witness:
  "\<exists>d'. cell_run (settings_cas ''u1'') (store_steps demo_settings_writes) demo_settings_db
       = (d', [(0, Some ''a'', 1), (1, Some ''c'', 3)])
     \<and> settings_cell ''u1'' d' = Some (Some ''c'', 2)"
proof -
  have "account_ids_unique demo_settings_db" "settings_cell ''u1'' demo_settings_db = Some (None, 0)"
    by code_simp+
  moreover have "steps_beside (beside_settings ''u1'') demo_settings_writes"
    by (simp add: demo_settings_writes_def)
  moreover have "snd (cell_run (settings_cas ''u1'') (store_steps demo_settings_writes) demo_settings_db)
      = [(0, Some ''a'', 1), (1, Some ''c'', 3)]"
    by code_simp
  then obtain d' where "cell_run (settings_cas ''u1'') (store_steps demo_settings_writes) demo_settings_db
      = (d', [(0, Some ''a'', 1), (1, Some ''c'', 3)])"
    by (metis prod.collapse)
  ultimately show ?thesis
    using no_lost_cell_update [of _ demo_settings_db _ _ "''u1''"]
    unfolding keeps_every_write_def by (fastforce split: prod.splits)
qed

end
