(* ===== verification/Utilities.thy ===== *)
theory Utilities
  imports Database Text Complex_Main "HOL-Library.AList"
begin

text \<open>
  Small modules of the server: once-only keys (\<^verbatim>\<open>storage/repeatKey.ts\<close>), the result cache
  (\<^verbatim>\<open>storage/simpleCache.ts\<close>), the retry loop (\<^verbatim>\<open>utils/backoff.ts\<close>, \<^verbatim>\<open>utils/aborted.ts\<close>), random keys
  (\<^verbatim>\<open>utils/randomKeyNaked.ts\<close>, \<^verbatim>\<open>utils/randomKey.ts\<close>), the interruptible delay
  (\<^verbatim>\<open>utils/delay.ts\<close>), the endless worker (\<^verbatim>\<open>utils/forever.ts\<close>), merging (\<^verbatim>\<open>utils/objects.ts\<close>) and the
  retry delays of \<^verbatim>\<open>storage/redis.ts\<close> and of the RPC lifecycle.
\<close>

section \<open>Once-only keys\<close>

text \<open>The upsert of \<^verbatim>\<open>saveRepeatKey\<close>, on the rows of the table; the key is its primary key.\<close>

definition upsert_repeat :: "ts \<Rightarrow> string \<Rightarrow> string \<Rightarrow> ts \<Rightarrow> repeat_key list \<Rightarrow> repeat_key list" where
  "upsert_repeat now key val timeout rows =
     (if find_row (\<lambda>r. e_key r = key) rows = None
      then rows @ [\<lparr>e_key = key, e_value = val, e_createdAt = now, e_expiresAt = timeout\<rparr>]
      else update_rows (\<lambda>r. e_key r = key) (\<lambda>r. r\<lparr>e_value := val, e_expiresAt := timeout\<rparr>) rows)"

definition fetchRepeatKey :: "ts \<Rightarrow> string \<Rightarrow> repeat_key list \<Rightarrow> string option" where
  "fetchRepeatKey now key rows =
     map_option e_value (find_row (\<lambda>r. e_key r = key \<and> now \<le> e_expiresAt r) rows)"

definition default_timeout :: "ts \<Rightarrow> ts option \<Rightarrow> ts" where
  "default_timeout now timeout = (case timeout of None \<Rightarrow> now + 1000 * 60 * 60 * 24 | Some t \<Rightarrow> t)"

definition saveRepeatKey :: "ts \<Rightarrow> string \<Rightarrow> string \<Rightarrow> ts option \<Rightarrow> repeat_key list \<Rightarrow> repeat_key list" where
  "saveRepeatKey now key val timeout rows = upsert_repeat now key val (default_timeout now timeout) rows"

definition repeatKey :: "ts \<Rightarrow> string \<Rightarrow> string \<Rightarrow> ts option \<Rightarrow> repeat_key list \<Rightarrow> repeat_key list \<times> bool" where
  "repeatKey now key val timeout rows =
     (case find_row (\<lambda>r. e_key r = key \<and> e_expiresAt r \<le> now) rows of
        Some _ \<Rightarrow> (rows, False)
      | None \<Rightarrow> (upsert_repeat now key val (default_timeout now timeout) rows, True))"

text \<open>After an upsert every row of the key carries the new value and expiry, and there is one.\<close>

lemma upsert_repeat_rows:
  "(\<forall>r \<in> set (upsert_repeat now key val timeout rows). e_key r = key \<longrightarrow> e_value r = val \<and> e_expiresAt r = timeout)
   \<and> (\<exists>r \<in> set (upsert_repeat now key val timeout rows). e_key r = key)"
proof (cases "find_row (\<lambda>r. e_key r = key) rows")
  case None
  then show ?thesis by (auto simp: upsert_repeat_def find_row_None_iff)
next
  case (Some r0)
  then have r0: "r0 \<in> set rows" "e_key r0 = key" using find_row_SomeD by fast+
  then have "r0\<lparr>e_value := val, e_expiresAt := timeout\<rparr>
      \<in> set (update_rows (\<lambda>r. e_key r = key) (\<lambda>r. r\<lparr>e_value := val, e_expiresAt := timeout\<rparr>) rows)"
    by (simp add: set_update_rows)
  then have "\<exists>r \<in> set (upsert_repeat now key val timeout rows). e_key r = key"
    using Some unfolding upsert_repeat_def by (intro bexI) (simp_all add: r0(2))
  moreover have "\<forall>r \<in> set (upsert_repeat now key val timeout rows). e_key r = key \<longrightarrow> e_value r = val \<and> e_expiresAt r = timeout"
  proof (intro ballI impI)
    fix r assume r: "r \<in> set (upsert_repeat now key val timeout rows)" and k: "e_key r = key"
    have ups: "upsert_repeat now key val timeout rows
        = map (\<lambda>x. if e_key x = key then x\<lparr>e_value := val, e_expiresAt := timeout\<rparr> else x) rows"
      unfolding upsert_repeat_def update_rows_def Some by simp
    obtain x where "r = (if e_key x = key then x\<lparr>e_value := val, e_expiresAt := timeout\<rparr> else x)"
      using r unfolding ups set_map by (elim imageE) (rule that)
    with k show "e_value r = val \<and> e_expiresAt r = timeout" by (cases "e_key x = key") simp_all
  qed
  ultimately show ?thesis by (rule conjI [rotated])
qed

text \<open>A saved key is read back until it expires.\<close>

lemma fetch_after_save:
  "fetchRepeatKey now' key (saveRepeatKey now key val timeout rows)
     = (if now' \<le> default_timeout now timeout then Some val else None)"
proof -
  let ?rows = "upsert_repeat now key val (default_timeout now timeout) rows"
  note rows = upsert_repeat_rows [of now key val "default_timeout now timeout" rows]
  show ?thesis
  proof (cases "now' \<le> default_timeout now timeout")
    case True
    obtain r0 where "r0 \<in> set ?rows" "e_key r0 = key" using rows by blast
    moreover then have "now' \<le> e_expiresAt r0" using rows True by simp
    ultimately obtain r where r: "find_row (\<lambda>r. e_key r = key \<and> now' \<le> e_expiresAt r) ?rows = Some r"
      using find_row_Some_ex [of r0 ?rows "\<lambda>r. e_key r = key \<and> now' \<le> e_expiresAt r"] by blast
    then have "e_value r = val" using find_row_SomeD [OF r] rows by blast
    with True r show ?thesis by (simp add: fetchRepeatKey_def saveRepeatKey_def)
  next
    case False
    then have "\<not> (e_key r = key \<and> now' \<le> e_expiresAt r)" if "r \<in> set ?rows" for r using rows that by auto
    then have "find_row (\<lambda>r. e_key r = key \<and> now' \<le> e_expiresAt r) ?rows = None"
      unfolding find_row_None_iff by blast
    with False show ?thesis by (simp add: fetchRepeatKey_def saveRepeatKey_def)
  qed
qed

text \<open>
  The condition of \<^verbatim>\<open>repeatKey\<close> selects expired rows: a key taken a moment ago is granted again and
  overwritten, and one that has expired is refused for good.
\<close>

lemma repeatKey_inverted:
  "repeatKey 10 ''k'' ''b'' (Some 30) [\<lparr>e_key = ''k'', e_value = ''a'', e_createdAt = 5, e_expiresAt = 20\<rparr>]
     = ([\<lparr>e_key = ''k'', e_value = ''b'', e_createdAt = 5, e_expiresAt = 30\<rparr>], True)"
  "snd (repeatKey 25 ''k'' ''b'' (Some 30) [\<lparr>e_key = ''k'', e_value = ''a'', e_createdAt = 5, e_expiresAt = 20\<rparr>]) = False"
  by (simp_all add: repeatKey_def upsert_repeat_def default_timeout_def)

section \<open>The result cache\<close>

definition writeToSimpleCache :: "ts \<Rightarrow> string \<Rightarrow> string \<Rightarrow> cache_row list \<Rightarrow> cache_row list" where
  "writeToSimpleCache now key val rows =
     (if find_row (\<lambda>r. h_key r = key) rows = None
      then rows @ [\<lparr>h_key = key, h_value = val, h_createdAt = now, h_updatedAt = now\<rparr>]
      else update_rows (\<lambda>r. h_key r = key) (\<lambda>r. r\<lparr>h_value := val, h_updatedAt := now\<rparr>) rows)"

definition readFromSimpleCache :: "string \<Rightarrow> cache_row list \<Rightarrow> string option" where
  "readFromSimpleCache key rows = map_option h_value (find_row (\<lambda>r. h_key r = key) rows)"

text \<open>
  \<open>execute\<close> is the result of the function that is run on a miss; the flag says that it ran.\<close>

definition runCachedString :: "ts \<Rightarrow> string \<Rightarrow> string \<Rightarrow> cache_row list \<Rightarrow> cache_row list \<times> string \<times> bool" where
  "runCachedString now key execute rows =
     (case readFromSimpleCache key rows of
        Some v \<Rightarrow> (rows, v, False)
      | None \<Rightarrow> (writeToSimpleCache now key execute rows, execute, True))"

definition runCachedBoolean :: "ts \<Rightarrow> string \<Rightarrow> bool \<Rightarrow> cache_row list \<Rightarrow> cache_row list \<times> bool \<times> bool" where
  "runCachedBoolean now key execute rows =
     (case readFromSimpleCache key rows of
        Some v \<Rightarrow> (rows, v = ''true'', False)
      | None \<Rightarrow>
          (let v = (if execute then ''true'' else ''false'')
           in (writeToSimpleCache now key v rows, v = ''true'', True)))"

lemma read_after_write: "readFromSimpleCache key (writeToSimpleCache now key val rows) = Some val"
proof (cases "find_row (\<lambda>r. h_key r = key) rows")
  case (Some r)
  then show ?thesis using find_row_SomeD [OF Some] by (simp add: readFromSimpleCache_def writeToSimpleCache_def find_row_update)
qed (simp add: readFromSimpleCache_def writeToSimpleCache_def)

text \<open>A second call answers like the first, whatever its function would say, without running it.\<close>

lemma cached_once:
  "runCachedString t key y (fst (runCachedString now key x rows))
     = (fst (runCachedString now key x rows), fst (snd (runCachedString now key x rows)), False)"
  "runCachedBoolean t key c (fst (runCachedBoolean now key b rows))
     = (fst (runCachedBoolean now key b rows), fst (snd (runCachedBoolean now key b rows)), False)"
  by (simp_all add: runCachedString_def runCachedBoolean_def read_after_write Let_def split: option.splits)

section \<open>Retrying with a delay\<close>

text \<open>\<open>random\<close> is the number drawn from \<open>[0, 1)\<close>.\<close>

definition exponentialRandomizedBackoffDelay :: "nat \<Rightarrow> real \<Rightarrow> real \<Rightarrow> real \<Rightarrow> real \<Rightarrow> int" where
  "exponentialRandomizedBackoffDelay failureCount minDelay maxDelay factor random =
     (let exponentialDelay = min maxDelay (minDelay * 2 ^ failureCount);
          jitterRange = exponentialDelay * factor;
          randomJitter = (random * 2 - 1) * jitterRange
      in \<lfloor>max minDelay (min maxDelay (exponentialDelay + randomJitter))\<rfloor>)"

text \<open>What an attempt does; the abort exception is not retried.\<close>

datatype 'a attempt = Succeeded 'a | AbortedError | OtherError

record backoff_options =
  bo_minDelay :: "real option"
  bo_maxDelay :: "real option"
  bo_factor :: "real option"

definition default_to :: "'a \<Rightarrow> 'a option \<Rightarrow> 'a" where
  "default_to x v = (case v of None \<Rightarrow> x | Some y \<Rightarrow> y)"

text \<open>
  The loop over the outcomes of the attempts and the random numbers drawn; \<^verbatim>\<open>currentFailureCount\<close> stays 0.
  The result (\<open>None\<close> when the abort exception is thrown) and the delays, or \<open>None\<close> while it is still
  retrying.
\<close>

fun backoff_loop :: "backoff_options \<Rightarrow> ('a attempt \<times> real) list \<Rightarrow> int list \<Rightarrow> ('a option \<times> int list) option" where
  "backoff_loop opts [] waits = None"
| "backoff_loop opts ((Succeeded x, r) # attempts) waits = Some (Some x, waits)"
| "backoff_loop opts ((AbortedError, r) # attempts) waits = Some (None, waits)"
| "backoff_loop opts ((OtherError, r) # attempts) waits =
     backoff_loop opts attempts
       (waits @ [exponentialRandomizedBackoffDelay 0 (default_to 250 (bo_minDelay opts))
                   (default_to 10000 (bo_maxDelay opts)) (default_to (1/2) (bo_factor opts)) r])"

lemma backoff_delay_bounds:
  assumes "lo \<le> hi" and "0 \<le> lo"
  shows "\<lfloor>lo\<rfloor> \<le> exponentialRandomizedBackoffDelay n lo hi factor r"
    and "exponentialRandomizedBackoffDelay n lo hi factor r \<le> \<lfloor>hi\<rfloor>"
  using assms by (auto simp: exponentialRandomizedBackoffDelay_def Let_def intro!: floor_mono)

text \<open>With the default options no delay exceeds 375 milliseconds, however many attempts failed.\<close>

definition default_backoff :: backoff_options where
  "default_backoff = \<lparr>bo_minDelay = None, bo_maxDelay = None, bo_factor = None\<rparr>"

lemma default_delay:
  assumes "0 \<le> r" and "r < 1"
  shows "250 \<le> exponentialRandomizedBackoffDelay 0 250 10000 (1/2) r
    \<and> exponentialRandomizedBackoffDelay 0 250 10000 (1/2) r \<le> 375"
proof -
  define x where "x = max 250 (min 10000 (250 + (r * 2 - 1) * (250 * (1/2))) :: real)"
  have "250 \<le> x" "x < 376" using assms by (simp_all add: x_def)
  moreover have "exponentialRandomizedBackoffDelay 0 250 10000 (1/2) r = \<lfloor>x\<rfloor>"
  proof -
    have "(250 :: real) + (r * 2 - 1) * (250 * (1/2)) = min 10000 (250 * 2 ^ 0) + (r * 2 - 1) * (min 10000 (250 * 2 ^ 0) * (1/2))"
      by simp
    then show ?thesis unfolding exponentialRandomizedBackoffDelay_def Let_def x_def by (simp only:)
  qed
  ultimately show ?thesis using le_floor_iff [of 250 x] floor_less_iff [of x 376] by simp
qed

lemma backoff_never_grows:
  assumes "backoff_loop default_backoff attempts waits = Some (res, waits')"
    and "\<forall>(a, r) \<in> set attempts. 0 \<le> r \<and> r < 1" and "\<forall>t \<in> set waits. 250 \<le> t \<and> t \<le> 375"
  shows "\<forall>t \<in> set waits'. 250 \<le> t \<and> t \<le> 375"
  using assms
proof (induction attempts arbitrary: waits)
  case (Cons p attempts)
  obtain a r where p: "p = (a, r)" by (cases p)
  show ?case
  proof (cases a)
    case (Succeeded x)
    have "backoff_loop default_backoff (p # attempts) waits = Some (res, waits')" by (rule Cons.prems(1))
    then have "waits' = waits" unfolding p Succeeded by simp
    then show ?thesis using Cons.prems(3) by (simp only:)
  next
    case AbortedError
    have "backoff_loop default_backoff (p # attempts) waits = Some (res, waits')" by (rule Cons.prems(1))
    then have "waits' = waits" unfolding p AbortedError by simp
    then show ?thesis using Cons.prems(3) by (simp only:)
  next
    case OtherError
    let ?t = "exponentialRandomizedBackoffDelay 0 250 10000 (1/2) r"
    have "0 \<le> r" "r < 1" using Cons.prems(2) p by auto
    then have "250 \<le> ?t \<and> ?t \<le> 375" by (rule default_delay)
    then have "\<forall>t \<in> set (waits @ [?t]). 250 \<le> t \<and> t \<le> 375" using Cons.prems(3) by simp
    moreover have "backoff_loop default_backoff attempts (waits @ [?t]) = Some (res, waits')"
      using Cons.prems(1) unfolding p OtherError by (simp add: default_to_def default_backoff_def)
    moreover have "\<forall>(a, r) \<in> set attempts. 0 \<le> r \<and> r < 1" using Cons.prems(2)
      by (meson list.set_intros(2))
    ultimately show ?thesis by (intro Cons.IH)
  qed
qed simp

section \<open>Random keys\<close>

definition alphanumeric :: "char \<Rightarrow> bool" where
  "alphanumeric c = (let n = of_char c :: nat in is_digit c \<or> (65 \<le> n \<and> n \<le> 90) \<or> (97 \<le> n \<and> n \<le> 122))"

text \<open>The loop over the base64 texts of the random buffers drawn; \<open>None\<close> while none was long enough.\<close>

fun randomKeyNaked :: "nat \<Rightarrow> string list \<Rightarrow> string option" where
  "randomKeyNaked len [] = None"
| "randomKeyNaked len (buffer # buffers) =
     (let normalized = filter alphanumeric buffer
      in if length normalized < len then randomKeyNaked len buffers else Some (take len normalized))"

definition randomKey :: "string \<Rightarrow> nat \<Rightarrow> string list \<Rightarrow> string option" where
  "randomKey prefix len buffers = map_option (\<lambda>s. prefix @ ''_'' @ s) (randomKeyNaked len buffers)"

lemma randomKeyNaked_shape:
  "randomKeyNaked len buffers = Some s \<Longrightarrow> length s = len \<and> list_all alphanumeric s"
proof (induction buffers)
  case (Cons b buffers)
  show ?case
  proof (cases "length (filter alphanumeric b) < len")
    case True
    with Cons show ?thesis by (simp add: Let_def)
  next
    case False
    with Cons.prems have "s = take len (filter alphanumeric b)" by (simp add: Let_def)
    moreover have "list_all alphanumeric (take len (filter alphanumeric b))"
      by (auto simp: list_all_iff dest: in_set_takeD)
    ultimately show ?thesis using False by simp
  qed
qed simp

lemma randomKeyNaked_returns:
  assumes "b \<in> set buffers" and "len \<le> length (filter alphanumeric b)"
  shows "randomKeyNaked len buffers \<noteq> None"
  using assms
proof (induction buffers)
  case (Cons c buffers)
  show ?case
  proof (cases "length (filter alphanumeric c) < len")
    case True
    with Cons.prems have "b \<noteq> c" by (metis not_less)
    with Cons True show ?thesis by (simp add: Let_def)
  qed (simp add: Let_def)
qed simp

section \<open>An interruptible delay\<close>

text \<open>
  The promise with its timer and its abort listener; \<open>dl_resolved\<close> counts the calls of \<^verbatim>\<open>resolve\<close>.
\<close>

record delay_state =
  dl_settled :: bool
  dl_timer :: bool
  dl_listening :: bool
  dl_resolved :: nat

datatype delay_event = TimerFires | AbortFires

definition delay_finish :: "delay_state \<Rightarrow> delay_state" where
  "delay_finish d =
     (if dl_settled d then d
      else d\<lparr>dl_settled := True, dl_timer := False, dl_listening := False, dl_resolved := dl_resolved d + 1\<rparr>)"

text \<open>
  The start: without a signal only the timer is set (\<open>None\<close>); an aborted signal resolves at once; the signal
  may also abort between the check and the listener (\<open>races\<close>).
\<close>

definition delay_start :: "bool option \<Rightarrow> bool \<Rightarrow> delay_state" where
  "delay_start signal races =
     (case signal of
        None \<Rightarrow> \<lparr>dl_settled = False, dl_timer = True, dl_listening = False, dl_resolved = 0\<rparr>
      | Some True \<Rightarrow> \<lparr>dl_settled = True, dl_timer = False, dl_listening = False, dl_resolved = 1\<rparr>
      | Some False \<Rightarrow>
          (let armed = \<lparr>dl_settled = False, dl_timer = True, dl_listening = True, dl_resolved = 0\<rparr>
           in if races then delay_finish armed else armed))"

fun delay_event_step :: "delay_state \<Rightarrow> delay_event \<Rightarrow> delay_state" where
  "delay_event_step d TimerFires = (if dl_timer d then delay_finish d else d)"
| "delay_event_step d AbortFires = (if dl_listening d then delay_finish d else d)"

definition delay_inv :: "delay_state \<Rightarrow> bool" where
  "delay_inv d = (if dl_settled d then \<not> dl_timer d \<and> \<not> dl_listening d \<and> dl_resolved d = 1
                  else dl_timer d \<and> dl_resolved d = 0)"

lemma delay_start_inv: "delay_inv (delay_start signal races)"
  by (auto simp: delay_inv_def delay_start_def delay_finish_def Let_def split: option.splits bool.splits)

lemma delay_step_inv: "delay_inv d \<Longrightarrow> delay_inv (delay_event_step d e)"
  by (cases e) (auto simp: delay_inv_def delay_finish_def)

lemma delay_run_inv: "delay_inv d \<Longrightarrow> delay_inv (foldl delay_event_step d es)"
  by (induction es arbitrary: d) (simp_all add: delay_step_inv)

text \<open>The promise resolves at most once, and has resolved, with nothing left behind, once the timer fired.\<close>

lemma settled_stays: "dl_settled d \<Longrightarrow> delay_inv d \<Longrightarrow> foldl delay_event_step d es = d"
proof (induction es)
  case (Cons e es)
  then have "delay_event_step d e = d" by (cases e) (auto simp: delay_inv_def)
  with Cons show ?case by simp
qed simp

lemma delay_resolves_once:
  assumes "TimerFires \<in> set es"
  shows "foldl delay_event_step (delay_start signal races) es
           = \<lparr>dl_settled = True, dl_timer = False, dl_listening = False, dl_resolved = 1\<rparr>"
proof -
  obtain pre post where es: "es = pre @ TimerFires # post" using assms by (meson split_list)
  let ?d = "foldl delay_event_step (delay_start signal races) pre"
  have inv: "delay_inv ?d" by (simp add: delay_run_inv delay_start_inv)
  then have "dl_settled (delay_event_step ?d TimerFires)"
    by (auto simp: delay_inv_def delay_finish_def split: if_splits)
  moreover have inv': "delay_inv (delay_event_step ?d TimerFires)" using inv by (rule delay_step_inv)
  ultimately have "foldl delay_event_step (delay_start signal races) es = delay_event_step ?d TimerFires"
    using settled_stays by (simp add: es del: delay_event_step.simps)
  moreover have "delay_event_step ?d TimerFires
      = \<lparr>dl_settled = True, dl_timer = False, dl_listening = False, dl_resolved = 1\<rparr>"
    using \<open>dl_settled (delay_event_step ?d TimerFires)\<close> inv'
    by (cases "delay_event_step ?d TimerFires") (simp add: delay_inv_def)
  ultimately show ?thesis by simp
qed

section \<open>The endless worker\<close>

text \<open>
  Each entry: whether \<^verbatim>\<open>shutdownSignal\<close> has aborted when the loop tests it, what the callback does
  otherwise, and the number drawn should it fail.  An ordinary error leaves the inner loop, waits (the delay
  is given no signal) and enters it again.  The delays waited, once it has stopped.
\<close>

fun forever_loop :: "(bool \<times> unit attempt \<times> real) list \<Rightarrow> int list \<Rightarrow> int list option" where
  "forever_loop [] waits = None"
| "forever_loop ((aborted, a, r) # turns) waits =
     (if aborted then Some waits
      else case a of
        Succeeded _ \<Rightarrow> forever_loop turns waits
      | AbortedError \<Rightarrow> Some waits
      | OtherError \<Rightarrow> forever_loop turns (waits @ [exponentialRandomizedBackoffDelay 0 250 10000 (1/2) r]))"

lemma forever_stops_at_shutdown:
  "(True, a, r) \<in> set turns \<Longrightarrow> forever_loop turns waits \<noteq> None"
proof (induction turns arbitrary: waits)
  case (Cons t turns)
  obtain ab b q where t: "t = (ab, b, q)" by (cases t)
  show ?case
  proof (cases ab)
    case False
    with Cons.prems t have "(True, a, r) \<in> set turns" by simp
    then have "forever_loop turns ws \<noteq> None" for ws by (rule Cons.IH)
    with False show ?thesis unfolding t by (cases b) simp_all
  qed (simp add: t)
qed simp

lemma forever_survives_errors:
  "(\<forall>(ab, a, r) \<in> set turns. \<not> ab \<and> a \<noteq> AbortedError) \<Longrightarrow> forever_loop turns waits = None"
proof (induction turns arbitrary: waits)
  case (Cons t turns)
  obtain ab b q where t: "t = (ab, b, q)" by (cases t)
  have "\<not> ab" "b \<noteq> AbortedError" using Cons.prems t by auto
  moreover have "forever_loop turns ws = None" for ws using Cons.prems by (intro Cons.IH) (meson list.set_intros(2))
  ultimately show ?case unfolding t by (cases b) simp_all
qed simp

section \<open>Merging and other retry delays\<close>

text \<open>Objects are association lists; a field of the update that is \<^verbatim>\<open>undefined\<close> is \<open>None\<close>.\<close>

definition mergeObjects :: "(string \<times> 'a) list \<Rightarrow> (string \<times> 'a option) list \<Rightarrow> (string \<times> 'a) list" where
  "mergeObjects base updates =
     foldl (\<lambda>o' (k, v). AList.update k v o') base
       (List.map_filter (\<lambda>(k, v). map_option (Pair k) v) updates)"

definition owner_retry_delay :: "nat \<Rightarrow> real \<Rightarrow> int" where
  "owner_retry_delay attempt random =
     (let exponential = min 1000 (50 * 2 ^ min attempt 10)
      in \<lfloor>exponential / 2 + random * exponential / 2\<rfloor>)"

definition redis_retry_delay :: "nat \<Rightarrow> nat" where
  "redis_retry_delay attempt = min (attempt * 100) 1000"

lemma owner_retry_bounds:
  assumes "0 \<le> r" and "r < 1"
  shows "25 \<le> owner_retry_delay n r" and "owner_retry_delay n r \<le> 1000"
proof -
  define e where "e = min 1000 (50 * 2 ^ min n 10 :: real)"
  have e: "50 \<le> e" "e \<le> 1000" by (simp_all add: e_def)
  have "0 \<le> r * e" using e assms by simp
  moreover have "r * e \<le> e" using e assms by (simp add: mult_left_le_one_le)
  ultimately have "25 \<le> e / 2 + r * e / 2" "e / 2 + r * e / 2 \<le> 1000" using e by linarith+
  then show "25 \<le> owner_retry_delay n r" and "owner_retry_delay n r \<le> 1000"
    by (simp_all add: owner_retry_delay_def Let_def flip: e_def)
qed

end
