(* ===== verification/Images.thy ===== *)
theory Images
  imports Utilities
begin

text \<open>
  Pictures: the small copy an image is reduced to (\<^verbatim>\<open>storage/processImage.ts\<close>) and the upload with its
  reuse by URL (\<^verbatim>\<open>storage/uploadImage.ts\<close>, \<^verbatim>\<open>storage/files.ts\<close>).  Decoding, resizing and the thumb hash are
  third-party code and parameters, as is the base64 text of the hash; the object store is a map from paths.
\<close>

section \<open>Reducing an image\<close>

text \<open>\<^verbatim>\<open>Math.round(a / b)\<close> of natural numbers: halves are rounded up.\<close>

definition round_div :: "nat \<Rightarrow> nat \<Rightarrow> nat" where
  "round_div a b = (2 * a + b) div (2 * b)"

definition target_size :: "nat \<Rightarrow> nat \<Rightarrow> nat \<times> nat" where
  "target_size width height =
     (if height < width then (100, round_div (height * 100) width)
      else if width < height then (round_div (width * 100) height, 100)
      else (100, 100))"

record image_meta =
  me_format :: string
  me_width :: nat
  me_height :: nat

record image_codec =
  decode :: "bytes \<Rightarrow> image_meta option"
  resize :: "bytes \<Rightarrow> nat \<times> nat \<Rightarrow> (bytes \<times> nat \<times> nat) option"
  thumb :: "nat \<Rightarrow> nat \<Rightarrow> bytes \<Rightarrow> string option"

record processed_image =
  pr_pixels :: bytes
  pr_width :: nat
  pr_height :: nat
  pr_thumbhash :: string
  pr_format :: string

text \<open>\<open>None\<close> when it throws.\<close>

definition processImage :: "image_codec \<Rightarrow> bytes \<Rightarrow> processed_image option" where
  "processImage codec src =
     (case decode codec src of
        None \<Rightarrow> None
      | Some m \<Rightarrow>
          if me_format m \<noteq> ''png'' \<and> me_format m \<noteq> ''jpeg'' then None
          else case resize codec src (target_size (me_width m) (me_height m)) of
                 None \<Rightarrow> None
               | Some (pixels, w, h) \<Rightarrow>
                   map_option (\<lambda>hash. \<lparr>pr_pixels = pixels, pr_width = me_width m, pr_height = me_height m,
                                       pr_thumbhash = hash, pr_format = me_format m\<rparr>)
                     (thumb codec w h pixels))"

text \<open>The longer side becomes 100, and the shorter one at most that, as the thumb hash requires.\<close>

lemma round_div_le: "a \<le> b * n \<Longrightarrow> 0 < b \<Longrightarrow> round_div a b \<le> n"
proof -
  assume "a \<le> b * n" and b: "0 < b"
  then have "2 * a + b < 2 * b * (n + 1)" by (simp add: algebra_simps)
  then have "(2 * a + b) div (2 * b) < n + 1" using b by (simp add: div_less_iff_less_mult mult.commute)
  then show ?thesis by (simp add: round_div_def)
qed

lemma target_size_bounds:
  "fst (target_size w h) \<le> 100" "snd (target_size w h) \<le> 100"
  "max (fst (target_size w h)) (snd (target_size w h)) = 100"
  subgoal by (simp add: target_size_def round_div_le)
  subgoal by (simp add: target_size_def round_div_le)
  subgoal by (auto simp: target_size_def max_def intro!: antisym round_div_le)
  done

text \<open>A picture more than two hundred times as wide as it is high is given the height 0.\<close>

lemma round_div_zero: "0 < b \<Longrightarrow> round_div a b = 0 \<longleftrightarrow> 2 * a < b"
  by (auto simp: round_div_def div_eq_0_iff)

lemma target_height_zero:
  assumes "0 < h"
  shows "snd (target_size w h) = 0 \<longleftrightarrow> 200 * h < w" and "fst (target_size h w) = 0 \<longleftrightarrow> 200 * h < w"
  using assms by (auto simp: target_size_def round_div_zero)

lemma processImage_thumb_fits:
  assumes "processImage codec src = Some p" and "\<And>s x y z. resize codec s (x, y) = Some z \<Longrightarrow> snd z = (x, y)"
  obtains w h where "w \<le> 100" "h \<le> 100" "thumb codec w h (pr_pixels p) = Some (pr_thumbhash p)"
proof -
  obtain m where "decode codec src = Some m" using assms(1) by (fastforce simp: processImage_def split: option.splits)
  moreover then obtain pixels w h where m: "resize codec src (target_size (me_width m) (me_height m)) = Some (pixels, w, h)"
    using assms(1) by (fastforce simp: processImage_def split: option.splits if_splits)
  ultimately have hash: "thumb codec w h (pr_pixels p) = Some (pr_thumbhash p)"
    using assms(1) by (auto simp: processImage_def split: if_splits)
  have "(w, h) = target_size (me_width m) (me_height m)"
    using m assms(2) [of src "fst (target_size (me_width m) (me_height m))" "snd (target_size (me_width m) (me_height m))"] by simp
  then have "w \<le> 100" "h \<le> 100" using target_size_bounds by (metis fst_conv, metis snd_conv)
  with hash that show ?thesis by blast
qed

section \<open>Uploading\<close>

record uploaded_file =
  uf_accountId :: ident
  uf_path :: string
  uf_reuseKey :: "string option"
  uf_width :: "nat option"
  uf_height :: "nat option"
  uf_thumbhash :: "string option"

record storage =
  uploads :: "uploaded_file list"
  objects :: "string \<rightharpoonup> bytes"

record uploaded_ref =
  ur_path :: string
  ur_thumbhash :: string
  ur_width :: nat
  ur_height :: nat

definition reusable :: "uploaded_file \<Rightarrow> uploaded_ref option" where
  "reusable f =
     (case (uf_thumbhash f, uf_width f, uf_height f) of
        (Some t, Some w, Some h) \<Rightarrow>
          if t = [] \<or> w = 0 \<or> h = 0 then None
          else Some \<lparr>ur_path = uf_path f, ur_thumbhash = t, ur_width = w, ur_height = h\<rparr>
      | _ \<Rightarrow> None)"

text \<open>\<^verbatim>\<open>@@unique([accountId, path])\<close>.\<close>

definition create_upload :: "uploaded_file \<Rightarrow> storage \<Rightarrow> storage \<times> unit option" where
  "create_upload f s =
     (if \<exists>g \<in> set (uploads s). uf_accountId g = uf_accountId f \<and> uf_path g = uf_path f then (s, None)
      else (s\<lparr>uploads := uploads s @ [f]\<rparr>, Some ()))"

definition put_object :: "string \<Rightarrow> bytes \<Rightarrow> storage \<Rightarrow> storage \<times> unit" where
  "put_object path content s = (s\<lparr>objects := (objects s)(path \<mapsto> content)\<rparr>, ())"

definition upload_path :: "ident \<Rightarrow> string \<Rightarrow> string \<Rightarrow> string" where
  "upload_path userId directory filename = ''public/users/'' @ userId @ ''/'' @ directory @ ''/'' @ filename"

text \<open>
  The three awaited calls are numbered 0 (the lookup), 1 (the object) and 2 (the row); \<open>buffers\<close> is the
  randomness \<^verbatim>\<open>randomKey\<close> draws.  \<open>None\<close> when it throws.
\<close>

definition uploadImage ::
  "image_codec \<Rightarrow> storage sched \<Rightarrow> string list \<Rightarrow> ident \<Rightarrow> string \<Rightarrow> string \<Rightarrow> string \<Rightarrow> bytes \<Rightarrow> storage
   \<Rightarrow> storage \<times> uploaded_ref option" where
  "uploadImage codec w buffers userId directory prefix url src s =
     (case db_call w 0 (\<lambda>s. (s, find_row (\<lambda>f. uf_reuseKey f = Some (''image-url:'' @ url)) (uploads s))) s of
        (s1, None) \<Rightarrow> (s1, None)
      | (s1, Some existing) \<Rightarrow>
          (case Option.bind existing reusable of
             Some ref \<Rightarrow> (s1, Some ref)
           | None \<Rightarrow>
               (case (processImage codec src, randomKey prefix 24 buffers) of
                  (Some p, Some key) \<Rightarrow>
                    let path = upload_path userId directory (key @ (if pr_format p = ''png'' then ''.png'' else ''.jpg''))
                    in (case db_call w 1 (put_object path src) s1 of
                          (s2, None) \<Rightarrow> (s2, None)
                        | (s2, Some _) \<Rightarrow>
                            (case db_call w 2 (create_upload
                                     \<lparr>uf_accountId = userId, uf_path = path, uf_reuseKey = Some (''image-url:'' @ url),
                                      uf_width = Some (pr_width p), uf_height = Some (pr_height p),
                                      uf_thumbhash = Some (pr_thumbhash p)\<rparr>) s2 of
                               (s3, Some (Some _)) \<Rightarrow>
                                 (s3, Some \<lparr>ur_path = path, ur_thumbhash = pr_thumbhash p, ur_width = pr_width p,
                                            ur_height = pr_height p\<rparr>)
                             | (s3, _) \<Rightarrow> (s3, None)))
                | _ \<Rightarrow> (s1, None))))"

definition resolveImageUrl :: "string \<Rightarrow> string \<Rightarrow> string \<Rightarrow> string" where
  "resolveImageUrl host bucket path = ''https://'' @ host @ ''/'' @ bucket @ ''/'' @ path"

definition getPublicUrl :: "string \<Rightarrow> string \<Rightarrow> string" where
  "getPublicUrl base path = base @ ''/'' @ path"

text \<open>
  A picture once uploaded with a thumb hash and a size is never uploaded again: every later call for
  the same URL, of any account and with any bytes, returns the first row's picture and stores nothing.
\<close>

lemma upload_reuses:
  assumes "find_row (\<lambda>f. uf_reuseKey f = Some (''image-url:'' @ url)) (uploads s) = Some f" and "reusable f = Some ref"
  shows "uploadImage codec quiet buffers userId directory prefix url src s = (s, Some ref)"
  using assms by (simp add: uploadImage_def)

text \<open>A row is only written after its object: a path that a new row names is in the store.\<close>

lemma upload_object_before_row:
  assumes "uploadImage codec quiet buffers userId directory prefix url src s = (s', Some ref)"
    and "\<forall>f \<in> set (uploads s). uf_path f \<in> dom (objects s)"
  shows "\<forall>f \<in> set (uploads s'). uf_path f \<in> dom (objects s')" and "ur_path ref \<in> dom (objects s')"
proof -
  let ?ex = "find_row (\<lambda>f. uf_reuseKey f = Some (''image-url:'' @ url)) (uploads s)"
  have "(\<forall>f \<in> set (uploads s'). uf_path f \<in> dom (objects s')) \<and> ur_path ref \<in> dom (objects s')"
  proof (cases "Option.bind ?ex reusable")
    case (Some ref0)
    then obtain f where f: "?ex = Some f" "reusable f = Some ref0" by (auto simp: bind_eq_Some_conv)
    then have "s' = s" "ref = ref0" using assms(1) by (simp_all add: uploadImage_def)
    moreover have "ur_path ref0 = uf_path f" using f(2) by (auto simp: reusable_def split: option.splits if_splits)
    ultimately show ?thesis using assms(2) find_row_SomeD [OF f(1)] by auto
  next
    case None
    with assms show ?thesis
      by (auto simp: uploadImage_def put_object_def create_upload_def Let_def
          split: option.splits if_splits prod.splits)
  qed
  then show "\<forall>f \<in> set (uploads s'). uf_path f \<in> dom (objects s')" and "ur_path ref \<in> dom (objects s')" by blast+
qed

text \<open>The reuse is by URL alone: a first upload and a second one of another account.\<close>

lemma upload_then_reuse:
  assumes "uploadImage codec quiet buffers userId directory prefix url src s = (s', Some ref)"
    and "find_row (\<lambda>f. uf_reuseKey f = Some (''image-url:'' @ url)) (uploads s) = None"
    and "ur_thumbhash ref \<noteq> []" and "ur_width ref \<noteq> 0" and "ur_height ref \<noteq> 0"
  shows "uploadImage codec' quiet buffers' userId' directory' prefix' url src' s' = (s', Some ref)"
proof -
  obtain p where p: "processImage codec src = Some p"
    using assms(1,2) by (cases "processImage codec src") (simp_all add: uploadImage_def)
  obtain key where key: "randomKey prefix 24 buffers = Some key"
    using assms(1,2) p by (cases "randomKey prefix 24 buffers") (simp_all add: uploadImage_def)
  define path where "path = upload_path userId directory (key @ (if pr_format p = ''png'' then ''.png'' else ''.jpg''))"
  have up: "uploads s' = uploads s @ [\<lparr>uf_accountId = userId, uf_path = path,
      uf_reuseKey = Some (''image-url:'' @ url), uf_width = Some (pr_width p), uf_height = Some (pr_height p),
      uf_thumbhash = Some (pr_thumbhash p)\<rparr>]"
    "ref = \<lparr>ur_path = path, ur_thumbhash = pr_thumbhash p, ur_width = pr_width p, ur_height = pr_height p\<rparr>"
    using assms(1,2) p key
    by (auto simp: uploadImage_def put_object_def create_upload_def path_def Let_def split: if_splits)
  then have "find_row (\<lambda>f. uf_reuseKey f = Some (''image-url:'' @ url)) (uploads s')
      = Some \<lparr>uf_accountId = userId, uf_path = path, uf_reuseKey = Some (''image-url:'' @ url),
          uf_width = Some (pr_width p), uf_height = Some (pr_height p), uf_thumbhash = Some (pr_thumbhash p)\<rparr>"
    using assms(2) by simp
  moreover have "reusable \<lparr>uf_accountId = userId, uf_path = path, uf_reuseKey = Some (''image-url:'' @ url),
      uf_width = Some (pr_width p), uf_height = Some (pr_height p), uf_thumbhash = Some (pr_thumbhash p)\<rparr> = Some ref"
    using assms(3-) unfolding up(2) by (simp add: reusable_def)
  ultimately show ?thesis by (rule upload_reuses)
qed

end
