(* ===== verification/FriendRoutes.thy ===== *)
theory FriendRoutes
  imports KvRoutes Social
begin

text \<open>
  The friend routes of \<^verbatim>\<open>api/routes/userRoutes.ts\<close> over the operations of \<open>Social\<close>: adding and removing run
  in \<^verbatim>\<open>inTx\<close>, and the notices an attempt posts to feeds are announced by its callbacks.  What an attempt reads
  besides the tables, the clock and the ids drawn for feed items, is part of the state that the
  environment changes before each attempt.
\<close>

record friend_env =
  fe_db :: db
  fe_now :: ts
  fe_ids :: friend_ids

definition add_body ::
  "(string \<Rightarrow> string) \<Rightarrow> ident \<Rightarrow> ident \<Rightarrow> (friend_env, user_profile option, ident \<times> feed_view) tx_body" where
  "add_body public_url ctx uid e =
     map_option (\<lambda>(d', profile, posts). (e\<lparr>fe_db := d'\<rparr>, profile, posts))
       (friendAdd public_url ctx uid (fe_ids e) (fe_now e) (fe_db e))"

definition remove_body ::
  "(string \<Rightarrow> string) \<Rightarrow> ident \<Rightarrow> ident \<Rightarrow> (friend_env, user_profile option, ident \<times> feed_view) tx_body" where
  "remove_body public_url ctx uid e =
     (case friendRemove public_url ctx uid (fe_now e) (fe_db e) of (d', profile) \<Rightarrow> Some (e\<lparr>fe_db := d'\<rparr>, profile, []))"

section \<open>Announcing the posts\<close>

text \<open>As for the key-value batches: the callback is asynchronous and its rejection is unhandled.\<close>

definition feed_notify ::
  "db sched \<Rightarrow> nat \<Rightarrow> ts \<Rightarrow> ident \<Rightarrow> ident \<times> feed_view \<Rightarrow> db \<Rightarrow> db \<times> notified" where
  "feed_notify w k now updId post d =
     (case post of (uid, v) \<Rightarrow>
        (case db_call w k (throwing (allocateUserSeq uid now)) d of
           (d1, Some (Some updateSeq)) \<Rightarrow>
             (d1, Notified (EmitUpdate uid (buildNewFeedPostUpdate (d_id (fv_item v)) (d_body (fv_item v)) (fv_cursor v)
                              (d_createdAt (fv_item v)) updateSeq updId now) UserScopedOnly))
         | (d1, _) \<Rightarrow> (d1, UnhandledRejection)))"

fun feed_notifications ::
  "db sched \<Rightarrow> nat \<Rightarrow> (nat \<Rightarrow> ts) \<Rightarrow> (nat \<Rightarrow> ident) \<Rightarrow> (ident \<times> feed_view) list \<Rightarrow> db \<Rightarrow> db \<times> notified list" where
  "feed_notifications w k clk updId [] d = (d, [])"
| "feed_notifications w k clk updId (p # ps) d =
     (case feed_notify w k (clk k) (updId k) p d of
        (d1, n) \<Rightarrow> (case feed_notifications w (k + 1) clk updId ps d1 of (d2, ns) \<Rightarrow> (d2, n # ns)))"

section \<open>Answers\<close>

fun status_name :: "relationship_status \<Rightarrow> string" where
  "status_name RNone = ''none''"
| "status_name RRequested = ''requested''"
| "status_name RPending = ''pending''"
| "status_name RFriend = ''friend''"
| "status_name RRejected = ''rejected''"

definition profile_json :: "user_profile \<Rightarrow> json" where
  "profile_json p =
     JObj [(''id'', JStr (up_uid p)), (''firstName'', JStr (up_firstName p)), (''lastName'', nullable (up_lastName p)),
       (''avatar'', case up_avatar p of
          None \<Rightarrow> JNull
        | Some a \<Rightarrow> JObj [(''path'', JStr (im_path (pa_ref a))), (''url'', JStr (pa_url a)),
            (''width'', JNum (im_width (pa_ref a))), (''height'', JNum (im_height (pa_ref a))),
            (''thumbhash'', JStr (im_thumbhash (pa_ref a)))]),
       (''username'', JStr (up_username p)), (''bio'', nullable (up_bio p)), (''status'', JStr (status_name (up_status p)))]"

definition friend_reply :: "user_profile option option \<Rightarrow> reply" where
  "friend_reply result =
     (case result of
        None \<Rightarrow> Threw
      | Some profile \<Rightarrow> Reply 200 (JObj [(''user'', case profile of None \<Rightarrow> JNull | Some p \<Rightarrow> profile_json p)]))"

section \<open>The routes\<close>

definition get_user_route :: "(string \<Rightarrow> string) \<Rightarrow> db sched \<Rightarrow> ident \<Rightarrow> ident \<Rightarrow> db \<Rightarrow> db \<times> reply" where
  "get_user_route public_url w ctx uid d =
     (case db_call w 0 (\<lambda>d. (d, map_option (\<lambda>a. (a, github_of a d)) (account_row uid d))) d of
        (d1, None) \<Rightarrow> (d1, Threw)
      | (d1, Some None) \<Rightarrow> (d1, Reply 404 (JObj [(''error'', JStr ''User not found'')]))
      | (d1, Some (Some (a, github))) \<Rightarrow>
          (case db_call w 1 (\<lambda>d. (d, relationshipGet ctx uid d)) d1 of
             (d2, None) \<Rightarrow> (d2, Threw)
           | (d2, Some status) \<Rightarrow>
               (d2, Reply 200 (JObj [(''user'', profile_json (buildUserProfile public_url a github status))]))))"

definition friend_run ::
  "(friend_env, user_profile option, ident \<times> feed_view) tx_body \<Rightarrow> friend_env tx_world \<Rightarrow> db sched \<Rightarrow> (nat \<Rightarrow> ts)
   \<Rightarrow> (nat \<Rightarrow> ident) \<Rightarrow> friend_env \<Rightarrow> db \<times> reply \<times> notified list" where
  "friend_run body tw w clk updId e =
     (case inTx tw body e of
        (e1, out) \<Rightarrow>
          (case feed_notifications w 0 clk updId (tx_callbacks out) (fe_db e1) of
             (d2, ns) \<Rightarrow> (d2, friend_reply (tx_result out), ns)))"

definition add_friend_route ::
  "(string \<Rightarrow> string) \<Rightarrow> friend_env tx_world \<Rightarrow> db sched \<Rightarrow> (nat \<Rightarrow> ts) \<Rightarrow> (nat \<Rightarrow> ident) \<Rightarrow> ident \<Rightarrow> ident \<Rightarrow> friend_env
   \<Rightarrow> db \<times> reply \<times> notified list" where
  "add_friend_route public_url tw w clk updId ctx uid e =
     (if ctx = uid then (fe_db e, friend_reply (Some None), [])
      else friend_run (add_body public_url ctx uid) tw w clk updId e)"

definition remove_friend_route ::
  "(string \<Rightarrow> string) \<Rightarrow> friend_env tx_world \<Rightarrow> db sched \<Rightarrow> (nat \<Rightarrow> ts) \<Rightarrow> (nat \<Rightarrow> ident) \<Rightarrow> ident \<Rightarrow> ident \<Rightarrow> friend_env
   \<Rightarrow> db \<times> reply \<times> notified list" where
  "remove_friend_route public_url tw w clk updId ctx uid e =
     friend_run (remove_body public_url ctx uid) tw w clk updId e"

definition friends_route :: "(string \<Rightarrow> string) \<Rightarrow> db sched \<Rightarrow> ident \<Rightarrow> db \<Rightarrow> db \<times> reply" where
  "friends_route public_url w ctx d =
     (case db_call w 0 (\<lambda>d. (d, friendList public_url ctx d)) d of
        (d1, None) \<Rightarrow> (d1, Threw)
      | (d1, Some profiles) \<Rightarrow> (d1, Reply 200 (JObj [(''friends'', JArr (map profile_json profiles))])))"

section \<open>What the answers mean\<close>

lemma feed_notifications_frame:
  assumes "feed_notifications w k clk updId ps d = (d', ns)"
    and "\<And>j d. relationships (interfere w j d) = relationships d"
  shows "relationships d' = relationships d \<and> length ns = length ps"
  using assms(1)
proof (induction ps arbitrary: k d d' ns)
  case (Cons p ps)
  obtain d1 n where n: "feed_notify w k (clk k) (updId k) p d = (d1, n)" by fastforce
  obtain d2 ms where ms: "feed_notifications w (k + 1) clk updId ps d1 = (d2, ms)" by fastforce
  have "relationships d1 = relationships d"
    using n assms(2) by (auto simp: feed_notify_def db_call_def Let_def throwing_def allocateUserSeq_def
        split: prod.splits option.splits if_splits)
  moreover have "d' = d2" "ns = n # ms" using Cons.prems n ms by simp_all
  ultimately show ?case using Cons.IH [OF ms] by simp
qed simp

lemma relationshipGet_cong: "relationships d' = relationships d \<Longrightarrow> relationshipGet a b d' = relationshipGet a b d"
  by (simp add: relationshipGet_def relationship_row_def)

text \<open>
  The pair of statuses a request leaves, under conflicts and retries: an answer means that exactly one
  transition of the pair was stored, on the state one attempt saw; the profile shows the status
  stored for the caller when a friend was added.
\<close>

lemma add_friend_answer:
  assumes "add_friend_route public_url tw w clk updId ctx uid e = (d', Reply status body, ns)" and "ctx \<noteq> uid"
    and "\<And>j d. relationships (interfere w j d) = relationships d"
  shows "status = 200 \<and> (\<exists>k \<le> 3. let d0 = fe_db (seen_by tw k e) in
      (body = JObj [(''user'', JNull)] \<and> rel_pair_of ctx uid d' = rel_pair_of ctx uid d0)
      \<or> (\<exists>p. body = JObj [(''user'', profile_json p)] \<and> rel_pair_of ctx uid d' = add_rel (rel_pair_of ctx uid d0)
           \<and> up_status p = relationshipGet ctx uid d'))"
proof -
  let ?body = "add_body public_url ctx uid"
  obtain e1 out where tx: "inTx tw ?body e = (e1, out)" by fastforce
  obtain d2 ms where notify: "feed_notifications w 0 clk updId (tx_callbacks out) (fe_db e1) = (d2, ms)" by fastforce
  have route: "d' = d2" "friend_reply (tx_result out) = Reply status body"
    using assms(1,2) tx notify by (simp_all add: add_friend_route_def friend_run_def)
  obtain k where k: "k \<le> 3" and ended: "tx_ended tw ?body k e e1 out" using inTx_ends [OF tx] by blast
  obtain profile where res: "tx_result out = Some profile"
    using route(2) by (cases "tx_result out") (simp_all add: friend_reply_def)
  let ?e0 = "seen_by tw k e"
  have "?body ?e0 = Some (e1, profile, tx_callbacks out)" using tx_ended_result [OF ended] res by simp
  then have add: "friendAdd public_url ctx uid (fe_ids ?e0) (fe_now ?e0) (fe_db ?e0) = Some (fe_db e1, profile, tx_callbacks out)"
    by (auto simp: add_body_def)
  have rel: "relationshipGet a b d' = relationshipGet a b (fe_db e1)" for a b
    using feed_notifications_frame [OF notify assms(3)] route(1) by (intro relationshipGet_cong) simp
  show ?thesis
  proof (cases profile)
    case None
    then have "fe_db e1 = fe_db ?e0" using friendAdd_cases [OF add] by auto
    with None route(2) res rel k show ?thesis
      by (auto simp: friend_reply_def rel_pair_of_def intro!: exI [of _ k])
  next
    case (Some p)
    then have "rel_pair_of ctx uid (fe_db e1) = add_rel (rel_pair_of ctx uid (fe_db ?e0))"
      "up_status p = fst (add_rel (rel_pair_of ctx uid (fe_db ?e0)))"
      using friendAdd_cases [OF add] by (auto simp del: add_rel.simps)
    moreover then have "up_status p = relationshipGet ctx uid (fe_db e1)" by (metis rel_pair_of_def fst_conv)
    ultimately have "rel_pair_of ctx uid d' = add_rel (rel_pair_of ctx uid (fe_db ?e0))"
      "up_status p = relationshipGet ctx uid d'" using rel by (simp_all add: rel_pair_of_def del: add_rel.simps)
    moreover have "status = 200" "body = JObj [(''user'', profile_json p)]"
      using Some route(2) res by (simp_all add: friend_reply_def)
    ultimately show ?thesis unfolding Let_def using k by blast
  qed
qed

text \<open>Adding oneself answers with no user and touches nothing.\<close>

lemma add_self: "add_friend_route public_url tw w clk updId u u e = (fe_db e, Reply 200 (JObj [(''user'', JNull)]), [])"
  by (simp add: add_friend_route_def friend_reply_def)

end
