(* ===== verification/EventTypes.thy ===== *)
theory EventTypes
  imports Account FriendRoutes
begin

text \<open>
  The wire types of the events as the code declares them, beside the payloads the builders make:
  \<^verbatim>\<open>UpdateEvent\<close> and \<^verbatim>\<open>EphemeralEvent\<close> of \<^verbatim>\<open>events/eventRouter.ts\<close>, \<^verbatim>\<open>UpdateBody\<close>,
  \<^verbatim>\<open>SessionMessageContent\<close> and \<^verbatim>\<open>UsageReportData\<close> of \<^verbatim>\<open>storage/types.ts\<close>, \<^verbatim>\<open>GitHubProfile\<close> of
  \<^verbatim>\<open>api/types.ts\<close>.  A type is checked as TypeScript does, structurally: every required field is there
  with its type, an optional one may be absent, others may be added.
\<close>

section \<open>Structural types\<close>

datatype ts_type =
    TString
  | TNumber
  | TBoolean
  | TAny
  | TEnum "string list"
  | TNullable ts_type
  | TArray ts_type
  | TRecord ts_type
  | TObj "ts_field list"
and ts_field = Field string bool ts_type

fun conforms :: "ts_type \<Rightarrow> json \<Rightarrow> bool" and fields_conform :: "ts_field list \<Rightarrow> (string \<times> json) list \<Rightarrow> bool" where
  "conforms TString j = (case j of JStr _ \<Rightarrow> True | _ \<Rightarrow> False)"
| "conforms TNumber j = (case j of JNum _ \<Rightarrow> True | _ \<Rightarrow> False)"
| "conforms TBoolean j = (case j of JBool _ \<Rightarrow> True | _ \<Rightarrow> False)"
| "conforms TAny j = True"
| "conforms (TEnum names) j = (case j of JStr s \<Rightarrow> s \<in> set names | _ \<Rightarrow> False)"
| "conforms (TNullable t) j = (case j of JNull \<Rightarrow> True | _ \<Rightarrow> conforms t j)"
| "conforms (TArray t) j = (case j of JArr js \<Rightarrow> list_all (conforms t) js | _ \<Rightarrow> False)"
| "conforms (TRecord t) j = (case j of JObj kvs \<Rightarrow> list_all (\<lambda>kv. conforms t (snd kv)) kvs | _ \<Rightarrow> False)"
| "conforms (TObj fs) j = (case j of JObj kvs \<Rightarrow> fields_conform fs kvs | _ \<Rightarrow> False)"
| "fields_conform [] kvs = True"
| "fields_conform (Field name optional t # fs) kvs =
     ((case map_of kvs name of None \<Rightarrow> optional | Some j \<Rightarrow> conforms t j) \<and> fields_conform fs kvs)"

definition versioned_type :: "ts_type \<Rightarrow> ts_type" where
  "versioned_type t = TObj [Field ''value'' False t, Field ''version'' False TNumber]"

definition message_type :: "ts_type \<Rightarrow> ts_type" where
  "message_type content =
     TObj [Field ''id'' False TString, Field ''seq'' False TNumber, Field ''content'' False content,
       Field ''localId'' False (TNullable TString), Field ''createdAt'' False TNumber, Field ''updatedAt'' False TNumber]"

definition message_content_type :: ts_type where
  "message_content_type = TObj [Field ''t'' False (TEnum [''encrypted'']), Field ''c'' False TString]"

definition github_profile_type :: ts_type where
  "github_profile_type = TObj [
       Field ''id'' False TNumber, Field ''login'' False TString, Field ''type'' False TString,
       Field ''site_admin'' False TBoolean, Field ''avatar_url'' False TString,
       Field ''gravatar_id'' False (TNullable TString), Field ''name'' False (TNullable TString),
       Field ''company'' False (TNullable TString), Field ''blog'' False (TNullable TString),
       Field ''location'' False (TNullable TString), Field ''email'' False (TNullable TString),
       Field ''hireable'' False (TNullable TBoolean), Field ''bio'' False (TNullable TString),
       Field ''twitter_username'' False (TNullable TString), Field ''public_repos'' False TNumber,
       Field ''public_gists'' False TNumber, Field ''followers'' False TNumber,
       Field ''following'' False TNumber, Field ''created_at'' False TString,
       Field ''updated_at'' False TString, Field ''private_gists'' True TNumber,
       Field ''total_private_repos'' True TNumber, Field ''owned_private_repos'' True TNumber,
       Field ''disk_usage'' True TNumber, Field ''collaborators'' True TNumber,
       Field ''two_factor_authentication'' True TBoolean,
       Field ''plan'' True (TObj [Field ''collaborators'' False TNumber, Field ''name'' False TString, Field ''space'' False TNumber, Field ''private_repos'' False TNumber])]"

section \<open>The declared events\<close>

definition update_event_types :: "(string \<times> ts_type) list" where
  "update_event_types =
     [(''new-message'', TObj [
         Field ''sessionId'' False TString, Field ''message'' False (message_type TAny)]),
      (''new-session'', TObj [
         Field ''sessionId'' False TString, Field ''seq'' False TNumber,
         Field ''metadata'' False TString, Field ''metadataVersion'' False TNumber,
         Field ''agentState'' False (TNullable TString), Field ''agentStateVersion'' False TNumber,
         Field ''dataEncryptionKey'' False (TNullable TString), Field ''active'' False TBoolean,
         Field ''activeAt'' False TNumber, Field ''createdAt'' False TNumber,
         Field ''updatedAt'' False TNumber]),
      (''update-session'', TObj [
         Field ''sessionId'' False TString,
         Field ''metadata'' True (TNullable (versioned_type (TNullable TString))),
         Field ''agentState'' True (TNullable (versioned_type (TNullable TString)))]),
      (''update-account'', TObj [
         Field ''userId'' False TString,
         Field ''settings'' True (TNullable (versioned_type (TNullable TString))),
         Field ''github'' True (TNullable github_profile_type)]),
      (''new-machine'', TObj [
         Field ''machineId'' False TString, Field ''seq'' False TNumber,
         Field ''metadata'' False TString, Field ''metadataVersion'' False TNumber,
         Field ''daemonState'' False (TNullable TString),
         Field ''daemonStateVersion'' False TNumber,
         Field ''dataEncryptionKey'' False (TNullable TString), Field ''active'' False TBoolean,
         Field ''activeAt'' False TNumber, Field ''createdAt'' False TNumber,
         Field ''updatedAt'' False TNumber]),
      (''update-machine'', TObj [
         Field ''machineId'' False TString, Field ''metadata'' True (versioned_type TString),
         Field ''daemonState'' True (versioned_type TString), Field ''activeAt'' True TNumber]),
      (''new-artifact'', TObj [
         Field ''artifactId'' False TString, Field ''seq'' False TNumber,
         Field ''header'' False TString, Field ''headerVersion'' False TNumber,
         Field ''body'' False TString, Field ''bodyVersion'' False TNumber,
         Field ''dataEncryptionKey'' False (TNullable TString), Field ''createdAt'' False TNumber,
         Field ''updatedAt'' False TNumber]),
      (''update-artifact'', TObj [
         Field ''artifactId'' False TString, Field ''header'' True (versioned_type TString),
         Field ''body'' True (versioned_type TString)]),
      (''delete-artifact'', TObj [
         Field ''artifactId'' False TString]),
      (''delete-session'', TObj [
         Field ''sessionId'' False TString]),
      (''relationship-updated'', TObj [
         Field ''uid'' False TString,
         Field ''status'' False (TEnum [''none'', ''requested'', ''pending'', ''friend'', ''rejected'']),
         Field ''timestamp'' False TNumber]),
      (''new-feed-post'', TObj [
         Field ''id'' False TString, Field ''body'' False TAny, Field ''cursor'' False TString,
         Field ''createdAt'' False TNumber]),
      (''kv-batch-update'', TObj [

         Field ''changes'' False (TArray (TObj [Field ''key'' False TString, Field ''value'' False (TNullable TString), Field ''version'' False TNumber]))])]"

definition update_body_types :: "(string \<times> ts_type) list" where
  "update_body_types =
     [(''new-message'', TObj [
         Field ''sid'' False TString, Field ''message'' False (message_type message_content_type)]),
      (''new-session'', TObj [
         Field ''id'' False TString, Field ''seq'' False TNumber, Field ''metadata'' False TString,
         Field ''metadataVersion'' False TNumber, Field ''agentState'' False (TNullable TString),
         Field ''agentStateVersion'' False TNumber,
         Field ''dataEncryptionKey'' False (TNullable TString), Field ''active'' False TBoolean,
         Field ''activeAt'' False TNumber, Field ''createdAt'' False TNumber,
         Field ''updatedAt'' False TNumber]),
      (''update-session'', TObj [
         Field ''id'' False TString,
         Field ''metadata'' True (TNullable (versioned_type (TNullable TString))),
         Field ''agentState'' True (TNullable (versioned_type (TNullable TString)))]),
      (''update-account'', TObj [
         Field ''id'' False TString,
         Field ''settings'' True (TNullable (versioned_type (TNullable TString))),
         Field ''github'' True (TNullable github_profile_type)]),
      (''new-machine'', TObj [
         Field ''machineId'' False TString, Field ''seq'' False TNumber,
         Field ''metadata'' False TString, Field ''metadataVersion'' False TNumber,
         Field ''daemonState'' False (TNullable TString),
         Field ''daemonStateVersion'' False TNumber,
         Field ''dataEncryptionKey'' False (TNullable TString), Field ''active'' False TBoolean,
         Field ''activeAt'' False TNumber, Field ''createdAt'' False TNumber,
         Field ''updatedAt'' False TNumber]),
      (''update-machine'', TObj [
         Field ''machineId'' False TString, Field ''metadata'' True (versioned_type TString),
         Field ''daemonState'' True (versioned_type TString), Field ''activeAt'' True TNumber])]"

definition ephemeral_event_types :: "(string \<times> ts_type) list" where
  "ephemeral_event_types =
     [(''activity'', TObj [
         Field ''id'' False TString, Field ''active'' False TBoolean,
         Field ''activeAt'' False TNumber, Field ''thinking'' True TBoolean]),
      (''machine-activity'', TObj [
         Field ''id'' False TString, Field ''active'' False TBoolean,
         Field ''activeAt'' False TNumber]),
      (''usage'', TObj [
         Field ''id'' False TString, Field ''key'' False TString,
         Field ''tokens'' False (TRecord TNumber), Field ''cost'' False (TRecord TNumber),
         Field ''timestamp'' False TNumber]),
      (''machine-status'', TObj [
         Field ''machineId'' False TString, Field ''online'' False TBoolean,
         Field ''timestamp'' False TNumber])]"

text \<open>A document is of the union when its tag selects a variant and its fields are of that variant.\<close>

definition of_union :: "string \<Rightarrow> (string \<times> ts_type) list \<Rightarrow> json \<Rightarrow> bool" where
  "of_union tag variants j =
     (case get_prop (Some j) tag of
        Some (JStr name) \<Rightarrow> (case map_of variants name of None \<Rightarrow> False | Some t \<Rightarrow> conforms t j)
      | _ \<Rightarrow> False)"

lemmas event_types_defs = update_event_types_def update_body_types_def ephemeral_event_types_def of_union_def
  versioned_type_def message_type_def versioned_def nullable_def opt_field_def

section \<open>Relationship and status events\<close>

definition buildRelationshipUpdatedEvent ::
  "ident \<Rightarrow> relationship_status \<Rightarrow> ts \<Rightarrow> int \<Rightarrow> ident \<Rightarrow> ts \<Rightarrow> update_payload" where
  "buildRelationshipUpdatedEvent uid status timestamp updateSeq updateId now =
     \<lparr>up_id = updateId, up_seq = updateSeq,
      up_body = JObj [(''t'', JStr ''relationship-updated''), (''uid'', JStr uid),
        (''status'', JStr (status_name status)), (''timestamp'', JNum timestamp)],
      up_createdAt = now\<rparr>"

definition buildMachineStatusEphemeral :: "ident \<Rightarrow> bool \<Rightarrow> ts \<Rightarrow> json" where
  "buildMachineStatusEphemeral machineId online now =
     JObj [(''type'', JStr ''machine-status''), (''machineId'', JStr machineId), (''online'', JBool online),
       (''timestamp'', JNum now)]"

section \<open>The builders against the declarations\<close>

text \<open>A versioned text that is not \<^verbatim>\<open>null\<close>, as the builders of machines and artifacts take it.\<close>

definition present :: "string \<times> int \<Rightarrow> string option \<times> int" where
  "present vv = (Some (fst vv), snd vv)"

text \<open>What \<^verbatim>\<open>storage/types.ts\<close> declares is what the builders of sessions, messages and machines make.\<close>

lemma new_session_body: "of_union ''t'' update_body_types (up_body (buildNewSessionUpdate enc s n i now))"
  by (cases "s_agentState s"; cases "s_dataEncryptionKey s")
    (simp_all add: buildNewSessionUpdate_def event_types_defs)

lemma update_session_body:
  "of_union ''t'' update_body_types (up_body (buildUpdateSessionUpdate sid n i metadata agentState now))"
  by (cases metadata; cases agentState)
    (auto simp: buildUpdateSessionUpdate_def event_types_defs split: option.splits)

lemma new_message_body:
  assumes "conforms message_content_type (m_content msg)"
  shows "of_union ''t'' update_body_types (up_body (buildNewMessageUpdate msg sid n i now))"
  using assms by (cases "m_localId msg") (simp_all add: buildNewMessageUpdate_def event_types_defs)

lemma new_machine_body: "of_union ''t'' update_body_types (up_body (buildNewMachineUpdate enc c n i now))"
  by (cases "c_daemonState c"; cases "c_dataEncryptionKey c")
    (simp_all add: buildNewMachineUpdate_def event_types_defs)

lemma update_machine_body:
  "of_union ''t'' update_body_types
     (up_body (buildUpdateMachineUpdate mid n i (map_option present metadata) (map_option present daemonState) now))"
  by (cases metadata; cases daemonState) (simp_all add: buildUpdateMachineUpdate_def event_types_defs present_def)

lemmas body_conforms = new_session_body update_session_body new_message_body new_machine_body update_machine_body

text \<open>Of \<^verbatim>\<open>UpdateEvent\<close>, whose names type the tag, the same holds of machines, artifacts, feed and key-value batches.\<close>

lemma machine_artifact_events:
  "of_union ''t'' update_event_types (up_body (buildNewMachineUpdate enc c n i now))"
  "of_union ''t'' update_event_types
     (up_body (buildUpdateMachineUpdate mid n i (map_option present metadata) (map_option present daemonState) now))"
  "of_union ''t'' update_event_types (up_body (buildNewArtifactUpdate enc a n i now))"
  "of_union ''t'' update_event_types
     (up_body (buildUpdateArtifactUpdate aid n i (map_option present header) (map_option present body) now))"
  "of_union ''t'' update_event_types (up_body (buildDeleteArtifactUpdate aid n i now))"
  subgoal by (cases "c_daemonState c"; cases "c_dataEncryptionKey c")
      (simp_all add: buildNewMachineUpdate_def event_types_defs)
  subgoal by (cases metadata; cases daemonState) (simp_all add: buildUpdateMachineUpdate_def event_types_defs present_def)
  subgoal by (simp add: buildNewArtifactUpdate_def event_types_defs)
  subgoal by (cases header; cases body) (simp_all add: buildUpdateArtifactUpdate_def event_types_defs present_def)
  subgoal by (simp add: buildDeleteArtifactUpdate_def event_types_defs)
  done

lemma social_events:
  "of_union ''t'' update_event_types (up_body (buildRelationshipUpdatedEvent uid status t n i now))"
  "of_union ''t'' update_event_types (up_body (buildNewFeedPostUpdate itemId body cursor createdAt n i now))"
  "of_union ''t'' update_event_types (up_body (buildKVBatchUpdateUpdate changes n i now))"
  subgoal by (cases status) (simp_all add: buildRelationshipUpdatedEvent_def event_types_defs)
  subgoal by (simp add: buildNewFeedPostUpdate_def event_types_defs)
  subgoal
  proof -
    have "conforms (TNullable TString) (nullable v)" for v by (cases v) (simp_all add: nullable_def)
    then show ?thesis by (simp add: buildKVBatchUpdateUpdate_def event_types_defs(1,4) list_all_iff split_beta del: conforms.simps(6))
  qed
  done

lemma ephemeral_events:
  "of_union ''type'' ephemeral_event_types (buildSessionActivityEphemeral sid active activeAt thinking)"
  "of_union ''type'' ephemeral_event_types (buildMachineActivityEphemeral mid active activeAt)"
  "of_union ''type'' ephemeral_event_types (buildMachineStatusEphemeral mid online now)"
  by (simp_all add: buildSessionActivityEphemeral_def buildMachineActivityEphemeral_def buildMachineStatusEphemeral_def
      event_types_defs)

lemma usage_event:
  assumes "conforms (TRecord TNumber) tokens" and "conforms (TRecord TNumber) cost"
  shows "of_union ''type'' ephemeral_event_types (buildUsageEphemeral sid key tokens cost now)"
  using assms by (simp add: buildUsageEphemeral_def event_types_defs del: conforms.simps(8))

text \<open>
  The variants of sessions, messages and accounts are declared with \<^verbatim>\<open>sessionId\<close> and \<^verbatim>\<open>userId\<close>, which the
  builders name \<^verbatim>\<open>id\<close> and \<^verbatim>\<open>sid\<close>: what is sent is never of the declared type.
\<close>

lemma session_events_diverge:
  "\<not> of_union ''t'' update_event_types (up_body (buildNewSessionUpdate enc s n i now))"
  "\<not> of_union ''t'' update_event_types (up_body (buildNewMessageUpdate msg sid n i now))"
  "\<not> of_union ''t'' update_event_types (up_body (buildUpdateSessionUpdate sid n i metadata agentState now))"
  "\<not> of_union ''t'' update_event_types (up_body (buildDeleteSessionUpdate sid n i now))"
  subgoal by (simp add: buildNewSessionUpdate_def event_types_defs)
  subgoal by (simp add: buildNewMessageUpdate_def event_types_defs)
  subgoal by (cases metadata; cases agentState) (simp_all add: buildUpdateSessionUpdate_def event_types_defs)
  subgoal by (simp add: buildDeleteSessionUpdate_def event_types_defs)
  done

end
