(* ===== verification/Startup.thy ===== *)
theory Startup
  imports SocketServer ActivityCache Shutdown
begin

text \<open>
  The edges of the process: what a client is answered outside the routes' own replies
  (\<^verbatim>\<open>api/utils/enableErrorHandlers.ts\<close>, \<^verbatim>\<open>api/utils/enableMonitoring.ts\<close>, \<^verbatim>\<open>api/routes/versionRoutes.ts\<close>,
  \<^verbatim>\<open>api/routes/devRoutes.ts\<close>, \<^verbatim>\<open>api/socket/pingHandler.ts\<close>), the gauges with a state of their own
  (\<^verbatim>\<open>monitoring/metrics2.ts\<close>, \<^verbatim>\<open>monitoring/metrics.ts\<close>), and the order in which the server starts
  (\<^verbatim>\<open>main.ts\<close>, \<^verbatim>\<open>api/api.ts\<close>, \<^verbatim>\<open>api/socket.ts\<close>).
\<close>

section \<open>Errors and unknown routes\<close>

record http_error =
  he_statusCode :: "nat option"
  he_name :: string
  he_message :: string

text \<open>\<^verbatim>\<open>x || y\<close> on texts and numbers: the empty text and 0 count as missing.\<close>

definition text_or :: "string \<Rightarrow> string \<Rightarrow> string" where
  "text_or s t = (if s = [] then t else s)"

definition error_status :: "http_error \<Rightarrow> nat" where
  "error_status e = (case he_statusCode e of None \<Rightarrow> 500 | Some n \<Rightarrow> if n = 0 then 500 else n)"

definition error_handler :: "http_error \<Rightarrow> nat \<times> json" where
  "error_handler e =
     (let statusCode = error_status e
      in if 500 \<le> statusCode
         then (statusCode, JObj [(''error'', JStr ''Internal Server Error''),
                 (''message'', JStr ''An unexpected error occurred''), (''statusCode'', JNum (int statusCode))])
         else (statusCode, JObj [(''error'', JStr (text_or (he_name e) ''Error'')),
                 (''message'', JStr (text_or (he_message e) ''An error occurred'')),
                 (''statusCode'', JNum (int statusCode))]))"

definition not_found_handler :: "string \<Rightarrow> string \<Rightarrow> nat \<times> json" where
  "not_found_handler url verb =
     (404, JObj [(''error'', JStr ''Not found''), (''path'', JStr url), (''method'', JStr verb)])"

text \<open>What the client gets of a handler: its reply, or the answer to the error it threw.\<close>

definition http_answer :: "http_error \<Rightarrow> reply \<Rightarrow> nat \<times> json" where
  "http_answer e r = (case r of Reply status body \<Rightarrow> (status, body) | Threw \<Rightarrow> error_handler e)"

text \<open>
  An error without a status of its own, as a rejected statement has none, is answered 500, and no
  answer of the kind 5xx depends on the name or the text of the error.
\<close>

lemma threw_answers_500: "he_statusCode e = None \<Longrightarrow> fst (http_answer e Threw) = 500"
  by (simp add: http_answer_def error_handler_def error_status_def)

lemma server_errors_opaque:
  assumes "500 \<le> error_status e" and "he_statusCode e' = he_statusCode e"
  shows "error_handler e' = error_handler e"
proof -
  have "error_status e' = error_status e" using assms(2) by (simp add: error_status_def)
  with assms(1) show ?thesis by (simp add: error_handler_def)
qed

section \<open>Version, health, ping and remote logs\<close>

definition to_lower :: "string \<Rightarrow> string" where
  "to_lower s = map (\<lambda>c. let n = of_char c :: nat in if 65 \<le> n \<and> n \<le> 90 then char_of (n + 32) else c) s"

definition IOS_UP_TO_DATE :: string where
  "IOS_UP_TO_DATE = ''>=1.4.1''"

definition ANDROID_UP_TO_DATE :: string where
  "ANDROID_UP_TO_DATE = ''>=1.4.1''"

text \<open>\<open>satisfies\<close> is the comparison of the \<^verbatim>\<open>semver\<close> package.\<close>

definition version_route :: "(string \<Rightarrow> string \<Rightarrow> bool) \<Rightarrow> string \<Rightarrow> string \<Rightarrow> reply" where
  "version_route satisfies platform version =
     Reply 200 (JObj [(''updateUrl'',
       if to_lower platform = ''ios'' then
         (if satisfies version IOS_UP_TO_DATE then JNull
          else JStr ''https://apps.apple.com/us/app/happy-claude-code-client/id6748571505'')
       else if to_lower platform = ''android'' then
         (if satisfies version ANDROID_UP_TO_DATE then JNull
          else JStr ''https://play.google.com/store/apps/details?id=com.ex3ndr.happy'')
       else JNull)])"

definition health_route :: "db sched \<Rightarrow> string \<Rightarrow> db \<Rightarrow> db \<times> reply" where
  "health_route w isoNow d =
     (case db_call w 0 (\<lambda>d. (d, ())) d of
        (d1, Some _) \<Rightarrow>
          (d1, Reply 200 (JObj [(''status'', JStr ''ok''), (''timestamp'', JStr isoNow), (''service'', JStr ''happy-server'')]))
      | (d1, None) \<Rightarrow>
          (d1, Reply 503 (JObj [(''status'', JStr ''error''), (''timestamp'', JStr isoNow),
             (''service'', JStr ''happy-server''), (''error'', JStr ''Database connectivity failed'')])))"

definition ping_reply :: json where
  "ping_reply = JObj []"

datatype log_level = LogError | LogWarn | LogDebug | LogInfo

definition remote_log_level :: "string \<Rightarrow> log_level" where
  "remote_log_level level =
     (let l = to_lower level
      in if l = ''error'' then LogError
         else if l = ''warn'' \<or> l = ''warning'' then LogWarn
         else if l = ''debug'' then LogDebug
         else LogInfo)"

text \<open>The route exists only when the debugging variable is set; without the file logger nothing is written.\<close>

definition remote_log_route :: "bool \<Rightarrow> bool \<Rightarrow> string \<Rightarrow> (reply \<times> log_level option) option" where
  "remote_log_route enabled hasLogger level =
     (if \<not> enabled then None
      else Some (Reply 200 (JObj [(''success'', JBool True)]), if hasLogger then Some (remote_log_level level) else None))"

section \<open>Gauges\<close>

datatype connection_type = TypeUser | TypeSession | TypeMachine

fun connection_type_of :: "connection \<Rightarrow> connection_type" where
  "connection_type_of (SessionScoped c) = TypeSession"
| "connection_type_of (UserScoped s u) = TypeUser"
| "connection_type_of (MachineScoped s u m) = TypeMachine"

type_synonym connection_counts = "connection_type \<Rightarrow> nat"

text \<open>The new counts and the value set on the gauge; natural subtraction is \<^verbatim>\<open>Math.max(0, n - 1)\<close>.\<close>

definition incrementWebSocketConnection :: "connection_type \<Rightarrow> connection_counts \<Rightarrow> connection_counts \<times> nat" where
  "incrementWebSocketConnection t counts = (counts(t := counts t + 1), counts t + 1)"

definition decrementWebSocketConnection :: "connection_type \<Rightarrow> connection_counts \<Rightarrow> connection_counts \<times> nat" where
  "decrementWebSocketConnection t counts = (counts(t := counts t - 1), counts t - 1)"

text \<open>Connections and disconnections as they reach the registry and the gauge.\<close>

datatype socket_event = Joins connection | Leaves connection

fun socket_events :: "socket_event list \<Rightarrow> registry \<times> connection_counts \<Rightarrow> registry \<times> connection_counts" where
  "socket_events [] s = s"
| "socket_events (Joins c # es) (reg, counts) =
     socket_events es (addConnection (conn_userId c) c reg, fst (incrementWebSocketConnection (connection_type_of c) counts))"
| "socket_events (Leaves c # es) (reg, counts) =
     socket_events es (removeConnection (conn_userId c) c reg, fst (decrementWebSocketConnection (connection_type_of c) counts))"

text \<open>A socket joins once and leaves after it has joined.\<close>

fun events_ok :: "connection list \<Rightarrow> socket_event list \<Rightarrow> bool" where
  "events_ok live [] = True"
| "events_ok live (Joins c # es) = (c \<notin> set live \<and> events_ok (c # live) es)"
| "events_ok live (Leaves c # es) = (c \<in> set live \<and> events_ok (removeAll c live) es)"

fun live_after :: "connection list \<Rightarrow> socket_event list \<Rightarrow> connection list" where
  "live_after live [] = live"
| "live_after live (Joins c # es) = live_after (c # live) es"
| "live_after live (Leaves c # es) = live_after (removeAll c live) es"

definition tracks :: "connection list \<Rightarrow> registry \<times> connection_counts \<Rightarrow> bool" where
  "tracks live s = (distinct live
     \<and> (\<forall>u c. c \<in> set (case fst s u of None \<Rightarrow> [] | Some cs \<Rightarrow> cs) \<longleftrightarrow> c \<in> set live \<and> conn_userId c = u)
     \<and> (\<forall>t. snd s t = length (filter (\<lambda>c. connection_type_of c = t) live)))"

lemma tracks_join:
  assumes "tracks live (reg, counts)" and "c \<notin> set live"
  shows "tracks (c # live) (addConnection (conn_userId c) c reg,
      fst (incrementWebSocketConnection (connection_type_of c) counts))"
proof -
  have "x \<in> set (case addConnection (conn_userId c) c reg u of None \<Rightarrow> [] | Some cs \<Rightarrow> cs)
      \<longleftrightarrow> x \<in> set (case reg u of None \<Rightarrow> [] | Some cs \<Rightarrow> cs) \<or> (x = c \<and> u = conn_userId c)" for x u
    by (cases "reg u") (auto simp: addConnection_def Let_def)
  with assms show ?thesis by (auto simp: tracks_def incrementWebSocketConnection_def)
qed

lemma length_filter_removeAll:
  "distinct xs \<Longrightarrow> x \<in> set xs \<Longrightarrow>
     length (filter P (removeAll x xs)) = (if P x then length (filter P xs) - 1 else length (filter P xs))"
proof (induction xs)
  case (Cons y ys)
  show ?case
  proof (cases "x = y")
    case True
    with Cons.prems have "removeAll x ys = ys" by simp
    with True show ?thesis by simp
  next
    case False
    with Cons have x: "x \<in> set ys" by simp
    then have "P x \<Longrightarrow> 0 < length (filter P ys)" by (auto simp: filter_empty_conv)
    with Cons False x show ?thesis by auto
  qed
qed simp

lemma tracks_leave:
  assumes "tracks live (reg, counts)" and "c \<in> set live"
  shows "tracks (removeAll c live) (removeConnection (conn_userId c) c reg,
      fst (decrementWebSocketConnection (connection_type_of c) counts))"
proof -
  have "x \<in> set (case removeConnection (conn_userId c) c reg u of None \<Rightarrow> [] | Some cs \<Rightarrow> cs)
      \<longleftrightarrow> x \<in> set (case reg u of None \<Rightarrow> [] | Some cs \<Rightarrow> cs) \<and> (u = conn_userId c \<longrightarrow> x \<noteq> c)" for x u
    by (cases "reg (conn_userId c)"; cases "u = conn_userId c") (auto simp: removeConnection_def Let_def filter_empty_conv)
  moreover have "distinct live" using assms(1) by (simp add: tracks_def)
  ultimately show ?thesis using assms length_filter_removeAll [of live c]
    by (auto simp: tracks_def decrementWebSocketConnection_def distinct_removeAll)
qed

text \<open>
  The registry holds exactly the sockets that joined and have not left, each under its user, and every
  gauge shows how many there are of its kind.
\<close>

lemma gauge_counts_registry:
  assumes "events_ok live es" and "tracks live s"
  shows "tracks (live_after live es) (socket_events es s)"
  using assms
proof (induction live es arbitrary: s rule: events_ok.induct)
  case (2 live c es)
  then show ?case by (cases s) (simp add: tracks_join)
next
  case (3 live c es)
  then show ?case by (cases s) (simp add: tracks_leave)
qed simp

lemma nothing_tracked: "tracks [] (\<lambda>_. None, \<lambda>_. 0)"
  by (simp add: tracks_def)

text \<open>The record counts of the database: four statements awaited together.\<close>

definition updateDatabaseMetrics :: "db sched \<Rightarrow> db \<Rightarrow> db \<times> (string \<times> nat) list option" where
  "updateDatabaseMetrics w d =
     (case db_call w 0 (\<lambda>d. (d, length (accounts d))) d of
        (d1, accountCount) \<Rightarrow>
          (case db_call w 1 (\<lambda>d. (d, length (sessions d))) d1 of
             (d2, sessionCount) \<Rightarrow>
               (case db_call w 2 (\<lambda>d. (d, length (messages d))) d2 of
                  (d3, messageCount) \<Rightarrow>
                    (case db_call w 3 (\<lambda>d. (d, length (machines d))) d3 of
                       (d4, machineCount) \<Rightarrow>
                         (d4, case (accountCount, sessionCount, messageCount, machineCount) of
                                (Some a, Some s, Some m, Some c) \<Rightarrow>
                                  Some [(''accounts'', a), (''sessions'', s), (''messages'', m), (''machines'', c)]
                              | _ \<Rightarrow> None)))))"

text \<open>How many entries of the activity cache wait for the next flush.\<close>

definition getPendingCounts :: "activity_cache \<Rightarrow> nat \<times> nat" where
  "getPendingCounts c =
     (length (filter (\<lambda>e. en_pendingUpdate (snd e) \<noteq> None) (sessionCache c)),
      length (filter (\<lambda>e. en_pendingUpdate (snd e) \<noteq> None) (machineCache c)))"

text \<open>The metrics endpoint joins both texts; either failing is a 500.\<close>

definition metrics_route :: "string option \<Rightarrow> string option \<Rightarrow> nat \<times> string" where
  "metrics_route prismaMetrics appMetrics =
     (case (prismaMetrics, appMetrics) of
        (Some p, Some a) \<Rightarrow> (200, p @ [CHR 0x0A] @ a)
      | _ \<Rightarrow> (500, ''Internal Server Error''))"

section \<open>Starting the server\<close>

text \<open>
  The steps of \<^verbatim>\<open>main\<close>, \<^verbatim>\<open>startApi\<close> and \<^verbatim>\<open>startSocket\<close> in the order they run; \<^verbatim>\<open>await\<close> ends a step.  Shutdown
  handlers are numbered in the order of their registration.
\<close>

datatype startup_step =
    ConnectDatabase | OnShutdown string nat | PingRedis | InitEncrypt | InitGithub | LoadFiles | InitAuth
  | EnableMonitoring | EnableErrorHandlers | EnableAuthentication | InstallRoutes
  | ConnectRealtimeRedis | CreateSocketServer | PingSubscriber | SetServer | StartBus | StartDispatcher
  | InstallMiddleware | InstallConnectionHandler
  | Listen | StartMetricsServer | StartWorker string nat

definition startSocket_steps :: "startup_step list" where
  "startSocket_steps =
     [ConnectRealtimeRedis, CreateSocketServer, PingSubscriber, SetServer, StartBus, StartDispatcher,
      InstallMiddleware, InstallConnectionHandler, OnShutdown ''api'' 1]"

definition startApi_steps :: "startup_step list" where
  "startApi_steps =
     [EnableMonitoring, EnableErrorHandlers, EnableAuthentication, InstallRoutes] @ startSocket_steps
     @ [Listen, OnShutdown ''api'' 2]"

definition main_steps :: "startup_step list" where
  "main_steps =
     [ConnectDatabase, OnShutdown ''storage'' 0, PingRedis, InitEncrypt, InitGithub, LoadFiles, InitAuth]
     @ startApi_steps
     @ [StartMetricsServer, StartWorker ''database-metrics-updater'' 3, StartWorker ''session-timeout'' 4]"

text \<open>What a step does to the shutdown registry; a worker is kept alive by \<^verbatim>\<open>forever\<close>.\<close>

fun step_effect :: "startup_step \<Rightarrow> shutdown_registry \<Rightarrow> shutdown_registry" where
  "step_effect (OnShutdown name cb) s = fst (onShutdown name cb s)"
| "step_effect (StartWorker name cb) s = fst (keepAlive_begin name cb s)"
| "step_effect _ s = s"

text \<open>
  The steps done, the registry, and whether a step failed: an error goes to the \<^verbatim>\<open>catch\<close> of \<^verbatim>\<open>main()\<close>, which
  exits with 1 and runs no shutdown handler.
\<close>

record startup_run =
  su_done :: "startup_step list"
  su_registry :: shutdown_registry
  su_failed :: bool

fun run_steps :: "(startup_step \<Rightarrow> bool) \<Rightarrow> startup_step list \<Rightarrow> startup_run \<Rightarrow> startup_run" where
  "run_steps fails [] r = r"
| "run_steps fails (st # sts) r =
     (if fails st then r\<lparr>su_failed := True\<rparr>
      else run_steps fails sts (r\<lparr>su_done := su_done r @ [st], su_registry := step_effect st (su_registry r)\<rparr>))"

datatype process_end = ExitCode nat "(string \<times> nat) list"

definition main_process :: "(startup_step \<Rightarrow> bool) \<Rightarrow> startup_step list \<times> process_end" where
  "main_process fails =
     (let r = run_steps fails main_steps \<lparr>su_done = [], su_registry = new_shutdown_registry, su_failed = False\<rparr>
      in (su_done r, if su_failed r then ExitCode 1 [] else ExitCode 0 (snd (awaitShutdown (su_registry r)))))"

lemma run_steps_prefix: "\<exists>pre post. sts = pre @ post \<and> su_done (run_steps fails sts r) = su_done r @ pre"
proof (induction sts arbitrary: r)
  case (Cons st sts)
  show ?case
  proof (cases "fails st")
    case True
    then show ?thesis by (intro exI [of _ "[]"] exI [of _ "st # sts"]) simp
  next
    case False
    obtain pre post where "sts = pre @ post"
      "su_done (run_steps fails sts (r\<lparr>su_done := su_done r @ [st], su_registry := step_effect st (su_registry r)\<rparr>))
        = (su_done r @ [st]) @ pre"
      using Cons.IH [of "r\<lparr>su_done := su_done r @ [st], su_registry := step_effect st (su_registry r)\<rparr>"] by auto
    with False show ?thesis by (intro exI [of _ "st # pre"] exI [of _ post]) simp
  qed
qed simp

text \<open>
  When the server listens, the realtime part is up: the subscriptions of the adapter are live, the bus
  and the dispatcher run, the middleware is installed.
\<close>

lemma listens_after_realtime:
  assumes "Listen \<in> set (fst (main_process fails))"
  shows "set ([ConnectDatabase, InitAuth, EnableAuthentication, InstallRoutes] @ startSocket_steps)
           \<subseteq> set (fst (main_process fails))"
proof -
  obtain pre post where split: "main_steps = pre @ post" and run: "fst (main_process fails) = pre"
    using run_steps_prefix [of main_steps fails "\<lparr>su_done = [], su_registry = new_shutdown_registry, su_failed = False\<rparr>"]
    by (auto simp: main_process_def Let_def)
  have "main_steps = takeWhile (\<lambda>s. s \<noteq> Listen) main_steps @ Listen # tl (dropWhile (\<lambda>s. s \<noteq> Listen) main_steps)"
    by code_simp
  moreover have "takeWhile (\<lambda>s. s \<noteq> Listen) main_steps = takeWhile (\<lambda>s. s \<noteq> Listen) pre"
    unfolding split by (rule takeWhile_append1 [of Listen]) (use assms run in simp_all)
  ultimately have "set (takeWhile (\<lambda>s. s \<noteq> Listen) main_steps) \<subseteq> set pre" by (auto dest: set_takeWhileD)
  moreover have "set ([ConnectDatabase, InitAuth, EnableAuthentication, InstallRoutes] @ startSocket_steps)
      \<subseteq> set (takeWhile (\<lambda>s. s \<noteq> Listen) main_steps)" by code_simp
  ultimately show ?thesis unfolding run by blast
qed

text \<open>
  After a start that succeeded, a signal starts these handlers together: the storage handler, which ends
  with the disconnection of the database, does not wait for the realtime shutdown.
\<close>

lemma shutdown_after_start:
  "snd (main_process (\<lambda>_. False)) = ExitCode 0
     [(''storage'', 0), (''api'', 1), (''api'', 2), (''keepAlive:database-metrics-updater'', 3),
      (''keepAlive:session-timeout'', 4)]"
  by code_simp

lemma failed_start: "fails st \<Longrightarrow> st \<in> set main_steps \<Longrightarrow> snd (main_process fails) = ExitCode 1 []"
proof -
  have "su_failed (run_steps fails sts r)" if "st \<in> set sts" "fails st" for sts r
    using that by (induction sts arbitrary: r) auto
  then show "fails st \<Longrightarrow> st \<in> set main_steps \<Longrightarrow> snd (main_process fails) = ExitCode 1 []"
    by (simp add: main_process_def Let_def)
qed

end
