(* ===== verification/Divergences.thy ===== *)
theory Divergences
  imports Artifacts KvRoutes EventTypes Startup
begin

text \<open>
  Runs of the model on which the code differs from what its comments, its types or its other
  parts say.  Each is evaluated.
\<close>

section \<open>Two clients replace the same artifact version\<close>

definition demo_artifact :: artifact where
  "demo_artifact = \<lparr>f_id = ''a1'', f_accountId = ''u1'', f_header = ''h'', f_headerVersion = 1, f_body = ''b'',
     f_bodyVersion = 1, f_dataEncryptionKey = ''k'', f_seq = 1, f_createdAt = 1, f_updatedAt = 1\<rparr>"

definition demo_artifacts :: db where
  "demo_artifacts = empty_db\<lparr>accounts := [blank_account ''u1'' ''pk'' 0], artifacts := [demo_artifact]\<rparr>"

definition post_header :: "db sched \<Rightarrow> string \<Rightarrow> db \<Rightarrow> db \<times> reply \<times> emission list" where
  "post_header w text = update_artifact_route id Some w (\<lambda>_. 9) ''upd'' ''u1'' ''a1'' (Some text) (Some 1) None None"

definition racing_post :: "db sched" where
  "racing_post = \<lparr>interfere = (\<lambda>k d. if k = 1 then fst (post_header quiet ''first'' d) else d), rejects = (\<lambda>_. False)\<rparr>"

text \<open>
  Both requests name version 1 and both are answered with success and version 2; the first text is lost.
\<close>

lemma artifact_post_loses_update:
  "fst (snd (post_header quiet ''first'' demo_artifacts))
     = Reply 200 (JObj [(''success'', JBool True), (''headerVersion'', JNum 2)])
   \<and> fst (snd (post_header racing_post ''second'' demo_artifacts))
     = Reply 200 (JObj [(''success'', JBool True), (''headerVersion'', JNum 2)])
   \<and> artifact_header_cell ''a1'' (fst (post_header racing_post ''second'' demo_artifacts)) = Some (''second'', 2)"
  by (intro conjI; code_simp)

section \<open>Key-value batches\<close>

definition twice_batch :: "kv_mutation list" where
  "twice_batch = [\<lparr>mu_key = ''a'', mu_value = Some ''y'', mu_version = 4\<rparr>, \<lparr>mu_key = ''a'', mu_value = Some ''z'', mu_version = 4\<rparr>]"

text \<open>A key named twice: both mutations are reported as stored under version 5, and the second overwrote the first.\<close>

lemma kv_key_twice:
  "map_option (\<lambda>(d', res, changes). (res, kv_lookup ''u1'' ''a'' d')) (kvMutate id id id ''u1'' twice_batch demo_kv)
     = Some (KvSuccess [(''a'', 5), (''a'', 5)],
         Some \<lparr>v_accountId = ''u1'', v_key = ''a'', v_value = Some ''z'', v_version = 5\<rparr>)"
  by code_simp

text \<open>The empty text is stored as a deletion and announced as a value.\<close>

lemma kv_empty_text:
  "map_option (\<lambda>(d', res, changes). (changes, map_option v_value (kv_lookup ''u1'' ''a'' d')))
       (kvMutate id id id ''u1'' [\<lparr>mu_key = ''a'', mu_value = Some [], mu_version = 4\<rparr>] demo_kv)
     = Some ([(''a'', Some [], 5)], Some None)"
  by code_simp

section \<open>The sweep and a machine that came back\<close>

definition demo_machine :: machine where
  "demo_machine = \<lparr>c_id = ''m1'', c_accountId = ''u1'', c_metadata = ''md'', c_metadataVersion = 1, c_daemonState = None,
     c_daemonStateVersion = 0, c_dataEncryptionKey = None, c_seq = 1, c_active = True, c_lastActiveAt = 0,
     c_createdAt = 0, c_updatedAt = 0\<rparr>"

definition machine_beats :: "ts \<Rightarrow> db \<Rightarrow> db" where
  "machine_beats t d = d\<lparr>machines := update_rows (\<lambda>r. c_id r = ''m1'') (\<lambda>r. r\<lparr>c_lastActiveAt := t\<rparr>) (machines d)\<rparr>"

definition beat_before_write :: "db sched" where
  "beat_before_write = \<lparr>interfere = (\<lambda>k d. if k = 2 then machine_beats 700000 d else d), rejects = (\<lambda>_. False)\<rparr>"

text \<open>A heartbeat stored between the sweep's read and its write: the machine is still deactivated.\<close>

lemma sweep_deactivates_live_machine:
  "map (\<lambda>c. (c_active c, c_lastActiveAt c))
     (machines (fst (timeout_round beat_before_write (\<lambda>_. 700000) (empty_db\<lparr>machines := [demo_machine]\<rparr>))))
     = [(False, 700000)]"
  by code_simp

section \<open>Cross-origin requests\<close>

text \<open>The verbs that \<^verbatim>\<open>api.ts\<close> allows to browsers, and those its routes are declared with.\<close>

definition cors_verbs :: "string list" where
  "cors_verbs = [''GET'', ''POST'', ''DELETE'']"

text \<open>A preflight for a verb beyond the simple ones succeeds when the verb is listed.\<close>

definition preflight_allows :: "string \<Rightarrow> bool" where
  "preflight_allows verb = (verb \<in> set cors_verbs)"

lemma access_key_update_blocked: "\<not> preflight_allows ''PUT''"
  by (simp add: preflight_allows_def cors_verbs_def)

end
