(* ===== verification/Spec2Isabelle.thy ===== *)
theory Spec2Isabelle
  imports MessageSafety KeyValue Social SessionVersions Dispatcher SessionSafety
    ActivityPublisher Artifacts AccessKeys Account Auth RpcHandler Usage SocketServer KvRoutes AsyncLocks Lru Shutdown
    GithubRoutes CellUpdates Images Divergences
begin

text \<open>
  A model of the happy-server, the backend that synchronizes end-to-end encrypted sessions between
  command-line agents, their machines and the clients of their users, with the properties that make
  its components correct.  Paths are relative to \<^verbatim>\<open>sources/\<close> of the repository.

  \<^bold>\<open>The program.\<close>  Requests arrive over HTTP (\<^verbatim>\<open>app/api/routes/\<close>) and over Socket.IO
  (\<^verbatim>\<open>app/api/socket.ts\<close>, \<^verbatim>\<open>app/api/socket/\<close>).  All durable state is in PostgreSQL, reached through Prisma and a
  few raw statements; Redis carries room broadcasts, wake-ups for message notifications and the registry
  of remote procedures.  In the memory of a process are the connection registry, the token cache, the
  activity cache, the notification dispatcher and the lifecycles of registered procedures.  A session is
  served by one runtime at a time: a socket holds a lease, renewed by heartbeats, and every write of a runtime
  is fenced by it.  A message is stored together with an outbox row, from which dispatchers announce it.

  \<^bold>\<open>Foundations.\<close>
  \<^item> \<open>Prelude\<close>: lists as tables (\<open>find_row\<close>, \<open>update_rows\<close>, \<open>delete_rows\<close>, \<open>unique_by\<close>) and the awaited
    statement \<open>db_call\<close>: a schedule \<open>sched\<close> runs arbitrary other requests before the \<open>k\<close>-th awaited call of a
    handler and may reject it.  A handler theorem over every schedule therefore covers every interleaving at
    \<^verbatim>\<open>await\<close> points and every rejected statement.
  \<^item> \<open>Sql\<close>: three-valued logic for the raw statements.  \<open>Json\<close>, \<open>JsonText\<close>, \<open>Text\<close>: values of unknown type
    a client sends, the size of their text, decimal printing and parsing.
  \<^item> \<open>Database\<close>: a record per model of \<^verbatim>\<open>prisma/schema.prisma\<close>.
  \<^item> \<open>Interfaces\<close>: the contracts as locales.  \<open>sequence_counter\<close> (strictly increasing numbers),
    \<open>versioned_cell\<close> (compare and set on a version: no success is lost, versions are consecutive) and
    \<open>cursor_pages\<close> (following a cursor returns every row once and ends).  They are interpreted on the
    allocators, on the eight versioned cells and on the three paged queries.

  \<^bold>\<open>Sessions, leases and messages.\<close>
  \<^item> \<open>RuntimeLease\<close>: \<^verbatim>\<open>app/presence/runtimeConnectionLease.ts\<close>, every statement and the readiness predicate in SQL and
    in JavaScript.  \<open>SessionStore\<close>: \<^verbatim>\<open>storage/seq.ts\<close>, \<^verbatim>\<open>app/api/routes/sessionRoutes.ts\<close>, \<^verbatim>\<open>app/session/sessionDelete.ts\<close>,
    \<^verbatim>\<open>app/presence/timeout.ts\<close>.  \<open>SessionMessage\<close>: \<^verbatim>\<open>app/session/sessionMessageCreate.ts\<close>, \<^verbatim>\<open>sessionMessageList.ts\<close> and the
    validation of local ids.  \<open>MessageOutbox\<close>: the repository of \<^verbatim>\<open>app/session/sessionMessageNotificationOutbox.ts\<close>.
    \<open>SessionUpdate\<close>: the handlers of \<^verbatim>\<open>app/api/socket/sessionUpdateHandler.ts\<close>.  \<open>ConnectionGuard\<close>:
    \<^verbatim>\<open>app/api/socket/runtimeConnectionGuard.ts\<close>.
  \<^item> \<open>Server\<close> makes a transition system of their statements; any number of replicas act on one database, one
    statement per step.  \<open>LeaseProtocol\<close> and \<open>MessageProtocol\<close> state what a statement owes the invariants
    (locales \<open>lease_statement\<close>, \<open>lease_neutral\<close>, \<open>message_neutral\<close>, interpreted on every statement), and
    \<open>LeaseSafety\<close>, \<open>MessageSafety\<close>, \<open>SessionVersions\<close> and \<open>SessionSafety\<close> hold the properties of whole runs: a
    displaced generation is powerless, a retired incarnation never returns, one owner at a time, numbering
    without gaps, idempotent retries, lossless replay, notification in order, no lost update, exact deletion
    and sweep.

  \<^bold>\<open>Realtime delivery.\<close>
  \<^item> \<open>EventRouter\<close>: \<^verbatim>\<open>app/events/eventRouter.ts\<close>; \<open>Routing\<close>: rooms against the filter of the local registry, durable
    notifications, the packet fence.  \<open>EventTypes\<close>: the declared wire types (also \<^verbatim>\<open>storage/types.ts\<close>) and which
    payloads have them.  \<open>Dispatcher\<close>: the wake, drain and stop states of the dispatcher and the bus of
    \<^verbatim>\<open>app/session/sessionMessageNotificationBus.ts\<close>.
  \<^item> \<open>SocketServer\<close>: the handshake, the connection and its end (\<^verbatim>\<open>app/api/socket.ts\<close>).  \<open>RpcRegistry\<close>, \<open>RpcConvergence\<close>:
    \<^verbatim>\<open>app/api/socket/rpcRegistrationRegistry.ts\<close>, the lifecycle of a socket as a queue of operations, both Lua
    scripts on a Redis key, the generation clock.  \<open>RpcHandler\<close>: \<^verbatim>\<open>app/api/socket/rpcHandler.ts\<close>.
    \<open>ActivityCache\<close>, \<open>ActivityPublisher\<close>: \<^verbatim>\<open>app/presence/sessionCache.ts\<close>, \<^verbatim>\<open>sessionActivityPublisher.ts\<close>.

  \<^bold>\<open>Account data.\<close>
  \<^item> \<open>KeyValue\<close>, \<open>KvRoutes\<close>: \<^verbatim>\<open>app/kv/\<close>, \<^verbatim>\<open>kvRoutes.ts\<close>.  \<open>Feed\<close>: \<^verbatim>\<open>app/feed/\<close>.  \<open>Social\<close>, \<open>FriendRoutes\<close>: \<^verbatim>\<open>app/social/\<close>,
    \<^verbatim>\<open>userRoutes.ts\<close>.  \<open>Machines\<close>, \<open>Artifacts\<close>, \<open>AccessKeys\<close>: their socket handlers and routes.  \<open>Account\<close>: profile,
    settings, user name, vendor and push tokens, \<^verbatim>\<open>app/github/\<close>.  \<open>GithubRoutes\<close>: \<^verbatim>\<open>connectRoutes.ts\<close>, \<^verbatim>\<open>modules/github.ts\<close>.
    \<open>Auth\<close>: \<^verbatim>\<open>app/auth/auth.ts\<close>, \<^verbatim>\<open>authRoutes.ts\<close>.  \<open>Usage\<close>: reports and their query.  \<open>Images\<close>: \<^verbatim>\<open>storage/processImage.ts\<close>,
    \<^verbatim>\<open>storage/uploadImage.ts\<close>.
  \<^item> \<open>CellUpdates\<close> draws the contract of a versioned cell together for six kinds of data.

  \<^bold>\<open>The process.\<close>
  \<^item> \<open>Transactions\<close>: \<^verbatim>\<open>storage/inTx.ts\<close>.  \<open>AsyncLocks\<close>: \<^verbatim>\<open>utils/lock.ts\<close>.  \<open>Lru\<close>: \<^verbatim>\<open>utils/lru.ts\<close>, with nodes in a heap and a
    refinement to a list.  \<open>Shutdown\<close>: \<^verbatim>\<open>app/api/socket/shutdownSocketRuntime.ts\<close>, \<^verbatim>\<open>utils/shutdown.ts\<close>.  \<open>Startup\<close>:
    \<^verbatim>\<open>main.ts\<close>, \<^verbatim>\<open>app/api/api.ts\<close>, error handlers, health, version, gauges.  \<open>Utilities\<close>: \<^verbatim>\<open>storage/repeatKey.ts\<close>,
    \<^verbatim>\<open>storage/simpleCache.ts\<close>, \<^verbatim>\<open>utils/backoff.ts\<close>, \<^verbatim>\<open>utils/delay.ts\<close>, \<^verbatim>\<open>utils/forever.ts\<close>, \<^verbatim>\<open>utils/randomKey.ts\<close> and others.
  \<^item> \<open>Divergences\<close>: evaluated runs on which the code differs from its comments or from its other parts.

  \<^bold>\<open>Conventions.\<close>  A handler takes the schedule of its awaited calls, the clock readings and the random ids it
  draws, and returns the new state with its answer (\<open>reply\<close> for HTTP, where \<open>Threw\<close> is a rejected promise; a
  list of \<open>effect\<close>s, acknowledgements and emissions in order, for a socket).  Errors are values: \<open>None\<close> for a
  thrown error, \<open>Inl\<close> for a refusal with a reason.  Shared mutable objects (cache entries, shutdown arrays, list
  nodes) have identities in a store.  Endless loops are event-driven state machines; loops over drawn values
  take the list of what is drawn and are \<open>None\<close> when it ends too early.

  \<^bold>\<open>Bounds.\<close>  \<^verbatim>\<open>inTx\<close> makes at most four attempts (\<^verbatim>\<open>counter < 3\<close>), so its loop recurses on the retries left.
  Paging recurses on a number of pages, and the theorems show that one more page than there are rows suffices.
  The schedules of \<open>AsyncLocks\<close> and the flush of \<open>ActivityCache\<close> are finite lists of events, with theorems that
  enough of them end the work.

  \<^bold>\<open>Assumptions.\<close>  Strings are lists of bytes and numbers are integers below two to the power 53; an INTEGER column that
  would overflow rejects the statement.  The database clock does not run backwards and is one instant
  within a statement; ids that are drawn (CUID, UUID, random keys) are fresh where a theorem says so.  A statement
  of PostgreSQL or a Lua script of Redis is one step; a serializable transaction is one step of its committed
  attempt.  Costs and token counts are integers.  Third-party code is a parameter: encryption and token
  generation (privacy-kit), base64, UUID validation, GitHub's answers, semver, image decoding, the Socket.IO
  transport below rooms and acknowledgements.

  \<^bold>\<open>Not modelled.\<close>  Logging (\<^verbatim>\<open>utils/log.ts\<close>); counters and histograms that are only incremented; the options of
  Fastify, Socket.IO and Redis; request validation by zod, taken as done before a handler runs; the key tree of
  \<^verbatim>\<open>modules/encrypt.ts\<close> and the digest of \<^verbatim>\<open>storage/thumbhash.ts\<close>, which are parameters; timers, whose firing is an
  event; \<^verbatim>\<open>context.ts\<close>, \<^verbatim>\<open>types.ts\<close>, \<^verbatim>\<open>utils/uptime.ts\<close> and \<^verbatim>\<open>utils/trimIdent.ts\<close>, which hold type aliases or are not
  called.
\<close>

end
